(* ===== verification/FB_Prelude.thy ===== *)
theory FB_Prelude
  imports Main "HOL-Library.Word"
begin

text \<open>
  Shared vocabulary of the development: the C integer and pointer types, the return codes of
  \<^verbatim>\<open>src/filebench/filebench.h\<close>, the lemma collections the component proofs draw on, and the
  generic facts on lists and NUL-terminated strings that several components use.

  Pointers are 64-bit words and \<open>NULL\<close> is the word \<open>0\<close>, as on the \<open>_LP64\<close> builds. Where the
  program reads memory out of bounds, follows a pointer chain for ever, or divides by zero, the
  model does not invent a value: the operation returns \<open>None\<close>.
\<close>

unbundle bit_operations_syntax

subsection \<open>C types\<close>

type_synonym ptr = "64 word"
type_synonym uint64 = "64 word"
type_synonym uint32 = "32 word"
type_synonym fbint = "64 word"

abbreviation (input) NULL :: ptr where "NULL \<equiv> 0"

subsection \<open>Return codes\<close>

abbreviation (input) FILEBENCH_DONE :: int where "FILEBENCH_DONE \<equiv> 1"
abbreviation (input) FILEBENCH_OK :: int where "FILEBENCH_OK \<equiv> 0"
abbreviation (input) FILEBENCH_ERROR :: int where "FILEBENCH_ERROR \<equiv> -1"
abbreviation (input) FILEBENCH_NORSC :: int where "FILEBENCH_NORSC \<equiv> -2"

subsection \<open>Lemma collections\<close>

named_theorems heap_simps \<open>reads of a heap after a write\<close>
named_theorems frame_intros \<open>an operation leaves the rest of the state alone\<close>

subsection \<open>NUL-terminated strings in character arrays\<close>

abbreviation (input) NUL :: char where "NUL \<equiv> CHR 0x00"

definition cstr :: "char list \<Rightarrow> string" where
  "cstr buf = takeWhile (\<lambda>c. c \<noteq> NUL) buf"

definition is_cstr :: "char list \<Rightarrow> bool" where
  "is_cstr buf \<longleftrightarrow> NUL \<in> set buf"

lemma cstr_length_less: "is_cstr buf \<Longrightarrow> length (cstr buf) < length buf"
  unfolding cstr_def is_cstr_def by (induction buf) auto

lemma cstr_nth: "i < length (cstr buf) \<Longrightarrow> buf ! i = cstr buf ! i"
  unfolding cstr_def by (simp add: takeWhile_nth)

lemma cstr_nth_not_NUL: "i < length (cstr buf) \<Longrightarrow> cstr buf ! i \<noteq> NUL"
  unfolding cstr_def by (metis (mono_tags, lifting) nth_mem set_takeWhileD)

lemma NUL_notin_cstr [simp]: "NUL \<notin> set (cstr buf)"
  unfolding cstr_def by (auto dest: set_takeWhileD)

lemma cstr_end: "is_cstr buf \<Longrightarrow> buf ! length (cstr buf) = NUL"
  using cstr_length_less [of buf] unfolding cstr_def
  using nth_length_takeWhile [of "\<lambda>c. c \<noteq> NUL" buf] by auto

lemma cstr_append_NUL [simp]: "NUL \<notin> set xs \<Longrightarrow> cstr (xs @ NUL # ys) = xs"
  unfolding cstr_def by (subst takeWhile_append2) auto

lemma is_cstr_append_NUL [simp]: "is_cstr (xs @ NUL # ys)"
  unfolding is_cstr_def by simp

lemma cstr_split: "is_cstr buf \<Longrightarrow> buf = cstr buf @ NUL # drop (Suc (length (cstr buf))) buf"
  by (metis append_take_drop_id cstr_def cstr_end cstr_length_less Cons_nth_drop_Suc
      takeWhile_eq_take)

lemma cstr_take: "cstr (take n buf) = take n (cstr buf)"
  unfolding cstr_def by (induction buf arbitrary: n) (auto simp: take_Cons')

lemma take_length_cstr: "take (length (cstr buf)) buf = cstr buf"
  unfolding cstr_def by (simp add: takeWhile_eq_take [symmetric])

end
