(* ===== verification/FB_Utils.thy ===== *)
theory FB_Utils
  imports FB_Prelude
begin

text \<open>
  The string helpers of \<^verbatim>\<open>src/filebench/utils.c\<close>: the bounded copy and the bounded append that
  every path of the program is built with on non-Solaris systems. A character array is a
  \<open>char list\<close>; a read or a write outside it makes the result \<open>None\<close>. The limit \<open>dstsize - 1\<close> of
  the loops is unsigned 64-bit arithmetic in the code, so a \<open>dstsize\<close> of zero becomes the
  largest \<open>size_t\<close>, which \<open>dst_limit\<close> writes out. The loop counters are \<open>uint_t\<close> in the code; the
  model counts in \<open>nat\<close>, which is the same for arrays of fewer than \<open>2 ^ 32\<close> bytes.
\<close>

definition dst_limit :: "nat \<Rightarrow> nat" where
  "dst_limit dstsize = (if dstsize = 0 then 2 ^ 64 - 1 else dstsize - 1)"

subsection \<open>The loops and the two functions\<close>

function strlcpy_loop :: "char list \<Rightarrow> char list \<Rightarrow> nat \<Rightarrow> nat \<Rightarrow> (char list \<times> nat) option" where
  "strlcpy_loop dst src lim i =
     (if i < lim then
        if length src \<le> i then None
        else if src ! i = NUL then Some (dst, i)
        else if length dst \<le> i then None
        else strlcpy_loop (dst[i := src ! i]) src lim (Suc i)
      else Some (dst, i))"
  by pat_completeness auto
termination
  by (relation "measure (\<lambda>(dst, src, lim, i). length src - i)") auto

definition fb_strlcpy :: "char list \<Rightarrow> char list \<Rightarrow> nat \<Rightarrow> (char list \<times> nat) option" where
  "fb_strlcpy dst src dstsize =
     (case strlcpy_loop dst src (dst_limit dstsize) 0 of
        None \<Rightarrow> None
      | Some (dst', i) \<Rightarrow>
          if length dst' \<le> i then None else Some (dst'[i := NUL], Suc i))"

function strlcat_find_end :: "char list \<Rightarrow> nat \<Rightarrow> nat \<Rightarrow> nat option" where
  "strlcat_find_end dst lim i =
     (if i < lim then
        if length dst \<le> i then None
        else if dst ! i = NUL then Some i
        else strlcat_find_end dst lim (Suc i)
      else Some i)"
  by pat_completeness auto
termination
  by (relation "measure (\<lambda>(dst, lim, i). length dst - i)") auto

function strlcat_append :: "char list \<Rightarrow> char list \<Rightarrow> nat \<Rightarrow> nat \<Rightarrow> nat \<Rightarrow> (char list \<times> nat) option"
where
  "strlcat_append dst src lim i j =
     (if i < lim then
        if length src \<le> j then None
        else if src ! j = NUL then Some (dst, i)
        else if length dst \<le> i then None
        else strlcat_append (dst[i := src ! j]) src lim (Suc i) (Suc j)
      else Some (dst, i))"
  by pat_completeness auto
termination
  by (relation "measure (\<lambda>(dst, src, lim, i, j). length src - j)") auto

definition fb_strlcat :: "char list \<Rightarrow> char list \<Rightarrow> nat \<Rightarrow> (char list \<times> nat) option" where
  "fb_strlcat dst src dstsize =
     (case strlcat_find_end dst (dst_limit dstsize) 0 of
        None \<Rightarrow> None
      | Some i \<Rightarrow>
          (case strlcat_append dst src (dst_limit dstsize) i 0 of
             None \<Rightarrow> None
           | Some (dst', i') \<Rightarrow>
               if length dst' \<le> i' then None else Some (dst'[i' := NUL], Suc i')))"

declare strlcpy_loop.simps [simp del] strlcat_find_end.simps [simp del] strlcat_append.simps [simp del]

subsection \<open>What the loops compute\<close>

text \<open>
  Both copying loops are instances of one pattern: starting at \<open>i\<close> they write a prefix of the
  source string into the destination and stop at the limit or at the end of the source.
\<close>

lemma strlcat_append_correct:
  "is_cstr src \<Longrightarrow> lim < length dst \<Longrightarrow> i \<le> lim \<Longrightarrow> j \<le> length (cstr src) \<Longrightarrow>
   \<exists>dst'. strlcat_append dst src lim i j
        = Some (dst', i + length (take (lim - i) (drop j (cstr src))))
    \<and> length dst' = length dst
    \<and> take (i + length (take (lim - i) (drop j (cstr src)))) dst'
        = take i dst @ take (lim - i) (drop j (cstr src))
    \<and> drop (i + length (take (lim - i) (drop j (cstr src)))) dst'
        = drop (i + length (take (lim - i) (drop j (cstr src)))) dst"
proof (induction dst src lim i j rule: strlcat_append.induct)
  case (1 dst src lim i j)
  note c = cstr_length_less [OF \<open>is_cstr src\<close>]
  consider (stop) "i = lim" | (nul) "i < lim" "j = length (cstr src)"
    | (step) "i < lim" "j < length (cstr src)"
    using "1.prems" by linarith
  then show ?case
  proof cases
    case stop
    then show ?thesis by (simp add: strlcat_append.simps)
  next
    case nul
    then show ?thesis using c cstr_end [OF \<open>is_cstr src\<close>] by (simp add: strlcat_append.simps)
  next
    case step
    let ?w = "take (lim - Suc i) (drop (Suc j) (cstr src))"
    have b: "i < length dst" "j < length src" "src ! j \<noteq> NUL" "src ! j = cstr src ! j"
      using step "1.prems" c cstr_nth [of j src] cstr_nth_not_NUL [of j src] by auto
    have w: "take (lim - i) (drop j (cstr src)) = cstr src ! j # ?w"
      using step by (simp add: Cons_nth_drop_Suc [symmetric] Suc_diff_Suc [symmetric])
    obtain dst' where d: "strlcat_append (dst[i := src ! j]) src lim (Suc i) (Suc j)
        = Some (dst', Suc i + length ?w)" "length dst' = length dst"
        "take (Suc i + length ?w) dst' = take (Suc i) (dst[i := src ! j]) @ ?w"
        "drop (Suc i + length ?w) dst' = drop (Suc i + length ?w) (dst[i := src ! j])"
      using "1.IH" step b "1.prems" by auto
    show ?thesis unfolding w using d b step
      by (subst strlcat_append.simps) (simp add: take_Suc_conv_app_nth)
  qed
qed

lemma strlcpy_loop_eq: "strlcpy_loop dst src lim i = strlcat_append dst src lim i i"
proof (induction dst src lim i rule: strlcpy_loop.induct)
  case (1 dst src lim i)
  then show ?case by (subst strlcpy_loop.simps, subst strlcat_append.simps) auto
qed

lemma strlcat_find_end_correct:
  assumes "lim \<le> length dst" "i \<le> length (takeWhile (\<lambda>c. c \<noteq> NUL) (take lim dst))"
  shows "strlcat_find_end dst lim i = Some (length (takeWhile (\<lambda>c. c \<noteq> NUL) (take lim dst)))"
  using assms
proof (induction dst lim i rule: strlcat_find_end.induct)
  case (1 dst lim i)
  let ?t = "takeWhile (\<lambda>c. c \<noteq> NUL) (take lim dst)"
  have len: "length ?t \<le> lim"
    using length_takeWhile_le [of "\<lambda>c. c \<noteq> NUL" "take lim dst"] "1.prems" by simp
  consider (in_str) "i < length ?t" | (at_end) "i = length ?t" using "1.prems" by linarith
  then show ?case
  proof cases
    case in_str
    then have "dst ! i \<noteq> NUL"
      using len nth_mem [OF in_str] by (auto simp: takeWhile_nth dest: set_takeWhileD)
    with in_str len "1" show ?thesis by (subst strlcat_find_end.simps) auto
  next
    case at_end
    have "i < lim \<Longrightarrow> dst ! i = NUL"
      using at_end "1.prems" nth_length_takeWhile [of "\<lambda>c. c \<noteq> NUL" "take lim dst"] by auto
    with at_end len "1.prems" show ?thesis by (subst strlcat_find_end.simps) auto
  qed
qed

text \<open>
  The second half of both functions, from the position \<open>i\<close> on: the source is appended behind the
  prefix, and the terminator is stored behind it.
\<close>

lemma append_and_terminate:
  assumes "is_cstr src" "lim < length dst" "i \<le> lim" "NUL \<notin> set (take i dst)"
  shows "\<exists>dst' n. strlcat_append dst src lim i 0 = Some (dst', n) \<and> n < length dst'
    \<and> length dst' = length dst \<and> n = length (cstr (dst'[n := NUL]))
    \<and> is_cstr (dst'[n := NUL]) \<and> cstr (dst'[n := NUL]) = take i dst @ take (lim - i) (cstr src)
    \<and> drop (Suc lim) (dst'[n := NUL]) = drop (Suc lim) dst"
proof -
  let ?w = "take (lim - i) (cstr src)" and ?n = "i + length (take (lim - i) (cstr src))"
  obtain dst' where d: "strlcat_append dst src lim i 0 = Some (dst', ?n)"
      "length dst' = length dst" "take ?n dst' = take i dst @ ?w" "drop ?n dst' = drop ?n dst"
    using strlcat_append_correct [of src lim dst i 0] assms by auto
  have n: "?n \<le> lim" "?n < length dst'" using assms d(2) by auto
  have "dst'[?n := NUL] = (take i dst @ ?w) @ NUL # drop (Suc ?n) dst'"
    using n d(3) by (simp add: upd_conv_take_nth_drop)
  moreover have "NUL \<notin> set (take i dst @ ?w)"
    using assms(4) by (auto dest: in_set_takeD)
  ultimately have c: "cstr (dst'[?n := NUL]) = take i dst @ ?w" "is_cstr (dst'[?n := NUL])"
    by (simp_all only: cstr_append_NUL is_cstr_append_NUL not_False_eq_True)
  have "drop (Suc lim - ?n) (drop ?n dst') = drop (Suc lim - ?n) (drop ?n dst)"
    using d(4) by simp
  then have "drop (Suc lim) dst' = drop (Suc lim) dst" using n(1) by simp
  with n(1) have "drop (Suc lim) (dst'[?n := NUL]) = drop (Suc lim) dst" by simp
  with d n c assms show ?thesis by (intro exI [of _ dst'] exI [of _ ?n]) auto
qed

subsection \<open>The contracts\<close>

text \<open>
  A bounded copy into a buffer of \<open>dstsize\<close> bytes always ends (never reads or writes out of
  bounds), leaves a NUL-terminated string that is the source cut to \<open>dstsize - 1\<close> characters,
  returns one more than its length, and does not touch the bytes behind the buffer.
\<close>

theorem fb_strlcpy_correct:
  assumes "is_cstr src" "0 < dstsize" "dstsize \<le> length dst"
  shows "\<exists>dst'. fb_strlcpy dst src dstsize = Some (dst', Suc (length (cstr dst')))
    \<and> is_cstr dst' \<and> cstr dst' = take (dstsize - 1) (cstr src)
    \<and> length dst' = length dst \<and> drop dstsize dst' = drop dstsize dst"
proof -
  from assms(2) obtain m where m: "dstsize = Suc m" by (cases dstsize) auto
  with assms append_and_terminate [of src m dst 0]
  obtain dst' n where "strlcpy_loop dst src m 0 = Some (dst', n)" "n < length dst'"
      "length dst' = length dst" "n = length (cstr (dst'[n := NUL]))" "is_cstr (dst'[n := NUL])"
      "cstr (dst'[n := NUL]) = take m (cstr src)" "drop (Suc m) (dst'[n := NUL]) = drop (Suc m) dst"
    unfolding strlcpy_loop_eq by fastforce
  then show ?thesis
    by (intro exI [of _ "dst'[n := NUL]"]) (auto simp: fb_strlcpy_def dst_limit_def m)
qed

theorem fb_strlcpy_witness:
  "\<exists>dst'. fb_strlcpy ''wxyz'' [CHR ''a'', CHR ''b'', CHR ''c'', NUL] 3
       = Some (dst', Suc (length (cstr dst')))
     \<and> is_cstr dst' \<and> cstr dst' = ''ab'' \<and> length dst' = length ''wxyz'' \<and> drop 3 dst' = ''z''"
  using fb_strlcpy_correct [of "[CHR ''a'', CHR ''b'', CHR ''c'', NUL]" 3 "''wxyz''"]
  by (simp add: is_cstr_def cstr_def)

text \<open>
  A bounded append to a buffer that holds a string shorter than \<open>dstsize\<close> always ends within
  bounds and leaves the concatenation of the two strings, cut to \<open>dstsize - 1\<close> characters and
  NUL-terminated; the bytes behind the buffer keep their contents.
\<close>

theorem fb_strlcat_correct:
  assumes "is_cstr src" "0 < dstsize" "dstsize \<le> length dst" "is_cstr (take dstsize dst)"
  shows "\<exists>dst'. fb_strlcat dst src dstsize = Some (dst', Suc (length (cstr dst')))
    \<and> is_cstr dst' \<and> cstr dst' = take (dstsize - 1) (cstr dst @ cstr src)
    \<and> length dst' = length dst \<and> drop dstsize dst' = drop dstsize dst"
proof -
  from assms(2) obtain m where m: "dstsize = Suc m" by (cases dstsize) auto
  let ?i = "length (cstr dst)"
  have "length (cstr (take dstsize dst)) < dstsize"
    using cstr_length_less [OF assms(4)] by simp
  then have le: "?i \<le> m" by (simp add: cstr_take m)
  then have i: "strlcat_find_end dst m 0 = Some ?i"
    using strlcat_find_end_correct [of m dst 0] assms(3) cstr_take [of m dst]
    by (simp add: cstr_def m)
  from assms(1,3) m le append_and_terminate [of src m dst ?i]
  obtain dst' n where "strlcat_append dst src m ?i 0 = Some (dst', n)" "n < length dst'"
      "length dst' = length dst" "n = length (cstr (dst'[n := NUL]))" "is_cstr (dst'[n := NUL])"
      "cstr (dst'[n := NUL]) = take m (cstr dst @ cstr src)"
      "drop (Suc m) (dst'[n := NUL]) = drop (Suc m) dst"
    unfolding take_length_cstr by fastforce
  then show ?thesis
    by (intro exI [of _ "dst'[n := NUL]"]) (auto simp: fb_strlcat_def dst_limit_def m i)
qed

theorem fb_strlcat_witness:
  "\<exists>dst'. fb_strlcat [CHR ''a'', NUL, CHR ''x'', CHR ''y''] [CHR ''b'', CHR ''c'', NUL] 3
       = Some (dst', Suc (length (cstr dst')))
     \<and> is_cstr dst' \<and> cstr dst' = ''ab'' \<and> length dst' = length ''wxyz'' \<and> drop 3 dst' = ''y''"
  using fb_strlcat_correct [of "[CHR ''b'', CHR ''c'', NUL]" 3 "[CHR ''a'', NUL, CHR ''x'', CHR ''y'']"]
  by (simp add: is_cstr_def cstr_def)

end
