(* ===== verification/FB_Avl.thy ===== *)
theory FB_Avl
  imports FB_Prelude
begin

text \<open>
  The AVL tree library of \<^verbatim>\<open>src/filebench/fb_avl.c\<close> and \<^verbatim>\<open>fb_avl.h\<close>, operation by operation, on an
  explicit heap of nodes: child and parent pointers, the index of a node in its parent, the
  balance. The tree structure, the comparison function and the node offset are the C fields; a
  data pointer becomes a node pointer by adding the offset, as in the code. The comparison
  function reads the caller's memory, which is the argument \<open>m\<close> of the operations that call it.
  A loop that follows pointers is a \<^theory_text>\<open>partial_function\<close>: \<open>None\<close> means that it does not return.
  The refinement theory shows that it returns on every well-formed tree.

  Not modelled: the log messages, and the test \<open>tree == NULL\<close> of the operations that have
  already read \<open>tree->avl_offset\<close> before it.
\<close>

subsection \<open>Nodes, trees, heap\<close>

record avl_node =
  avl_child :: "nat \<Rightarrow> ptr"
  avl_parent :: ptr
  avl_child_index :: nat
  avl_balance :: int

record 'm avl_tree =
  avl_root :: ptr
  avl_compar :: "'m \<Rightarrow> ptr \<Rightarrow> ptr \<Rightarrow> int"
  avl_offset :: uint64
  avl_numnodes :: uint64
  avl_size :: uint64

type_synonym avl_heap = "ptr \<Rightarrow> avl_node"

definition AVL_XPARENT :: "avl_heap \<Rightarrow> ptr \<Rightarrow> ptr" where
  "AVL_XPARENT h n = avl_parent (h n)"

definition AVL_SETPARENT :: "avl_heap \<Rightarrow> ptr \<Rightarrow> ptr \<Rightarrow> avl_heap" where
  "AVL_SETPARENT h n p = h(n := (h n)\<lparr>avl_parent := p\<rparr>)"

definition AVL_XCHILD :: "avl_heap \<Rightarrow> ptr \<Rightarrow> nat" where
  "AVL_XCHILD h n = avl_child_index (h n)"

definition AVL_SETCHILD :: "avl_heap \<Rightarrow> ptr \<Rightarrow> nat \<Rightarrow> avl_heap" where
  "AVL_SETCHILD h n c = h(n := (h n)\<lparr>avl_child_index := c\<rparr>)"

definition AVL_XBALANCE :: "avl_heap \<Rightarrow> ptr \<Rightarrow> int" where
  "AVL_XBALANCE h n = avl_balance (h n)"

definition AVL_SETBALANCE :: "avl_heap \<Rightarrow> ptr \<Rightarrow> int \<Rightarrow> avl_heap" where
  "AVL_SETBALANCE h n b = h(n := (h n)\<lparr>avl_balance := b\<rparr>)"

text \<open>The C assignment \<open>n->avl_child[d] = p\<close> and the read of the same place.\<close>

definition child_of :: "avl_heap \<Rightarrow> ptr \<Rightarrow> nat \<Rightarrow> ptr" where
  "child_of h n d = avl_child (h n) d"

definition set_child :: "avl_heap \<Rightarrow> ptr \<Rightarrow> nat \<Rightarrow> ptr \<Rightarrow> avl_heap" where
  "set_child h n d p = h(n := (h n)\<lparr>avl_child := (avl_child (h n))(d := p)\<rparr>)"

definition AVL_NODE2DATA :: "ptr \<Rightarrow> uint64 \<Rightarrow> ptr" where
  "AVL_NODE2DATA n off = n - off"

definition AVL_DATA2NODE :: "ptr \<Rightarrow> uint64 \<Rightarrow> ptr" where
  "AVL_DATA2NODE d off = d + off"

definition AVL_INDEX2NODE :: "uint64 \<Rightarrow> ptr" where
  "AVL_INDEX2NODE x = x AND NOT 1"

definition AVL_INDEX2CHILD :: "uint64 \<Rightarrow> nat" where
  "AVL_INDEX2CHILD x = unat (x AND 1)"

definition AVL_MKINDEX :: "ptr \<Rightarrow> nat \<Rightarrow> uint64" where
  "AVL_MKINDEX n c = n OR of_nat c"

definition avl_child2balance :: "nat \<Rightarrow> int" where
  "avl_child2balance c = [-1, 1] ! c"

definition avl_balance2child :: "int \<Rightarrow> nat" where
  "avl_balance2child i = [0, 0, 1] ! nat i"

abbreviation (input) AVL_BEFORE :: nat where "AVL_BEFORE \<equiv> 0"
abbreviation (input) AVL_AFTER :: nat where "AVL_AFTER \<equiv> 1"

subsection \<open>Walking\<close>

text \<open>The loop \<open>for (node = ...; node->avl_child[d] != NULL; node = node->avl_child[d])\<close>.\<close>

partial_function (option) avl_descend :: "avl_heap \<Rightarrow> nat \<Rightarrow> ptr \<Rightarrow> ptr option" where
  "avl_descend h d node =
     (if child_of h node d = NULL then Some node else avl_descend h d (child_of h node d))"

text \<open>The loop of \<open>avl_walk\<close> that returns through the parents until it has come from \<open>right\<close>.\<close>

partial_function (option) avl_climb :: "avl_heap \<Rightarrow> nat \<Rightarrow> ptr \<Rightarrow> ptr option" where
  "avl_climb h right node =
     (let was_child = AVL_XCHILD h node; node' = AVL_XPARENT h node in
      if node' = NULL then Some NULL
      else if was_child = right then Some node'
      else avl_climb h right node')"

definition avl_walk :: "avl_heap \<Rightarrow> 'm avl_tree \<Rightarrow> ptr \<Rightarrow> nat \<Rightarrow> ptr option" where
  "avl_walk h tree oldnode left =
     (let off = avl_offset tree; node = AVL_DATA2NODE oldnode off; right = 1 - left in
      if node = NULL then Some NULL
      else if child_of h node left \<noteq> NULL then
        (case avl_descend h right (child_of h node left) of
           None \<Rightarrow> None
         | Some n \<Rightarrow> Some (AVL_NODE2DATA n off))
      else
        (case avl_climb h right node of
           None \<Rightarrow> None
         | Some n \<Rightarrow> Some (if n = NULL then NULL else AVL_NODE2DATA n off)))"

abbreviation AVL_NEXT :: "avl_heap \<Rightarrow> 'm avl_tree \<Rightarrow> ptr \<Rightarrow> ptr option" where
  "AVL_NEXT h tree node \<equiv> avl_walk h tree node AVL_AFTER"

abbreviation AVL_PREV :: "avl_heap \<Rightarrow> 'm avl_tree \<Rightarrow> ptr \<Rightarrow> ptr option" where
  "AVL_PREV h tree node \<equiv> avl_walk h tree node AVL_BEFORE"

partial_function (option) avl_end_loop :: "avl_heap \<Rightarrow> nat \<Rightarrow> ptr \<Rightarrow> ptr \<Rightarrow> ptr option" where
  "avl_end_loop h d node prev =
     (if node = NULL then Some prev else avl_end_loop h d (child_of h node d) node)"

definition avl_first :: "avl_heap \<Rightarrow> 'm avl_tree \<Rightarrow> ptr option" where
  "avl_first h tree =
     (case avl_end_loop h 0 (avl_root tree) NULL of
        None \<Rightarrow> None
      | Some prev \<Rightarrow> Some (if prev \<noteq> NULL then AVL_NODE2DATA prev (avl_offset tree) else NULL))"

definition avl_last :: "avl_heap \<Rightarrow> 'm avl_tree \<Rightarrow> ptr option" where
  "avl_last h tree =
     (case avl_end_loop h 1 (avl_root tree) NULL of
        None \<Rightarrow> None
      | Some prev \<Rightarrow> Some (if prev \<noteq> NULL then AVL_NODE2DATA prev (avl_offset tree) else NULL))"

definition avl_nearest :: "avl_heap \<Rightarrow> 'm avl_tree \<Rightarrow> uint64 \<Rightarrow> nat \<Rightarrow> ptr option" where
  "avl_nearest h tree wh direction =
     (let child = AVL_INDEX2CHILD wh; node = AVL_INDEX2NODE wh in
      if node = NULL then Some NULL
      else let data = AVL_NODE2DATA node (avl_offset tree) in
        if child \<noteq> direction then Some data else avl_walk h tree data direction)"

subsection \<open>Searching\<close>

text \<open>
  The result is the data pointer found (or \<open>NULL\<close>) and the value stored through \<open>where\<close>, if one
  is stored: the branch for a bad comparison result leaves \<open>*where\<close> as it was.
\<close>

partial_function (option) avl_find_loop ::
  "'m \<Rightarrow> avl_heap \<Rightarrow> 'm avl_tree \<Rightarrow> ptr \<Rightarrow> ptr \<Rightarrow> ptr \<Rightarrow> nat \<Rightarrow> (ptr \<times> uint64 option) option" where
  "avl_find_loop m h tree v node prev child =
     (if node = NULL then Some (NULL, Some (AVL_MKINDEX prev child))
      else
        let off = avl_offset tree;
            diff = avl_compar tree m v (AVL_NODE2DATA node off) in
        if \<not> (-1 \<le> diff \<and> diff \<le> 1) then Some (NULL, None)
        else if diff = 0 then Some (AVL_NODE2DATA node off, Some 0)
        else
          let child' = avl_balance2child (1 + diff) in
          avl_find_loop m h tree v (child_of h node child') node child')"

definition avl_find :: "'m \<Rightarrow> avl_heap \<Rightarrow> 'm avl_tree \<Rightarrow> ptr \<Rightarrow> (ptr \<times> uint64 option) option" where
  "avl_find m h tree v = avl_find_loop m h tree v (avl_root tree) NULL 0"

subsection \<open>Rotation\<close>

text \<open>The last step of both rotations: the pointer into the subtree.\<close>

definition set_link :: "avl_heap \<Rightarrow> 'm avl_tree \<Rightarrow> ptr \<Rightarrow> nat \<Rightarrow> ptr \<Rightarrow> avl_heap \<times> 'm avl_tree" where
  "set_link h tree parent which_child p =
     (if parent \<noteq> NULL then (set_child h parent which_child p, tree)
      else (h, tree\<lparr>avl_root := p\<rparr>))"

definition avl_rotation ::
  "avl_heap \<Rightarrow> 'm avl_tree \<Rightarrow> ptr \<Rightarrow> int \<Rightarrow> avl_heap \<times> 'm avl_tree \<times> bool" where
  "avl_rotation h tree node balance =
     (let left = (if balance < 0 then 0 else 1);
          right = 1 - left;
          left_heavy = drop_bit 1 balance;
          right_heavy = - left_heavy;
          parent = AVL_XPARENT h node;
          child = child_of h node left;
          which_child = AVL_XCHILD h node;
          child_bal = AVL_XBALANCE h child in
      if child_bal \<noteq> right_heavy then
        let child_bal = child_bal + right_heavy;
            cright = child_of h child right;
            h = set_child h node left cright;
            h = (if cright \<noteq> NULL then AVL_SETCHILD (AVL_SETPARENT h cright node) cright left else h);
            h = set_child h child right node;
            h = AVL_SETBALANCE h node (- child_bal);
            h = AVL_SETCHILD h node right;
            h = AVL_SETPARENT h node child;
            h = AVL_SETBALANCE h child child_bal;
            h = AVL_SETCHILD h child which_child;
            h = AVL_SETPARENT h child parent;
            (h, tree) = set_link h tree parent which_child child in
        (h, tree, child_bal = 0)
      else
        let gchild = child_of h child right;
            gleft = child_of h gchild left;
            gright = child_of h gchild right;
            h = set_child h node left gright;
            h = (if gright \<noteq> NULL then AVL_SETCHILD (AVL_SETPARENT h gright node) gright left else h);
            h = set_child h child right gleft;
            h = (if gleft \<noteq> NULL then AVL_SETCHILD (AVL_SETPARENT h gleft child) gleft right else h);
            balance = AVL_XBALANCE h gchild;
            h = set_child h gchild left child;
            h = AVL_SETBALANCE h child (if balance = right_heavy then left_heavy else 0);
            h = AVL_SETPARENT h child gchild;
            h = AVL_SETCHILD h child left;
            h = set_child h gchild right node;
            h = AVL_SETBALANCE h node (if balance = left_heavy then right_heavy else 0);
            h = AVL_SETPARENT h node gchild;
            h = AVL_SETCHILD h node right;
            h = AVL_SETBALANCE h gchild 0;
            h = AVL_SETPARENT h gchild parent;
            h = AVL_SETCHILD h gchild which_child;
            (h, tree) = set_link h tree parent which_child gchild in
        (h, tree, True))"

subsection \<open>Insertion\<close>

partial_function (option) avl_insert_fix ::
  "avl_heap \<Rightarrow> 'm avl_tree \<Rightarrow> ptr \<Rightarrow> nat \<Rightarrow> (avl_heap \<times> 'm avl_tree) option" where
  "avl_insert_fix h tree parent which_child =
     (let node = parent in
      if node = NULL then Some (h, tree)
      else
        let old_balance = AVL_XBALANCE h node;
            new_balance = old_balance + avl_child2balance which_child in
        if new_balance = 0 then Some (AVL_SETBALANCE h node 0, tree)
        else if old_balance \<noteq> 0 then
          Some (let (h', tree', _) = avl_rotation h tree node new_balance in (h', tree'))
        else
          let h' = AVL_SETBALANCE h node new_balance in
          avl_insert_fix h' tree (AVL_XPARENT h' node) (AVL_XCHILD h' node))"

definition avl_insert ::
  "avl_heap \<Rightarrow> 'm avl_tree \<Rightarrow> ptr \<Rightarrow> uint64 \<Rightarrow> (avl_heap \<times> 'm avl_tree) option" where
  "avl_insert h tree new_data wh =
     (let parent = AVL_INDEX2NODE wh; which_child = AVL_INDEX2CHILD wh; off = avl_offset tree in
      if new_data AND 7 \<noteq> 0 then Some (h, tree)
      else
        let node = AVL_DATA2NODE new_data off;
            tree = tree\<lparr>avl_numnodes := avl_numnodes tree + 1\<rparr>;
            h = set_child h node 0 NULL;
            h = set_child h node 1 NULL;
            h = AVL_SETCHILD h node which_child;
            h = AVL_SETBALANCE h node 0;
            h = AVL_SETPARENT h node parent;
            (h, tree) = set_link h tree parent which_child node in
        avl_insert_fix h tree parent which_child)"

definition avl_insert_here ::
  "avl_heap \<Rightarrow> 'm avl_tree \<Rightarrow> ptr \<Rightarrow> ptr \<Rightarrow> nat \<Rightarrow> (avl_heap \<times> 'm avl_tree) option" where
  "avl_insert_here h tree new_data here direction =
     (if new_data = NULL \<or> here = NULL \<or> \<not> (direction = AVL_BEFORE \<or> direction = AVL_AFTER)
      then Some (h, tree)
      else
        let child = direction; node = AVL_DATA2NODE here (avl_offset tree) in
        if child_of h node child \<noteq> NULL then
          (case avl_descend h (1 - child) (child_of h node child) of
             None \<Rightarrow> None
           | Some node' \<Rightarrow> avl_insert h tree new_data (AVL_MKINDEX node' (1 - child)))
        else avl_insert h tree new_data (AVL_MKINDEX node child))"

text \<open>
  When the comparison function returns a value outside \<open>-1 .. 1\<close>, \<open>avl_find\<close> leaves the local
  variable \<open>where\<close> of \<open>avl_add\<close> uninitialised, so the outcome is undefined: \<open>None\<close>.
\<close>

definition avl_add :: "'m \<Rightarrow> avl_heap \<Rightarrow> 'm avl_tree \<Rightarrow> ptr \<Rightarrow> (avl_heap \<times> 'm avl_tree) option" where
  "avl_add m h tree new_node =
     (case avl_find m h tree new_node of
        None \<Rightarrow> None
      | Some (found, wh) \<Rightarrow>
          if found \<noteq> NULL then Some (h, tree)
          else (case wh of None \<Rightarrow> None | Some w \<Rightarrow> avl_insert h tree new_node w))"

subsection \<open>Removal\<close>

text \<open>
  A node with two children first changes places with its neighbour; the local variable \<open>tmp\<close> of
  \<open>avl_remove\<close>, whose address is the argument \<open>tmp\<close>, stands in for the neighbour meanwhile.
  The two steps are the two commented parts of the code: moving \<open>node\<close> to the place of
  \<open>delete\<close>, and putting \<open>tmp\<close> where \<open>node\<close> used to be. The result of \<open>avl_remove_swap\<close> is the
  heap, the tree and the node to unlink, which has at most one child.
\<close>

definition avl_swap_node ::
  "avl_heap \<Rightarrow> 'm avl_tree \<Rightarrow> ptr \<Rightarrow> ptr \<Rightarrow> nat \<Rightarrow> ptr \<Rightarrow> avl_heap \<times> 'm avl_tree" where
  "avl_swap_node h tree tmp delete left node =
     (let right = 1 - left;
          h = h(tmp := h node);
          h = h(node := h delete);
          h = (if child_of h node left = node then set_child h node left tmp else h);
          parent = AVL_XPARENT h node;
          (h, tree) = set_link h tree parent (AVL_XCHILD h node) node;
          h = AVL_SETPARENT h (child_of h node left) node in
      (AVL_SETPARENT h (child_of h node right) node, tree))"

definition avl_swap_tmp :: "avl_heap \<Rightarrow> ptr \<Rightarrow> avl_heap" where
  "avl_swap_tmp h delete =
     (let parent = AVL_XPARENT h delete;
          h = set_child h parent (AVL_XCHILD h delete) delete;
          which_child = (if child_of h delete 1 \<noteq> NULL then 1 else 0) in
      if child_of h delete which_child \<noteq> NULL
      then AVL_SETPARENT h (child_of h delete which_child) delete else h)"

definition avl_remove_swap ::
  "avl_heap \<Rightarrow> 'm avl_tree \<Rightarrow> ptr \<Rightarrow> ptr \<Rightarrow> (avl_heap \<times> 'm avl_tree \<times> ptr) option" where
  "avl_remove_swap h tree tmp delete =
     (if child_of h delete 0 \<noteq> NULL \<and> child_of h delete 1 \<noteq> NULL then
        let old_balance = AVL_XBALANCE h delete;
            left = avl_balance2child (old_balance + 1);
            right = 1 - left in
        (case avl_descend h right (child_of h delete left) of
           None \<Rightarrow> None
         | Some node \<Rightarrow>
             let (h, tree) = avl_swap_node h tree tmp delete left node in
             Some (avl_swap_tmp h tmp, tree, tmp))
      else Some (h, tree, delete))"

partial_function (option) avl_remove_fix ::
  "avl_heap \<Rightarrow> 'm avl_tree \<Rightarrow> ptr \<Rightarrow> nat \<Rightarrow> (avl_heap \<times> 'm avl_tree) option" where
  "avl_remove_fix h tree parent which_child =
     (let node = parent;
          old_balance = AVL_XBALANCE h node;
          new_balance = old_balance - avl_child2balance which_child;
          parent = AVL_XPARENT h node;
          which_child = AVL_XCHILD h node in
      if old_balance = 0 then Some (AVL_SETBALANCE h node new_balance, tree)
      else if new_balance = 0 then
        let h = AVL_SETBALANCE h node new_balance in
        if parent \<noteq> NULL then avl_remove_fix h tree parent which_child else Some (h, tree)
      else
        let rot = avl_rotation h tree node new_balance in
        if \<not> snd (snd rot) then Some (fst rot, fst (snd rot))
        else if parent \<noteq> NULL then avl_remove_fix (fst rot) (fst (snd rot)) parent which_child
        else Some (fst rot, fst (snd rot)))"

definition avl_remove ::
  "avl_heap \<Rightarrow> 'm avl_tree \<Rightarrow> ptr \<Rightarrow> ptr \<Rightarrow> (avl_heap \<times> 'm avl_tree) option" where
  "avl_remove h tree tmp data =
     (case avl_remove_swap h tree tmp (AVL_DATA2NODE data (avl_offset tree)) of
        None \<Rightarrow> None
      | Some (h, tree, delete) \<Rightarrow>
          if avl_numnodes tree = 0 then Some (h, tree)
          else
            let tree = tree\<lparr>avl_numnodes := avl_numnodes tree - 1\<rparr>;
                parent = AVL_XPARENT h delete;
                which_child = AVL_XCHILD h delete;
                node = (if child_of h delete 0 \<noteq> NULL then child_of h delete 0
                        else child_of h delete 1);
                h = (if node \<noteq> NULL then AVL_SETCHILD (AVL_SETPARENT h node parent) node which_child
                     else h) in
            if parent = NULL then Some (h, tree\<lparr>avl_root := node\<rparr>)
            else avl_remove_fix (set_child h parent which_child node) tree parent which_child)"

subsection \<open>Updating the position of an object\<close>

definition AVL_REINSERT ::
  "'m \<Rightarrow> avl_heap \<Rightarrow> 'm avl_tree \<Rightarrow> ptr \<Rightarrow> ptr \<Rightarrow> (avl_heap \<times> 'm avl_tree) option" where
  "AVL_REINSERT m h tree tmp obj =
     (case avl_remove h tree tmp obj of
        None \<Rightarrow> None
      | Some (h', tree') \<Rightarrow> avl_add m h' tree' obj)"

definition avl_update_lt ::
  "'m \<Rightarrow> avl_heap \<Rightarrow> 'm avl_tree \<Rightarrow> ptr \<Rightarrow> ptr \<Rightarrow> (avl_heap \<times> 'm avl_tree \<times> bool) option" where
  "avl_update_lt m h t tmp obj =
     (case AVL_NEXT h t obj of
        None \<Rightarrow> None
      | Some neighbor \<Rightarrow>
          if \<not> (neighbor = NULL \<or> avl_compar t m obj neighbor \<le> 0) then Some (h, t, False)
          else (case AVL_PREV h t obj of
                  None \<Rightarrow> None
                | Some neighbor \<Rightarrow>
                    if neighbor \<noteq> NULL \<and> avl_compar t m obj neighbor < 0 then
                      map_option (\<lambda>(h, t). (h, t, True)) (AVL_REINSERT m h t tmp obj)
                    else Some (h, t, False)))"

definition avl_update_gt ::
  "'m \<Rightarrow> avl_heap \<Rightarrow> 'm avl_tree \<Rightarrow> ptr \<Rightarrow> ptr \<Rightarrow> (avl_heap \<times> 'm avl_tree \<times> bool) option" where
  "avl_update_gt m h t tmp obj =
     (case AVL_PREV h t obj of
        None \<Rightarrow> None
      | Some neighbor \<Rightarrow>
          if \<not> (neighbor = NULL \<or> avl_compar t m obj neighbor \<ge> 0) then Some (h, t, False)
          else (case AVL_NEXT h t obj of
                  None \<Rightarrow> None
                | Some neighbor \<Rightarrow>
                    if neighbor \<noteq> NULL \<and> avl_compar t m obj neighbor > 0 then
                      map_option (\<lambda>(h, t). (h, t, True)) (AVL_REINSERT m h t tmp obj)
                    else Some (h, t, False)))"

definition avl_update ::
  "'m \<Rightarrow> avl_heap \<Rightarrow> 'm avl_tree \<Rightarrow> ptr \<Rightarrow> ptr \<Rightarrow> (avl_heap \<times> 'm avl_tree \<times> bool) option" where
  "avl_update m h t tmp obj =
     (case AVL_PREV h t obj of
        None \<Rightarrow> None
      | Some neighbor \<Rightarrow>
          if neighbor \<noteq> NULL \<and> avl_compar t m obj neighbor < 0 then
            map_option (\<lambda>(h, t). (h, t, True)) (AVL_REINSERT m h t tmp obj)
          else (case AVL_NEXT h t obj of
                  None \<Rightarrow> None
                | Some neighbor \<Rightarrow>
                    if neighbor \<noteq> NULL \<and> avl_compar t m obj neighbor > 0 then
                      map_option (\<lambda>(h, t). (h, t, True)) (AVL_REINSERT m h t tmp obj)
                    else Some (h, t, False)))"

subsection \<open>Creation, size, destruction\<close>

text \<open>
  \<open>sizeof (avl_node_t)\<close> is three words on \<open>_LP64\<close>. A \<open>NULL\<close> tree or comparison function is the
  argument \<open>None\<close>; the result is the tree structure afterwards.
\<close>

definition avl_create ::
  "'m avl_tree option \<Rightarrow> ('m \<Rightarrow> ptr \<Rightarrow> ptr \<Rightarrow> int) option \<Rightarrow> uint64 \<Rightarrow> uint64 \<Rightarrow> 'm avl_tree option" where
  "avl_create tree compar sz offset =
     (case (tree, compar) of
        (Some t, Some f) \<Rightarrow>
          if sz = 0 \<or> sz < offset + 24 then tree
          else if offset AND 7 \<noteq> 0 then tree
          else Some (t\<lparr>avl_compar := f, avl_root := NULL, avl_numnodes := 0,
                       avl_size := sz, avl_offset := offset\<rparr>)
      | _ \<Rightarrow> tree)"

definition avl_numnodes_of :: "'m avl_tree option \<Rightarrow> uint64" where
  "avl_numnodes_of tree = (case tree of None \<Rightarrow> 0 | Some t \<Rightarrow> avl_numnodes t)"

definition avl_is_empty :: "'m avl_tree option \<Rightarrow> bool" where
  "avl_is_empty tree = (case tree of None \<Rightarrow> False | Some t \<Rightarrow> avl_numnodes t = 0)"

abbreviation (input) CHILDBIT :: uint64 where "CHILDBIT \<equiv> 1"

text \<open>
  The labels \<open>done\<close> and \<open>check_right_side\<close> of \<open>avl_destroy_nodes\<close>, and the loop to the leftmost
  descendant, which moves \<open>parent\<close> along. The results are the data pointer and the new cookie.
\<close>

definition avl_destroy_done :: "avl_heap \<Rightarrow> uint64 \<Rightarrow> ptr \<Rightarrow> ptr \<Rightarrow> ptr \<times> uint64" where
  "avl_destroy_done h off node parent =
     (AVL_NODE2DATA node off,
      if parent = NULL then CHILDBIT else parent OR of_nat (AVL_XCHILD h node))"

definition avl_destroy_check_right_side :: "avl_heap \<Rightarrow> uint64 \<Rightarrow> ptr \<Rightarrow> ptr \<Rightarrow> ptr \<times> uint64" where
  "avl_destroy_check_right_side h off node parent =
     (if child_of h node 1 \<noteq> NULL then avl_destroy_done h off (child_of h node 1) node
      else avl_destroy_done h off node parent)"

partial_function (option) avl_destroy_leftmost ::
  "avl_heap \<Rightarrow> ptr \<Rightarrow> ptr \<Rightarrow> (ptr \<times> ptr) option" where
  "avl_destroy_leftmost h node parent =
     (if child_of h node 0 \<noteq> NULL then avl_destroy_leftmost h (child_of h node 0) node
      else Some (node, parent))"

definition avl_destroy_nodes ::
  "avl_heap \<Rightarrow> 'm avl_tree \<Rightarrow> uint64 \<Rightarrow> (avl_heap \<times> 'm avl_tree \<times> ptr \<times> uint64) option" where
  "avl_destroy_nodes h tree cookie =
     (let off = avl_offset tree in
      if cookie = NULL then
        (case avl_first h tree of
           None \<Rightarrow> None
         | Some first \<Rightarrow>
             if first = NULL then Some (h, tree, NULL, CHILDBIT)
             else let node = AVL_DATA2NODE first off in
               Some (h, tree, avl_destroy_check_right_side h off node (AVL_XPARENT h node)))
      else
        let parent = cookie AND NOT CHILDBIT in
        if parent = NULL then
          Some (h, if avl_root tree \<noteq> NULL then tree\<lparr>avl_root := NULL, avl_numnodes := 0\<rparr> else tree,
                NULL, cookie)
        else
          let child = unat (cookie AND CHILDBIT);
              h = set_child h parent child NULL;
              tree = tree\<lparr>avl_numnodes := avl_numnodes tree - 1\<rparr> in
          if child = 1 \<or> child_of h parent 1 = NULL then
            Some (h, tree, avl_destroy_done h off parent (AVL_XPARENT h parent))
          else
            (case avl_destroy_leftmost h (child_of h parent 1) parent of
               None \<Rightarrow> None
             | Some (node, parent') \<Rightarrow>
                 Some (h, tree, avl_destroy_check_right_side h off node parent')))"

end
