(* ===== verification/FB_Avl_Tree.thy ===== *)
theory FB_Avl_Tree
  imports FB_Avl
begin

text \<open>
  The abstract specification of the AVL library: balanced search trees as a datatype, whose nodes
  carry the address and the balance of a heap node, and the rebalancing walks of insertion and
  removal as functions on a tree with a hole (a list of frames, innermost first). This theory
  shows that the specification is right, that is, the walks keep the order of the nodes and
  restore the AVL invariant; the refinement theory shows that the C code computes these functions.
  The direction \<open>d\<close> is the array index of the code: \<open>0\<close> for left, \<open>1\<close> for right.
\<close>

subsection \<open>Trees\<close>

datatype avlt = Leaf | Node avlt ptr int avlt

primrec inorder :: "avlt \<Rightarrow> ptr list" where
  "inorder Leaf = []"
| "inorder (Node l a b r) = inorder l @ a # inorder r"

primrec height :: "avlt \<Rightarrow> nat" where
  "height Leaf = 0"
| "height (Node l a b r) = Suc (max (height l) (height r))"

primrec avl :: "avlt \<Rightarrow> bool" where
  "avl Leaf = True"
| "avl (Node l a b r) =
     (b = int (height r) - int (height l) \<and> -1 \<le> b \<and> b \<le> 1 \<and> avl l \<and> avl r)"

primrec addr :: "avlt \<Rightarrow> ptr" where
  "addr Leaf = NULL"
| "addr (Node l a b r) = a"

primrec bal :: "avlt \<Rightarrow> int" where
  "bal Leaf = 0"
| "bal (Node l a b r) = b"

primrec sub :: "nat \<Rightarrow> avlt \<Rightarrow> avlt" where
  "sub d Leaf = Leaf"
| "sub d (Node l a b r) = (if d = 0 then l else r)"

text \<open>The node with child \<open>t\<close> on side \<open>d\<close> and child \<open>s\<close> on the other side.\<close>

definition mkn :: "nat \<Rightarrow> avlt \<Rightarrow> ptr \<Rightarrow> int \<Rightarrow> avlt \<Rightarrow> avlt" where
  "mkn d t a b s = (if d = 0 then Node t a b s else Node s a b t)"

definition heavy :: "nat \<Rightarrow> int" where
  "heavy d = (if d = 0 then -1 else 1)"

lemma heavy_simps [simp]: "heavy 0 = -1" "heavy (Suc 0) = 1"
  by (simp_all add: heavy_def)

lemma mkn_simps [simp]: "mkn 0 t a b s = Node t a b s" "mkn (Suc 0) t a b s = Node s a b t"
  by (simp_all add: mkn_def)

lemma dir_cases: "d < 2 \<Longrightarrow> (d = 0 \<Longrightarrow> P) \<Longrightarrow> (d = Suc 0 \<Longrightarrow> P) \<Longrightarrow> P"
  by (auto simp: numeral_2_eq_2 less_Suc_eq)

lemma height_0_iff [simp]: "height t = 0 \<longleftrightarrow> t = Leaf"
  by (cases t) auto

lemma height_mkn [simp]: "height (mkn d t a b s) = Suc (max (height t) (height s))"
  by (simp add: mkn_def max.commute)

lemma avl_mkn [simp]:
  "avl (mkn d t a b s) \<longleftrightarrow>
     b = heavy d * (int (height t) - int (height s)) \<and> -1 \<le> b \<and> b \<le> 1 \<and> avl t \<and> avl s"
  by (auto simp: mkn_def heavy_def)

lemma set_mkn [simp]: "set (inorder (mkn d t a b s)) = insert a (set (inorder t) \<union> set (inorder s))"
  by (auto simp: mkn_def)

lemma addr_mkn [simp]: "addr (mkn d t a b s) = a"
  and bal_mkn [simp]: "bal (mkn d t a b s) = b"
  and sub_mkn [simp]: "sub d (mkn d t a b s) = t"
  by (simp_all add: mkn_def)

lemma sub_mkn_other [simp]: "d < 2 \<Longrightarrow> sub (Suc 0 - d) (mkn d t a b s) = s"
  by (auto simp: mkn_def elim: dir_cases)

lemma distinct_mkn [simp]:
  "distinct (inorder (mkn d t a b s)) \<longleftrightarrow>
     distinct (inorder t) \<and> distinct (inorder s) \<and> set (inorder t) \<inter> set (inorder s) = {}
     \<and> a \<notin> set (inorder t) \<and> a \<notin> set (inorder s)"
  by (auto simp: mkn_def)

lemma mkn_exhaust:
  assumes "t \<noteq> Leaf" "d < 2"
  obtains x a b y where "t = mkn d x a b y"
proof (cases t)
  case (Node l a b r)
  with assms(2) have "t = mkn d (sub d t) a b (sub (1 - d) t)" by (auto elim: dir_cases)
  then show ?thesis by (rule that)
qed (use assms in simp)

subsection \<open>Trees with a hole\<close>

text \<open>A frame: the side the hole is on, the node's address and balance, and its other subtree.\<close>

type_synonym frame = "nat \<times> ptr \<times> int \<times> avlt"

fun plug :: "frame list \<Rightarrow> avlt \<Rightarrow> avlt" where
  "plug [] t = t"
| "plug ((d, a, b, s) # C) t = plug C (mkn d t a b s)"

text \<open>The frames of \<open>C\<close> form an AVL tree around a hole of height \<open>n\<close>.\<close>

fun ctx_ok :: "frame list \<Rightarrow> nat \<Rightarrow> bool" where
  "ctx_ok [] n = True"
| "ctx_ok ((d, a, b, s) # C) n =
     (d < 2 \<and> avl s \<and> b = heavy d * (int n - int (height s)) \<and> -1 \<le> b \<and> b \<le> 1
      \<and> ctx_ok C (Suc (max n (height s))))"

definition dirs_ok :: "frame list \<Rightarrow> bool" where
  "dirs_ok C \<longleftrightarrow> (\<forall>(d, a, b, s) \<in> set C. d < 2)"

lemma dirs_ok_simps [simp]: "dirs_ok []" "dirs_ok ((d, a, b, s) # C) \<longleftrightarrow> d < 2 \<and> dirs_ok C"
  by (auto simp: dirs_ok_def)

lemma avl_plug: "dirs_ok C \<Longrightarrow> avl (plug C t) \<longleftrightarrow> avl t \<and> ctx_ok C (height t)"
  by (induction C t rule: plug.induct) (auto simp: heavy_def)

lemma ctx_ok_dirs: "ctx_ok C n \<Longrightarrow> dirs_ok C"
  by (induction C n rule: ctx_ok.induct) auto

text \<open>What lies left and right of the hole in the order of the nodes.\<close>

fun left_of :: "frame list \<Rightarrow> ptr list" where
  "left_of [] = []"
| "left_of ((d, a, b, s) # C) = left_of C @ (if d = 0 then [] else inorder s @ [a])"

fun right_of :: "frame list \<Rightarrow> ptr list" where
  "right_of [] = []"
| "right_of ((d, a, b, s) # C) = (if d = 0 then a # inorder s else []) @ right_of C"

lemma inorder_plug: "inorder (plug C t) = left_of C @ inorder t @ right_of C"
  by (induction C t rule: plug.induct) (auto simp: mkn_def)

lemma plug_append: "plug (C @ D) t = plug D (plug C t)"
  by (induction C t rule: plug.induct) auto

subsection \<open>Rotation\<close>

text \<open>
  The two rotations of \<open>avl_rotation\<close>, for a node \<open>a\<close> that is too heavy on side \<open>d\<close>, where its
  child \<open>c\<close> is; the flag says whether the subtree has become shorter.
\<close>

definition rot :: "nat \<Rightarrow> ptr \<Rightarrow> avlt \<Rightarrow> avlt \<Rightarrow> avlt \<times> bool" where
  "rot d a c s =
     (if bal c \<noteq> - heavy d then
        let cb = bal c - heavy d in
        (mkn d (sub d c) (addr c) cb (mkn d (sub (1 - d) c) a (- cb) s), cb = 0)
      else
        let g = sub (1 - d) c in
        (mkn d (mkn d (sub d c) (addr c) (if bal g = - heavy d then heavy d else 0) (sub d g))
           (addr g) 0
           (mkn d (sub (1 - d) g) a (if bal g = heavy d then - heavy d else 0) s), True))"

lemma rot_correct:
  assumes d: "d < 2" and c: "avl c" and s: "avl s" and h: "height c = height s + 2"
  shows "avl (fst (rot d a c s))"
    and "inorder (fst (rot d a c s)) = inorder (mkn d c a b s)"
    and "height (fst (rot d a c s)) = (if snd (rot d a c s) then height c else Suc (height c))"
    and "bal c \<noteq> 0 \<Longrightarrow> snd (rot d a c s)"
proof -
  have "c \<noteq> Leaf" using h by auto
  then obtain x ca cb y where C: "c = mkn d x ca cb y" using d by (rule mkn_exhaust)
  have "avl (fst (rot d a c s)) \<and> inorder (fst (rot d a c s)) = inorder (mkn d c a b s)
    \<and> height (fst (rot d a c s)) = (if snd (rot d a c s) then height c else Suc (height c))
    \<and> (bal c \<noteq> 0 \<longrightarrow> snd (rot d a c s))"
  proof (cases "cb = - heavy d")
    case True
    with c C h have "y \<noteq> Leaf" by (auto simp: heavy_def split: if_splits)
    then obtain gl ga gb gr where Y: "y = mkn d gl ga gb gr" using d by (rule mkn_exhaust)
    from d True c s h show ?thesis unfolding C Y
      by (elim dir_cases) (auto simp: rot_def)
  next
    case False
    from d False c s h show ?thesis unfolding C
      by (elim dir_cases) (auto simp: rot_def Let_def)
  qed
  then show "avl (fst (rot d a c s))"
    and "inorder (fst (rot d a c s)) = inorder (mkn d c a b s)"
    and "height (fst (rot d a c s)) = (if snd (rot d a c s) then height c else Suc (height c))"
    and "bal c \<noteq> 0 \<Longrightarrow> snd (rot d a c s)" by blast+
qed

subsection \<open>Rebalancing after an insertion and after a removal\<close>

text \<open>The subtree in the hole has grown by one level.\<close>

fun ins_up :: "frame list \<Rightarrow> avlt \<Rightarrow> avlt" where
  "ins_up [] t = t"
| "ins_up ((d, a, b, s) # C) t =
     (if b + heavy d = 0 then plug C (mkn d t a 0 s)
      else if b \<noteq> 0 then plug C (fst (rot d a t s))
      else ins_up C (mkn d t a (heavy d) s))"

text \<open>The subtree in the hole has lost one level.\<close>

fun del_up :: "frame list \<Rightarrow> avlt \<Rightarrow> avlt" where
  "del_up [] t = t"
| "del_up ((d, a, b, s) # C) t =
     (if b = 0 then plug C (mkn d t a (- heavy d) s)
      else if b - heavy d = 0 then del_up C (mkn d t a 0 s)
      else if snd (rot (1 - d) a s t) then del_up C (fst (rot (1 - d) a s t))
      else plug C (fst (rot (1 - d) a s t)))"

lemma mkn_flip: "d < 2 \<Longrightarrow> mkn (Suc 0 - d) s a b t = mkn d t a b s"
  by (elim dir_cases) simp_all

lemma ins_up_correct:
  "ctx_ok C n \<Longrightarrow> avl t \<Longrightarrow> height t = Suc n \<Longrightarrow> n = 0 \<or> bal t \<noteq> 0 \<Longrightarrow>
   avl (ins_up C t) \<and> inorder (ins_up C t) = inorder (plug C t)"
proof (induction C t arbitrary: n rule: ins_up.induct)
  case (1 t)
  then show ?case by simp
next
  case (2 d a b s C t)
  from "2.prems" have d: "d < 2" and s: "avl s" and b: "b = heavy d * (int n - int (height s))"
      "-1 \<le> b" "b \<le> 1" and C: "ctx_ok C (Suc (max n (height s)))" by auto
  note dirs = ctx_ok_dirs [OF C]
  consider (zero) "b + heavy d = 0" | (rotate) "b + heavy d \<noteq> 0" "b \<noteq> 0" | (grow) "b = 0"
    by blast
  then show ?case
  proof cases
    case zero
    then have "height s = Suc n" using b by (auto simp: heavy_def split: if_splits)
    with zero "2.prems" C s show ?thesis by (simp add: avl_plug dirs inorder_plug mkn_def)
  next
    case rotate
    then have n: "n = Suc (height s)" using b by (auto simp: heavy_def split: if_splits)
    with "2.prems" have h: "height t = height s + 2" "bal t \<noteq> 0" by auto
    note r = rot_correct [OF d \<open>avl t\<close> s h(1)]
    have "height (fst (rot d a t s)) = Suc (max n (height s))" using r(3,4) h n by simp
    with r(1,2) C rotate show ?thesis by (simp add: avl_plug dirs inorder_plug)
  next
    case grow
    then have n: "n = height s" using b by (auto simp: heavy_def split: if_splits)
    have "avl (ins_up C (mkn d t a (heavy d) s))
        \<and> inorder (ins_up C (mkn d t a (heavy d) s)) = inorder (plug C (mkn d t a (heavy d) s))"
      by (rule "2.IH") (use grow n C "2.prems" s in \<open>auto simp: heavy_def\<close>)
    then show ?thesis using grow by (simp add: heavy_def inorder_plug mkn_def)
  qed
qed

lemma del_up_correct:
  "ctx_ok C (Suc n) \<Longrightarrow> avl t \<Longrightarrow> height t = n \<Longrightarrow>
   avl (del_up C t) \<and> inorder (del_up C t) = inorder (plug C t)"
proof (induction C t arbitrary: n rule: del_up.induct)
  case (1 t)
  then show ?case by simp
next
  case (2 d a b s C t)
  from "2.prems" have d: "d < 2" and s: "avl s" and b: "b = heavy d * (int (Suc n) - int (height s))"
      "-1 \<le> b" "b \<le> 1" and C: "ctx_ok C (Suc (max (Suc n) (height s)))" by auto
  note dirs = ctx_ok_dirs [OF C]
  consider (even) "b = 0" | (shrink) "b \<noteq> 0" "b - heavy d = 0" | (rotate) "b \<noteq> 0" "b - heavy d \<noteq> 0"
    by blast
  then show ?case
  proof cases
    case even
    then have "height s = Suc n" using b by (auto simp: heavy_def split: if_splits)
    with even "2.prems" C s show ?thesis
      by (auto simp: avl_plug dirs inorder_plug mkn_def heavy_def)
  next
    case shrink
    then have n: "height s = n" using b by (auto simp: heavy_def split: if_splits)
    have "avl (del_up C (mkn d t a 0 s))
        \<and> inorder (del_up C (mkn d t a 0 s)) = inorder (plug C (mkn d t a 0 s))"
      by (rule "2.IH") (use shrink n C "2.prems" s in auto)
    then show ?thesis using shrink by (simp add: inorder_plug mkn_def)
  next
    case rotate
    then have h: "height s = height t + 2" using b "2.prems" by (auto simp: heavy_def split: if_splits)
    have "1 - d < 2" by simp
    note r = rot_correct [OF this s \<open>avl t\<close> h]
    have i: "inorder (fst (rot (1 - d) a s t)) = inorder (mkn d t a b s)"
      using r(2) [of a b] d by (simp add: mkn_flip)
    show ?thesis
    proof (cases "snd (rot (1 - d) a s t)")
      case True
      have "avl (del_up C (fst (rot (1 - d) a s t)))
          \<and> inorder (del_up C (fst (rot (1 - d) a s t))) = inorder (plug C (fst (rot (1 - d) a s t)))"
        by (rule "2.IH"(2)) (use rotate True r h C "2.prems" in auto)
      with True rotate i show ?thesis by (simp add: inorder_plug)
    next
      case False
      with rotate r h C i "2.prems" show ?thesis by (simp add: avl_plug dirs inorder_plug)
    qed
  qed
qed

end
