(* ===== verification/FB_Avl_Refine.thy ===== *)
theory FB_Avl_Refine
  imports FB_Avl_Tree
begin

text \<open>
  The C code of \<^verbatim>\<open>fb_avl.c\<close> refines the specification of \<open>FB_Avl_Tree\<close>. The relation \<open>rep\<close> reads a
  tree off the heap: parent pointers, child indices and balances included. A tree with a hole is
  read by \<open>rep_ctx\<close>, so that the loops which climb from a node to the root are followed frame by
  frame. Every lemma says what happens to the rest of the heap, because a program keeps several
  trees, and the nodes of other structures, in the same memory.
\<close>

subsection \<open>Trees in the heap\<close>

fun rep :: "avl_heap \<Rightarrow> ptr \<Rightarrow> nat \<Rightarrow> ptr \<Rightarrow> avlt \<Rightarrow> bool" where
  "rep h par i p Leaf \<longleftrightarrow> p = NULL"
| "rep h par i p (Node l a b r) \<longleftrightarrow>
     p = a \<and> a \<noteq> NULL \<and> avl_parent (h a) = par \<and> avl_child_index (h a) = i \<and> avl_balance (h a) = b
     \<and> rep h a 0 (avl_child (h a) 0) l \<and> rep h a 1 (avl_child (h a) 1) r"

fun ctx_par :: "frame list \<Rightarrow> ptr" where
  "ctx_par [] = NULL"
| "ctx_par ((d, a, b, s) # C) = a"

fun ctx_idx :: "frame list \<Rightarrow> nat" where
  "ctx_idx [] = 0"
| "ctx_idx ((d, a, b, s) # C) = d"

fun rep_ctx :: "avl_heap \<Rightarrow> ptr \<Rightarrow> frame list \<Rightarrow> ptr \<Rightarrow> bool" where
  "rep_ctx h root [] p \<longleftrightarrow> p = root"
| "rep_ctx h root ((d, a, b, s) # C) p \<longleftrightarrow>
     d < 2 \<and> a \<noteq> NULL \<and> avl_parent (h a) = ctx_par C \<and> avl_child_index (h a) = ctx_idx C
     \<and> avl_balance (h a) = b \<and> avl_child (h a) d = p
     \<and> rep h a (1 - d) (avl_child (h a) (1 - d)) s \<and> rep_ctx h root C a"

abbreviation ctx_set :: "frame list \<Rightarrow> ptr set" where
  "ctx_set C \<equiv> set (left_of C) \<union> set (right_of C)"

lemma rep_addr: "rep h par i p t \<Longrightarrow> p = addr t"
  by (cases t) auto

lemma rep_not_NULL: "rep h par i p t \<Longrightarrow> NULL \<notin> set (inorder t)"
  by (induction h par i p t rule: rep.induct) auto

lemma addr_in: "t \<noteq> Leaf \<Longrightarrow> addr t \<in> set (inorder t)"
  by (cases t) auto

lemma rep_NULL_iff: "rep h par i p t \<Longrightarrow> p = NULL \<longleftrightarrow> t = Leaf"
  by (cases t) auto

lemma rep_mkn:
  "d < 2 \<Longrightarrow> rep h par i p (mkn d t a b s) \<longleftrightarrow>
     p = a \<and> a \<noteq> NULL \<and> avl_parent (h a) = par \<and> avl_child_index (h a) = i \<and> avl_balance (h a) = b
     \<and> rep h a d (avl_child (h a) d) t \<and> rep h a (1 - d) (avl_child (h a) (1 - d)) s"
  by (elim dir_cases) auto

lemma rep_frame:
  "(\<And>x. x \<in> set (inorder t) \<Longrightarrow> h' x = h x) \<Longrightarrow> rep h' par i p t = rep h par i p t"
  by (induction h par i p t rule: rep.induct) auto

lemma rep_upd [simp]: "x \<notin> set (inorder t) \<Longrightarrow> rep (h(x := n)) par i p t = rep h par i p t"
  by (rule rep_frame) auto

lemma rep_ctx_frame:
  "(\<And>x. x \<in> ctx_set C \<Longrightarrow> h' x = h x) \<Longrightarrow> rep_ctx h' root C p = rep_ctx h root C p"
proof (induction h root C p rule: rep_ctx.induct)
  case (2 h root d a b s C p)
  have "rep h' q j r s = rep h q j r s" for q j r
    by (rule rep_frame) (use "2.prems" in \<open>auto split: if_splits\<close>)
  moreover have "h' a = h a" by (rule "2.prems") simp
  moreover have "rep_ctx h' root C a = rep_ctx h root C a"
    by (rule "2.IH") (use "2.prems" in auto)
  ultimately show ?case by simp
qed simp

lemma rep_ctx_upd [simp]: "x \<notin> ctx_set C \<Longrightarrow> rep_ctx (h(x := n)) root C p = rep_ctx h root C p"
  by (rule rep_ctx_frame) auto

lemma rep_ctx_par: "rep_ctx h root C p \<Longrightarrow> ctx_par C = NULL \<longleftrightarrow> C = []"
  by (cases C) auto

lemma ctx_par_in: "C \<noteq> [] \<Longrightarrow> ctx_par C \<in> ctx_set C"
  by (cases C) auto

lemma rep_reparent:
  "rep h par i p t \<Longrightarrow> distinct (inorder t) \<Longrightarrow> p \<noteq> NULL \<Longrightarrow>
   rep (h(p := (h p)\<lparr>avl_parent := q, avl_child_index := j\<rparr>)) q j p t"
  by (cases t) auto

subsection \<open>A tree and its hole\<close>

definition repc :: "avl_heap \<Rightarrow> 'm avl_tree \<Rightarrow> frame list \<Rightarrow> avlt \<Rightarrow> bool" where
  "repc h tree C t \<longleftrightarrow>
     rep_ctx h (avl_root tree) C (addr t) \<and> rep h (ctx_par C) (ctx_idx C) (addr t) t
     \<and> distinct (inorder (plug C t))"

lemma repc_Cons:
  "d < 2 \<Longrightarrow> repc h tree ((d, a, b, s) # C) t \<longleftrightarrow> repc h tree C (mkn d t a b s)"
  unfolding repc_def using rep_addr [of h a d "avl_child (h a) d" t]
  by (auto simp: rep_mkn)

lemma repc_Nil:
  "repc h tree [] t \<longleftrightarrow> rep h NULL 0 (avl_root tree) t \<and> distinct (inorder t)"
  unfolding repc_def using rep_addr [of h NULL 0 "avl_root tree" t] by auto

lemma repc_plug: "dirs_ok C \<Longrightarrow> repc h tree C t \<longleftrightarrow> repc h tree [] (plug C t)"
  by (induction C t rule: plug.induct) (simp_all add: repc_Cons)

lemma repc_balance:
  assumes "repc h tree C (mkn d t a b s)" "d < 2"
  shows "repc (AVL_SETBALANCE h a b') tree C (mkn d t a b' s)"
  using assms unfolding repc_def AVL_SETBALANCE_def
  by (auto simp: rep_mkn inorder_plug mkn_def split: if_splits)

text \<open>What an operation on the nodes \<open>S\<close> leaves alone.\<close>

definition only_in :: "ptr set \<Rightarrow> avl_heap \<Rightarrow> 'm avl_tree \<Rightarrow> avl_heap \<Rightarrow> 'm avl_tree \<Rightarrow> bool" where
  "only_in S h tree h' tree' \<longleftrightarrow>
     (\<forall>x. x \<notin> S \<longrightarrow> h' x = h x) \<and> tree' = tree\<lparr>avl_root := avl_root tree'\<rparr>"

lemma only_in_refl [simp]: "only_in S h tree h tree"
  by (simp add: only_in_def)

lemma only_in_trans:
  "only_in S h tree h' tree' \<Longrightarrow> only_in S h' tree' h'' tree'' \<Longrightarrow> only_in S h tree h'' tree''"
  unfolding only_in_def by (cases tree; cases tree'; cases tree'') auto

lemma set_plug: "set (inorder (plug C t)) = ctx_set C \<union> set (inorder t)"
  by (auto simp: inorder_plug)

text \<open>Linking a new subtree into the hole.\<close>

lemma set_link_rep:
  assumes "rep_ctx h (avl_root tree) C p" "distinct (inorder (plug C t))"
    "set_link h tree (ctx_par C) (ctx_idx C) q = (h', tree')"
  shows "rep_ctx h' (avl_root tree') C q"
    "\<And>x. x \<notin> ctx_set C \<Longrightarrow> h' x = h x"
    "tree' = tree\<lparr>avl_root := avl_root tree'\<rparr>"
proof -
  have "rep_ctx h' (avl_root tree') C q \<and> (\<forall>x. x \<notin> ctx_set C \<longrightarrow> h' x = h x)
    \<and> tree' = tree\<lparr>avl_root := avl_root tree'\<rparr>"
  proof (cases C)
    case Nil
    with assms show ?thesis by (auto simp: set_link_def)
  next
    case (Cons f C')
    obtain d a b s where f: "f = (d, a, b, s)" by (cases f)
    from assms(2) have "a \<notin> ctx_set C'" "a \<notin> set (inorder s)"
      by (auto simp: Cons f inorder_plug mkn_def split: if_splits)
    with assms show ?thesis by (auto simp: set_link_def set_child_def Cons f split: if_splits)
  qed
  then show "rep_ctx h' (avl_root tree') C q"
    "\<And>x. x \<notin> ctx_set C \<Longrightarrow> h' x = h x"
    "tree' = tree\<lparr>avl_root := avl_root tree'\<rparr>" by auto
qed

subsection \<open>Rotation\<close>

definition reparent :: "avl_heap \<Rightarrow> ptr \<Rightarrow> ptr \<Rightarrow> nat \<Rightarrow> avl_heap" where
  "reparent h p q j = (if p \<noteq> NULL then AVL_SETCHILD (AVL_SETPARENT h p q) p j else h)"

lemma reparent_rep:
  "rep h par i p t \<Longrightarrow> distinct (inorder t) \<Longrightarrow> rep (reparent h p q j) q j p t"
  by (cases t) (auto simp: reparent_def AVL_SETCHILD_def AVL_SETPARENT_def)

lemma reparent_other [simp]: "x \<noteq> p \<Longrightarrow> reparent h p q j x = h x"
  by (simp add: reparent_def AVL_SETCHILD_def AVL_SETPARENT_def)

lemma reparent_frame [simp]:
  "p \<notin> set (inorder t) \<Longrightarrow> rep (reparent h p q j) par i r t = rep h par i r t"
  by (rule rep_frame) (metis reparent_other)

lemma reparent_ctx_frame [simp]:
  "p \<notin> ctx_set C \<Longrightarrow> rep_ctx (reparent h p q j) root C r = rep_ctx h root C r"
  by (rule rep_ctx_frame) (metis reparent_other)

lemmas node_ops = AVL_XPARENT_def AVL_SETPARENT_def AVL_XCHILD_def AVL_SETCHILD_def
  AVL_XBALANCE_def AVL_SETBALANCE_def child_of_def set_child_def

lemma node_ops_other [heap_simps]:
  "z \<noteq> x \<Longrightarrow> set_child h x d p z = h z"
  "z \<noteq> x \<Longrightarrow> AVL_SETPARENT h x q z = h z"
  "z \<noteq> x \<Longrightarrow> AVL_SETCHILD h x d z = h z"
  "z \<noteq> x \<Longrightarrow> AVL_SETBALANCE h x b z = h z"
  by (simp_all add: node_ops)

lemma reparent_out [heap_simps]: "z \<notin> set (inorder t) \<Longrightarrow> reparent h (addr t) q j z = h z"
  by (cases t) (auto simp: reparent_def heap_simps)

lemma heavy_shift: "d < 2 \<Longrightarrow> drop_bit 1 (2 * heavy d) = heavy d"
  by (elim dir_cases) (simp_all add: drop_bit_eq_div)

text \<open>
  The subtree a rotation builds, before it is linked into the tree: \<open>set_link\<close> is the last step
  of both branches of the code.
\<close>

definition rot_heap1 :: "avl_heap \<Rightarrow> nat \<Rightarrow> ptr \<Rightarrow> ptr \<Rightarrow> ptr \<Rightarrow> int \<Rightarrow> ptr \<Rightarrow> nat \<Rightarrow> avl_heap" where
  "rot_heap1 h d node child cright child_bal parent which_child =
     (let h = set_child h node d cright;
          h = reparent h cright node d;
          h = set_child h child (1 - d) node;
          h = AVL_SETBALANCE h node (- child_bal);
          h = AVL_SETCHILD h node (1 - d);
          h = AVL_SETPARENT h node child;
          h = AVL_SETBALANCE h child child_bal;
          h = AVL_SETCHILD h child which_child in
      AVL_SETPARENT h child parent)"

definition rot_heap2 ::
  "avl_heap \<Rightarrow> nat \<Rightarrow> ptr \<Rightarrow> ptr \<Rightarrow> ptr \<Rightarrow> ptr \<Rightarrow> ptr \<Rightarrow> int \<Rightarrow> int \<Rightarrow> ptr \<Rightarrow> nat \<Rightarrow> avl_heap" where
  "rot_heap2 h d node child gchild gleft gright cb nb parent which_child =
     (let h = set_child h node d gright;
          h = reparent h gright node d;
          h = set_child h child (1 - d) gleft;
          h = reparent h gleft child (1 - d);
          h = set_child h gchild d child;
          h = AVL_SETBALANCE h child cb;
          h = AVL_SETPARENT h child gchild;
          h = AVL_SETCHILD h child d;
          h = set_child h gchild (1 - d) node;
          h = AVL_SETBALANCE h node nb;
          h = AVL_SETPARENT h node gchild;
          h = AVL_SETCHILD h node (1 - d);
          h = AVL_SETBALANCE h gchild 0;
          h = AVL_SETPARENT h gchild parent in
      AVL_SETCHILD h gchild which_child)"

lemma avl_rotation_split:
  assumes "d < 2" "avl_child (h node) d = child" "balance = 2 * heavy d"
  defines "gchild \<equiv> avl_child (h child) (1 - d)"
  defines "gright \<equiv> avl_child (h gchild) (1 - d)"
  defines "gleft \<equiv> avl_child (h gchild) d"
  defines "cb \<equiv> avl_balance (h child) - heavy d"
  assumes neq: "avl_balance (h child) = - heavy d \<Longrightarrow>
    gchild \<noteq> node \<and> gchild \<noteq> child \<and> gchild \<noteq> gleft \<and> gchild \<noteq> gright"
  shows "avl_rotation h tree node balance =
     (if avl_balance (h child) \<noteq> - heavy d then
        (let (h', tree') = set_link (rot_heap1 h d node child gchild cb (avl_parent (h node))
             (avl_child_index (h node))) tree (avl_parent (h node)) (avl_child_index (h node)) child
         in (h', tree', cb = 0))
      else
        (let (h', tree') = set_link (rot_heap2 h d node child gchild gleft gright
             (if avl_balance (h gchild) = - heavy d then heavy d else 0)
             (if avl_balance (h gchild) = heavy d then - heavy d else 0) (avl_parent (h node))
             (avl_child_index (h node))) tree (avl_parent (h node)) (avl_child_index (h node)) gchild
         in (h', tree', True)))"
proof -
  have sgn: "(if balance < 0 then 0 else 1) = d" "drop_bit 1 balance = heavy d"
    using assms(1,3) heavy_shift [of d] by (auto elim: dir_cases)
  show ?thesis
    unfolding avl_rotation_def Let_def sgn AVL_XPARENT_def AVL_XCHILD_def AVL_XBALANCE_def
      child_of_def assms(2) rot_heap1_def rot_heap2_def reparent_def [symmetric]
    using neq
    by (simp add: gchild_def gright_def gleft_def cb_def set_child_def split: prod.split)
qed

lemma rot_heap1_rep:
  assumes d: "d < 2" and "rep h par i a (mkn d (mkn d x ca cb y) a b s)"
    and dist: "distinct (inorder (mkn d (mkn d x ca cb y) a b s))"
  shows "rep (rot_heap1 h d a ca (addr y) nb par i) par i ca (mkn d x ca nb (mkn d y a (- nb) s))"
    and "z \<notin> set (inorder (mkn d (mkn d x ca cb y) a b s)) \<Longrightarrow>
         rot_heap1 h d a ca (addr y) nb par i z = h z"
proof -
  have y: "avl_child (h ca) (1 - d) = addr y" using assms by (auto simp: rep_mkn dest: rep_addr)
  have ne: "a \<noteq> NULL" "ca \<noteq> NULL" "a \<noteq> ca" using assms by (auto simp: rep_mkn)
  have ny: "addr y \<noteq> a" "addr y \<noteq> ca" "addr y \<notin> set (inorder x)" "addr y \<notin> set (inorder s)"
    using addr_in [of y] assms rep_not_NULL by (cases y; force simp: rep_mkn)+
  let ?h = "reparent (h(a := (h a)\<lparr>avl_child := (avl_child (h a))(d := addr y)\<rparr>)) (addr y) a d"
  have "rep ?h a d (addr y) y"
    by (rule reparent_rep [where par = ca and i = "1 - d"]) (use assms y in \<open>auto simp: rep_mkn\<close>)
  then show "rep (rot_heap1 h d a ca (addr y) nb par i) par i ca (mkn d x ca nb (mkn d y a (- nb) s))"
    using assms ne ny by (elim dir_cases) (auto simp: rot_heap1_def node_ops)
  show "rot_heap1 h d a ca (addr y) nb par i z = h z"
    if "z \<notin> set (inorder (mkn d (mkn d x ca cb y) a b s))"
    using that by (simp add: rot_heap1_def heap_simps)
qed

lemma rot_heap2_rep:
  assumes d: "d < 2" and "rep h par i a (mkn d (mkn d x ca cb (mkn d gl ga gb gr)) a b s)"
    and dist: "distinct (inorder (mkn d (mkn d x ca cb (mkn d gl ga gb gr)) a b s))"
  shows "rep (rot_heap2 h d a ca ga (addr gl) (addr gr) ncb nb par i) par i ga
           (mkn d (mkn d x ca ncb gl) ga 0 (mkn d gr a nb s))"
    and "z \<notin> set (inorder (mkn d (mkn d x ca cb (mkn d gl ga gb gr)) a b s)) \<Longrightarrow>
         rot_heap2 h d a ca ga (addr gl) (addr gr) ncb nb par i z = h z"
proof -
  have ch: "avl_child (h ga) (1 - d) = addr gr" "avl_child (h ga) d = addr gl"
    using assms by (auto simp: rep_mkn dest: rep_addr)
  have ne: "a \<noteq> NULL" "ca \<noteq> NULL" "ga \<noteq> NULL" "a \<noteq> ca" "a \<noteq> ga" "ca \<noteq> ga" using assms by (auto simp: rep_mkn)
  have nr: "addr gr \<noteq> a" "addr gr \<noteq> ca" "addr gr \<noteq> ga" "addr gr \<notin> set (inorder x)"
      "addr gr \<notin> set (inorder s)" "addr gr \<notin> set (inorder gl)"
    using addr_in [of gr] assms rep_not_NULL by (cases gr; force simp: rep_mkn)+
  have nl: "addr gl \<noteq> a" "addr gl \<noteq> ca" "addr gl \<noteq> ga" "addr gl \<notin> set (inorder x)"
      "addr gl \<notin> set (inorder s)" "addr gl \<notin> set (inorder gr)"
    using addr_in [of gl] assms rep_not_NULL by (cases gl; force simp: rep_mkn)+
  let ?h1 = "reparent (h(a := (h a)\<lparr>avl_child := (avl_child (h a))(d := addr gr)\<rparr>)) (addr gr) a d"
  let ?h2 = "reparent (?h1(ca := (h ca)\<lparr>avl_child := (avl_child (h ca))(1 - d := addr gl)\<rparr>))
               (addr gl) ca (1 - d)"
  have "rep ?h1 a d (addr gr) gr"
    by (rule reparent_rep [where par = ga and i = "1 - d"]) (use assms ch in \<open>auto simp: rep_mkn\<close>)
  then have "rep ?h2 a d (addr gr) gr" using nl dist by simp
  moreover have "rep ?h2 ca (1 - d) (addr gl) gl"
    by (rule reparent_rep [where par = ga and i = d])
      (use assms ch nr nl in \<open>auto simp: rep_mkn\<close>)
  ultimately show "rep (rot_heap2 h d a ca ga (addr gl) (addr gr) ncb nb par i) par i ga
      (mkn d (mkn d x ca ncb gl) ga 0 (mkn d gr a nb s))"
    using assms ne nr nl by (elim dir_cases) (auto simp: rot_heap2_def node_ops)
  show "rot_heap2 h d a ca ga (addr gl) (addr gr) ncb nb par i z = h z"
    if "z \<notin> set (inorder (mkn d (mkn d x ca cb (mkn d gl ga gb gr)) a b s))"
    using that by (simp add: rot_heap2_def heap_simps)
qed

lemma link_repc:
  assumes ctx: "rep_ctx h (avl_root tree) C p" and dist: "distinct (inorder (plug C t'))"
    and rep: "rep h1 (ctx_par C) (ctx_idx C) (addr t') t'"
    and out: "\<And>z. z \<notin> set (inorder t') \<Longrightarrow> h1 z = h z"
    and link: "set_link h1 tree (ctx_par C) (ctx_idx C) (addr t') = (h2, tree2)"
  shows "repc h2 tree2 C t'" "only_in (set (inorder (plug C t'))) h tree h2 tree2"
proof -
  have dj: "ctx_set C \<inter> set (inorder t') = {}" using dist by (auto simp: inorder_plug)
  have "rep_ctx h1 (avl_root tree) C p"
    using ctx rep_ctx_frame [of C h1 h "avl_root tree" p] out dj by blast
  note l = set_link_rep [OF this dist link]
  have "rep h2 (ctx_par C) (ctx_idx C) (addr t') t'"
    using rep rep_frame [of t' h2 h1] l(2) dj by blast
  with l(1) dist show "repc h2 tree2 C t'" by (simp add: repc_def)
  show "only_in (set (inorder (plug C t'))) h tree h2 tree2"
    unfolding only_in_def set_plug using out l(2,3) by auto
qed

lemma avl_rotation_repc:
  assumes d: "d < 2" and r: "repc h tree C (mkn d c a b s)"
    and c: "avl c" and s: "avl s" and hgt: "height c = height s + 2"
  obtains h' tree' where
    "avl_rotation h tree a (2 * heavy d) = (h', tree', snd (rot d a c s))"
    "repc h' tree' C (fst (rot d a c s))"
    "only_in (set (inorder (plug C (mkn d c a b s)))) h tree h' tree'"
proof -
  have "c \<noteq> Leaf" using hgt by auto
  then obtain x ca cb y where C: "c = mkn d x ca cb y" using d by (rule mkn_exhaust)
  have R: "rep h (ctx_par C) (ctx_idx C) a (mkn d c a b s)"
    and ctx: "rep_ctx h (avl_root tree) C a"
    and dist: "distinct (inorder (plug C (mkn d c a b s)))" using r by (simp_all add: repc_def)
  have D: "distinct (inorder (mkn d c a b s))" using dist by (simp add: inorder_plug)
  have io: "inorder (fst (rot d a c s)) = inorder (mkn d c a b s)"
    using rot_correct(2) [OF d c s hgt] .
  have dist': "distinct (inorder (plug C (fst (rot d a c s))))"
    using dist by (simp add: inorder_plug io)
  have S: "set (inorder (plug C (fst (rot d a c s)))) = set (inorder (plug C (mkn d c a b s)))"
    by (simp add: inorder_plug io)
  have fields: "avl_parent (h a) = ctx_par C" "avl_child_index (h a) = ctx_idx C"
      "avl_child (h a) d = ca" "avl_balance (h ca) = cb" "avl_child (h ca) (1 - d) = addr y"
    using R d by (auto simp: C rep_mkn dest: rep_addr)
  have ya: "addr y \<noteq> a" "addr y \<noteq> ca"
    using R D rep_not_NULL [OF R] addr_in [of y] by (cases y; force simp: C)+
  note step = avl_rotation_split [of d h a ca "2 * heavy d" tree, OF d fields(3) refl, unfolded fields]
  show thesis
  proof (cases "cb = - heavy d")
    case True
    with c C hgt have "y \<noteq> Leaf" by (auto simp: heavy_def split: if_splits)
    then obtain gl ga gb gr where Y: "y = mkn d gl ga gb gr" using d by (rule mkn_exhaust)
    have g: "avl_child (h ga) (1 - d) = addr gr" "avl_child (h ga) d = addr gl"
        "avl_balance (h ga) = gb"
      using R d by (auto simp: C Y rep_mkn dest: rep_addr)
    have ne: "ga \<noteq> addr gl" "ga \<noteq> addr gr"
      using D addr_in [of gl] addr_in [of gr] rep_not_NULL [OF R]
      by (cases gl; cases gr; force simp: C Y)+
    let ?h1 = "rot_heap2 h d a ca ga (addr gl) (addr gr) (if gb = - heavy d then heavy d else 0)
      (if gb = heavy d then - heavy d else 0) (ctx_par C) (ctx_idx C)"
    have rt: "rot d a c s = (mkn d (mkn d x ca (if gb = - heavy d then heavy d else 0) gl) ga 0
        (mkn d gr a (if gb = heavy d then - heavy d else 0) s), True)"
      using True d by (simp add: rot_def C Y)
    obtain h2 tree2 where l: "set_link ?h1 tree (ctx_par C) (ctx_idx C) ga = (h2, tree2)"
      by fastforce
    have rh: "rep ?h1 (ctx_par C) (ctx_idx C) (addr (fst (rot d a c s))) (fst (rot d a c s))"
      using rot_heap2_rep(1) [OF d R [unfolded C Y] D [unfolded C Y]] by (simp add: rt)
    have out: "?h1 z = h z" if "z \<notin> set (inorder (fst (rot d a c s)))" for z
      using rot_heap2_rep(2) [OF d R [unfolded C Y] D [unfolded C Y]] that unfolding io
      by (simp add: C Y)
    have "avl_rotation h tree a (2 * heavy d) = (h2, tree2, snd (rot d a c s))"
      using step ya ne l True by (simp add: Y g [simplified] rt)
    then show thesis
      using that link_repc [OF ctx dist' rh out] l S by (simp add: rt)
  next
    case False
    let ?h1 = "rot_heap1 h d a ca (addr y) (cb - heavy d) (ctx_par C) (ctx_idx C)"
    have rt: "rot d a c s =
        (mkn d x ca (cb - heavy d) (mkn d y a (- (cb - heavy d)) s), cb - heavy d = 0)"
      using False d by (simp add: rot_def C)
    obtain h2 tree2 where l: "set_link ?h1 tree (ctx_par C) (ctx_idx C) ca = (h2, tree2)"
      by fastforce
    have rh: "rep ?h1 (ctx_par C) (ctx_idx C) (addr (fst (rot d a c s))) (fst (rot d a c s))"
      using rot_heap1_rep(1) [OF d R [unfolded C] D [unfolded C], of "cb - heavy d"] by (simp add: rt)
    have out: "?h1 z = h z" if "z \<notin> set (inorder (fst (rot d a c s)))" for z
      using rot_heap1_rep(2) [OF d R [unfolded C] D [unfolded C]] that unfolding io
      by (simp add: C)
    have "avl_rotation h tree a (2 * heavy d) = (h2, tree2, snd (rot d a c s))"
      using step ya l False by (simp add: rt)
    then show thesis
      using that link_repc [OF ctx dist' rh out] l S by (simp add: rt)
  qed
qed

subsection \<open>Rebalancing\<close>

lemma child2balance: "d < 2 \<Longrightarrow> avl_child2balance d = heavy d"
  by (elim dir_cases) (simp_all add: avl_child2balance_def)

lemma repc_top:
  assumes "repc h tree C (mkn d t a b s)" "d < 2"
  shows "avl_balance (h a) = b" "avl_parent (h a) = ctx_par C" "avl_child_index (h a) = ctx_idx C"
    "a \<noteq> NULL" "avl_child (h a) d = addr t" "avl_child (h a) (1 - d) = addr s"
  using assms by (auto simp: repc_def rep_mkn dest: rep_addr)

lemma only_in_setbalance:
  "a \<in> S \<Longrightarrow> only_in S h tree (AVL_SETBALANCE h a b) tree"
  unfolding only_in_def by (metis node_ops_other(4) avl_tree.surjective avl_tree.update_convs(1))

lemma repc_dist: "repc h tree C t \<Longrightarrow> distinct (inorder (plug C t))"
  by (simp add: repc_def)

lemma avl_insert_fix_repc:
  "repc h tree C t \<Longrightarrow> ctx_ok C n \<Longrightarrow> avl t \<Longrightarrow> height t = Suc n \<Longrightarrow> n = 0 \<or> bal t \<noteq> 0 \<Longrightarrow>
   \<exists>h' tree'. avl_insert_fix h tree (ctx_par C) (ctx_idx C) = Some (h', tree')
     \<and> repc h' tree' [] (ins_up C t) \<and> only_in (set (inorder (plug C t))) h tree h' tree'"
proof (induction C t arbitrary: h tree n rule: ins_up.induct)
  case (1 t)
  then show ?case by (subst avl_insert_fix.simps) simp
next
  case (2 d a b s C t)
  from "2.prems" have d: "d < 2" and s: "avl s" and b: "b = heavy d * (int n - int (height s))"
      "-1 \<le> b" "b \<le> 1" and C: "ctx_ok C (Suc (max n (height s)))" by auto
  note dirs = ctx_ok_dirs [OF C]
  have R: "repc h tree C (mkn d t a b s)" using "2.prems"(1) d by (simp add: repc_Cons)
  note top = repc_top [OF R d]
  let ?S = "set (inorder (plug C (mkn d t a b s)))"
  have S: "set (inorder (plug C (mkn d t a b' s))) = ?S" "a \<in> ?S" for b' by (auto simp: set_plug)
  note unf = avl_insert_fix.simps [of h tree a d]
  note unf = unf [unfolded Let_def AVL_XBALANCE_def top(1) child2balance [OF d]]
  consider (zero) "b + heavy d = 0" | (rotate) "b + heavy d \<noteq> 0" "b \<noteq> 0" | (grow) "b = 0" "b + heavy d \<noteq> 0"
    by (cases "b + heavy d = 0"; cases "b = 0") auto
  then show ?case
  proof cases
    case zero
    then have "avl_insert_fix h tree a d = Some (AVL_SETBALANCE h a 0, tree)"
      using unf top(4) by (simp only: if_True refl if_False)
    with zero repc_balance [OF R d, of 0, unfolded repc_plug [OF dirs]]
      only_in_setbalance [OF S(2), of h tree 0]
    show ?thesis by simp
  next
    case rotate
    then have n: "n = Suc (height s)" and bh: "b + heavy d = 2 * heavy d"
      using b by (auto simp: heavy_def split: if_splits)
    with "2.prems" have h: "height t = height s + 2" by auto
    obtain h' tree' where "avl_rotation h tree a (2 * heavy d) = (h', tree', snd (rot d a t s))"
      "repc h' tree' C (fst (rot d a t s))" "only_in ?S h tree h' tree'"
      using avl_rotation_repc [OF d R \<open>avl t\<close> s h] .
    with unf top(4) rotate bh show ?thesis by (simp add: repc_plug [OF dirs])
  next
    case grow
    then have n: "n = height s" using b by (auto simp: heavy_def split: if_splits)
    let ?h = "AVL_SETBALANCE h a (heavy d)"
    have "\<exists>h' tree'. avl_insert_fix ?h tree (ctx_par C) (ctx_idx C) = Some (h', tree')
      \<and> repc h' tree' [] (ins_up C (mkn d t a (heavy d) s))
      \<and> only_in (set (inorder (plug C (mkn d t a (heavy d) s)))) ?h tree h' tree'"
    proof (rule "2.IH")
      show "repc ?h tree C (mkn d t a (heavy d) s)" by (rule repc_balance [OF R d])
    qed (use grow n C "2.prems"(2-) s in \<open>auto simp: heavy_def\<close>)
    then obtain h' tree' where I: "avl_insert_fix ?h tree (ctx_par C) (ctx_idx C) = Some (h', tree')"
      "repc h' tree' [] (ins_up C (mkn d t a (heavy d) s))" "only_in ?S ?h tree h' tree'"
      unfolding S(1) [of "heavy d"] by blast
    have "AVL_XPARENT ?h a = ctx_par C" "AVL_XCHILD ?h a = ctx_idx C"
      using top by (simp_all add: node_ops)
    with grow unf top(4) I(1) have "avl_insert_fix h tree a d = Some (h', tree')" by simp
    with I(2) grow only_in_trans [OF only_in_setbalance [OF S(2)] I(3)] show ?thesis by simp
  qed
qed

lemma avl_remove_fix_repc:
  "repc h tree C t \<Longrightarrow> ctx_ok C (Suc n) \<Longrightarrow> avl t \<Longrightarrow> height t = n \<Longrightarrow> C \<noteq> [] \<Longrightarrow>
   \<exists>h' tree'. avl_remove_fix h tree (ctx_par C) (ctx_idx C) = Some (h', tree')
     \<and> repc h' tree' [] (del_up C t) \<and> only_in (set (inorder (plug C t))) h tree h' tree'"
proof (induction C t arbitrary: h tree n rule: del_up.induct)
  case (2 d a b s C t)
  from "2.prems" have d: "d < 2" and s: "avl s" and b: "b = heavy d * (int (Suc n) - int (height s))"
      "-1 \<le> b" "b \<le> 1" and C: "ctx_ok C (Suc (max (Suc n) (height s)))" by auto
  note dirs = ctx_ok_dirs [OF C]
  have R: "repc h tree C (mkn d t a b s)" using "2.prems"(1) d by (simp add: repc_Cons)
  note top = repc_top [OF R d]
  let ?S = "set (inorder (plug C (mkn d t a b s)))"
  have S: "set (inorder (plug C (mkn d t a b' s))) = ?S" "a \<in> ?S" for b' by (auto simp: set_plug)
  have par: "ctx_par C = NULL \<longleftrightarrow> C = []" using R rep_ctx_par unfolding repc_def by blast
  note unf = avl_remove_fix.simps [of h tree a d]
  note unf = unf [unfolded Let_def AVL_XBALANCE_def AVL_XPARENT_def AVL_XCHILD_def
      top(1-3) child2balance [OF d] par]
  consider (even) "b = 0" | (shrink) "b \<noteq> 0" "b - heavy d = 0" | (rotate) "b \<noteq> 0" "b - heavy d \<noteq> 0"
    by blast
  then show ?case
  proof cases
    case even
    then have "avl_remove_fix h tree a d = Some (AVL_SETBALANCE h a (- heavy d), tree)"
      using unf by simp
    with even repc_balance [OF R d, of "- heavy d", unfolded repc_plug [OF dirs]]
      only_in_setbalance [OF S(2), of h tree "- heavy d"]
    show ?thesis by simp
  next
    case shrink
    then have n: "height s = n" using b by (auto simp: heavy_def split: if_splits)
    let ?h = "AVL_SETBALANCE h a 0"
    have R': "repc ?h tree C (mkn d t a 0 s)" using repc_balance [OF R d] .
    show ?thesis
    proof (cases "C = []")
      case True
      with unf shrink R' only_in_setbalance [OF S(2)] show ?thesis by simp
    next
      case False
      have "\<exists>h' tree'. avl_remove_fix ?h tree (ctx_par C) (ctx_idx C) = Some (h', tree')
        \<and> repc h' tree' [] (del_up C (mkn d t a 0 s))
        \<and> only_in (set (inorder (plug C (mkn d t a 0 s)))) ?h tree h' tree'"
        by (rule "2.IH"(1) [OF _ _ R']) (use shrink n C "2.prems"(2-) s False in auto)
      then obtain h' tree' where I: "avl_remove_fix ?h tree (ctx_par C) (ctx_idx C) = Some (h', tree')"
        "repc h' tree' [] (del_up C (mkn d t a 0 s))" "only_in ?S ?h tree h' tree'"
        unfolding S(1) [of 0] by blast
      with unf shrink False have "avl_remove_fix h tree a d = Some (h', tree')" by simp
      with I(2) shrink only_in_trans [OF only_in_setbalance [OF S(2)] I(3)] show ?thesis by simp
    qed
  next
    case rotate
    then have h: "height s = height t + 2" and bh: "b - heavy d = 2 * heavy (1 - d)"
      using b d "2.prems" by (auto simp: heavy_def split: if_splits elim: dir_cases)
    have R': "repc h tree C (mkn (1 - d) s a b t)" using R d by (simp add: mkn_flip)
    let ?t = "fst (rot (1 - d) a s t)"
    have d': "1 - d < 2" by simp
    note rc = rot_correct [OF d' s \<open>avl t\<close> h]
    obtain h' tree' where I: "avl_rotation h tree a (2 * heavy (1 - d)) = (h', tree', snd (rot (1 - d) a s t))"
      "repc h' tree' C ?t" "only_in ?S h tree h' tree'"
      using avl_rotation_repc [OF d' R' s \<open>avl t\<close> h] d by (auto simp: mkn_flip)
    have St: "set (inorder (plug C ?t)) = ?S"
      using rc(2) [of a b] d by (simp add: inorder_plug mkn_flip)
    show ?thesis
    proof (cases "snd (rot (1 - d) a s t) \<and> C \<noteq> []")
      case True
      have "\<exists>h'' tree''. avl_remove_fix h' tree' (ctx_par C) (ctx_idx C) = Some (h'', tree'')
        \<and> repc h'' tree'' [] (del_up C ?t) \<and> only_in (set (inorder (plug C ?t))) h' tree' h'' tree''"
        by (rule "2.IH"(2) [OF _ _ _ I(2)]) (use rotate True rc(1,3) h C "2.prems"(3-) in auto)
      then obtain h'' tree'' where J: "avl_remove_fix h' tree' (ctx_par C) (ctx_idx C) = Some (h'', tree'')"
        "repc h'' tree'' [] (del_up C ?t)" "only_in ?S h' tree' h'' tree''" using St by auto
      with unf rotate True bh I(1) have "avl_remove_fix h tree a d = Some (h'', tree'')" by simp
      with J(2) rotate True only_in_trans [OF I(3) J(3)] show ?thesis by simp
    next
      case False
      with unf rotate bh I(1) have "avl_remove_fix h tree a d = Some (h', tree')" by auto
      with I(2,3) False rotate show ?thesis by (auto simp: repc_plug [OF dirs])
    qed
  qed
qed simp

subsection \<open>Positions and alignment\<close>

definition aligned :: "ptr \<Rightarrow> bool" where
  "aligned p \<longleftrightarrow> p AND 7 = 0"

lemma aligned_take_bit: "aligned p \<longleftrightarrow> take_bit 3 p = 0"
  unfolding aligned_def take_bit_eq_mask by (simp add: mask_eq_exp_minus_1)

lemma aligned_0 [simp]: "aligned 0"
  by (simp add: aligned_def)

lemma aligned_add: "aligned p \<Longrightarrow> aligned q \<Longrightarrow> aligned (p + q)"
  unfolding aligned_take_bit take_bit_eq_0_iff by (rule dvd_add)

lemma aligned_not_bit: assumes "aligned p" shows "\<not> bit p 0"
proof
  assume "bit p 0"
  then have "bit (take_bit 3 p) 0" by (simp add: bit_take_bit_iff)
  with assms show False by (simp add: aligned_take_bit)
qed

lemma index_laws:
  assumes "aligned p" "d < 2"
  shows "AVL_INDEX2NODE (AVL_MKINDEX p d) = p" "AVL_INDEX2CHILD (AVL_MKINDEX p d) = d"
proof -
  have b: "\<not> bit p 0" using assms aligned_not_bit by blast
  from assms(2) show "AVL_INDEX2NODE (AVL_MKINDEX p d) = p"
    unfolding AVL_INDEX2NODE_def AVL_MKINDEX_def using b
    by (elim dir_cases) (auto intro!: bit_word_eqI gr0I simp: bit_simps)
  have p1: "p AND 1 = 0" using b by (simp add: and_one_eq bit_0 even_iff_mod_2_eq_zero)
  have "(p OR of_nat d) AND 1 = of_nat d"
    using assms(2) p1 by (elim dir_cases) (simp_all add: bit.conj_disj_distrib2)
  then show "AVL_INDEX2CHILD (AVL_MKINDEX p d) = d"
    unfolding AVL_INDEX2CHILD_def AVL_MKINDEX_def using assms(2) by (elim dir_cases) simp_all
qed

subsection \<open>Searching\<close>

text \<open>The search as a function on trees: the position where the tree is left, or the node found.\<close>

fun srch :: "(ptr \<Rightarrow> int) \<Rightarrow> avlt \<Rightarrow> frame list \<Rightarrow> frame list \<times> avlt" where
  "srch f Leaf C = (C, Leaf)"
| "srch f (Node l a b r) C =
     (if f a = 0 then (C, Node l a b r)
      else if f a < 0 then srch f l ((0, a, b, r) # C) else srch f r ((1, a, b, l) # C))"

lemma srch_plug: "plug (fst (srch f t C)) (snd (srch f t C)) = plug C t"
  by (induction f t C rule: srch.induct) auto

lemma srch_dirs: "dirs_ok C \<Longrightarrow> dirs_ok (fst (srch f t C))"
  by (induction f t C rule: srch.induct) auto

lemma avl_find_loop_srch:
  "rep h par i p t \<Longrightarrow> \<forall>x \<in> set (inorder t). avl_compar tree m v (x - avl_offset tree) \<in> {-1, 0, 1} \<Longrightarrow>
   avl_find_loop m h tree v p (ctx_par C) (ctx_idx C) =
     Some (case srch (\<lambda>n. avl_compar tree m v (n - avl_offset tree)) t C of
             (C', Leaf) \<Rightarrow> (NULL, Some (AVL_MKINDEX (ctx_par C') (ctx_idx C')))
           | (C', Node l a b r) \<Rightarrow> (a - avl_offset tree, Some 0))"
proof (induction t arbitrary: par i p C)
  case Leaf
  then show ?case by (subst avl_find_loop.simps) simp
next
  case (Node l a b r)
  let ?diff = "avl_compar tree m v (a - avl_offset tree)"
  have "?diff \<in> {-1, 0, 1}" using Node.prems by simp
  moreover have "avl_balance2child 0 = 0" "avl_balance2child 2 = 1"
    by (simp_all add: avl_balance2child_def)
  moreover note Node.IH(1) [of a 0 "avl_child (h a) 0" "(0, a, b, r) # C"]
    and Node.IH(2) [of a 1 "avl_child (h a) 1" "(1, a, b, l) # C"]
  ultimately show ?case using Node.prems
    by (subst avl_find_loop.simps)
      (auto simp: AVL_NODE2DATA_def child_of_def split: prod.split)
qed

lemma avl_find_srch:
  assumes "repc h tree [] t"
    and "\<forall>x \<in> set (inorder t). avl_compar tree m v (x - avl_offset tree) \<in> {-1, 0, 1}"
  shows "avl_find m h tree v =
     Some (case srch (\<lambda>n. avl_compar tree m v (n - avl_offset tree)) t [] of
             (C', Leaf) \<Rightarrow> (NULL, Some (AVL_MKINDEX (ctx_par C') (ctx_idx C')))
           | (C', Node l a b r) \<Rightarrow> (a - avl_offset tree, Some 0))"
  using avl_find_loop_srch [of h NULL 0 "avl_root tree" t tree m v "[]"] assms
  by (simp add: avl_find_def repc_Nil)

text \<open>In a sorted tree the search separates the smaller nodes from the greater ones.\<close>

lemma srch_sorted:
  assumes "sorted_wrt (\<lambda>x y. k x < (k y :: 'k :: linorder)) (inorder (plug C t))"
    and "\<And>x. f x = (if kv < k x then -1 else if kv = k x then 0 else 1)"
    and "\<forall>x \<in> set (left_of C). k x < kv" "\<forall>x \<in> set (right_of C). kv < k x"
  shows "(\<forall>x \<in> set (left_of (fst (srch f t C))). k x < kv) \<and>
     (\<forall>x \<in> set (right_of (fst (srch f t C))). kv < k x) \<and>
     (snd (srch f t C) \<noteq> Leaf \<longrightarrow> k (addr (snd (srch f t C))) = kv)"
  using assms
proof (induction f t C rule: srch.induct)
  case (2 f l a b r C)
  have s: "\<forall>x \<in> set (inorder l). k x < k a" "\<forall>x \<in> set (inorder r). k a < k x"
    using "2.prems"(1) by (auto simp: inorder_plug sorted_wrt_append)
  consider "kv = k a" | "kv < k a" | "k a < kv" by (rule linorder_cases) auto
  then show ?case
  proof cases
    case 1
    then have "f a = 0" using "2.prems"(2) by simp
    then show ?thesis using 1 "2.prems"(3,4) by simp
  next
    case 2
    then have "kv < k x" if "x \<in> set (inorder r)" for x using s(2) that less_trans by blast
    then have "\<forall>x \<in> set (right_of ((0, a, b, r) # C)). kv < k x" using 2 "2.prems"(4) by auto
    moreover have "f a = -1" using 2 "2.prems"(2) by simp
    ultimately show ?thesis
      using "2.IH"(1) [OF _ _ _ "2.prems"(2)] "2.prems"(1,3) by (simp add: inorder_plug)
  next
    case 3
    then have "k x < kv" if "x \<in> set (inorder l)" for x using s(1) that less_trans by blast
    then have "\<forall>x \<in> set (left_of ((1, a, b, l) # C)). k x < kv" using 3 "2.prems"(3) by auto
    moreover have "f a = 1" using 3 "2.prems"(2) by (simp add: order_less_not_sym)
    ultimately show ?thesis
      using "2.IH"(2) [OF _ _ _ "2.prems"(2)] "2.prems"(1,4) by (simp add: inorder_plug)
  qed
qed simp

subsection \<open>Insertion\<close>

lemma avl_insert_repc:
  assumes r: "repc h tree C Leaf" and ok: "ctx_ok C 0" and al: "aligned (ctx_par C)"
    and a: "aligned new" "new + avl_offset tree \<noteq> NULL" "new + avl_offset tree \<notin> ctx_set C"
  defines "n \<equiv> new + avl_offset tree"
  obtains h' tree' where
    "avl_insert h tree new (AVL_MKINDEX (ctx_par C) (ctx_idx C)) = Some (h', tree')"
    "repc h' tree' [] (ins_up C (Node Leaf n 0 Leaf))"
    "only_in (insert n (ctx_set C)) h (tree\<lparr>avl_numnodes := avl_numnodes tree + 1\<rparr>) h' tree'"
proof -
  let ?t = "Node Leaf n 0 Leaf" and ?tree = "tree\<lparr>avl_numnodes := avl_numnodes tree + 1\<rparr>"
  have dirs: "ctx_idx C < 2" using ok by (cases C) auto
  have ctx: "rep_ctx h (avl_root ?tree) C NULL" using r by (simp add: repc_def)
  have dist: "distinct (inorder (plug C ?t))"
    using repc_dist [OF r] a by (auto simp: inorder_plug n_def)
  define h1 where "h1 = AVL_SETPARENT (AVL_SETBALANCE (AVL_SETCHILD (set_child (set_child h n 0 NULL) n (Suc 0) NULL)
    n (ctx_idx C)) n 0) n (ctx_par C)"
  obtain h2 tree2 where l: "set_link h1 ?tree (ctx_par C) (ctx_idx C) n = (h2, tree2)" by fastforce
  have rh: "rep h1 (ctx_par C) (ctx_idx C) (addr ?t) ?t"
    using a by (simp add: h1_def node_ops n_def)
  have out: "h1 z = h z" if "z \<notin> set (inorder ?t)" for z
    using that by (simp add: h1_def heap_simps)
  note L = link_repc [OF ctx dist rh out, unfolded addr.simps, OF _ l]
  obtain h' tree' where I: "avl_insert_fix h2 tree2 (ctx_par C) (ctx_idx C) = Some (h', tree')"
     "repc h' tree' [] (ins_up C ?t)" "only_in (set (inorder (plug C ?t))) h2 tree2 h' tree'"
    using avl_insert_fix_repc [OF L(1) ok] by auto
  have "avl_insert h tree new (AVL_MKINDEX (ctx_par C) (ctx_idx C)) = Some (h', tree')"
    using a(1) I(1) l unfolding avl_insert_def index_laws [OF al dirs] Let_def
    by (simp add: aligned_def AVL_DATA2NODE_def n_def [symmetric] h1_def [symmetric])
  moreover have "insert n (ctx_set C) = set (inorder (plug C ?t))" by (auto simp: set_plug)
  ultimately show thesis using that I(2) only_in_trans [OF L(2) I(3)] by simp
qed

end
