(* ===== verification/FB_Avl_Remove.thy ===== *)
theory FB_Avl_Remove
  imports FB_Avl_Refine
begin

text \<open>
  Removal: a node with two children changes places with its neighbour, then the node, which has at
  most one child, is unlinked and the tree is rebalanced from its parent upwards. The exchange of
  \<open>avl_remove_swap\<close> is explained as two relocations of a node, each to an address that is free at
  that moment: the neighbour to the local variable \<open>tmp\<close>, then the node to be deleted to the
  neighbour's address.
\<close>

subsection \<open>Relocating a node\<close>

definition set_par :: "avl_heap \<Rightarrow> ptr \<Rightarrow> ptr \<Rightarrow> avl_heap" where
  "set_par h p q = (if p \<noteq> NULL then AVL_SETPARENT h p q else h)"

definition relocate :: "avl_heap \<Rightarrow> 'm avl_tree \<Rightarrow> ptr \<Rightarrow> ptr \<Rightarrow> avl_heap \<times> 'm avl_tree" where
  "relocate h tree a a' =
     set_link (set_par (set_par (h(a' := h a)) (avl_child (h a) 0) a') (avl_child (h a) 1) a')
       tree (avl_parent (h a)) (avl_child_index (h a)) a'"

lemma set_par_commute: "p \<noteq> q \<Longrightarrow> set_par (set_par h p r) q r' = set_par (set_par h q r') p r"
  by (simp add: set_par_def AVL_SETPARENT_def fun_upd_twist)

lemma relocate_dir:
  assumes "d < 2" "avl_child (h a) d = p" "avl_child (h a) (1 - d) = q" "p \<noteq> q"
  shows "relocate h tree a a' = set_link (set_par (set_par (h(a' := h a)) p a') q a')
    tree (avl_parent (h a)) (avl_child_index (h a)) a'"
  using assms by (elim dir_cases) (simp_all add: relocate_def set_par_commute [of p q])

lemma set_par_rep: "rep h par i p t \<Longrightarrow> distinct (inorder t) \<Longrightarrow> rep (set_par h p q) q i p t"
  by (cases t) (auto simp: set_par_def AVL_SETPARENT_def)

lemma set_par_out [heap_simps]: "z \<notin> set (inorder t) \<Longrightarrow> set_par h (addr t) q z = h z"
  by (cases t) (auto simp: set_par_def heap_simps)

lemma set_par_frame:
  "set (inorder s) \<inter> set (inorder t) = {} \<Longrightarrow> rep (set_par h (addr s) q) par i p t = rep h par i p t"
  by (rule rep_frame) (rule set_par_out, blast)

lemma relocate_repc:
  assumes r: "repc h tree C (Node l a b r)"
    and a': "a' \<noteq> NULL" "a' \<notin> set (inorder (plug C (Node l a b r)))"
    and re: "relocate h tree a a' = (h', tree')"
  shows "repc h' tree' C (Node l a' b r)"
    "only_in (insert a' (set (inorder (plug C (Node l a b r))))) h tree h' tree'"
    "C \<noteq> [] \<Longrightarrow> tree' = tree"
proof -
  let ?t = "Node l a' b r"
  have R: "rep h (ctx_par C) (ctx_idx C) a (Node l a b r)" "rep_ctx h (avl_root tree) C a"
    and D: "distinct (inorder (plug C (Node l a b r)))" using r by (simp_all add: repc_def)
  have top: "avl_child (h a) 0 = addr l" "avl_child (h a) 1 = addr r"
      "avl_parent (h a) = ctx_par C" "avl_child_index (h a) = ctx_idx C"
    using R by (auto dest: rep_addr)
  have dl: "distinct (inorder l)" "distinct (inorder r)" "set (inorder l) \<inter> set (inorder r) = {}"
      "a' \<notin> set (inorder l)" "a' \<notin> set (inorder r)" using D a' by (auto simp: inorder_plug)
  let ?g = "set_par (h(a' := h a)) (addr l) a'" let ?h = "set_par ?g (addr r) a'"
  have "rep (h(a' := h a)) a 0 (addr l) l" "rep (h(a' := h a)) a 1 (addr r) r"
    using R dl top by auto
  then have "rep ?h a' 0 (addr l) l" "rep ?h a' 1 (addr r) r"
    using dl by (simp_all add: set_par_frame set_par_rep Int_commute)
  moreover have "?h a' = h a" using dl by (simp add: heap_simps)
  ultimately have rh: "rep ?h (ctx_par C) (ctx_idx C) (addr ?t) ?t"
    using R a'(1) top by auto
  have dist': "distinct (inorder (plug C ?t))" using D a' by (auto simp: inorder_plug)
  have out: "?h z = h z" if "z \<notin> set (inorder ?t)" for z using that by (simp add: heap_simps)
  have l: "set_link ?h tree (ctx_par C) (ctx_idx C) (addr ?t) = (h', tree')"
    using re by (simp add: relocate_def top [simplified])
  note L = link_repc [OF R(2) dist' rh out l]
  show "repc h' tree' C ?t" by (rule L(1))
  show "only_in (insert a' (set (inorder (plug C (Node l a b r))))) h tree h' tree'"
    using L(2) by (auto simp: only_in_def inorder_plug)
  show "tree' = tree" if "C \<noteq> []"
    using l that rep_ctx_par [OF R(2)] by (auto simp: set_link_def)
qed

subsection \<open>The exchange with the neighbour\<close>

text \<open>The way from the root of a subtree to its extreme node on side \<open>e\<close>.\<close>

fun path :: "nat \<Rightarrow> avlt \<Rightarrow> frame list \<Rightarrow> frame list \<times> avlt" where
  "path e Leaf D = (D, Leaf)"
| "path e (Node l a b r) D =
     (if sub e (Node l a b r) = Leaf then (D, Node l a b r)
      else if e = 0 then path e l ((0, a, b, r) # D) else path e r ((1, a, b, l) # D))"

lemma path_plug: "plug (fst (path e t D)) (snd (path e t D)) = plug D t"
  by (induction e t D rule: path.induct) auto

lemma path_end: "t \<noteq> Leaf \<Longrightarrow> snd (path e t D) \<noteq> Leaf \<and> sub e (snd (path e t D)) = Leaf"
  by (induction e t D rule: path.induct) auto

lemma path_dirs: "e < 2 \<Longrightarrow> (\<forall>f \<in> set D. fst f = e) \<Longrightarrow> \<forall>f \<in> set (fst (path e t D)). fst f = e"
  by (induction e t D rule: path.induct) (auto elim: dir_cases)

lemma avl_descend_path:
  "rep h par i p t \<Longrightarrow> t \<noteq> Leaf \<Longrightarrow> e < 2 \<Longrightarrow> avl_descend h e p = Some (addr (snd (path e t D)))"
proof (induction e t D arbitrary: par i p rule: path.induct)
  case (2 e l a b r D)
  then have c: "child_of h p e = addr (sub e (Node l a b r))" and "p = a"
    by (auto simp: child_of_def elim!: dir_cases dest: rep_addr)
  show ?case
  proof (cases "sub e (Node l a b r) = Leaf")
    case True
    then show ?thesis using c \<open>p = a\<close> by (subst avl_descend.simps) simp
  next
    case False
    then have "child_of h p e \<noteq> NULL"
      using 2(3) \<open>p = a\<close> c rep_not_NULL [OF 2(3)] addr_in [OF False] by (auto split: if_splits)
    with False 2 c \<open>p = a\<close> show ?thesis
      by (subst avl_descend.simps) (auto elim!: dir_cases simp: child_of_def)
  qed
qed simp

lemma balance2child: "b \<in> {-1, 0, 1} \<Longrightarrow> avl_balance2child (b + 1) < 2"
  by (auto simp: avl_balance2child_def)

lemma ctx_ok_addr: "ctx_ok (D @ (d, a, b, s) # C) n = ctx_ok (D @ (d, a', b, s) # C) n"
  by (induction D arbitrary: n) auto

text \<open>
  What the exchange does, for the node \<open>a\<close> to be deleted and its neighbour \<open>n\<close>: \<open>S\<close> is the other
  child of \<open>a\<close>, \<open>X\<close> the only child of \<open>n\<close>. Either \<open>n\<close> is a child of \<open>a\<close>, or it is deeper, below
  the child \<open>U\<close> of \<open>a\<close> and with the parent \<open>P\<close>.
\<close>

lemma link_at:
  "set_link h tree par i n =
     (if par = NULL then h else h(par := (h par)\<lparr>avl_child := (avl_child (h par))(i := n)\<rparr>),
      if par = NULL then tree\<lparr>avl_root := n\<rparr> else tree)"
  by (simp add: set_link_def set_child_def)

lemma swap_node_direct:
  assumes d: "d < 2"
    and a: "avl_child (h a) d = n" "avl_child (h a) (1 - d) = S" "avl_parent (h a) = par"
    and ne: "n \<noteq> tmp" "n \<noteq> S" "tmp \<noteq> S" "par \<noteq> n" "par \<noteq> tmp" "par \<noteq> S" "a \<noteq> tmp"
  shows "avl_swap_node h tree tmp a d n =
    (let k = h(tmp := (h n)\<lparr>avl_parent := n\<rparr>, n := (h a)\<lparr>avl_child := (avl_child (h a))(d := tmp)\<rparr>,
        S := (h S)\<lparr>avl_parent := n\<rparr>) in
     set_link k tree par (avl_child_index (h a)) n)"
proof -
  have d1: "1 - d \<noteq> d" using d by (elim dir_cases) simp_all
  show ?thesis using assms d1
    by (cases "par = NULL"; simp add: avl_swap_node_def node_ops link_at; simp add: fun_eq_iff)
qed

lemma swap_node_indirect:
  assumes d: "d < 2"
    and a: "avl_child (h a) d = U" "avl_child (h a) (1 - d) = S" "avl_parent (h a) = par"
    and ne: "n \<noteq> tmp" "n \<noteq> S" "tmp \<noteq> S" "par \<noteq> n" "par \<noteq> tmp" "par \<noteq> S" "a \<noteq> tmp"
      "U \<noteq> n" "U \<noteq> tmp" "U \<noteq> S" "U \<noteq> par"
  shows "avl_swap_node h tree tmp a d n =
    (let k = h(tmp := h n, n := h a, U := (h U)\<lparr>avl_parent := n\<rparr>, S := (h S)\<lparr>avl_parent := n\<rparr>) in
     set_link k tree par (avl_child_index (h a)) n)"
proof -
  have d1: "1 - d \<noteq> d" using d by (elim dir_cases) simp_all
  show ?thesis using assms d1
    by (cases "par = NULL"; simp add: avl_swap_node_def node_ops link_at; simp add: fun_eq_iff)
qed

lemma swap_tmp_at:
  assumes d: "d < 2" and t: "avl_child (h tmp) d = X" "avl_child (h tmp) (1 - d) = NULL"
    "avl_parent (h tmp) = P" "P \<noteq> tmp"
  shows "avl_swap_tmp h tmp =
    set_par (h(P := (h P)\<lparr>avl_child := (avl_child (h P))(avl_child_index (h tmp) := tmp)\<rparr>)) X tmp"
  using assms by (elim dir_cases; cases "X = NULL"; simp add: avl_swap_tmp_def node_ops set_par_def)

lemma relocate_one_child:
  assumes "d < 2" "avl_child (h n) d = X" "avl_child (h n) (1 - d) = NULL"
  shows "relocate h tree n tmp =
    set_link (set_par (h(tmp := h n)) X tmp) tree (avl_parent (h n)) (avl_child_index (h n)) tmp"
  using assms by (elim dir_cases) (simp_all add: relocate_def set_par_def)

lemmas set_par_at = set_par_def AVL_SETPARENT_def

lemma swap_direct:
  assumes d: "d < 2"
    and a: "avl_child (h a) d = n" "avl_child (h a) (1 - d) = S" "avl_parent (h a) = par"
    and n: "avl_child (h n) d = X" "avl_child (h n) (1 - d) = NULL" "avl_parent (h n) = a"
      "avl_child_index (h n) = d"
    and ne: "a \<noteq> n" "a \<noteq> tmp" "a \<noteq> S" "n \<noteq> tmp" "n \<noteq> S" "tmp \<noteq> S"
      "X \<noteq> a" "X \<noteq> n" "X \<noteq> tmp" "X \<noteq> S" "par \<noteq> a" "par \<noteq> n" "par \<noteq> tmp" "par \<noteq> S"
      "X = NULL \<or> par \<noteq> X" "a \<noteq> NULL" "n \<noteq> NULL" "tmp \<noteq> NULL" "S \<noteq> NULL"
    and r1: "relocate h tree n tmp = (h1, tree1)" and r2: "relocate h1 tree1 a n = (h2, tree2)"
    and sw: "avl_swap_node h tree tmp a d n = (h3, tree3)"
  shows "tree3 = tree2" "z \<noteq> a \<Longrightarrow> avl_swap_tmp h3 tmp z = h2 z"
proof -
  have h1: "h1 = set_par (h(tmp := h n, a := (h a)\<lparr>avl_child := (avl_child (h a))(d := tmp)\<rparr>)) X tmp"
    "tree1 = tree"
    using r1 unfolding relocate_one_child [of d h n, OF d n(1,2)] link_at n(3,4) using ne
    by (auto simp: set_par_at fun_upd_twist)
  have h1a: "h1 a = (h a)\<lparr>avl_child := (avl_child (h a))(d := tmp)\<rparr>"
    using ne by (simp add: h1 set_par_at)
  have c: "avl_child (h1 a) d = tmp" "avl_child (h1 a) (1 - d) = S" "avl_parent (h1 a) = par"
      "avl_child_index (h1 a) = avl_child_index (h a)"
    using d a by (elim dir_cases; simp add: h1a)+
  note h2 = r2 [unfolded relocate_dir [of d h1 a, OF d c(1,2) ne(6)] c(3,4) h1(2) link_at]
  note h3 = sw [unfolded swap_node_direct [of d h a, OF d a ne(4,5,6,12,13,14,2)] Let_def link_at]
  show "tree3 = tree2" using h2 h3 by simp
  have t: "avl_child (h3 tmp) d = X" "avl_child (h3 tmp) (1 - d) = NULL" "avl_parent (h3 tmp) = n"
      "avl_child_index (h3 tmp) = d" "n \<noteq> tmp"
    using n h3 ne by auto
  show "avl_swap_tmp h3 tmp z = h2 z" if "z \<noteq> a"
    unfolding swap_tmp_at [of d h3, OF d t(1,2,3,5)] t(4) using h2 h3 ne that
    by (auto simp: set_par_at h1)
qed

lemma swap_indirect:
  assumes d: "d < 2"
    and a: "avl_child (h a) d = U" "avl_child (h a) (1 - d) = S" "avl_parent (h a) = par"
    and n: "avl_child (h n) d = X" "avl_child (h n) (1 - d) = NULL" "avl_parent (h n) = P"
    and ne: "a \<noteq> n" "a \<noteq> tmp" "a \<noteq> S" "n \<noteq> tmp" "n \<noteq> S" "tmp \<noteq> S"
      "X \<noteq> a" "X \<noteq> n" "X \<noteq> tmp" "X \<noteq> S" "par \<noteq> a" "par \<noteq> n" "par \<noteq> tmp" "par \<noteq> S"
      "X = NULL \<or> par \<noteq> X" "a \<noteq> NULL" "n \<noteq> NULL" "tmp \<noteq> NULL" "S \<noteq> NULL"
    and neU: "U \<noteq> n" "U \<noteq> tmp" "U \<noteq> S" "U \<noteq> par" "U \<noteq> NULL" "U \<noteq> a" "U \<noteq> X"
    and neP: "P \<noteq> NULL" "P \<noteq> a" "P \<noteq> n" "P \<noteq> tmp" "P \<noteq> S" "P \<noteq> par" "P \<noteq> X"
    and r1: "relocate h tree n tmp = (h1, tree1)" and r2: "relocate h1 tree1 a n = (h2, tree2)"
    and sw: "avl_swap_node h tree tmp a d n = (h3, tree3)"
  shows "tree3 = tree2" "avl_swap_tmp h3 tmp z = h2 z"
proof -
  let ?i = "avl_child_index (h n)"
  have h1: "h1 = set_par (h(tmp := h n, P := (h P)\<lparr>avl_child := (avl_child (h P))(?i := tmp)\<rparr>)) X tmp"
    "tree1 = tree"
    using r1 unfolding relocate_one_child [of d h n, OF d n(1,2)] link_at n(3) using ne neP
    by (auto simp: set_par_at fun_upd_twist)
  have h1a: "h1 a = h a" using ne neP by (simp add: h1 set_par_at)
  note c = a [folded h1a]
  note h2 = r2 [unfolded relocate_dir [of d h1 a, OF d c(1,2) neU(3)] h1a a(3) h1(2) link_at]
  note h3 = sw [unfolded swap_node_indirect [of d h a, OF d a ne(4,5,6,12,13,14,2) neU(1,2,3,4)]
      Let_def link_at]
  show "tree3 = tree2" using h2 h3 by simp
  have t: "avl_child (h3 tmp) d = X" "avl_child (h3 tmp) (1 - d) = NULL" "avl_parent (h3 tmp) = P"
      "avl_child_index (h3 tmp) = ?i"
    using n h3 ne neU by auto
  show "avl_swap_tmp h3 tmp z = h2 z"
    unfolding swap_tmp_at [of d h3, OF d t(1,2,3) neP(4)] t(4) using h2 h3 ne neU neP
    by (auto simp: set_par_at h1)
qed

lemma repc_except:
  assumes "repc h tree C t" "\<And>z. z \<noteq> a \<Longrightarrow> h' z = h z" "a \<notin> set (inorder (plug C t))"
  shows "repc h' tree C t"
  using assms rep_ctx_frame [of C h' h] rep_frame [of t h' h] unfolding repc_def set_plug
  by (metis UnI1 UnI2)

lemma addr_neq: "z \<notin> set (inorder t) \<Longrightarrow> z \<noteq> NULL \<Longrightarrow> addr t \<noteq> z"
  using addr_in [of t] by (cases t) auto

lemma mkn_Node: "\<exists>l r. \<forall>y. mkn d x y b s = Node l y b r"
  by (cases "d = 0") (auto simp: mkn_def)

lemma rep_ctx_dirs: "rep_ctx h root C p \<Longrightarrow> dirs_ok C"
  by (induction h root C p rule: rep_ctx.induct) auto

lemma only_in_mono: "only_in S h tree h' tree' \<Longrightarrow> S \<subseteq> T \<Longrightarrow> only_in T h tree h' tree'"
  by (auto simp: only_in_def)

lemma ctx_par_cases: "rep_ctx h root C p \<Longrightarrow> z \<noteq> NULL \<Longrightarrow> z \<notin> ctx_set C \<Longrightarrow> ctx_par C \<noteq> z"
  using ctx_par_in [of C] by (cases C) auto

lemma addr_plug: "D \<noteq> [] \<Longrightarrow> addr (plug D t) \<in> ctx_set D"
proof (induction D t rule: plug.induct)
  case (2 d a b s C t)
  then show ?case by (cases C) auto
qed simp

text \<open>The two relocations, and the addresses they use.\<close>

lemma swap_relocations:
  assumes r: "repc h tree C (mkn d u a b s)" and d: "d < 2"
    and u: "u = plug D (mkn d x n nb Leaf)" and dD: "dirs_ok D"
    and tmp: "tmp \<noteq> NULL" "tmp \<notin> set (inorder (plug C (mkn d u a b s)))"
    and r1: "relocate h tree n tmp = (h1, tree1)" and r2: "relocate h1 tree1 a n = (h2, tree2)"
  shows "repc h2 tree2 (D @ (d, n, b, s) # C) (mkn d x tmp nb Leaf)"
    "only_in (insert tmp (set (inorder (plug C (mkn d u a b s))))) h tree h2 tree2"
    "a \<notin> set (inorder (plug (D @ (d, n, b, s) # C) (mkn d x tmp nb Leaf)))"
proof -
  let ?S = "set (inorder (plug C (mkn d u a b s)))" and ?C1 = "D @ (d, a, b, s) # C"
  have dC: "dirs_ok C" using r rep_ctx_dirs unfolding repc_def by blast
  have dirs: "dirs_ok (D @ (d, z, b, s) # C)" for z using dD dC d by (auto simp: dirs_ok_def)
  have dist: "distinct (inorder (plug C (mkn d u a b s)))" by (rule repc_dist [OF r])
  have top: "repc h tree ?C1 (mkn d x n nb Leaf)"
    using r by (simp add: repc_plug [OF dirs] repc_plug [OF dC] plug_append u)
  obtain l0 r0 where mk: "\<And>y. mkn d x y nb Leaf = Node l0 y nb r0" using mkn_Node by metis
  let ?u' = "plug D (mkn d x tmp nb Leaf)"
  obtain l1 r1 where mk1: "\<And>y. mkn d ?u' y b s = Node l1 y b r1" using mkn_Node by metis
  have S1: "set (inorder (plug ?C1 (mkn d x n nb Leaf))) = ?S" by (simp add: plug_append u)
  have nS: "n \<in> ?S" "n \<noteq> NULL" "n \<noteq> tmp"
    using repc_top(4) [OF top d] tmp by (auto simp: set_plug u)
  have aS: "a \<in> ?S" by (simp add: set_plug)
  have R1: "repc h1 tree1 ?C1 (mkn d x tmp nb Leaf)" "only_in (insert tmp ?S) h tree h1 tree1"
    using relocate_repc [OF top [unfolded mk] tmp(1) _ r1, folded mk] tmp(2) unfolding S1 by auto
  have W: "set (inorder (plug C (mkn d ?u' y b s))) = insert y (insert tmp (?S - {a, n}))" for y
    using dist d tmp by (auto simp: set_plug u inorder_plug elim!: dir_cases)
  have n': "n \<notin> set (inorder (plug C (mkn d ?u' a b s)))"
    using dist nS tmp d by (auto simp: W) (auto simp: inorder_plug u elim!: dir_cases)
  have "repc h1 tree1 C (mkn d ?u' a b s)"
    using R1(1) by (simp add: repc_plug [OF dirs] repc_plug [OF dC] plug_append)
  note R2 = relocate_repc [OF this [unfolded mk1] nS(2) n' [unfolded mk1] r2, folded mk1]
  show "repc h2 tree2 (D @ (d, n, b, s) # C) (mkn d x tmp nb Leaf)"
    using R2(1) by (simp add: repc_plug [OF dirs] repc_plug [OF dC] plug_append)
  have "only_in (insert tmp ?S) h1 tree1 h2 tree2"
    by (rule only_in_mono [OF R2(2)], unfold W) (use nS aS in blast)
  with R1(2) show "only_in (insert tmp ?S) h tree h2 tree2" by (rule only_in_trans)
  have "a \<noteq> n" "a \<noteq> tmp" using dist tmp d by (auto simp: set_plug u inorder_plug elim!: dir_cases)
  then show "a \<notin> set (inorder (plug (D @ (d, n, b, s) # C) (mkn d x tmp nb Leaf)))"
    by (simp add: plug_append W)
qed

lemma disjoint_neq: "x \<in> A \<Longrightarrow> y \<in> B \<Longrightarrow> A \<inter> B = {} \<Longrightarrow> x \<noteq> y"
  by blast

lemma or_neq: "p = NULL \<or> p \<in> A \<Longrightarrow> z \<notin> A \<Longrightarrow> z \<noteq> NULL \<Longrightarrow> p \<noteq> z"
  by blast

lemma avl_remove_swap_repc:
  assumes r: "repc h tree C (mkn d u a b s)" and d: "d < 2" "d = avl_balance2child (b + 1)"
    and nl: "u \<noteq> Leaf" "s \<noteq> Leaf"
    and p: "path (1 - d) u [] = (D, mkn d x n nb Leaf)"
    and tmp: "tmp \<noteq> NULL" "tmp \<notin> set (inorder (plug C (mkn d u a b s)))"
  obtains h' tree' where "avl_remove_swap h tree tmp a = Some (h', tree', tmp)"
    "repc h' tree' (D @ (d, n, b, s) # C) (mkn d x tmp nb Leaf)"
    "only_in (insert tmp (set (inorder (plug C (mkn d u a b s))))) h tree h' tree'"
proof -
  let ?S = "set (inorder (plug C (mkn d u a b s)))" and ?C1 = "D @ (d, a, b, s) # C"
  have e: "1 - d < 2" by simp
  have dD: "dirs_ok D" using path_dirs [OF e, of "[]" u] p e unfolding dirs_ok_def by fastforce
  have u: "u = plug D (mkn d x n nb Leaf)" using path_plug [of "1 - d" u "[]"] p by simp
  obtain h1 tree1 where r1: "relocate h tree n tmp = (h1, tree1)" by fastforce
  obtain h2 tree2 where r2: "relocate h1 tree1 a n = (h2, tree2)" by fastforce
  obtain h3 tree3 where sw: "avl_swap_node h tree tmp a d n = (h3, tree3)" by fastforce
  note R = swap_relocations [OF r d(1) u dD tmp r1 r2]
  have ctx: "rep_ctx h (avl_root tree) C a" and dC: "dirs_ok C"
    using r rep_ctx_dirs by (auto simp: repc_def)
  have dirs: "dirs_ok ?C1" using dD dC d(1) by (auto simp: dirs_ok_def)
  have inn: "repc h tree ?C1 (mkn d x n nb Leaf)"
    using r by (simp add: repc_plug [OF dirs] repc_plug [OF dC] plug_append u)
  have ru: "rep h a d (addr u) u" and rs: "rep h a (1 - d) (addr s) s"
    using r d(1) rep_addr [of h a d "avl_child (h a) d" u]
      rep_addr [of h a "1 - d" "avl_child (h a) (1 - d)" s] by (auto simp: repc_def rep_mkn)
  note A = repc_top [OF r d(1)] and N = repc_top [OF inn d(1)]
  have N6: "avl_child (h n) (1 - d) = NULL" using N(6) by simp
  have desc: "avl_descend h (1 - d) (addr u) = Some n"
    using avl_descend_path [OF ru nl(1) e, of "[]"] p by simp
  have dist: "distinct (inorder (plug C (mkn d u a b s)))" by (rule repc_dist [OF r])
  have in1: "set (inorder u) = ctx_set D \<union> insert n (set (inorder x))" by (simp add: u set_plug)
  have S0: "addr s \<noteq> NULL" "addr u \<noteq> NULL"
    using rep_NULL_iff [OF ru] rep_NULL_iff [OF rs] nl by auto
  have du: "distinct (inorder (mkn d u a b s))" using dist by (simp add: inorder_plug)
  have dj: "a \<notin> set (inorder u)" "a \<notin> set (inorder s)" "set (inorder u) \<inter> set (inorder s) = {}"
    using du by simp_all
  have "ctx_set C \<inter> set (inorder (mkn d u a b s)) = {}"
    using dist unfolding inorder_plug distinct_append by auto
  then have djC: "ctx_set C \<inter> set (inorder u) = {}" "ctx_set C \<inter> set (inorder s) = {}" "a \<notin> ctx_set C"
    by auto
  have dxn: "distinct (left_of D @ inorder (mkn d x n nb Leaf) @ right_of D)"
    using du unfolding u by (simp add: inorder_plug)
  have djD: "n \<notin> set (inorder x)" "n \<notin> ctx_set D" "ctx_set D \<inter> set (inorder x) = {}"
    using dxn unfolding distinct_append by auto
  have in2: "tmp \<notin> set (inorder u)" "tmp \<notin> set (inorder s)" "tmp \<notin> ctx_set C" "tmp \<noteq> a"
    using tmp(2) by (simp_all add: set_plug)
  have aS: "addr s \<in> set (inorder s)" "addr u \<in> set (inorder u)" using addr_in nl by auto
  have nn: "n \<in> set (inorder u)" and xu: "set (inorder x) \<subseteq> set (inorder u)"
    and Du: "ctx_set D \<subseteq> set (inorder u)" by (auto simp: in1)
  have xx: "addr x = NULL \<or> addr x \<in> set (inorder x)" using addr_in [of x] by (cases x) auto
  have cp: "ctx_par C = NULL \<or> ctx_par C \<in> ctx_set C"
    using ctx_par_in [of C] by (cases "C = []") simp_all
  have ne: "a \<noteq> n" "a \<noteq> tmp" "a \<noteq> addr s" "n \<noteq> tmp" "n \<noteq> addr s" "tmp \<noteq> addr s"
    using dj(1,2) in2(1,2,4) nn aS(1) disjoint_neq [OF nn aS(1) dj(3)] by auto
  have nx: "addr x \<noteq> a" "addr x \<noteq> n" "addr x \<noteq> tmp" "addr x \<noteq> addr s"
    by (rule or_neq [OF xx _ A(4)], use xu dj(1) in blast)
      (rule or_neq [OF xx djD(1) N(4)], rule or_neq [OF xx _ tmp(1)], use xu in2(1) in blast,
       rule or_neq [OF xx _ S0(1)], use xu dj(3) aS(1) in blast)
  have nc: "ctx_par C \<noteq> a" "ctx_par C \<noteq> n" "ctx_par C \<noteq> tmp" "ctx_par C \<noteq> addr s"
    "ctx_par C \<noteq> addr u"
    by (rule or_neq [OF cp djC(3) A(4)])
      (rule or_neq [OF cp _ N(4)], use djC(1) nn in blast, rule or_neq [OF cp in2(3) tmp(1)],
       rule or_neq [OF cp _ S0(1)], use djC(2) aS in blast, rule or_neq [OF cp _ S0(2)], use djC(1) aS in blast)
  have ncx: "addr x = NULL \<or> ctx_par C \<noteq> addr x"
    using or_neq [OF cp, of "addr x"] xx xu djC(1) by blast
  note ne = ne nx nc(1-4) ncx A(4) N(4) tmp(1) S0(1)
  have main: "tree3 = tree2 \<and> (\<forall>z. z \<noteq> a \<longrightarrow> avl_swap_tmp h3 tmp z = h2 z)"
  proof (cases D)
    case Nil
    then have un: "addr u = n" by (simp add: u)
    show ?thesis
      using swap_direct [of d h a n, OF d(1) A(5) [unfolded un] A(6) A(2) N(5) N6 _ _ ne r1 r2 sw]
        N(2,3) Nil by simp
  next
    case (Cons f D')
    have P: "ctx_par ?C1 = ctx_par D" "ctx_par D \<in> ctx_set D"
      using Cons ctx_par_in [of D] by (cases f; auto)+
    have PN: "ctx_par D \<noteq> NULL" using Cons inn by (cases f) (auto simp: repc_def)
    have U: "addr u \<in> ctx_set D" using addr_plug [of D] Cons by (simp add: u)
    have Ux: "addr u \<notin> set (inorder x)" using U djD(3) by blast
    have neU: "addr u \<noteq> n" "addr u \<noteq> tmp" "addr u \<noteq> addr s" "addr u \<noteq> ctx_par C"
        "addr u \<noteq> NULL" "addr u \<noteq> a" "addr u \<noteq> addr x"
      using U djD(2) aS(2) in2(1) disjoint_neq [OF aS(2,1) dj(3)] nc(5) S0(2) dj(1)
        or_neq [OF xx Ux S0(2)] by auto
    have Pu: "ctx_par D \<in> set (inorder u)" using P(2) Du by blast
    have Pc: "ctx_par D \<notin> ctx_set C" and Px: "ctx_par D \<notin> set (inorder x)"
      using Pu djC(1) P(2) djD(3) by blast+
    have neP: "ctx_par D \<noteq> NULL" "ctx_par D \<noteq> a" "ctx_par D \<noteq> n" "ctx_par D \<noteq> tmp"
        "ctx_par D \<noteq> addr s" "ctx_par D \<noteq> ctx_par C" "ctx_par D \<noteq> addr x"
      using P(2) PN Pu dj(1) djD(2) in2(1) disjoint_neq [OF Pu aS(1) dj(3)]
        or_neq [OF cp Pc PN] or_neq [OF xx Px PN] by auto
    show ?thesis
      using swap_indirect [of d h a "addr u", OF d(1) A(5,6,2) N(5) N6 N(2) [unfolded P(1)] ne neU neP r1 r2 sw]
      by blast
  qed
  let ?h = "avl_swap_tmp h3 tmp"
  have "avl_remove_swap h tree tmp a = Some (?h, tree2, tmp)"
    using S0 A(1,5,6) d desc main sw
    by (auto simp: avl_remove_swap_def child_of_def AVL_XBALANCE_def elim!: dir_cases)
  moreover have "repc ?h tree2 (D @ (d, n, b, s) # C) (mkn d x tmp nb Leaf)"
    by (rule repc_except [OF R(1) _ R(3)]) (use main in blast)
  moreover have "only_in (insert tmp ?S) h tree ?h tree2"
    using R(2) main unfolding only_in_def by (auto simp: set_plug)
  ultimately show thesis by (rule that)
qed

subsection \<open>Unlinking and rebalancing\<close>

lemma avl_unlink_repc:
  assumes r: "repc h tree C (mkn d x a b Leaf)" and d: "d < 2"
    and av: "avl (plug C (mkn d x a b Leaf))"
  defines "i \<equiv> ctx_idx C" and "p \<equiv> ctx_par C"
  obtains h' tree' where
    "(let node = (if child_of h a 0 \<noteq> NULL then child_of h a 0 else child_of h a 1);
          h = (if node \<noteq> NULL then AVL_SETCHILD (AVL_SETPARENT h node p) node i else h) in
      if p = NULL then Some (h, tree\<lparr>avl_root := node\<rparr>)
      else avl_remove_fix (set_child h p i node) tree p i) = Some (h', tree')"
    "repc h' tree' [] (del_up C x)" "avl (del_up C x)" "inorder (del_up C x) = left_of C @ inorder x @ right_of C"
    "only_in (set (inorder (plug C x))) h tree h' tree'"
proof -
  note top = repc_top [OF r d]
  have ctx: "rep_ctx h (avl_root tree) C a" using r by (simp add: repc_def)
  have dirs: "dirs_ok C" by (rule rep_ctx_dirs [OF ctx])
  have rx: "rep h a d (addr x) x" using r d rep_addr [of h a d "avl_child (h a) d" x]
    by (auto simp: repc_def rep_mkn)
  have dist: "distinct (inorder (plug C (mkn d x a b Leaf)))" by (rule repc_dist [OF r])
  then have dx: "distinct (inorder x)" "distinct (inorder (plug C x))"
    by (auto simp: inorder_plug mkn_def split: if_splits)
  have node: "(if child_of h a 0 \<noteq> NULL then child_of h a 0 else child_of h a 1) = addr x"
    using d top(5,6) by (elim dir_cases) (simp_all add: child_of_def)
  have avx: "avl x" "ctx_ok C (Suc (height x))" using av by (auto simp: avl_plug [OF dirs])
  note del = del_up_correct [OF avx(2,1) refl]
  obtain h2 tree2 where l: "set_link (reparent h (addr x) p i) tree p i (addr x) = (h2, tree2)" by fastforce
  have L: "repc h2 tree2 C x" "only_in (set (inorder (plug C x))) h tree h2 tree2"
    using link_repc [OF ctx dx(2) _ _ l [unfolded p_def i_def]] reparent_rep [OF rx dx(1)]
    by (simp_all add: reparent_out p_def i_def)
  show thesis
  proof (cases "C = []")
    case True
    then have "p = NULL" by (simp add: p_def)
    with l that [of h2 tree2] L del True show thesis
      unfolding node Let_def reparent_def [symmetric] by (simp add: set_link_def)
  next
    case False
    then have p: "p \<noteq> NULL" using rep_ctx_par [OF ctx] by (simp add: p_def)
    obtain h' tree' where I: "avl_remove_fix h2 tree2 p i = Some (h', tree')"
      "repc h' tree' [] (del_up C x)" "only_in (set (inorder (plug C x))) h2 tree2 h' tree'"
      using avl_remove_fix_repc [OF L(1) avx(2,1) refl False] by (auto simp: p_def i_def)
    show thesis
      by (rule that [of h' tree'])
        (use I p l del only_in_trans [OF L(2) I(3)] in
          \<open>auto simp: node [simplified] Let_def reparent_def [symmetric] set_link_def inorder_plug\<close>)
  qed
qed

lemma find_node:
  "n \<in> set (inorder t) \<Longrightarrow> \<exists>C l b r. dirs_ok C \<and> t = plug C (Node l n b r)"
proof (induction t)
  case (Node l a b r)
  consider "n = a" | "n \<in> set (inorder l)" | "n \<in> set (inorder r)" using Node.prems by auto
  then show ?case
  proof cases
    case 1
    then show ?thesis by (intro exI [of _ "[]"]) simp
  next
    case 2
    then obtain C l' b' r' where "dirs_ok C" "l = plug C (Node l' n b' r')" using Node.IH(1) by blast
    then show ?thesis
      by (intro exI [of _ "C @ [(0, a, b, r)]"]) (auto simp: plug_append dirs_ok_def)
  next
    case 3
    then obtain C l' b' r' where "dirs_ok C" "r = plug C (Node l' n b' r')" using Node.IH(2) by blast
    then show ?thesis
      by (intro exI [of _ "C @ [(1, a, b, l)]"]) (auto simp: plug_append dirs_ok_def)
  qed
qed simp

lemma repc_numnodes [simp]: "repc h (tree\<lparr>avl_numnodes := k\<rparr>) C t = repc h tree C t"
  by (simp add: repc_def)

lemma only_in_numnodes:
  "only_in S h tree h' tree' \<Longrightarrow> only_in S h (tree\<lparr>avl_numnodes := k\<rparr>) h' (tree'\<lparr>avl_numnodes := k\<rparr>)"
  unfolding only_in_def by (cases tree; cases tree') auto

lemma only_in_fields:
  "only_in S h tree h' tree' \<Longrightarrow> avl_numnodes tree' = avl_numnodes tree"
  "only_in S h tree h' tree' \<Longrightarrow> avl_offset tree' = avl_offset tree"
  "only_in S h tree h' tree' \<Longrightarrow> avl_compar tree' = avl_compar tree"
  unfolding only_in_def by (metis avl_tree.select_convs avl_tree.surjective avl_tree.update_convs(1))+

lemma ctx_sides_append:
  "left_of (D @ E) = left_of E @ left_of D" "right_of (D @ E) = right_of D @ right_of E"
  by (induction D) auto

lemma one_sided:
  "\<forall>f \<in> set D. fst f = Suc 0 \<Longrightarrow> right_of D = []" "\<forall>f \<in> set D. fst f = 0 \<Longrightarrow> left_of D = []"
  by (induction D) auto

text \<open>The part of \<open>avl_remove\<close> after the exchange, on any node with at most one child.\<close>

lemma avl_remove_tail:
  assumes sw: "avl_remove_swap h tree tmp n = Some (h1, tree1, a)"
    and o: "only_in S h tree h1 tree1"
    and r: "repc h1 tree1 C (mkn d x a b Leaf)" and d: "d < 2" and av: "avl (plug C (mkn d x a b Leaf))"
    and nn: "avl_numnodes tree \<noteq> 0" and S: "set (inorder (plug C x)) \<subseteq> S"
  shows "\<exists>h' tree' t'. avl_remove h tree tmp (n - avl_offset tree) = Some (h', tree')
    \<and> repc h' tree' [] t' \<and> avl t' \<and> inorder t' = left_of C @ inorder x @ right_of C
    \<and> only_in S h (tree\<lparr>avl_numnodes := avl_numnodes tree - 1\<rparr>) h' tree'"
proof -
  let ?k = "avl_numnodes tree - 1"
  have r': "repc h1 (tree1\<lparr>avl_numnodes := ?k\<rparr>) C (mkn d x a b Leaf)" using r by simp
  note top = repc_top [OF r d]
  obtain h' tree' where U:
    "(let node = (if child_of h1 a 0 \<noteq> NULL then child_of h1 a 0 else child_of h1 a 1);
          h = (if node \<noteq> NULL then AVL_SETCHILD (AVL_SETPARENT h1 node (ctx_par C)) node (ctx_idx C) else h1) in
      if ctx_par C = NULL then Some (h, tree1\<lparr>avl_numnodes := ?k, avl_root := node\<rparr>)
      else avl_remove_fix (set_child h (ctx_par C) (ctx_idx C) node) (tree1\<lparr>avl_numnodes := ?k\<rparr>)
        (ctx_par C) (ctx_idx C)) = Some (h', tree')"
    "repc h' tree' [] (del_up C x)" "avl (del_up C x)" "inorder (del_up C x) = left_of C @ inorder x @ right_of C"
    "only_in (set (inorder (plug C x))) h1 (tree1\<lparr>avl_numnodes := ?k\<rparr>) h' tree'"
    using avl_unlink_repc [OF r' d av] by auto
  have "avl_remove h tree tmp (n - avl_offset tree) = Some (h', tree')"
    using U(1) [unfolded Let_def] nn
    by (simp only: avl_remove_def AVL_DATA2NODE_def diff_add_cancel sw option.case prod.case
        only_in_fields [OF o] AVL_XPARENT_def AVL_XCHILD_def Let_def top if_False)
  with U only_in_trans [OF only_in_numnodes [OF o, of ?k] only_in_mono [OF U(5) S]] show ?thesis by blast
qed

lemma avl_remove_repc:
  assumes r: "repc h tree [] t" and av: "avl t" and n: "n \<in> set (inorder t)"
    and tmp: "tmp \<noteq> NULL" "tmp \<notin> set (inorder t)" and nn: "avl_numnodes tree \<noteq> 0"
  obtains h' tree' t' where "avl_remove h tree tmp (n - avl_offset tree) = Some (h', tree')"
    "repc h' tree' [] t'" "avl t'" "inorder t' = remove1 n (inorder t)"
    "only_in (insert tmp (set (inorder t))) h (tree\<lparr>avl_numnodes := avl_numnodes tree - 1\<rparr>) h' tree'"
proof -
  let ?S = "insert tmp (set (inorder t))"
  obtain C l b rr where dirs: "dirs_ok C" and t: "t = plug C (Node l n b rr)" using find_node [OF n] by blast
  have R: "repc h tree C (Node l n b rr)" using r by (simp add: repc_plug [OF dirs] t)
  have dist: "distinct (inorder t)" using repc_dist [OF r] by simp
  have n1: "n \<notin> set (left_of C)" "n \<notin> set (inorder l)" using dist by (auto simp: t inorder_plug)
  have io: "remove1 n (inorder t) = left_of C @ inorder l @ inorder rr @ right_of C"
    using n1 by (simp add: t inorder_plug remove1_append)
  have "\<exists>h' tree' t'. avl_remove h tree tmp (n - avl_offset tree) = Some (h', tree')
    \<and> repc h' tree' [] t' \<and> avl t' \<and> inorder t' = remove1 n (inorder t)
    \<and> only_in ?S h (tree\<lparr>avl_numnodes := avl_numnodes tree - 1\<rparr>) h' tree'"
  proof (cases "l = Leaf \<or> rr = Leaf")
    case True
    then obtain d x where d: "d < 2" and m: "Node l n b rr = mkn d x n b Leaf"
      and x: "inorder x = inorder l @ inorder rr"
      by (metis append_Nil append_Nil2 inorder.simps(1) mkn_simps one_less_numeral_iff One_nat_def
          semiring_norm(76) zero_less_numeral)
    note top = repc_top [OF R [unfolded m] d]
    have "avl_remove_swap h tree tmp n = Some (h, tree, n)"
      using d top(5,6) by (elim dir_cases) (simp_all add: avl_remove_swap_def child_of_def)
    moreover have "set (inorder (plug C x)) \<subseteq> ?S" by (auto simp: t set_plug x)
    ultimately show ?thesis
      using avl_remove_tail [OF _ only_in_refl R [unfolded m] d av [unfolded t m] nn, of tmp n ?S]
      unfolding io x by simp
  next
    case False
    let ?d = "avl_balance2child (b + 1)"
    have d: "?d < 2" by (rule balance2child) (use av dirs in \<open>auto simp: t avl_plug\<close>)
    let ?u = "if ?d = 0 then l else rr" and ?s = "if ?d = 0 then rr else l"
    have m: "Node l n b rr = mkn ?d ?u n b ?s" using d by (simp add: mkn_def)
    have nl: "?u \<noteq> Leaf" "?s \<noteq> Leaf" using False by auto
    obtain D N where p0: "path (1 - ?d) ?u [] = (D, N)" by fastforce
    have e: "1 - ?d < 2" by simp
    have N: "N \<noteq> Leaf" "sub (1 - ?d) N = Leaf" using path_end [OF nl(1), of "1 - ?d" "[]"] p0 by auto
    obtain x a nb y where "N = mkn ?d x a nb y" using N(1) d by (rule mkn_exhaust)
    then have p: "path (1 - ?d) ?u [] = (D, mkn ?d x a nb Leaf)" using N(2) d p0 by simp
    have uD: "?u = plug D (mkn ?d x a nb Leaf)" using path_plug [of "1 - ?d" ?u "[]"] p by simp
    have dD: "\<forall>f \<in> set D. fst f = 1 - ?d" using path_dirs [OF e, of "[]" ?u] p by simp
    then have dDo: "dirs_ok D" using e unfolding dirs_ok_def by fastforce
    obtain h1 tree1 where S: "avl_remove_swap h tree tmp n = Some (h1, tree1, tmp)"
      "repc h1 tree1 (D @ (?d, a, b, ?s) # C) (mkn ?d x tmp nb Leaf)" "only_in ?S h tree h1 tree1"
      using avl_remove_swap_repc [OF R [unfolded m] d refl nl p tmp(1)] tmp(2) unfolding t m by blast
    let ?C2 = "D @ (?d, a, b, ?s) # C"
    have dirs2: "dirs_ok (D @ (?d, z, b, ?s) # C)" for z using dDo dirs d by (auto simp: dirs_ok_def)
    have "avl (plug (D @ (?d, n, b, ?s) # C) (mkn ?d x a nb Leaf))"
      using av unfolding t m by (simp add: plug_append uD [symmetric])
    then have av2: "avl (plug ?C2 (mkn ?d x tmp nb Leaf))"
      unfolding avl_plug [OF dirs2] avl_mkn height_mkn ctx_ok_addr [of D ?d n b ?s C _ a] .
    have io2: "left_of ?C2 @ inorder x @ right_of ?C2 = remove1 n (inorder t)"
      unfolding io ctx_sides_append using d
    proof (rule dir_cases)
      assume d0: "?d = 0"
      have "inorder l = left_of D @ inorder x @ [a]" using uD d0 one_sided(1) [of D] dD
        by (simp add: inorder_plug)
      with d0 one_sided(1) [of D] dD show "(left_of ((?d, a, b, ?s) # C) @ left_of D) @ inorder x @
          right_of D @ right_of ((?d, a, b, ?s) # C) = left_of C @ inorder l @ inorder rr @ right_of C"
        by simp
    next
      assume d0: "?d = Suc 0"
      have "inorder rr = a # inorder x @ right_of D" using uD d0 one_sided(2) [of D] dD
        by (simp add: inorder_plug)
      with d0 one_sided(2) [of D] dD show "(left_of ((?d, a, b, ?s) # C) @ left_of D) @ inorder x @
          right_of D @ right_of ((?d, a, b, ?s) # C) = left_of C @ inorder l @ inorder rr @ right_of C"
        by simp
    qed
    have "set (inorder (plug ?C2 x)) = set (remove1 n (inorder t))"
      unfolding inorder_plug io2 ..
    then have "set (inorder (plug ?C2 x)) \<subseteq> ?S" using set_remove1_subset by fastforce
    from avl_remove_tail [OF S(1,3,2) d av2 nn this] show ?thesis unfolding io2 .
  qed
  then show thesis using that by blast
qed

end
