(* ===== verification/FB_Avl_Correct.thy ===== *)
theory FB_Avl_Correct
  imports FB_Avl_Remove
begin

text \<open>
  The contract of the AVL library, over the lists of data pointers a caller sees: \<open>avl_holds\<close>
  says that the tree structure and the heap represent a balanced tree whose objects are, in
  order, the given list. The comparison function enters through the locale \<open>avl_order\<close>, which
  the users of the library interpret with their own comparison functions.
\<close>

subsection \<open>Ends of a tree and neighbours of a node\<close>

definition first_or_null :: "ptr list \<Rightarrow> ptr" where
  "first_or_null xs = (case xs of [] \<Rightarrow> NULL | x # _ \<Rightarrow> x)"

lemma first_or_null_simps [simp]: "first_or_null [] = NULL" "first_or_null (x # xs) = x"
  by (simp_all add: first_or_null_def)

lemma first_or_null_append [simp]:
  "first_or_null (xs @ ys) = (if xs = [] then first_or_null ys else first_or_null xs)"
  by (cases xs) auto

text \<open>The nodes met from the hole outwards on side \<open>e\<close>, and the nodes of a tree from side \<open>e\<close>.\<close>

definition beyond :: "nat \<Rightarrow> frame list \<Rightarrow> ptr list" where
  "beyond e C = (if e = 0 then right_of C else rev (left_of C))"

definition from_side :: "nat \<Rightarrow> avlt \<Rightarrow> ptr list" where
  "from_side e t = (if e = 0 then inorder t else rev (inorder t))"

lemma inorder_Nil_iff [simp]: "inorder t = [] \<longleftrightarrow> t = Leaf"
  by (cases t) auto

lemma path_addr:
  assumes "t \<noteq> Leaf" "e < 2"
  shows "addr (snd (path e t [])) = first_or_null (from_side e t)"
proof -
  obtain D N where p: "path e t [] = (D, N)" by fastforce
  have N: "N \<noteq> Leaf" "sub e N = Leaf" using path_end [OF assms(1), of e "[]"] p by auto
  have t: "t = plug D N" using path_plug [of e t "[]"] p by simp
  have D: "\<forall>f \<in> set D. fst f = e" using path_dirs [OF assms(2), of "[]" t] p by simp
  from N obtain l a b r where Nn: "N = Node l a b r" by (cases N) auto
  from assms(2) show ?thesis
  proof (rule dir_cases)
    assume "e = 0"
    with N D Nn p show ?thesis by (simp add: t from_side_def inorder_plug one_sided)
  next
    assume "e = Suc 0"
    with N D Nn p show ?thesis by (simp add: t from_side_def inorder_plug one_sided)
  qed
qed

lemma avl_end_loop_path:
  "rep h par i p t \<Longrightarrow> e < 2 \<Longrightarrow>
   avl_end_loop h e p prev = Some (if t = Leaf then prev else first_or_null (from_side e t))"
proof (induction t arbitrary: par i p prev)
  case Leaf
  then show ?case by (subst avl_end_loop.simps) simp
next
  case (Node l a b r)
  note IH = Node.IH(1) [of a 0 "avl_child (h a) 0" a] Node.IH(2) [of a 1 "avl_child (h a) 1" a]
  from Node.prems(2) show ?case
  proof (rule dir_cases)
    assume e: "e = 0"
    show ?thesis using Node.prems IH e
      by (subst avl_end_loop.simps) (auto simp: child_of_def from_side_def)
  next
    assume e: "e = Suc 0"
    show ?thesis using Node.prems IH e
      by (subst avl_end_loop.simps) (auto simp: child_of_def from_side_def)
  qed
qed

lemma avl_climb_ctx:
  "rep_ctx h root C p \<Longrightarrow> avl_parent (h p) = ctx_par C \<Longrightarrow> avl_child_index (h p) = ctx_idx C \<Longrightarrow> e < 2 \<Longrightarrow>
   avl_climb h e p = Some (first_or_null (beyond e C))"
proof (induction h root C p rule: rep_ctx.induct)
  case (1 h root p)
  then show ?case by (subst avl_climb.simps) (simp add: AVL_XPARENT_def beyond_def)
next
  case (2 h root d a b s C p)
  have IH: "avl_climb h e a = Some (first_or_null (beyond e C))" using 2 by simp
  show ?case using 2(2-5) IH
    by (subst avl_climb.simps) (auto simp: AVL_XPARENT_def AVL_XCHILD_def beyond_def elim!: dir_cases)
qed

lemma avl_walk_ctx:
  assumes r: "repc h tree C (Node l n b r)" and e: "e < 2"
  defines "off \<equiv> avl_offset tree"
  shows "avl_walk h tree (n - off) e =
    Some (let x = first_or_null (from_side (1 - e) (sub e (Node l n b r)) @ beyond (1 - e) C) in
          if x = NULL then NULL else x - off)"
proof -
  let ?s = "sub e (Node l n b r)"
  have R: "rep h (ctx_par C) (ctx_idx C) n (Node l n b r)" "rep_ctx h (avl_root tree) C n"
    using r by (simp_all add: repc_def)
  have n: "n \<noteq> NULL" "avl_parent (h n) = ctx_par C" "avl_child_index (h n) = ctx_idx C"
    using R(1) by simp_all
  have c: "rep h n e (avl_child (h n) e) ?s" using R(1) e by (elim dir_cases) simp_all
  have e': "1 - e < 2" by simp
  have fs: "from_side (1 - e) ?s = [] \<longleftrightarrow> ?s = Leaf" by (cases ?s) (auto simp: from_side_def)
  show ?thesis
  proof (cases "?s = Leaf")
    case True
    then have "avl_child (h n) e = NULL" using c rep_NULL_iff by blast
    with True n avl_climb_ctx [OF R(2) n(2,3) e'] fs show ?thesis
      by (simp add: avl_walk_def AVL_DATA2NODE_def AVL_NODE2DATA_def off_def child_of_def Let_def)
  next
    case False
    then have "avl_child (h n) e \<noteq> NULL" using c rep_NULL_iff by blast
    moreover have "avl_descend h (1 - e) (avl_child (h n) e) = Some (first_or_null (from_side (1 - e) ?s))"
      using avl_descend_path [OF c False e', of "[]"] path_addr [OF False e'] by simp
    moreover have "first_or_null (from_side (1 - e) ?s) \<noteq> NULL"
      using rep_not_NULL [OF c] fs False
      by (cases "from_side (1 - e) ?s") (auto simp: from_side_def split: if_splits)
    ultimately show ?thesis using n fs False
      by (simp add: avl_walk_def AVL_DATA2NODE_def AVL_NODE2DATA_def off_def child_of_def Let_def)
  qed
qed

subsection \<open>The contract\<close>

definition avl_holds :: "avl_heap \<Rightarrow> 'm avl_tree \<Rightarrow> ptr list \<Rightarrow> bool" where
  "avl_holds h tree ds \<longleftrightarrow>
     (\<exists>t. repc h tree [] t \<and> avl t \<and> inorder t = map (\<lambda>d. AVL_DATA2NODE d (avl_offset tree)) ds)
     \<and> NULL \<notin> set ds \<and> (\<forall>d \<in> set ds. aligned d) \<and> aligned (avl_offset tree)
     \<and> avl_numnodes tree = of_nat (length ds)"

text \<open>The nodes of the objects \<open>ds\<close>: the addresses an operation on the tree may write to.\<close>

definition nodes_of :: "'m avl_tree \<Rightarrow> ptr list \<Rightarrow> ptr set" where
  "nodes_of tree ds = (\<lambda>d. AVL_DATA2NODE d (avl_offset tree)) ` set ds"

lemma avl_holds_distinct: "avl_holds h tree ds \<Longrightarrow> distinct ds"
  unfolding avl_holds_def using repc_dist by (metis distinct_map plug.simps(1))

lemma avl_holds_short: "avl_holds h tree ds \<Longrightarrow> length ds < 2 ^ 64"
proof -
  assume H: "avl_holds h tree ds"
  then have "set ds \<subset> UNIV" unfolding avl_holds_def by blast
  then have "card (set ds) < card (UNIV :: ptr set)" by (rule psubset_card_mono [OF finite])
  with avl_holds_distinct [OF H] show ?thesis by (simp add: distinct_card card_word)
qed

lemma avl_holds_numnodes: "avl_holds h tree ds \<Longrightarrow> unat (avl_numnodes tree) = length ds"
  using avl_holds_short [of h tree ds] by (simp add: avl_holds_def unat_of_nat take_bit_nat_eq_self)

lemma avl_holds_node:
  "avl_holds h tree ds \<Longrightarrow> d \<in> set ds \<Longrightarrow> AVL_DATA2NODE d (avl_offset tree) \<noteq> NULL"
  using rep_not_NULL by (fastforce simp: avl_holds_def repc_Nil)

lemma avl_holds_frame:
  "avl_holds h tree ds \<Longrightarrow> (\<And>x. x \<in> nodes_of tree ds \<Longrightarrow> h' x = h x) \<Longrightarrow> avl_holds h' tree ds"
proof -
  assume H: "avl_holds h tree ds" and e: "\<And>x. x \<in> nodes_of tree ds \<Longrightarrow> h' x = h x"
  obtain t where t: "repc h tree [] t" "avl t" "inorder t = map (\<lambda>d. AVL_DATA2NODE d (avl_offset tree)) ds"
    using H unfolding avl_holds_def by blast
  have "rep h' NULL 0 (avl_root tree) t = rep h NULL 0 (avl_root tree) t"
    by (rule rep_frame) (simp add: e t(3) nodes_of_def)
  then have "repc h' tree [] t" using t(1) by (simp add: repc_Nil)
  with t(2,3) H show ?thesis unfolding avl_holds_def by blast
qed

lemma avl_first_holds:
  assumes "avl_holds h tree ds"
  shows "avl_first h tree = Some (first_or_null ds)" "avl_last h tree = Some (first_or_null (rev ds))"
proof -
  obtain t where t: "rep h NULL 0 (avl_root tree) t" "inorder t = map (\<lambda>d. d + avl_offset tree) ds"
    using assms by (auto simp: avl_holds_def repc_Nil AVL_DATA2NODE_def)
  note l = avl_end_loop_path [OF t(1), where prev = NULL]
  have nz: "\<forall>x \<in> set (inorder t). x \<noteq> NULL" using rep_not_NULL [OF t(1)] by auto
  have e: "t = Leaf \<longleftrightarrow> ds = []" using t(2) inorder_Nil_iff by fastforce
  show "avl_first h tree = Some (first_or_null ds)"
    using l [of 0] nz unfolding t(2) e
    by (cases ds) (auto simp: avl_first_def from_side_def t(2) AVL_NODE2DATA_def)
  show "avl_last h tree = Some (first_or_null (rev ds))"
    using l [of 1] nz unfolding t(2) e
    by (cases ds rule: rev_cases) (auto simp: avl_last_def from_side_def t(2) AVL_NODE2DATA_def)
qed

lemma distinct_split:
  "distinct (xs @ x # ys) \<Longrightarrow> xs @ x # ys = us @ x # vs \<Longrightarrow> xs = us \<and> ys = vs"
  by (metis append_Cons_eq_iff distinct.simps(2) distinct_append disjoint_insert(1) list.simps(15)
      not_distinct_conv_prefix)

lemma avl_walk_holds:
  assumes H: "avl_holds h tree (xs @ d # ys)"
  shows "AVL_NEXT h tree d = Some (first_or_null ys)" "AVL_PREV h tree d = Some (first_or_null (rev xs))"
proof -
  let ?f = "\<lambda>d. AVL_DATA2NODE d (avl_offset tree)" and ?n = "AVL_DATA2NODE d (avl_offset tree)"
  obtain t where t: "repc h tree [] t" "inorder t = map ?f (xs @ d # ys)"
    using H unfolding avl_holds_def by blast
  have "?n \<in> set (inorder t)" using t(2) by simp
  then obtain C l b r where dirs: "dirs_ok C" and p: "t = plug C (Node l ?n b r)" using find_node by blast
  have R: "repc h tree C (Node l ?n b r)" using t(1) by (simp add: repc_plug [OF dirs] p)
  have eq: "(left_of C @ inorder l) @ ?n # (inorder r @ right_of C) = map ?f xs @ ?n # map ?f ys"
    using t(2) by (simp add: p inorder_plug)
  have "distinct ((left_of C @ inorder l) @ ?n # (inorder r @ right_of C))"
    using repc_dist [OF t(1)] by (simp add: p inorder_plug)
  from distinct_split [OF this eq]
  have sides: "left_of C @ inorder l = map ?f xs" "inorder r @ right_of C = map ?f ys" by blast+
  have nz: "NULL \<notin> set (inorder t)" using t(1) rep_not_NULL by (auto simp: repc_def)
  have u: "?f x - avl_offset tree = x" for x by (simp add: AVL_DATA2NODE_def)
  note w = avl_walk_ctx [OF R, unfolded u]
  have "from_side 0 r @ beyond 0 C = map ?f ys" using sides(2) by (simp add: from_side_def beyond_def)
  then show "AVL_NEXT h tree d = Some (first_or_null ys)"
    using w [of 1] nz unfolding t(2) by (cases ys) (simp_all add: u Let_def)
  have "from_side 1 l @ beyond 1 C = rev (map ?f xs)"
    using sides(1) [symmetric] by (simp add: from_side_def beyond_def)
  then have "from_side 1 l @ beyond 1 C = map ?f (rev xs)" by (simp add: rev_map)
  then show "AVL_PREV h tree d = Some (first_or_null (rev xs))"
    using w [of 0] nz unfolding t(2) by (cases xs rule: rev_cases) (simp_all add: u Let_def)
qed

lemma avl_remove_holds:
  assumes H: "avl_holds h tree ds" and d: "d \<in> set ds"
    and tmp: "tmp \<noteq> NULL" "tmp \<notin> nodes_of tree ds"
  obtains h' tree' where "avl_remove h tree tmp d = Some (h', tree')"
    "avl_holds h' tree' (remove1 d ds)"
    "only_in (insert tmp (nodes_of tree ds)) h (tree\<lparr>avl_numnodes := avl_numnodes tree - 1\<rparr>) h' tree'"
proof -
  let ?f = "\<lambda>d. AVL_DATA2NODE d (avl_offset tree)" and ?n = "AVL_DATA2NODE d (avl_offset tree)"
  obtain t where t: "repc h tree [] t" "avl t" "inorder t = map ?f ds"
    using H unfolding avl_holds_def by blast
  have S: "set (inorder t) = nodes_of tree ds" by (simp add: t(3) nodes_of_def)
  have "length ds \<noteq> 0" using d by auto
  then have nn: "avl_numnodes tree \<noteq> 0" using avl_holds_numnodes [OF H] by auto
  have n: "?n \<in> set (inorder t)" using d t(3) by simp
  obtain h' tree' t' where R: "avl_remove h tree tmp d = Some (h', tree')"
    "repc h' tree' [] t'" "avl t'" "inorder t' = remove1 ?n (inorder t)"
    "only_in (insert tmp (nodes_of tree ds)) h (tree\<lparr>avl_numnodes := avl_numnodes tree - 1\<rparr>) h' tree'"
    using avl_remove_repc [OF t(1,2) n tmp(1) _ nn] tmp(2) unfolding S by (auto simp: AVL_DATA2NODE_def)
  have inj: "inj_on ?f (set ds)" by (auto simp: inj_on_def AVL_DATA2NODE_def)
  have "inorder t' = map ?f (remove1 d ds)"
    unfolding R(4) t(3) by (induction ds) (auto simp: AVL_DATA2NODE_def)
  moreover have "avl_offset tree' = avl_offset tree" "avl_numnodes tree' = avl_numnodes tree - 1"
    using only_in_fields [OF R(5)] by simp_all
  moreover have "of_nat (length ds) - 1 = (of_nat (length ds - 1) :: uint64)"
    using \<open>length ds \<noteq> 0\<close> by (cases ds) simp_all
  ultimately have "avl_holds h' tree' (remove1 d ds)"
    using H R(2,3) d unfolding avl_holds_def
    by (auto simp: length_remove1 dest: notin_set_remove1 in_set_remove1 [THEN iffD1, rotated])
  with R(1,5) that show thesis by blast
qed

subsection \<open>Ordered trees\<close>

lemma insort_split:
  "\<forall>x \<in> set as. k x < k d \<Longrightarrow> \<forall>x \<in> set bs. k d < (k x :: 'b :: linorder) \<Longrightarrow>
   insort_key k d (as @ bs) = as @ d # bs"
  by (induction as) (auto simp: not_le split: list.split, cases bs, auto)

lemma insort_strict:
  "sorted_wrt (\<lambda>x y. k x < (k y :: 'b :: linorder)) ds \<Longrightarrow> \<forall>d \<in> set ds. k d \<noteq> k v \<Longrightarrow>
   sorted_wrt (\<lambda>x y. k x < k y) (insort_key k v ds)"
  by (induction ds) (auto simp: set_insort_key not_le order.strict_iff_order intro: less_trans)

lemma insort_in_place:
  assumes "sorted_wrt (\<lambda>x y. k x < (k y :: 'b :: linorder)) (xs @ ys)" "\<forall>x \<in> set (xs @ ys). k x \<noteq> k d"
  shows "insort_key k d (xs @ ys) = xs @ d # ys \<longleftrightarrow>
    (\<forall>x \<in> set xs. k x < k d) \<and> (\<forall>y \<in> set ys. k d < k y)"
  using insort_split [of xs k d ys] insort_strict [OF assms] by (auto simp: sorted_wrt_append)

lemma neighbours_in_place:
  assumes "sorted_wrt (\<lambda>x y. k x < (k y :: 'b :: linorder)) (xs @ ys)" "\<forall>x \<in> set (xs @ ys). k x \<noteq> k d"
  shows "(\<forall>x \<in> set xs. k x < k d) \<longleftrightarrow> \<not> (xs \<noteq> [] \<and> k d < k (first_or_null (rev xs)))"
    and "(\<forall>y \<in> set ys. k d < k y) \<longleftrightarrow> \<not> (ys \<noteq> [] \<and> k (first_or_null ys) < k d)"
proof -
  show "(\<forall>x \<in> set xs. k x < k d) \<longleftrightarrow> \<not> (xs \<noteq> [] \<and> k d < k (first_or_null (rev xs)))"
    using assms by (cases xs rule: rev_cases) (auto simp: sorted_wrt_append not_less order.strict_iff_order)
  show "(\<forall>y \<in> set ys. k d < k y) \<longleftrightarrow> \<not> (ys \<noteq> [] \<and> k (first_or_null ys) < k d)"
    using assms by (cases ys) (auto simp: sorted_wrt_append not_less order.strict_iff_order)
qed

text \<open>
  The law the library asks of a comparison function, as \<open>fb_avl.h\<close> states it: it returns \<open>-1\<close>,
  \<open>0\<close> or \<open>1\<close> according to an ordering of the objects.
\<close>

locale avl_order =
  fixes compar :: "'m \<Rightarrow> ptr \<Rightarrow> ptr \<Rightarrow> int"
    and key :: "'m \<Rightarrow> ptr \<Rightarrow> 'k :: linorder"
  assumes compar_key:
    "compar m x y = (if key m x < key m y then -1 else if key m x = key m y then 0 else 1)"
begin

text \<open>What a search finds, in terms of the tree.\<close>

lemma find_srch:
  assumes H: "repc h tree [] t" and c: "avl_compar tree = compar"
    and s: "sorted_wrt (\<lambda>x y. key m (x - avl_offset tree) < key m (y - avl_offset tree)) (inorder t)"
  obtains C N where "dirs_ok C" "plug C N = t"
    "avl_find m h tree v =
       Some (if N = Leaf then (NULL, Some (AVL_MKINDEX (ctx_par C) (ctx_idx C)))
             else (addr N - avl_offset tree, Some 0))"
    "\<forall>x \<in> set (left_of C). key m (x - avl_offset tree) < key m v"
    "\<forall>x \<in> set (right_of C). key m v < key m (x - avl_offset tree)"
    "N \<noteq> Leaf \<longrightarrow> key m (addr N - avl_offset tree) = key m v"
proof -
  let ?f = "\<lambda>n. avl_compar tree m v (n - avl_offset tree)"
  obtain C N where CN: "srch ?f t [] = (C, N)" by fastforce
  have f: "?f x = (if key m v < key m (x - avl_offset tree) then -1
      else if key m v = key m (x - avl_offset tree) then 0 else 1)" for x
    by (simp add: c compar_key)
  have "plug C N = t" "dirs_ok C" using srch_plug [of ?f t "[]"] srch_dirs [of "[]" ?f t] CN by simp_all
  moreover have "avl_find m h tree v =
     Some (if N = Leaf then (NULL, Some (AVL_MKINDEX (ctx_par C) (ctx_idx C)))
           else (addr N - avl_offset tree, Some 0))"
    using avl_find_srch [OF H, of m v] CN f by (auto split: avlt.split)
  moreover note srch_sorted [of "\<lambda>x. key m (x - avl_offset tree)" "[]" t ?f "key m v", OF _ f]
  ultimately show thesis using that s CN by auto
qed

lemma find_present:
  assumes H: "avl_holds h tree ds" and c: "avl_compar tree = compar"
    and s: "sorted_wrt (\<lambda>x y. key m x < key m y) ds" and d: "d \<in> set ds" "key m v = key m d"
  shows "avl_find m h tree v = Some (d, Some 0)"
proof -
  let ?off = "avl_offset tree"
  obtain t where t: "repc h tree [] t" "inorder t = map (\<lambda>d. d + ?off) ds"
    using H by (auto simp: avl_holds_def AVL_DATA2NODE_def)
  have st: "sorted_wrt (\<lambda>x y. key m (x - ?off) < key m (y - ?off)) (inorder t)"
    using s by (simp add: t(2) sorted_wrt_map)
  obtain C N where F: "plug C N = t" "avl_find m h tree v =
       Some (if N = Leaf then (NULL, Some (AVL_MKINDEX (ctx_par C) (ctx_idx C))) else (addr N - ?off, Some 0))"
    "\<forall>x \<in> set (left_of C). key m (x - ?off) < key m v" "\<forall>x \<in> set (right_of C). key m v < key m (x - ?off)"
    "N \<noteq> Leaf \<longrightarrow> key m (addr N - ?off) = key m v"
    using find_srch [OF t(1) c st] by blast
  have io: "set (left_of C) \<union> set (inorder N) \<union> set (right_of C) = (\<lambda>d. d + ?off) ` set ds"
    using t(2) F(1) by (metis inorder_plug list.set_map set_append sup_assoc)
  have "d + ?off \<in> set (inorder N)" using F(3,4) d io by force
  then have N: "N \<noteq> Leaf" by auto
  then have "addr N \<in> (\<lambda>d. d + ?off) ` set ds" using io addr_in by blast
  then obtain d' where d': "d' \<in> set ds" "addr N = d' + ?off" by auto
  with F(5) N d have "key m d' = key m d" by simp
  with s d d' have "d' = d"
    by (auto simp: sorted_wrt_iff_nth_less in_set_conv_nth) (metis less_irrefl nat_neq_iff)
  with F(2) N d' show ?thesis by simp
qed

lemma find_add_absent:
  assumes H: "avl_holds h tree ds" and c: "avl_compar tree = compar"
    and s: "sorted_wrt (\<lambda>x y. key m x < key m y) ds" and v: "\<forall>d \<in> set ds. key m d \<noteq> key m v"
    and new: "aligned v" "v \<noteq> NULL" "v + avl_offset tree \<noteq> NULL"
  obtains w h' tree' where "avl_find m h tree v = Some (NULL, Some w)"
    "avl_insert h tree v w = Some (h', tree')" "avl_add m h tree v = Some (h', tree')"
    "avl_holds h' tree' (insort_key (key m) v ds)"
    "only_in (nodes_of tree (v # ds)) h (tree\<lparr>avl_numnodes := avl_numnodes tree + 1\<rparr>) h' tree'"
proof -
  let ?off = "avl_offset tree" and ?f = "\<lambda>d. AVL_DATA2NODE d (avl_offset tree)"
  obtain t where t: "repc h tree [] t" "avl t" "inorder t = map (\<lambda>d. d + ?off) ds"
    using H by (auto simp: avl_holds_def AVL_DATA2NODE_def)
  have st: "sorted_wrt (\<lambda>x y. key m (x - ?off) < key m (y - ?off)) (inorder t)"
    using s by (simp add: t(3) sorted_wrt_map)
  obtain C N where F: "dirs_ok C" "plug C N = t" "avl_find m h tree v =
       Some (if N = Leaf then (NULL, Some (AVL_MKINDEX (ctx_par C) (ctx_idx C))) else (addr N - ?off, Some 0))"
    "\<forall>x \<in> set (left_of C). key m (x - ?off) < key m v" "\<forall>x \<in> set (right_of C). key m v < key m (x - ?off)"
    "N \<noteq> Leaf \<longrightarrow> key m (addr N - ?off) = key m v"
    using find_srch [OF t(1) c st] by blast
  have NL: "N = Leaf"
  proof (rule ccontr)
    assume N: "N \<noteq> Leaf"
    then have "addr N \<in> set (inorder t)" using F(2) addr_in by (auto simp: set_plug)
    with N F(6) v t(3) show False by auto
  qed
  let ?A = "map (\<lambda>x. x - ?off) (left_of C)" and ?B = "map (\<lambda>x. x - ?off) (right_of C)"
  have sides: "left_of C @ right_of C = map (\<lambda>d. d + ?off) ds"
    using t(3) unfolding F(2) [symmetric] by (simp add: NL inorder_plug)
  then have ds: "ds = ?A @ ?B" by (metis (no_types, lifting) add_diff_cancel_right' comp_apply map_append map_map map_idI)
  have ins: "insort_key (key m) v ds = ?A @ v # ?B"
    unfolding ds by (rule insort_split) (use F(4,5) in auto)
  have R: "repc h tree C Leaf" using t(1) by (simp add: repc_plug [OF F(1)] F(2) [unfolded NL])
  have ok: "ctx_ok C 0" using t(2) F(1,2) by (auto simp: NL avl_plug)
  have cs: "ctx_set C = nodes_of tree ds"
    using arg_cong [OF sides, of set] by (simp add: nodes_of_def AVL_DATA2NODE_def)
  have al: "aligned x" if "x \<in> ctx_set C" for x
    using that H unfolding cs by (auto simp: nodes_of_def avl_holds_def AVL_DATA2NODE_def intro: aligned_add)
  have alp: "aligned (ctx_par C)" using al ctx_par_in [of C] by (cases "C = []") auto
  have fresh: "v + ?off \<notin> ctx_set C" using v unfolding cs by (auto simp: nodes_of_def AVL_DATA2NODE_def)
  let ?w = "AVL_MKINDEX (ctx_par C) (ctx_idx C)" and ?t = "ins_up C (Node Leaf (v + ?off) 0 Leaf)"
  obtain h' tree' where I: "avl_insert h tree v ?w = Some (h', tree')" "repc h' tree' [] ?t"
    "only_in (insert (v + ?off) (ctx_set C)) h (tree\<lparr>avl_numnodes := avl_numnodes tree + 1\<rparr>) h' tree'"
    using avl_insert_repc [OF R ok alp new(1,3) fresh] by blast
  have "avl ?t \<and> inorder ?t = inorder (plug C (Node Leaf (v + ?off) 0 Leaf))"
    by (rule ins_up_correct [OF ok]) simp_all
  then have T: "avl ?t" "inorder ?t = map (\<lambda>d. d + ?off) (insort_key (key m) v ds)"
    unfolding ins by (simp_all add: inorder_plug o_def)
  have len: "length (insort_key (key m) v ds) = Suc (length ds)" by simp
  have fl: "avl_offset tree' = ?off" "avl_numnodes tree' = avl_numnodes tree + 1"
    using only_in_fields [OF I(3)] by simp_all
  have hold: "avl_holds h' tree' (insort_key (key m) v ds)"
    unfolding avl_holds_def fl len using H I(2) T new
    by (auto simp: avl_holds_def AVL_DATA2NODE_def set_insort_key)
  have "avl_find m h tree v = Some (NULL, Some ?w)" using F(3) NL by simp
  moreover from this I(1) have "avl_add m h tree v = Some (h', tree')" by (simp add: avl_add_def)
  moreover have "insert (v + ?off) (ctx_set C) = nodes_of tree (v # ds)"
    unfolding cs by (simp add: nodes_of_def AVL_DATA2NODE_def)
  ultimately show thesis using that I(1,3) hold by metis
qed

text \<open>The neighbour of a position that a search has left: the first object with a higher key.\<close>

lemma find_nearest:
  assumes H: "avl_holds h tree ds" and c: "avl_compar tree = compar"
    and s: "sorted_wrt (\<lambda>x y. key m x < key m y) ds" and v: "\<forall>d \<in> set ds. key m d \<noteq> key m v"
  obtains w where "avl_find m h tree v = Some (NULL, Some w)"
    "avl_nearest h tree w AVL_AFTER = Some (first_or_null (dropWhile (\<lambda>d. key m d < key m v) ds))"
proof -
  let ?off = "avl_offset tree"
  obtain t where t: "repc h tree [] t" "inorder t = map (\<lambda>d. d + ?off) ds"
    using H by (auto simp: avl_holds_def AVL_DATA2NODE_def)
  have st: "sorted_wrt (\<lambda>x y. key m (x - ?off) < key m (y - ?off)) (inorder t)"
    using s by (simp add: t(2) sorted_wrt_map)
  obtain C N where F: "dirs_ok C" "plug C N = t" "avl_find m h tree v =
       Some (if N = Leaf then (NULL, Some (AVL_MKINDEX (ctx_par C) (ctx_idx C))) else (addr N - ?off, Some 0))"
    "\<forall>x \<in> set (left_of C). key m (x - ?off) < key m v" "\<forall>x \<in> set (right_of C). key m v < key m (x - ?off)"
    "N \<noteq> Leaf \<longrightarrow> key m (addr N - ?off) = key m v"
    using find_srch [OF t(1) c st] by blast
  have NL: "N = Leaf"
  proof (rule ccontr)
    assume N: "N \<noteq> Leaf"
    then have "addr N \<in> set (inorder t)" using F(2) addr_in by (auto simp: set_plug)
    with N F(6) v t(2) show False by auto
  qed
  let ?A = "map (\<lambda>x. x - ?off) (left_of C)" and ?B = "map (\<lambda>x. x - ?off) (right_of C)"
  have sides: "left_of C @ right_of C = map (\<lambda>d. d + ?off) ds"
    using t(2) unfolding F(2) [symmetric] by (simp add: NL inorder_plug)
  then have ds: "ds = ?A @ ?B" by (metis (no_types, lifting) add_diff_cancel_right' comp_apply map_append map_map map_idI)
  have B: "dropWhile (\<lambda>d. key m d < key m v) ?B = ?B" using F(5) by (cases "right_of C") (auto dest: less_asym)
  have dw: "dropWhile (\<lambda>d. key m d < key m v) ds = ?B"
    unfolding ds by (subst dropWhile_append2) (use F(4) B in auto)
  let ?w = "AVL_MKINDEX (ctx_par C) (ctx_idx C)"
  have "avl_nearest h tree ?w AVL_AFTER = Some (first_or_null ?B)"
  proof (cases C)
    case Nil
    then show ?thesis using index_laws [of 0 0] by (simp add: avl_nearest_def)
  next
    case (Cons f C')
    obtain d a b s' where f: "f = (d, a, b, s')" by (cases f)
    have d2: "d < 2" using F(1) by (simp add: Cons f)
    have "a \<in> (\<lambda>d. d + ?off) ` set ds" using arg_cong [OF sides, of set] d2 by (auto simp: Cons f elim!: dir_cases)
    then have al: "aligned a" using H by (auto simp: avl_holds_def intro: aligned_add)
    have R: "repc h tree C' (mkn d Leaf a b s')"
      using t(1) F(1) unfolding F(2) [symmetric] NL Cons f by (simp add: repc_plug [symmetric])
    then have a0: "a \<noteq> NULL" using d2 by (simp add: repc_def rep_mkn)
    have nz: "NULL \<notin> set (right_of C')"
      using rep_not_NULL t(1) d2 unfolding F(2) [symmetric] Cons f by (fastforce simp: repc_Nil inorder_plug elim!: dir_cases)
    have u: "a - ?off = AVL_NODE2DATA a ?off" by (simp add: AVL_NODE2DATA_def)
    note ix = index_laws [OF al d2]
    from d2 show ?thesis
    proof (rule dir_cases)
      assume "d = 0"
      with ix a0 show ?thesis by (simp add: avl_nearest_def Cons f AVL_NODE2DATA_def)
    next
      assume d1: "d = Suc 0"
      with R have "repc h tree C' (Node s' a b Leaf)" by simp
      from avl_walk_ctx [OF this, of 1] nz
      have "avl_walk h tree (a - ?off) 1 = Some (first_or_null (map (\<lambda>x. x - ?off) (right_of C')))"
        by (cases "right_of C'") (auto simp: from_side_def beyond_def)
      with d1 ix a0 show ?thesis by (simp add: avl_nearest_def Cons f u)
    qed
  qed
  moreover have "avl_find m h tree v = Some (NULL, Some ?w)" using F(3) NL by simp
  ultimately show thesis using that dw by metis
qed

lemma add_present:
  assumes "avl_holds h tree ds" "avl_compar tree = compar"
    "sorted_wrt (\<lambda>x y. key m x < key m y) ds" "d \<in> set ds" "key m v = key m d"
  shows "avl_add m h tree v = Some (h, tree)"
  using find_present [OF assms] assms(1,4) by (auto simp: avl_add_def avl_holds_def)

end

subsection \<open>The library meets its contract\<close>

text \<open>
  An example for the statements below: a tree with the single object at address 8, whose node is
  at offset 8 of the object, ordered by address.
\<close>

definition one_heap :: avl_heap where
  "one_heap = (\<lambda>_. \<lparr>avl_child = (\<lambda>_. NULL), avl_parent = NULL, avl_child_index = 0, avl_balance = 0\<rparr>)"

definition one_tree :: "unit avl_tree" where
  "one_tree = \<lparr>avl_root = 16, avl_compar = (\<lambda>_ x y. if x < y then -1 else if x = y then 0 else 1),
     avl_offset = 8, avl_numnodes = 1, avl_size = 32\<rparr>"

lemma one_tree_holds: "avl_holds one_heap one_tree [8]"
  unfolding avl_holds_def
  by (intro conjI exI [of _ "Node Leaf 16 0 Leaf"])
    (simp_all add: repc_Nil one_heap_def one_tree_def AVL_DATA2NODE_def aligned_def)

lemma one_tree_order: "avl_order (avl_compar one_tree) (\<lambda>_ x. x)"
  by unfold_locales (simp add: one_tree_def)

text \<open>
  C4. On a balanced ordered tree, \<open>avl_add\<close> of an object with a new key returns; afterwards the
  heap represents a balanced tree with the objects in order, the new one included, and every
  node outside the tree is as before.
\<close>

theorem avl_add_correct:
  assumes "avl_order (avl_compar tree) key" "avl_holds h tree ds"
    "sorted_wrt (\<lambda>x y. key m x < key m y) ds" "\<forall>d \<in> set ds. key m d \<noteq> key m v"
    "aligned v" "v \<noteq> NULL" "v + avl_offset tree \<noteq> NULL"
  shows "\<exists>h' tree'. avl_add m h tree v = Some (h', tree')
    \<and> avl_holds h' tree' (insort_key (key m) v ds)
    \<and> sorted_wrt (\<lambda>x y. key m x < key m y) (insort_key (key m) v ds)
    \<and> only_in (nodes_of tree (v # ds)) h (tree\<lparr>avl_numnodes := avl_numnodes tree + 1\<rparr>) h' tree'"
  using avl_order.find_add_absent [OF assms(1,2) refl assms(3-7)] insort_strict [OF assms(3,4)] by metis

theorem avl_add_witness:
  "\<exists>h' tree'. avl_add () one_heap one_tree 64 = Some (h', tree') \<and> avl_holds h' tree' [8, 64]"
  using avl_add_correct [OF one_tree_order one_tree_holds, where m = "()" and v = 64]
  by (auto simp: one_tree_def aligned_def)

text \<open>
  C5. \<open>avl_remove\<close> of an object of the tree returns; afterwards the heap represents a balanced
  tree with the other objects in their order, and apart from the tree's nodes only the local
  variable \<open>tmp\<close> of the function has been written.
\<close>

theorem avl_remove_correct:
  assumes "avl_holds h tree ds" "d \<in> set ds" "tmp \<noteq> NULL" "tmp \<notin> nodes_of tree ds"
  shows "\<exists>h' tree'. avl_remove h tree tmp d = Some (h', tree') \<and> avl_holds h' tree' (remove1 d ds)
    \<and> only_in (insert tmp (nodes_of tree ds)) h (tree\<lparr>avl_numnodes := avl_numnodes tree - 1\<rparr>) h' tree'"
  using avl_remove_holds [OF assms] by metis

theorem avl_remove_witness:
  "\<exists>h' tree'. avl_remove one_heap one_tree 128 8 = Some (h', tree') \<and> avl_holds h' tree' []"
  using avl_remove_correct [OF one_tree_holds, of 8 128]
  by (auto simp: one_tree_def nodes_of_def AVL_DATA2NODE_def)

text \<open>
  C6. \<open>avl_find\<close> returns the object with the wanted key if the tree has one, and otherwise
  \<open>NULL\<close> and a position at which \<open>avl_insert\<close> puts the object in its place.
\<close>

theorem avl_find_correct:
  assumes "avl_order (avl_compar tree) key" "avl_holds h tree ds"
    "sorted_wrt (\<lambda>x y. key m x < key m y) ds"
    "aligned v" "v \<noteq> NULL" "v + avl_offset tree \<noteq> NULL"
  shows "if \<exists>d \<in> set ds. key m d = key m v
    then \<exists>d \<in> set ds. key m d = key m v \<and> avl_find m h tree v = Some (d, Some 0)
    else \<exists>w h' tree'. avl_find m h tree v = Some (NULL, Some w)
      \<and> avl_insert h tree v w = Some (h', tree') \<and> avl_holds h' tree' (insort_key (key m) v ds)"
proof (cases "\<exists>d \<in> set ds. key m d = key m v")
  case True
  then obtain d where d: "d \<in> set ds" "key m v = key m d" by auto
  with avl_order.find_present [OF assms(1,2) refl assms(3) d] True show ?thesis by auto
next
  case False
  then have "\<forall>d \<in> set ds. key m d \<noteq> key m v" by blast
  with avl_order.find_add_absent [OF assms(1,2) refl assms(3) _ assms(4-6)] False show ?thesis by metis
qed

theorem avl_find_witness:
  "avl_find () one_heap one_tree 8 = Some (8, Some 0)
   \<and> (\<exists>w. avl_find () one_heap one_tree 64 = Some (NULL, Some w))"
  using avl_find_correct [OF one_tree_order one_tree_holds, where m = "()" and v = 8]
    avl_find_correct [OF one_tree_order one_tree_holds, where m = "()" and v = 64]
  by (auto simp: one_tree_def aligned_def)

text \<open>
  C28. The iteration over a tree: \<open>avl_first\<close> and \<open>avl_last\<close> return the ends of the list of
  objects, \<open>AVL_NEXT\<close> and \<open>AVL_PREV\<close> the neighbours of an object, \<open>NULL\<close> beyond the ends.
\<close>

theorem avl_iteration_correct:
  assumes "avl_holds h tree ds"
  shows "avl_first h tree = Some (first_or_null ds)
    \<and> avl_last h tree = Some (first_or_null (rev ds))
    \<and> (\<forall>xs d ys. ds = xs @ d # ys \<longrightarrow> AVL_NEXT h tree d = Some (first_or_null ys)
       \<and> AVL_PREV h tree d = Some (first_or_null (rev xs)))
    \<and> unat (avl_numnodes_of (Some tree)) = length ds \<and> (avl_is_empty (Some tree) \<longleftrightarrow> ds = [])"
proof (intro conjI allI impI)
  show "avl_is_empty (Some tree) \<longleftrightarrow> ds = []"
    using avl_holds_numnodes [OF assms] by (auto simp: avl_is_empty_def unat_eq_zero)
qed (use avl_first_holds [OF assms] avl_walk_holds assms avl_holds_numnodes [OF assms] in
      \<open>auto simp: avl_numnodes_of_def\<close>)

theorem avl_iteration_witness:
  "avl_first one_heap one_tree = Some 8 \<and> AVL_NEXT one_heap one_tree 8 = Some NULL"
  using avl_iteration_correct [OF one_tree_holds]
  by (elim conjE, drule_tac x = "[]" in spec, drule_tac x = 8 in spec, drule_tac x = "[]" in spec) simp

text \<open>
  After the key of one object has changed, \<open>avl_update\<close> restores the order: it reports a move
  and puts the object in its new place, or leaves everything alone when the object is still
  between its neighbours.
\<close>

theorem avl_update_correct:
  assumes "avl_order (avl_compar tree) key" "avl_holds h tree (xs @ d # ys)"
    "sorted_wrt (\<lambda>x y. key m x < key m y) (xs @ ys)" "\<forall>x \<in> set (xs @ ys). key m x \<noteq> key m d"
    "tmp \<noteq> NULL" "tmp \<notin> nodes_of tree (xs @ d # ys)"
  shows "\<exists>h' tree' moved. avl_update m h tree tmp d = Some (h', tree', moved)
    \<and> avl_holds h' tree' (insort_key (key m) d (xs @ ys))
    \<and> (moved \<longleftrightarrow> insort_key (key m) d (xs @ ys) \<noteq> xs @ d # ys)
    \<and> (\<not> moved \<longrightarrow> h' = h \<and> tree' = tree)"
proof -
  note ord = avl_order.compar_key [OF assms(1)]
  have nd: "distinct (xs @ d # ys)" by (rule avl_holds_distinct [OF assms(2)])
  have d0: "d \<noteq> NULL" "aligned d" "NULL \<notin> set xs" "NULL \<notin> set ys" using assms(2) by (auto simp: avl_holds_def)
  have rm: "remove1 d (xs @ d # ys) = xs @ ys" using nd by (simp add: remove1_append)
  obtain h1 tree1 where R: "avl_remove h tree tmp d = Some (h1, tree1)" "avl_holds h1 tree1 (xs @ ys)"
    "only_in (insert tmp (nodes_of tree (xs @ d # ys))) h (tree\<lparr>avl_numnodes := avl_numnodes tree - 1\<rparr>) h1 tree1"
    using avl_remove_holds [OF assms(2) _ assms(5,6), of d] rm by auto
  note fl = only_in_fields [OF R(3), simplified]
  have dn: "d + avl_offset tree1 \<noteq> NULL"
    using avl_holds_node [OF assms(2), of d] by (simp add: AVL_DATA2NODE_def fl)
  have ao: "avl_order (avl_compar tree1) key" using assms(1) by (simp add: fl)
  obtain h2 tree2 where A: "avl_add m h1 tree1 d = Some (h2, tree2)"
    "avl_holds h2 tree2 (insort_key (key m) d (xs @ ys))"
    using avl_order.find_add_absent [OF ao R(2) refl assms(3,4) d0(2,1) dn] by metis
  note W = avl_walk_holds [OF assms(2)] and K = neighbours_in_place [OF assms(3,4)]
  have re: "AVL_REINSERT m h tree tmp d = Some (h2, tree2)" by (simp add: AVL_REINSERT_def R(1) A(1))
  have nz: "first_or_null ys = NULL \<longleftrightarrow> ys = []" "first_or_null (rev xs) = NULL \<longleftrightarrow> xs = []"
    using d0(3,4) by (cases ys, auto) (cases xs rule: rev_cases, auto)+
  have prev: "(first_or_null (rev xs) \<noteq> NULL \<and> avl_compar tree m d (first_or_null (rev xs)) < 0)
      \<longleftrightarrow> \<not> (\<forall>x \<in> set xs. key m x < key m d)" unfolding K(1) nz by (simp add: ord)
  have nxt: "(first_or_null ys \<noteq> NULL \<and> avl_compar tree m d (first_or_null ys) > 0)
      \<longleftrightarrow> \<not> (\<forall>y \<in> set ys. key m d < key m y)" unfolding K(2) nz by (auto simp: ord)
  let ?move = "\<not> ((\<forall>x \<in> set xs. key m x < key m d) \<and> (\<forall>y \<in> set ys. key m d < key m y))"
  have "avl_update m h tree tmp d = Some (if ?move then (h2, tree2, True) else (h, tree, False))"
    unfolding avl_update_def W option.case prev nxt re by simp
  then show ?thesis using A(2) assms(2) insort_in_place [OF assms(3,4)] by (cases ?move) auto
qed

theorem avl_update_witness:
  "\<exists>h' tree'. avl_update () one_heap one_tree 128 8 = Some (h', tree', False)"
  using avl_update_correct [OF one_tree_order, where h = one_heap and xs = "[]" and d = 8 and ys = "[]" and m = "()" and tmp = 128] one_tree_holds
  by (auto simp: one_tree_def nodes_of_def AVL_DATA2NODE_def)

end
