(* ===== verification/FB_Avl_Pcb.thy ===== *)
theory FB_Avl_Pcb
  imports FB_Avl_Refine
begin

text \<open>
  The node layout of the 64-bit builds: parent pointer, child index and balance share the word
  \<open>avl_pcb\<close>. The accessor macros of \<^verbatim>\<open>fb_avl.h\<close> are the interface between the tree code and the
  layout; its laws are the locale \<open>node_access\<close>, interpreted on both layouts. The packed layout
  refines the unpacked one used by the model of \<^verbatim>\<open>fb_avl.c\<close>: \<open>unpack\<close> maps each packed operation to
  the record update.
\<close>

record pcb_node =
  pcb_child :: "nat \<Rightarrow> ptr"
  avl_pcb :: uint64

definition PCB_XPARENT :: "pcb_node \<Rightarrow> ptr" where
  "PCB_XPARENT n = avl_pcb n AND NOT 7"

definition PCB_SETPARENT :: "pcb_node \<Rightarrow> ptr \<Rightarrow> pcb_node" where
  "PCB_SETPARENT n p = n\<lparr>avl_pcb := (avl_pcb n AND 7) OR p\<rparr>"

definition PCB_XCHILD :: "pcb_node \<Rightarrow> nat" where
  "PCB_XCHILD n = unat (drop_bit 2 (avl_pcb n) AND 1)"

definition PCB_SETCHILD :: "pcb_node \<Rightarrow> nat \<Rightarrow> pcb_node" where
  "PCB_SETCHILD n c = n\<lparr>avl_pcb := (avl_pcb n AND NOT 4) OR push_bit 2 (of_nat c)\<rparr>"

definition PCB_XBALANCE :: "pcb_node \<Rightarrow> int" where
  "PCB_XBALANCE n = sint ((avl_pcb n AND 3) - 1)"

definition PCB_SETBALANCE :: "pcb_node \<Rightarrow> int \<Rightarrow> pcb_node" where
  "PCB_SETBALANCE n b = n\<lparr>avl_pcb := (avl_pcb n AND NOT 3) OR of_int (b + 1)\<rparr>"

subsection \<open>The fields of the packed word\<close>

lemma bit_consts:
  "bit (7 :: uint64) n \<longleftrightarrow> n < 3" "bit (3 :: uint64) n \<longleftrightarrow> n < 2" "bit (4 :: uint64) n \<longleftrightarrow> n = 2"
  "bit (1 :: uint64) n \<longleftrightarrow> n = 0"
proof -
  have c: "(7 :: uint64) = mask 3" "(3 :: uint64) = mask 2" "(4 :: uint64) = push_bit 2 1"
    by (simp_all add: mask_eq_exp_minus_1)
  show "bit (7 :: uint64) n \<longleftrightarrow> n < 3" unfolding c(1) bit_mask_iff by auto
  show "bit (3 :: uint64) n \<longleftrightarrow> n < 2" unfolding c(2) bit_mask_iff by auto
  show "bit (4 :: uint64) n \<longleftrightarrow> n = 2" unfolding c(3) bit_push_bit_iff bit_1_iff by auto
  show "bit (1 :: uint64) n \<longleftrightarrow> n = 0" by (simp add: bit_1_iff)
qed

lemmas pcb_bits = bit_and_iff bit_or_iff bit_not_iff bit_consts bit_push_bit_iff bit_drop_bit_eq o_apply

lemma aligned_bits: "aligned p \<Longrightarrow> n < 3 \<Longrightarrow> \<not> bit p n"
  unfolding aligned_def by (metis bit_0_eq bit_and_iff bit_consts(1) bot_apply bot_bool_def)

lemma balance_bits: "-1 \<le> b \<Longrightarrow> b \<le> 1 \<Longrightarrow> (of_int (b + 1) :: uint64) AND NOT 3 = 0"
proof -
  assume "-1 \<le> b" "b \<le> 1"
  then consider "b = -1" | "b = 0" | "b = 1" by linarith
  then show ?thesis by cases simp_all
qed

lemma child_bits: "c < 2 \<Longrightarrow> push_bit 2 (of_nat c :: uint64) = (if c = 0 then 0 else 4)"
  by (elim dir_cases) (simp_all add: push_bit_eq_mult)

subsection \<open>The laws of the accessors\<close>

locale node_access =
  fixes xparent :: "'n \<Rightarrow> ptr" and setparent :: "'n \<Rightarrow> ptr \<Rightarrow> 'n"
    and xchild :: "'n \<Rightarrow> nat" and setchild :: "'n \<Rightarrow> nat \<Rightarrow> 'n"
    and xbalance :: "'n \<Rightarrow> int" and setbalance :: "'n \<Rightarrow> int \<Rightarrow> 'n"
  assumes parent_same: "aligned p \<Longrightarrow> xparent (setparent n p) = p"
    and parent_child: "c < 2 \<Longrightarrow> xparent (setchild n c) = xparent n"
    and parent_balance: "-1 \<le> b \<Longrightarrow> b \<le> 1 \<Longrightarrow> xparent (setbalance n b) = xparent n"
    and child_parent: "aligned p \<Longrightarrow> xchild (setparent n p) = xchild n"
    and child_same: "c < 2 \<Longrightarrow> xchild (setchild n c) = c"
    and child_balance: "-1 \<le> b \<Longrightarrow> b \<le> 1 \<Longrightarrow> xchild (setbalance n b) = xchild n"
    and balance_parent: "aligned p \<Longrightarrow> xbalance (setparent n p) = xbalance n"
    and balance_child: "c < 2 \<Longrightarrow> xbalance (setchild n c) = xbalance n"
    and balance_same: "-1 \<le> b \<Longrightarrow> b \<le> 1 \<Longrightarrow> xbalance (setbalance n b) = b"
begin

text \<open>The initialisation of a new node in \<open>avl_insert\<close> reads back as written.\<close>

lemma new_node:
  fixes n :: 'n
  assumes "aligned p" "c < 2"
  defines "n' \<equiv> setparent (setbalance (setchild n c) 0) p"
  shows "xparent n' = p" "xchild n' = c" "xbalance n' = 0"
  using assms by (simp_all add: parent_same child_parent child_balance child_same balance_parent balance_same)

end

interpretation unpacked: node_access avl_parent "\<lambda>n p. n\<lparr>avl_parent := p\<rparr>"
  avl_child_index "\<lambda>n c. n\<lparr>avl_child_index := c\<rparr>" avl_balance "\<lambda>n b. n\<lparr>avl_balance := b\<rparr>"
  by unfold_locales simp_all

lemma bal_field:
  fixes w :: uint64
  assumes "-1 \<le> b" "b \<le> 1" "w AND 3 = of_int (b + 1)"
  shows "sint ((w AND 3) - 1) = b"
proof -
  from assms(1,2) consider "b = -1" | "b = 0" | "b = 1" by linarith
  then show ?thesis by cases (simp_all add: assms(3))
qed

lemma pcb_fields:
  "PCB_XPARENT (n\<lparr>avl_pcb := w\<rparr>) = w AND NOT 7" "PCB_XCHILD (n\<lparr>avl_pcb := w\<rparr>) = unat (drop_bit 2 w AND 1)"
  "PCB_XBALANCE (n\<lparr>avl_pcb := w\<rparr>) = sint ((w AND 3) - 1)"
  by (simp_all add: PCB_XPARENT_def PCB_XCHILD_def PCB_XBALANCE_def)

interpretation packed: node_access PCB_XPARENT PCB_SETPARENT PCB_XCHILD PCB_SETCHILD
  PCB_XBALANCE PCB_SETBALANCE
proof
  fix n :: pcb_node and p :: ptr assume p: "aligned p"
  note ab = aligned_bits [OF p]
  have "((avl_pcb n AND 7) OR p) AND NOT 7 = p" "((avl_pcb n AND 7) OR p) AND 3 = avl_pcb n AND 3"
    "drop_bit 2 ((avl_pcb n AND 7) OR p) AND 1 = drop_bit 2 (avl_pcb n) AND 1"
    by (rule bit_word_eqI, unfold pcb_bits, use ab in auto)+
  then show "PCB_XPARENT (PCB_SETPARENT n p) = p" "PCB_XCHILD (PCB_SETPARENT n p) = PCB_XCHILD n"
    "PCB_XBALANCE (PCB_SETPARENT n p) = PCB_XBALANCE n"
    by (simp_all add: PCB_SETPARENT_def pcb_fields) (simp_all add: PCB_XCHILD_def PCB_XBALANCE_def)
next
  fix n :: pcb_node and c :: nat assume c: "c < 2"
  let ?w = "(avl_pcb n AND NOT 4) OR push_bit 2 (of_nat c)"
  have cb: "bit (of_nat c :: uint64) m \<longleftrightarrow> m = 0 \<and> c = 1" for m
    using c by (elim dir_cases) (simp_all add: bit_1_iff)
  have "?w AND NOT 7 = avl_pcb n AND NOT 7" "?w AND 3 = avl_pcb n AND 3"
    by (rule bit_word_eqI, unfold pcb_bits cb, (auto)[1])+
  moreover have "drop_bit 2 ?w AND 1 = of_nat c"
    by (rule bit_word_eqI, unfold pcb_bits cb, auto)
  ultimately show "PCB_XPARENT (PCB_SETCHILD n c) = PCB_XPARENT n" "PCB_XCHILD (PCB_SETCHILD n c) = c"
    "PCB_XBALANCE (PCB_SETCHILD n c) = PCB_XBALANCE n"
    using c by (auto simp: PCB_SETCHILD_def pcb_fields PCB_XPARENT_def PCB_XBALANCE_def elim!: dir_cases)
next
  fix n :: pcb_node and b :: int assume b: "-1 \<le> b" "b \<le> 1"
  define v where "v = (of_int (b + 1) :: uint64)"
  let ?w = "(avl_pcb n AND NOT 3) OR v"
  have bb: "m < 2" if "bit v m" for m
    using that balance_bits [OF b] by (metis v_def bit_0_eq bit_and_iff bit_consts(2) bit_not_iff bot_apply
        bot_bool_def impossible_bit)
  have "?w AND NOT 7 = avl_pcb n AND NOT 7"
    by (rule bit_word_eqI, unfold pcb_bits) (auto dest: bb)
  moreover have "?w AND 3 = v"
    by (rule bit_word_eqI, unfold pcb_bits) (auto dest: bb)
  moreover have "drop_bit 2 ?w AND 1 = drop_bit 2 (avl_pcb n) AND 1"
    by (rule bit_word_eqI, unfold pcb_bits) (auto dest: bb)
  ultimately show "PCB_XPARENT (PCB_SETBALANCE n b) = PCB_XPARENT n" "PCB_XCHILD (PCB_SETBALANCE n b) = PCB_XCHILD n"
    "PCB_XBALANCE (PCB_SETBALANCE n b) = b"
    using bal_field [OF b, of ?w]
    by (simp_all add: PCB_SETBALANCE_def pcb_fields PCB_XPARENT_def PCB_XCHILD_def v_def)
qed

subsection \<open>The packed layout refines the unpacked one\<close>

definition unpack :: "pcb_node \<Rightarrow> avl_node" where
  "unpack n = \<lparr>avl_child = pcb_child n, avl_parent = PCB_XPARENT n,
     avl_child_index = PCB_XCHILD n, avl_balance = PCB_XBALANCE n\<rparr>"

lemma pcb_child_keep [simp]:
  "pcb_child (PCB_SETPARENT n p) = pcb_child n" "pcb_child (PCB_SETCHILD n c) = pcb_child n"
  "pcb_child (PCB_SETBALANCE n b) = pcb_child n"
  by (simp_all add: PCB_SETPARENT_def PCB_SETCHILD_def PCB_SETBALANCE_def)

text \<open>
  The packed 64-bit node layout refines the unpacked one: writing an aligned parent, a child
  index or a balance in \<open>-1 .. 1\<close> into the word \<open>avl_pcb\<close> changes that field and no other, so each
  macro of one layout simulates the macro of the same name of the other.
\<close>

theorem pcb_refines_unpacked:
  "aligned p \<Longrightarrow> c < 2 \<Longrightarrow> -1 \<le> b \<Longrightarrow> b \<le> 1 \<Longrightarrow>
   unpack (PCB_SETPARENT n p) = (unpack n)\<lparr>avl_parent := p\<rparr>
   \<and> unpack (PCB_SETCHILD n c) = (unpack n)\<lparr>avl_child_index := c\<rparr>
   \<and> unpack (PCB_SETBALANCE n b) = (unpack n)\<lparr>avl_balance := b\<rparr>"
  by (simp add: unpack_def packed.parent_same packed.parent_child packed.parent_balance
      packed.child_parent packed.child_same packed.child_balance
      packed.balance_parent packed.balance_child packed.balance_same)

theorem pcb_refines_witness:
  "unpack (PCB_SETPARENT \<lparr>pcb_child = (\<lambda>_. 0), avl_pcb = 6\<rparr> 64) =
   \<lparr>avl_child = (\<lambda>_. 0), avl_parent = 64, avl_child_index = 1, avl_balance = 1\<rparr>"
  using pcb_refines_unpacked [of 64 0 0 "\<lparr>pcb_child = (\<lambda>_. 0), avl_pcb = 6\<rparr>"]
  by (simp add: aligned_def unpack_def PCB_XPARENT_def PCB_XCHILD_def PCB_XBALANCE_def)

end
