(* ===== verification/FB_Ipc.thy ===== *)
theory FB_Ipc
  imports FB_Prelude
begin

text \<open>
  The shared memory allocators of \<^verbatim>\<open>src/filebench/ipc.c\<close>: the bitmap allocator of the fixed tables of
  objects (\<open>ipc_malloc\<close>, \<open>ipc_free\<close>), the string and path allocators, the semaphore table and the
  intimate shared memory. A mutex is its state, held or not: an operation that returns with the
  mutex held is visible. The bytes of an object are abstract; \<open>zero\<close> gives what \<open>memset\<close> makes of
  an object of each type. The addresses and sizes of the tables depend on the compiler and are the
  argument \<open>L\<close>. The constants are those of the process model.

  Not modelled: the creation of the shared file, the attributes of the mutexes, and the
  diagnostics.
\<close>

subsection \<open>Constants\<close>

abbreviation (input) FILEBENCH_MEMSIZE :: nat where "FILEBENCH_MEMSIZE \<equiv> 4096"
abbreviation (input) FILEBENCH_NFILESETENTRIES :: nat where "FILEBENCH_NFILESETENTRIES \<equiv> 1024 * 1024"
abbreviation (input) FSE_MAXPATHLEN :: nat where "FSE_MAXPATHLEN \<equiv> 16"
abbreviation (input) FILEBENCH_NVARS :: nat where "FILEBENCH_NVARS \<equiv> FILEBENCH_MEMSIZE"
abbreviation (input) FILEBENCH_FILESETPATHMEMORY :: nat where
  "FILEBENCH_FILESETPATHMEMORY \<equiv> FILEBENCH_NFILESETENTRIES * FSE_MAXPATHLEN"
abbreviation (input) FILEBENCH_STRINGMEMORY :: nat where "FILEBENCH_STRINGMEMORY \<equiv> FILEBENCH_NVARS * 128"
abbreviation (input) FILEBENCH_NSEMS :: nat where "FILEBENCH_NSEMS \<equiv> 128"

abbreviation (input) FILEBENCH_PROCFLOW :: nat where "FILEBENCH_PROCFLOW \<equiv> 0"
abbreviation (input) FILEBENCH_THREADFLOW :: nat where "FILEBENCH_THREADFLOW \<equiv> 1"
abbreviation (input) FILEBENCH_FLOWOP :: nat where "FILEBENCH_FLOWOP \<equiv> 2"
abbreviation (input) FILEBENCH_AVD :: nat where "FILEBENCH_AVD \<equiv> 3"
abbreviation (input) FILEBENCH_VARIABLE :: nat where "FILEBENCH_VARIABLE \<equiv> 4"
abbreviation (input) FILEBENCH_FILESET :: nat where "FILEBENCH_FILESET \<equiv> 5"
abbreviation (input) FILEBENCH_FILESETENTRY :: nat where "FILEBENCH_FILESETENTRY \<equiv> 6"
abbreviation (input) FILEBENCH_RANDDIST :: nat where "FILEBENCH_RANDDIST \<equiv> 7"
abbreviation (input) FILEBENCH_TYPES :: nat where "FILEBENCH_TYPES \<equiv> 8"

definition filebench_sizes :: "nat list" where
  "filebench_sizes = [FILEBENCH_MEMSIZE, 64 * FILEBENCH_MEMSIZE, 64 * FILEBENCH_MEMSIZE,
     FILEBENCH_NVARS * 2, FILEBENCH_NVARS, FILEBENCH_MEMSIZE, FILEBENCH_NFILESETENTRIES,
     FILEBENCH_MEMSIZE div 4]"

subsection \<open>State\<close>

record 'o filebench_shm =
  shm_bitmap :: "nat \<Rightarrow> nat \<Rightarrow> int"
  shm_lastbitmapindex :: "nat \<Rightarrow> nat"
  shm_obj :: "nat \<Rightarrow> nat \<Rightarrow> 'o"
  shm_malloc_lock :: bool
  shm_strings :: "nat \<Rightarrow> char"
  shm_string_ptr :: nat
  shm_filesetpaths :: "nat \<Rightarrow> char"
  shm_path_ptr :: nat
  shm_semids :: "nat \<Rightarrow> int"
  shm_id :: int
  shm_addr :: ptr
  shm_ptr :: ptr
  shm_allocated :: uint64
  shm_ism_lock :: bool

record layout =
  table_base :: "nat \<Rightarrow> uint64"
  obj_size :: "nat \<Rightarrow> uint64"

text \<open>The zeroed part of the structure and the assignments of \<open>ipc_init\<close>; the tables are not zeroed.\<close>

definition ipc_init :: "'o filebench_shm \<Rightarrow> 'o filebench_shm" where
  "ipc_init shm = shm\<lparr>shm_bitmap := (\<lambda>_ _. 0), shm_lastbitmapindex := (\<lambda>_. 0), shm_malloc_lock := False,
     shm_string_ptr := 0, shm_path_ptr := 0, shm_semids := (\<lambda>_. 0), shm_id := -1, shm_addr := NULL,
     shm_ptr := NULL, shm_allocated := 0, shm_ism_lock := True\<rparr>"

subsection \<open>Objects\<close>

text \<open>
  The \<open>do\<close> loop of \<open>ipc_malloc\<close>: the result is the index at which it stops, by \<open>break\<close> or because
  it has come back to the start.
\<close>

partial_function (option) ipc_scan :: "(nat \<Rightarrow> int) \<Rightarrow> nat \<Rightarrow> nat \<Rightarrow> nat \<Rightarrow> nat option" where
  "ipc_scan bitmap mx start_idx i =
     (let i' = (if i + 1 \<ge> mx then 0 else i + 1) in
      if bitmap i' = 0 then Some i'
      else if i' \<noteq> start_idx then ipc_scan bitmap mx start_idx i'
      else Some i')"

definition obj_addr :: "layout \<Rightarrow> nat \<Rightarrow> nat \<Rightarrow> ptr" where
  "obj_addr L type i = table_base L type + of_nat i * obj_size L type"

text \<open>A type outside the table of sizes makes \<open>ipc_malloc\<close> read behind it: \<open>None\<close>.\<close>

definition ipc_malloc ::
  "layout \<Rightarrow> (nat \<Rightarrow> 'o) \<Rightarrow> 'o filebench_shm \<Rightarrow> nat \<Rightarrow> (ptr \<times> 'o filebench_shm) option" where
  "ipc_malloc L zero shm type =
     (if type \<ge> FILEBENCH_TYPES then None
      else
        let mx = filebench_sizes ! type;
            start_idx = shm_lastbitmapindex shm type;
            shm = shm\<lparr>shm_malloc_lock := True\<rparr> in
        case ipc_scan (shm_bitmap shm type) mx start_idx start_idx of
          None \<Rightarrow> None
        | Some i \<Rightarrow>
            if i = start_idx then Some (NULL, shm\<lparr>shm_malloc_lock := False\<rparr>)
            else
              let shm = shm\<lparr>shm_bitmap := (shm_bitmap shm)(type := (shm_bitmap shm type)(i := 1)),
                            shm_lastbitmapindex := (shm_lastbitmapindex shm)(type := i)\<rparr>;
                  shm = shm\<lparr>shm_obj := (shm_obj shm)(type := (shm_obj shm type)(i := zero type))\<rparr> in
              Some (obj_addr L type i, shm\<lparr>shm_malloc_lock := False\<rparr>))"

text \<open>
  The size that \<open>ipc_free\<close> divides by. For \<open>FILEBENCH_AVD\<close> it is \<open>sizeof (avd_t)\<close>, the size of a
  pointer, because \<open>avd_t\<close> is a pointer type.
\<close>

definition free_size :: "layout \<Rightarrow> nat \<Rightarrow> uint64" where
  "free_size L type = (if type = FILEBENCH_AVD then 8 else obj_size L type)"

definition ipc_free :: "layout \<Rightarrow> 'o filebench_shm \<Rightarrow> nat \<Rightarrow> ptr \<Rightarrow> 'o filebench_shm" where
  "ipc_free L shm type addr =
     (if addr = NULL then shm
      else
        let offset = addr - table_base L type;
            item = unat (offset div free_size L type);
            shm = shm\<lparr>shm_malloc_lock := True\<rparr>;
            shm = shm\<lparr>shm_bitmap := (shm_bitmap shm)(type := (shm_bitmap shm type)(item := 0))\<rparr> in
        shm\<lparr>shm_malloc_lock := False\<rparr>)"

subsection \<open>Strings\<close>

text \<open>\<open>strncpy (dst, s, strlen (s))\<close> copies the characters and no terminating NUL.\<close>

definition copy_chars :: "(nat \<Rightarrow> char) \<Rightarrow> nat \<Rightarrow> string \<Rightarrow> nat \<Rightarrow> char" where
  "copy_chars mem p s = (\<lambda>j. if p \<le> j \<and> j < p + length s then s ! (j - p) else mem j)"

definition ipc_stralloc :: "'o filebench_shm \<Rightarrow> string \<Rightarrow> nat option \<times> 'o filebench_shm" where
  "ipc_stralloc shm str =
     (let allocstr = shm_string_ptr shm;
          shm = shm\<lparr>shm_string_ptr := shm_string_ptr shm + length str + 1\<rparr> in
      if shm_string_ptr shm > FILEBENCH_STRINGMEMORY then (None, shm)
      else (Some allocstr, shm\<lparr>shm_strings := copy_chars (shm_strings shm) allocstr str\<rparr>))"

definition ipc_pathalloc :: "'o filebench_shm \<Rightarrow> string \<Rightarrow> nat option \<times> 'o filebench_shm" where
  "ipc_pathalloc shm path =
     (let allocpath = shm_path_ptr shm;
          shm = shm\<lparr>shm_path_ptr := shm_path_ptr shm + length path + 1\<rparr> in
      if shm_path_ptr shm > FILEBENCH_FILESETPATHMEMORY then (None, shm)
      else (Some allocpath, shm\<lparr>shm_filesetpaths := copy_chars (shm_filesetpaths shm) allocpath path\<rparr>))"

definition ipc_freepaths :: "'o filebench_shm \<Rightarrow> 'o filebench_shm" where
  "ipc_freepaths shm = shm\<lparr>shm_path_ptr := 0\<rparr>"

subsection \<open>Semaphores\<close>

text \<open>
  The loop reads the table until it finds an entry other than \<open>1\<close>; a read behind the end of the
  table is \<open>None\<close>.
\<close>

function semid_scan :: "(nat \<Rightarrow> int) \<Rightarrow> nat \<Rightarrow> nat option" where
  "semid_scan ids semid =
     (if semid \<ge> FILEBENCH_NSEMS then None
      else if ids semid = 1 then semid_scan ids (semid + 1) else Some semid)"
  by auto
termination by (relation "measure (\<lambda>(ids, semid). 128 - semid)") auto

declare semid_scan.simps [simp del]

definition ipc_semidalloc :: "'o filebench_shm \<Rightarrow> (nat \<times> 'o filebench_shm) option" where
  "ipc_semidalloc shm =
     (case semid_scan (shm_semids shm) 0 of
        None \<Rightarrow> None
      | Some semid \<Rightarrow> Some (semid, shm\<lparr>shm_semids := (shm_semids shm)(semid := 1)\<rparr>))"

definition ipc_semidfree :: "'o filebench_shm \<Rightarrow> nat \<Rightarrow> 'o filebench_shm" where
  "ipc_semidfree shm semid = shm\<lparr>shm_semids := (shm_semids shm)(semid := 0)\<rparr>"

subsection \<open>Intimate shared memory\<close>

text \<open>The results of \<open>shmget\<close> and \<open>shmat\<close> are arguments; \<open>-1\<close> reports a failure.\<close>

definition ipc_ismcreate :: "int \<Rightarrow> ptr \<Rightarrow> 'o filebench_shm \<Rightarrow> int \<times> 'o filebench_shm" where
  "ipc_ismcreate shmget shmat shm =
     (if shm_id shm \<noteq> -1 then (0, shm)
      else
        let shm = shm\<lparr>shm_id := shmget\<rparr> in
        if shmget = -1 then (-1, shm)
        else
          let shm = shm\<lparr>shm_addr := shmat\<rparr> in
          if shmat = -1 then (-1, shm)
          else (0, shm\<lparr>shm_ptr := shm_addr shm, shm_ism_lock := False\<rparr>))"

definition ipc_ismattach :: "ptr \<Rightarrow> 'o filebench_shm \<Rightarrow> bool \<Rightarrow> int \<times> bool" where
  "ipc_ismattach shmat shm ism_attached =
     (if ism_attached then (0, ism_attached)
      else if shm_id shm = 999 then (0, ism_attached)
      else if shmat = NULL then (-1, ism_attached)
      else (0, True))"

text \<open>\<open>None\<close>: the mutex is held, the caller waits.\<close>

definition ipc_ismmalloc ::
  "ptr \<Rightarrow> 'o filebench_shm \<Rightarrow> bool \<Rightarrow> uint64 \<Rightarrow> (ptr \<times> 'o filebench_shm \<times> bool) option" where
  "ipc_ismmalloc shmat shm ism_attached sz =
     (if shm_ism_lock shm then None
      else
        let att = snd (ipc_ismattach shmat shm ism_attached);
            allocstr = shm_ptr shm in
        Some (allocstr, shm\<lparr>shm_ptr := shm_ptr shm + sz, shm_allocated := shm_allocated shm + sz\<rparr>, att))"

definition ipc_ismdelete :: "'o filebench_shm \<Rightarrow> 'o filebench_shm option" where
  "ipc_ismdelete shm =
     (if shm_id shm = -1 then Some shm
      else if shm_ism_lock shm then None
      else Some (shm\<lparr>shm_ptr := shm_addr shm, shm_id := -1, shm_allocated := 0\<rparr>))"

subsection \<open>The bitmap allocator\<close>

definition visited :: "nat \<Rightarrow> nat \<Rightarrow> nat \<Rightarrow> nat \<Rightarrow> bool" where
  "visited mx s i k \<longleftrightarrow> (if i < s then i < k \<and> k < s else i < k \<and> k < mx \<or> k < s)"

lemma ipc_scan_spec:
  assumes "s < mx" "i < mx"
  shows "\<exists>j. ipc_scan bm mx s i = Some j \<and> j < mx \<and> (bm j = 0 \<or> j = s)
    \<and> (j = s \<longrightarrow> (\<forall>k. visited mx s i k \<longrightarrow> bm k \<noteq> 0))"
  using assms
proof (induction "if i < s then s - i else mx - i + s" arbitrary: i rule: less_induct)
  case less
  let ?i = "if i + 1 \<ge> mx then 0 else i + 1"
  have i': "?i < mx" using less.prems by auto
  consider (free) "bm ?i = 0" | (wrap) "bm ?i \<noteq> 0" "?i = s" | (next_) "bm ?i \<noteq> 0" "?i \<noteq> s" by blast
  then show ?case
  proof cases
    case free
    moreover have "?i = s \<Longrightarrow> \<not> visited mx s i k" for k
      using less.prems by (auto simp: visited_def split: if_splits)
    ultimately show ?thesis using i' by (subst ipc_scan.simps) (auto simp: Let_def)
  next
    case wrap
    moreover have "\<not> visited mx s i k" for k
      using wrap less.prems by (auto simp: visited_def split: if_splits)
    ultimately show ?thesis using i' by (subst ipc_scan.simps) (auto simp: Let_def)
  next
    case next_
    have m: "(if ?i < s then s - ?i else mx - ?i + s) < (if i < s then s - i else mx - i + s)"
      using less.prems next_(2) by (auto split: if_splits)
    obtain j where J: "ipc_scan bm mx s ?i = Some j" "j < mx" "bm j = 0 \<or> j = s"
      "j = s \<longrightarrow> (\<forall>k. visited mx s ?i k \<longrightarrow> bm k \<noteq> 0)"
      using less.hyps [OF m less.prems(1) i'] by blast
    have v: "visited mx s i k \<Longrightarrow> k = ?i \<or> visited mx s ?i k" for k
      using less.prems next_(2) by (auto simp: visited_def split: if_splits)
    have "ipc_scan bm mx s i = ipc_scan bm mx s ?i"
      using next_ by (subst ipc_scan.simps) (simp add: Let_def)
    with J v next_(1) show ?thesis by (intro exI [of _ j]) auto
  qed
qed

text \<open>The well-formedness that \<open>ipc_init\<close> establishes and every operation keeps.\<close>

definition ipc_wf :: "'o filebench_shm \<Rightarrow> bool" where
  "ipc_wf shm \<longleftrightarrow> (\<forall>type < FILEBENCH_TYPES. shm_lastbitmapindex shm type < filebench_sizes ! type
     \<and> (\<forall>i. shm_bitmap shm type i \<noteq> 0 \<longrightarrow> i < filebench_sizes ! type)) \<and> \<not> shm_malloc_lock shm"

definition live :: "'o filebench_shm \<Rightarrow> nat \<Rightarrow> nat set" where
  "live shm type = {i. shm_bitmap shm type i \<noteq> 0}"

lemma sizes_pos: "type < FILEBENCH_TYPES \<Longrightarrow> 0 < filebench_sizes ! type"
proof -
  have "list_all (\<lambda>n. 0 < n) filebench_sizes" "length filebench_sizes = 8"
    by (simp_all add: filebench_sizes_def)
  then show "type < 8 \<Longrightarrow> 0 < filebench_sizes ! type" by (simp add: list_all_length)
qed

text \<open>Whether \<open>ipc_malloc\<close> finds a slot: the last allocated one is not looked at.\<close>

definition has_slot :: "'o filebench_shm \<Rightarrow> nat \<Rightarrow> bool" where
  "has_slot shm type \<longleftrightarrow>
     (\<exists>k < filebench_sizes ! type. k \<notin> live shm type \<and> k \<noteq> shm_lastbitmapindex shm type)"

lemma ipc_malloc_scan:
  assumes "ipc_wf shm" "type < FILEBENCH_TYPES"
  defines "s \<equiv> shm_lastbitmapindex shm type"
  obtains i where "ipc_scan (shm_bitmap shm type) (filebench_sizes ! type) s s = Some i"
    "i < filebench_sizes ! type" "i = s \<longleftrightarrow> \<not> has_slot shm type" "i \<noteq> s \<Longrightarrow> i \<notin> live shm type"
proof -
  let ?mx = "filebench_sizes ! type" and ?bm = "shm_bitmap shm type"
  have s: "s < ?mx" using assms by (simp add: ipc_wf_def)
  obtain i where I: "ipc_scan ?bm ?mx s s = Some i" "i < ?mx" "?bm i = 0 \<or> i = s"
    "i = s \<longrightarrow> (\<forall>k. visited ?mx s s k \<longrightarrow> ?bm k \<noteq> 0)"
    using ipc_scan_spec [OF s s] by blast
  have vis: "visited ?mx s s k" if "k < ?mx" "k \<noteq> s" for k using that by (auto simp: visited_def)
  have "i = s \<longleftrightarrow> \<not> has_slot shm type"
    using I vis unfolding has_slot_def live_def s_def by blast
  with I that show thesis by (auto simp: live_def)
qed

lemma ipc_malloc_full:
  assumes "ipc_wf shm" "type < FILEBENCH_TYPES" "\<not> has_slot shm type"
  shows "ipc_malloc L zero shm type = Some (NULL, shm)"
proof -
  have "shm\<lparr>shm_malloc_lock := False\<rparr> = shm" using assms(1) by (simp add: ipc_wf_def)
  with assms show ?thesis by (rule_tac ipc_malloc_scan [OF assms(1,2)]) (simp add: ipc_malloc_def Let_def)
qed

lemma ipc_malloc_found:
  assumes "ipc_wf shm" "type < FILEBENCH_TYPES" "has_slot shm type"
  shows "\<exists>i shm'. ipc_malloc L zero shm type = Some (obj_addr L type i, shm')
      \<and> i < filebench_sizes ! type \<and> i \<notin> live shm type
      \<and> live shm' = (live shm)(type := insert i (live shm type))
      \<and> shm_obj shm' = (shm_obj shm)(type := (shm_obj shm type)(i := zero type)) \<and> ipc_wf shm'"
proof -
  let ?s = "shm_lastbitmapindex shm type" and ?bm = "shm_bitmap shm type"
  obtain i where I: "ipc_scan ?bm (filebench_sizes ! type) ?s ?s = Some i" "i < filebench_sizes ! type"
    "i \<noteq> ?s" "i \<notin> live shm type"
    using ipc_malloc_scan [OF assms(1,2)] assms(3) by metis
  let ?shm = "shm\<lparr>shm_bitmap := (shm_bitmap shm)(type := ?bm(i := 1)),
      shm_lastbitmapindex := (shm_lastbitmapindex shm)(type := i),
      shm_obj := (shm_obj shm)(type := (shm_obj shm type)(i := zero type)), shm_malloc_lock := False\<rparr>"
  have "ipc_malloc L zero shm type = Some (obj_addr L type i, ?shm)"
    using I(1,3) assms(2) by (simp add: ipc_malloc_def Let_def)
  moreover have "live ?shm = (live shm)(type := insert i (live shm type))"
    by (auto simp: live_def fun_eq_iff)
  moreover have "ipc_wf ?shm" using assms I(2) by (auto simp: ipc_wf_def)
  ultimately show ?thesis using I(2,4) by (intro exI [of _ i] exI [of _ ?shm]) simp
qed

text \<open>
  C29. \<open>ipc_malloc\<close> returns. If some slot other than the last allocated one is free, it returns the
  address of a free slot, zeroed, and marks that slot and no other; otherwise it returns \<open>NULL\<close> and
  changes nothing. Either way the allocator stays well-formed and the lock is released.
\<close>

theorem ipc_malloc_correct:
  assumes "ipc_wf shm" "type < FILEBENCH_TYPES"
  shows "if \<exists>k < filebench_sizes ! type. k \<notin> live shm type \<and> k \<noteq> shm_lastbitmapindex shm type
    then \<exists>i shm'. ipc_malloc L zero shm type = Some (obj_addr L type i, shm')
      \<and> i < filebench_sizes ! type \<and> i \<notin> live shm type
      \<and> live shm' = (live shm)(type := insert i (live shm type))
      \<and> shm_obj shm' = (shm_obj shm)(type := (shm_obj shm type)(i := zero type)) \<and> ipc_wf shm'
    else ipc_malloc L zero shm type = Some (NULL, shm)"
  using ipc_malloc_found [OF assms] ipc_malloc_full [OF assms]
  unfolding has_slot_def [symmetric] by (cases "has_slot shm type") simp_all

text \<open>An example state and layout for the statements below.\<close>

definition ex_shm :: "nat filebench_shm" where
  "ex_shm = ipc_init \<lparr>shm_bitmap = (\<lambda>_ _. 1), shm_lastbitmapindex = (\<lambda>_. 7), shm_obj = (\<lambda>_ _. 5),
     shm_malloc_lock = True, shm_strings = (\<lambda>_. NUL), shm_string_ptr = 3, shm_filesetpaths = (\<lambda>_. NUL),
     shm_path_ptr = 3, shm_semids = (\<lambda>_. 1), shm_id = 0, shm_addr = 1, shm_ptr = 1, shm_allocated = 1,
     shm_ism_lock = False\<rparr>"

definition ex_layout :: layout where
  "ex_layout = \<lparr>table_base = (\<lambda>type. 2 ^ 32 * (of_nat type + 1)), obj_size = (\<lambda>_. 16)\<rparr>"

lemma ipc_init_wf: "ipc_wf (ipc_init shm)"
  using sizes_pos by (simp add: ipc_wf_def ipc_init_def)

theorem ipc_malloc_witness:
  "\<exists>i shm'. ipc_malloc ex_layout (\<lambda>_. 0) ex_shm FILEBENCH_FILESET = Some (obj_addr ex_layout FILEBENCH_FILESET i, shm')
     \<and> shm_obj shm' FILEBENCH_FILESET i = 0 \<and> i \<in> live shm' FILEBENCH_FILESET"
proof -
  have c: "\<exists>k < filebench_sizes ! 5. k \<notin> live ex_shm 5 \<and> k \<noteq> shm_lastbitmapindex ex_shm 5"
    by (rule exI [of _ 1]) (simp add: live_def ex_shm_def ipc_init_def filebench_sizes_def)
  have wf: "ipc_wf ex_shm" unfolding ex_shm_def by (rule ipc_init_wf)
  show ?thesis
    using ipc_malloc_correct [of ex_shm 5 ex_layout "\<lambda>_. 0", OF wf, unfolded if_P [OF c]] by auto
qed

subsection \<open>Freeing\<close>

text \<open>
  What the code relies on from the layout of \<open>filebench_shm_t\<close>: objects have a size, the tables
  fit into the address space, and no object is at address 0.
\<close>

definition layout_ok :: "layout \<Rightarrow> bool" where
  "layout_ok L \<longleftrightarrow> (\<forall>type < FILEBENCH_TYPES. obj_size L type \<noteq> 0
     \<and> filebench_sizes ! type * unat (obj_size L type) < 2 ^ 64
     \<and> (\<forall>i < filebench_sizes ! type. obj_addr L type i \<noteq> NULL))"

lemma slot_offset:
  assumes "layout_ok L" "type < FILEBENCH_TYPES" "i < filebench_sizes ! type"
  shows "unat (obj_addr L type i - table_base L type) = i * unat (obj_size L type)"
proof -
  let ?n = "unat (obj_size L type)"
  have "i * ?n \<le> filebench_sizes ! type * ?n" using assms(3) by (intro mult_le_mono1) simp
  moreover have "filebench_sizes ! type * ?n < 2 ^ 64" using assms(1,2) by (simp add: layout_ok_def)
  ultimately have lt: "i * ?n < 2 ^ 64" by linarith
  have "obj_addr L type i - table_base L type = of_nat i * obj_size L type" by (simp add: obj_addr_def)
  also have "\<dots> = of_nat (i * ?n)" by simp
  finally show ?thesis using lt by (simp only: unat_of_nat take_bit_nat_eq_self) (simp add: take_bit_nat_eq_self)
qed

lemma obj_addr_inj:
  assumes "layout_ok L" "type < FILEBENCH_TYPES" "i < filebench_sizes ! type" "j < filebench_sizes ! type"
    "obj_addr L type i = obj_addr L type j"
  shows "i = j"
proof -
  have "i * unat (obj_size L type) = j * unat (obj_size L type)"
    using slot_offset [OF assms(1,2,3)] slot_offset [OF assms(1,2,4)] assms(5) by metis
  moreover have "unat (obj_size L type) \<noteq> 0" using assms(1,2) by (simp add: layout_ok_def unat_eq_zero)
  ultimately show ?thesis by simp
qed

lemma ipc_free_slot:
  assumes "layout_ok L" "type < FILEBENCH_TYPES" "i < filebench_sizes ! type" "ipc_wf shm"
  defines "item \<equiv> i * unat (obj_size L type) div unat (free_size L type)"
  shows "live (ipc_free L shm type (obj_addr L type i)) = (live shm)(type := live shm type - {item})"
    "ipc_wf (ipc_free L shm type (obj_addr L type i))"
proof -
  have nz: "obj_addr L type i \<noteq> NULL" using assms(1-3) by (simp add: layout_ok_def)
  have "unat ((obj_addr L type i - table_base L type) div free_size L type) = item"
    unfolding item_def unat_div_distrib using slot_offset [OF assms(1-3)] by simp
  with nz assms(4) show "live (ipc_free L shm type (obj_addr L type i)) = (live shm)(type := live shm type - {item})"
    "ipc_wf (ipc_free L shm type (obj_addr L type i))"
    by (auto simp: ipc_free_def live_def ipc_wf_def fun_eq_iff Let_def)
qed

text \<open>
  The contract of an allocator of handles: a handle that is given out was not in use, releasing it
  makes it available and touches no other.
\<close>

locale handle_allocator =
  fixes inv :: "'s \<Rightarrow> bool" and used :: "'s \<Rightarrow> 'h set"
    and alloc :: "'s \<Rightarrow> 'h option \<times> 's" and release :: "'s \<Rightarrow> 'h \<Rightarrow> 's"
  assumes alloc_some: "inv s \<Longrightarrow> alloc s = (Some i, s') \<Longrightarrow> inv s' \<and> i \<notin> used s \<and> used s' = insert i (used s)"
    and alloc_none: "inv s \<Longrightarrow> alloc s = (None, s') \<Longrightarrow> s' = s"
    and release_used: "inv s \<Longrightarrow> i \<in> used s \<Longrightarrow> inv (release s i) \<and> used (release s i) = used s - {i}"
begin

lemma alloc_release: "inv s \<Longrightarrow> alloc s = (Some i, s') \<Longrightarrow> inv (release s' i) \<and> used (release s' i) = used s"
  using alloc_some [of s i s'] release_used [of s' i] by auto

lemma alloc_twice: "inv s \<Longrightarrow> alloc s = (Some i, s') \<Longrightarrow> alloc s' = (Some j, s'') \<Longrightarrow> i \<noteq> j"
  using alloc_some [of s i s'] alloc_some [of s' j s''] by auto

end

definition ipc_alloc_handle ::
  "layout \<Rightarrow> (nat \<Rightarrow> 'o) \<Rightarrow> nat \<Rightarrow> 'o filebench_shm \<Rightarrow> ptr option \<times> 'o filebench_shm" where
  "ipc_alloc_handle L zero type shm =
     (case ipc_malloc L zero shm type of
        Some (p, shm') \<Rightarrow> (if p = NULL then None else Some p, shm')
      | None \<Rightarrow> (None, shm))"

definition ipc_handles :: "layout \<Rightarrow> nat \<Rightarrow> 'o filebench_shm \<Rightarrow> ptr set" where
  "ipc_handles L type shm = obj_addr L type ` live shm type"

lemma wf_live: "ipc_wf shm \<Longrightarrow> type < FILEBENCH_TYPES \<Longrightarrow> i \<in> live shm type \<Longrightarrow> i < filebench_sizes ! type"
  by (auto simp: ipc_wf_def live_def)

interpretation ipc: handle_allocator
  "\<lambda>shm. ipc_wf shm \<and> layout_ok L \<and> type < FILEBENCH_TYPES \<and> type \<noteq> FILEBENCH_AVD"
  "ipc_handles L type" "ipc_alloc_handle L zero type" "\<lambda>shm p. ipc_free L shm type p"
  for L :: layout and zero :: "nat \<Rightarrow> 'o" and type :: nat
proof
  fix s s' :: "'o filebench_shm" and p
  assume inv: "ipc_wf s \<and> layout_ok L \<and> type < FILEBENCH_TYPES \<and> type \<noteq> FILEBENCH_AVD"
    and a: "ipc_alloc_handle L zero type s = (Some p, s')"
  have f: "has_slot s type"
    using ipc_malloc_full [of s type L zero] a inv
    by (cases "has_slot s type") (auto simp: ipc_alloc_handle_def)
  obtain i where I: "p = obj_addr L type i" "i < filebench_sizes ! type" "i \<notin> live s type"
    "live s' = (live s)(type := insert i (live s type))" "ipc_wf s'"
    using ipc_malloc_found [OF _ _ f, of L zero] a inv by (auto simp: ipc_alloc_handle_def split: if_splits)
  have "p \<notin> ipc_handles L type s"
    using I(1-3) inv obj_addr_inj [of L type i] wf_live [of s type] by (auto simp: ipc_handles_def)
  with I inv show "(ipc_wf s' \<and> layout_ok L \<and> type < FILEBENCH_TYPES \<and> type \<noteq> FILEBENCH_AVD) \<and>
      p \<notin> ipc_handles L type s \<and> ipc_handles L type s' = insert p (ipc_handles L type s)"
    by (auto simp: ipc_handles_def)
next
  fix s s' :: "'o filebench_shm"
  assume inv: "ipc_wf s \<and> layout_ok L \<and> type < FILEBENCH_TYPES \<and> type \<noteq> FILEBENCH_AVD"
    and a: "ipc_alloc_handle L zero type s = (None, s')"
  have "\<not> has_slot s type"
    using ipc_malloc_found [of s type L zero] a inv
    by (auto simp: ipc_alloc_handle_def layout_ok_def split: if_splits)
  then show "s' = s" using ipc_malloc_full [of s type L zero] a inv by (auto simp: ipc_alloc_handle_def)
next
  fix s :: "'o filebench_shm" and p
  assume inv: "ipc_wf s \<and> layout_ok L \<and> type < FILEBENCH_TYPES \<and> type \<noteq> FILEBENCH_AVD"
    and p: "p \<in> ipc_handles L type s"
  then obtain i where i: "i \<in> live s type" "p = obj_addr L type i" by (auto simp: ipc_handles_def)
  have lt: "i < filebench_sizes ! type" using wf_live inv i by blast
  have nz: "unat (obj_size L type) \<noteq> 0" using inv by (simp add: layout_ok_def unat_eq_zero)
  note F = ipc_free_slot [of L type i s]
  have "live (ipc_free L s type p) = (live s)(type := live s type - {i})" "ipc_wf (ipc_free L s type p)"
    using F inv lt nz by (simp_all add: i free_size_def)
  moreover have "obj_addr L type ` (live s type - {i}) = obj_addr L type ` live s type - {obj_addr L type i}"
    using inv i(1) obj_addr_inj [of L type] wf_live [of s type] by (auto simp: image_iff)
  ultimately show "(ipc_wf (ipc_free L s type p) \<and> layout_ok L \<and> type < FILEBENCH_TYPES \<and> type \<noteq> FILEBENCH_AVD) \<and>
      ipc_handles L type (ipc_free L s type p) = ipc_handles L type s - {p}"
    using inv by (simp add: ipc_handles_def i(2))
qed


lemma ex_layout_ok: "layout_ok ex_layout"
proof -
  have e: "obj_addr ex_layout type i = of_nat (2 ^ 32 * (type + 1) + 16 * i)" for type i
    by (simp add: obj_addr_def ex_layout_def)
  have b: "filebench_sizes ! type \<le> 2 ^ 20" if "type < FILEBENCH_TYPES" for type
  proof -
    have "list_all (\<lambda>n. n \<le> 2 ^ 20) filebench_sizes" "length filebench_sizes = 8"
      by (simp_all add: filebench_sizes_def)
    with that show ?thesis by (simp add: list_all_length)
  qed
  have "obj_addr ex_layout type i \<noteq> NULL" if "type < FILEBENCH_TYPES" "i < filebench_sizes ! type" for type i
  proof -
    have "2 ^ 32 * (type + 1) + 16 * i < 2 ^ 64" "0 < 2 ^ 32 * (type + 1) + 16 * i"
      using b [OF that(1)] that by simp_all
    then have "unat (obj_addr ex_layout type i) \<noteq> 0"
      unfolding e by (simp only: unat_of_nat take_bit_nat_eq_self) (simp add: take_bit_nat_eq_self)
    then show ?thesis by auto
  qed
  moreover have "filebench_sizes ! type * 16 < 2 ^ 64" if "type < FILEBENCH_TYPES" for type
    using b [OF that] by simp
  ultimately show ?thesis by (simp add: layout_ok_def ex_layout_def)
qed

lemma ex_malloc: "\<exists>p shm'. ipc_malloc ex_layout (\<lambda>_. 0) ex_shm 5 = Some (p, shm') \<and> p \<noteq> NULL"
proof -
  have c: "has_slot ex_shm 5" unfolding has_slot_def
    by (rule exI [of _ 1]) (simp add: live_def ex_shm_def ipc_init_def filebench_sizes_def)
  have wf: "ipc_wf ex_shm" unfolding ex_shm_def by (rule ipc_init_wf)
  obtain i shm' where "ipc_malloc ex_layout (\<lambda>_. 0) ex_shm 5 = Some (obj_addr ex_layout 5 i, shm')"
    "i < filebench_sizes ! 5" using ipc_malloc_found [OF wf _ c, of ex_layout "\<lambda>_. 0"] by auto
  with ex_layout_ok show ?thesis by (auto simp: layout_ok_def)
qed


text \<open>
  For \<open>FILEBENCH_AVD\<close> the division by the size of a pointer makes \<open>ipc_free\<close> clear another slot
  than the one that is freed: with the 16 bytes of \<open>struct avd\<close>, freeing slot \<open>i\<close> clears slot \<open>2 * i\<close>
  and leaves slot \<open>i\<close> allocated.
\<close>

theorem ipc_free_avd_wrong_slot:
  assumes "layout_ok L" "obj_size L FILEBENCH_AVD = 16" "ipc_wf shm"
    "i < filebench_sizes ! FILEBENCH_AVD" "i \<in> live shm FILEBENCH_AVD" "0 < i"
  shows "live (ipc_free L shm FILEBENCH_AVD (obj_addr L FILEBENCH_AVD i)) FILEBENCH_AVD
      = live shm FILEBENCH_AVD - {2 * i}
    \<and> i \<in> live (ipc_free L shm FILEBENCH_AVD (obj_addr L FILEBENCH_AVD i)) FILEBENCH_AVD"
  using ipc_free_slot(1) [OF assms(1) _ assms(4,3)] assms(2,5,6) by (simp add: free_size_def)

theorem ipc_free_avd_witness:
  "1 \<in> live (ipc_free ex_layout (ex_shm\<lparr>shm_bitmap := (\<lambda>t i. if t = 3 \<and> i = 1 then 1 else 0)\<rparr>)
      FILEBENCH_AVD (obj_addr ex_layout FILEBENCH_AVD 1)) FILEBENCH_AVD"
proof -
  let ?shm = "ex_shm\<lparr>shm_bitmap := (\<lambda>t i. if t = 3 \<and> i = 1 then 1 else 0)\<rparr>"
  have "ipc_wf ?shm"
    using ipc_init_wf [of ex_shm] unfolding ex_shm_def ipc_wf_def
    by (auto simp: ipc_init_def filebench_sizes_def split: if_splits)
  then show ?thesis
    using ipc_free_avd_wrong_slot [OF ex_layout_ok, of ?shm 1]
    by (simp add: ex_layout_def live_def filebench_sizes_def)
qed

subsection \<open>Strings and paths\<close>

definition str_at :: "(nat \<Rightarrow> char) \<Rightarrow> nat \<Rightarrow> string \<Rightarrow> bool" where
  "str_at mem p s \<longleftrightarrow> (\<forall>i < length s. mem (p + i) = s ! i) \<and> mem (p + length s) = NUL \<and> NUL \<notin> set s"

lemma str_at_copy:
  "NUL \<notin> set s \<Longrightarrow> mem (p + length s) = NUL \<Longrightarrow> str_at (copy_chars mem p s) p s"
  by (auto simp: str_at_def copy_chars_def)

lemma str_at_keep:
  "str_at mem q t \<Longrightarrow> q + length t < p \<Longrightarrow> str_at (copy_chars mem p s) q t"
  by (auto simp: str_at_def copy_chars_def)

text \<open>
  As long as the string memory behind the allocation pointer is still zero, \<open>ipc_stralloc\<close>
  returns a C string equal to its argument, leaves the strings handed out before as they are and
  keeps the rest of the memory zero; when the memory is exhausted it returns \<open>NULL\<close>.
\<close>

theorem ipc_stralloc_correct:
  assumes "\<forall>j \<ge> shm_string_ptr shm. shm_strings shm j = NUL" "NUL \<notin> set s"
    "ipc_stralloc shm s = (r, shm')"
  shows "(r = Some (shm_string_ptr shm) \<longleftrightarrow> shm_string_ptr shm + length s + 1 \<le> FILEBENCH_STRINGMEMORY)
    \<and> (r = None \<longleftrightarrow> \<not> shm_string_ptr shm + length s + 1 \<le> FILEBENCH_STRINGMEMORY)
    \<and> (\<forall>p. r = Some p \<longrightarrow> str_at (shm_strings shm') p s)
    \<and> (\<forall>q t. str_at (shm_strings shm) q t \<and> q + length t < shm_string_ptr shm
        \<longrightarrow> str_at (shm_strings shm') q t)
    \<and> (\<forall>j \<ge> shm_string_ptr shm'. shm_strings shm' j = NUL)"
proof (cases "shm_string_ptr shm + length s + 1 \<le> FILEBENCH_STRINGMEMORY")
  case True
  with assms(3) have r: "r = Some (shm_string_ptr shm)" "shm_string_ptr shm' = shm_string_ptr shm + length s + 1"
    "shm_strings shm' = copy_chars (shm_strings shm) (shm_string_ptr shm) s"
    by (auto simp: ipc_stralloc_def Let_def)
  with True assms(1,2) show ?thesis by (auto simp: str_at_copy str_at_keep) (auto simp: copy_chars_def)
next
  case False
  with assms(1,3) show ?thesis by (auto simp: ipc_stralloc_def Let_def)
qed

theorem ipc_stralloc_witness:
  "\<exists>shm'. ipc_stralloc ex_shm ''nfiles'' = (Some 0, shm') \<and> str_at (shm_strings shm') 0 ''nfiles''"
  using ipc_stralloc_correct [of ex_shm "''nfiles''" "fst (ipc_stralloc ex_shm ''nfiles'')"
      "snd (ipc_stralloc ex_shm ''nfiles'')"]
  by (auto simp: ex_shm_def ipc_init_def) (metis prod.collapse)

text \<open>
  \<open>ipc_freepaths\<close> resets the allocation pointer but not the memory, and \<open>ipc_pathalloc\<close> writes
  no terminating NUL: the next, shorter path runs on into the path that was there before.
\<close>

theorem ipc_freepaths_stale:
  assumes "str_at (shm_filesetpaths shm) 0 s" "length s + 1 \<le> FILEBENCH_FILESETPATHMEMORY"
    "NUL \<notin> set t" "length t < length s"
  shows "\<exists>shm'. ipc_pathalloc (ipc_freepaths shm) t = (Some 0, shm')
    \<and> str_at (shm_filesetpaths shm') 0 (t @ drop (length t) s)"
  using assms
  by (auto simp: ipc_pathalloc_def ipc_freepaths_def Let_def str_at_def copy_chars_def nth_append
      dest: in_set_dropD)

theorem ipc_freepaths_witness:
  "\<exists>shm'. ipc_pathalloc (ipc_freepaths (snd (ipc_pathalloc ex_shm ''00000012''))) ''0034'' = (Some 0, shm')
     \<and> str_at (shm_filesetpaths shm') 0 ''00340012''"
proof -
  let ?shm = "snd (ipc_pathalloc ex_shm ''00000012'')"
  have "str_at (shm_filesetpaths ?shm) 0 ''00000012''"
    by (auto simp: ipc_pathalloc_def ex_shm_def ipc_init_def intro!: str_at_copy)
  from ipc_freepaths_stale [OF this, of "''0034''"] show ?thesis by auto
qed

subsection \<open>Semaphores\<close>

definition used_semids :: "'o filebench_shm \<Rightarrow> nat set" where
  "used_semids shm = {i. i < FILEBENCH_NSEMS \<and> shm_semids shm i = 1}"

lemma semid_scan_spec:
  "case semid_scan ids k of
     None \<Rightarrow> \<forall>i. k \<le> i \<and> i < FILEBENCH_NSEMS \<longrightarrow> ids i = 1
   | Some j \<Rightarrow> k \<le> j \<and> j < FILEBENCH_NSEMS \<and> ids j \<noteq> 1 \<and> (\<forall>i. k \<le> i \<and> i < j \<longrightarrow> ids i = 1)"
proof (induction ids k rule: semid_scan.induct)
  case (1 ids k)
  consider "k \<ge> 128" | "k < 128" "ids k \<noteq> 1" | "k < 128" "ids k = 1" by linarith
  then show ?case
  proof cases
    case 3
    then have e: "semid_scan ids k = semid_scan ids (k + 1)" by (subst semid_scan.simps) simp
    have le: "k \<le> i \<longleftrightarrow> i = k \<or> k + 1 \<le> i" for i by auto
    from 3 "1.IH" show ?thesis unfolding e le by (auto split: option.splits)
  qed (subst semid_scan.simps; simp)+
qed

definition semid_alloc_handle :: "'o filebench_shm \<Rightarrow> nat option \<times> 'o filebench_shm" where
  "semid_alloc_handle shm =
     (case ipc_semidalloc shm of Some (i, shm') \<Rightarrow> (Some i, shm') | None \<Rightarrow> (None, shm))"

interpretation sem: handle_allocator "\<lambda>_. True" used_semids semid_alloc_handle ipc_semidfree
proof
  fix s s' :: "'o filebench_shm" and i
  assume "semid_alloc_handle s = (Some i, s')"
  then show "True \<and> i \<notin> used_semids s \<and> used_semids s' = insert i (used_semids s)"
    using semid_scan_spec [where ids = "shm_semids s" and k = 0]
    by (auto simp: semid_alloc_handle_def ipc_semidalloc_def used_semids_def split: option.splits)
next
  fix s s' :: "'o filebench_shm"
  assume "semid_alloc_handle s = (None, s')"
  then show "s' = s" by (auto simp: semid_alloc_handle_def split: option.splits)
next
  fix s :: "'o filebench_shm" and i
  show "True \<and> used_semids (ipc_semidfree s i) = used_semids s - {i}"
    by (auto simp: used_semids_def ipc_semidfree_def)
qed

text \<open>
  \<open>ipc_semidalloc\<close> returns the first free semaphore of the table and marks it; when all are in
  use it reads behind the table instead of reporting the error, so the test for \<open>FILEBENCH_NSEMS\<close>
  after the loop comes too late.
\<close>

theorem ipc_semidalloc_correct:
  "if \<exists>i < FILEBENCH_NSEMS. i \<notin> used_semids shm
   then \<exists>i shm'. ipc_semidalloc shm = Some (i, shm') \<and> i < FILEBENCH_NSEMS \<and> i \<notin> used_semids shm
     \<and> (\<forall>j < i. j \<in> used_semids shm) \<and> used_semids shm' = insert i (used_semids shm)
     \<and> used_semids (ipc_semidfree shm' i) = used_semids shm
   else ipc_semidalloc shm = None"
proof (cases "ipc_semidalloc shm")
  case None
  then show ?thesis using semid_scan_spec [where ids = "shm_semids shm" and k = 0]
    by (auto simp: ipc_semidalloc_def used_semids_def split: option.splits)
next
  case (Some r)
  then obtain i shm' where r: "ipc_semidalloc shm = Some (i, shm')" by (cases r) auto
  then have h: "semid_alloc_handle shm = (Some i, shm')" by (simp add: semid_alloc_handle_def)
  have i: "i < FILEBENCH_NSEMS" "\<forall>j < i. j \<in> used_semids shm"
    using r semid_scan_spec [where ids = "shm_semids shm" and k = 0]
    by (auto simp: ipc_semidalloc_def used_semids_def split: option.splits)
  with sem.alloc_some [OF TrueI h] sem.alloc_release [OF TrueI h] r show ?thesis by auto
qed

theorem ipc_semidalloc_witness:
  "\<exists>shm'. ipc_semidalloc ex_shm = Some (0, shm') \<and> used_semids shm' = {0}"
proof -
  have e: "used_semids ex_shm = {}" by (simp add: used_semids_def ex_shm_def ipc_init_def)
  then have "\<exists>i < 128. i \<notin> used_semids ex_shm" by (intro exI [of _ 0]) simp
  from ipc_semidalloc_correct [of ex_shm, unfolded if_P [OF this], unfolded e]
  show ?thesis by auto
qed

subsection \<open>Intimate shared memory\<close>

text \<open>
  After a failed \<open>shmat\<close>, \<open>ipc_ismcreate\<close> has already stored the segment's id: a later call
  reports success although there is no memory, and the lock that \<open>ipc_init\<close> took is never released,
  so that \<open>ipc_ismmalloc\<close> waits for ever.
\<close>

theorem ipc_ismcreate_failed_attach:
  assumes "shm_id shm = -1" "shm_ism_lock shm" "seg \<noteq> -1" "ipc_ismcreate seg (-1) shm = (r, shm')"
  shows "r = -1 \<and> ipc_ismcreate id2 addr shm' = (0, shm') \<and> ipc_ismmalloc addr shm' att sz = None"
  using assms by (auto simp: ipc_ismcreate_def ipc_ismmalloc_def Let_def)

theorem ipc_ismcreate_witness:
  "ipc_ismcreate 5 4096 (snd (ipc_ismcreate 5 (-1) ex_shm)) = (0, snd (ipc_ismcreate 5 (-1) ex_shm))"
  using ipc_ismcreate_failed_attach [of ex_shm 5 "fst (ipc_ismcreate 5 (-1) ex_shm)"
      "snd (ipc_ismcreate 5 (-1) ex_shm)" 5 4096]
  by (simp add: ex_shm_def ipc_init_def)

end
