(* ===== verification/FB_Vars.thy ===== *)
theory FB_Vars
  imports FB_Ipc "HOL-Library.Monad_Syntax"
begin

text \<open>
  The variables of \<^verbatim>\<open>src/filebench/vars.c\<close> and \<^verbatim>\<open>vars.h\<close>: named, typed entities (\<open>var_t\<close>) on linked lists
  in shared memory, and the attribute value descriptors (\<open>avd_t\<close>) that refer to them. The state
  holds the variables and descriptors by address, the three list heads, and the shared memory
  allocator of \<open>FB_Ipc\<close>, which the allocating operations call as the code does.

  A union is the member written last, \<open>VZero\<close> after \<open>memset\<close>: reading another member has no value
  in the model. The pointer to a string in shared memory is the string, \<open>None\<close> for \<open>NULL\<close>; these
  strings are never written again. A pointer into the union of a variable (\<open>&var->var_val.integer\<close>)
  is the address of the variable. A double is its bit pattern; the floating point operations are
  the argument \<open>F\<close>, and \<open>rnd_get\<close> of a random distribution is the argument \<open>R\<close>, which threads the
  state \<open>w\<close> of the random sources. The result \<open>None\<close> of an operation is undefined behaviour: an
  unset local, a division by zero, a null pointer followed, or a recursion that does not end.

  Not modelled: log messages, and \<open>malloc\<close> failing in \<open>fb_stralloc\<close>.
\<close>

subsection \<open>Types\<close>

type_synonym dbl = "64 word"
type_synonym vtype = "32 word"

record fpu =
  fp_of_int :: "fbint \<Rightarrow> dbl"
  fp_to_int :: "dbl \<Rightarrow> fbint"
  fp_add :: "dbl \<Rightarrow> dbl \<Rightarrow> dbl"
  fp_sub :: "dbl \<Rightarrow> dbl \<Rightarrow> dbl"
  fp_mul :: "dbl \<Rightarrow> dbl \<Rightarrow> dbl"
  fp_div :: "dbl \<Rightarrow> dbl \<Rightarrow> dbl"

datatype avd_type = AVD_INVALID | AVD_VAL_BOOL | AVD_VARVAL_BOOL | AVD_VAL_INT | AVD_VARVAL_INT
  | AVD_VAL_STR | AVD_VARVAL_STR | AVD_VAL_DBL | AVD_VARVAL_DBL | AVD_IND_VAR | AVD_IND_RANDVAR

datatype avd_val = AZero | ABool int | ABoolPtr ptr | AInt fbint | AIntPtr ptr | ADbl dbl | ADblPtr ptr
  | AStr "string option" | AStrPtr ptr | ARand ptr | AVar ptr

record avd =
  avd_type :: avd_type
  avd_val :: avd_val

datatype var_val = VZero | VBool int | VInt fbint | VDbl dbl | VStr "string option" | VRand ptr | VVar ptr

record var_t =
  var_name :: "string option"
  var_type :: vtype
  var_next :: ptr
  var_val :: var_val
  var_varptr1 :: ptr

record randdist =
  rnd_next :: ptr
  rnd_var :: ptr
  rnd_seed :: ptr
  rnd_mean :: ptr
  rnd_gamma :: ptr
  rnd_min :: ptr
  rnd_round :: ptr
  rnd_type :: "16 word"

record vshm =
  ipc :: "unit filebench_shm"
  vars :: "ptr \<Rightarrow> var_t"
  avds :: "ptr \<Rightarrow> avd"
  rnds :: "ptr \<Rightarrow> randdist"
  shm_var_list :: ptr
  shm_var_dyn_list :: ptr
  shm_var_loc_list :: ptr
  shm_rand_list :: ptr

text \<open>Reading a member of a union.\<close>

fun val_bool :: "var_val \<Rightarrow> int option" where
  "val_bool (VBool b) = Some b" | "val_bool VZero = Some 0" | "val_bool _ = None"

fun val_int :: "var_val \<Rightarrow> fbint option" where
  "val_int (VInt i) = Some i" | "val_int VZero = Some 0" | "val_int _ = None"

fun val_dbl :: "var_val \<Rightarrow> dbl option" where
  "val_dbl (VDbl d) = Some d" | "val_dbl VZero = Some 0" | "val_dbl _ = None"

fun val_str :: "var_val \<Rightarrow> string option option" where
  "val_str (VStr s) = Some s" | "val_str VZero = Some None" | "val_str _ = None"

fun val_rand :: "var_val \<Rightarrow> ptr option" where
  "val_rand (VRand p) = Some p" | "val_rand VZero = Some NULL" | "val_rand _ = None"

fun val_varptr2 :: "var_val \<Rightarrow> ptr option" where
  "val_varptr2 (VVar p) = Some p" | "val_varptr2 VZero = Some NULL" | "val_varptr2 _ = None"

subsection \<open>The type word of a variable\<close>

abbreviation (input) VAR_TYPE_GLOBAL :: vtype where "VAR_TYPE_GLOBAL \<equiv> 0x0000"
abbreviation (input) VAR_TYPE_DYNAMIC :: vtype where "VAR_TYPE_DYNAMIC \<equiv> 0x1000"
abbreviation (input) VAR_TYPE_RANDOM :: vtype where "VAR_TYPE_RANDOM \<equiv> 0x2000"
abbreviation (input) VAR_TYPE_LOCAL :: vtype where "VAR_TYPE_LOCAL \<equiv> 0x3000"
abbreviation (input) VAR_TYPE_MASK :: vtype where "VAR_TYPE_MASK \<equiv> 0xf000"
abbreviation (input) VAR_TYPE_BOOL_SET :: vtype where "VAR_TYPE_BOOL_SET \<equiv> 0x0100"
abbreviation (input) VAR_TYPE_INT_SET :: vtype where "VAR_TYPE_INT_SET \<equiv> 0x0200"
abbreviation (input) VAR_TYPE_STR_SET :: vtype where "VAR_TYPE_STR_SET \<equiv> 0x0300"
abbreviation (input) VAR_TYPE_DBL_SET :: vtype where "VAR_TYPE_DBL_SET \<equiv> 0x0400"
abbreviation (input) VAR_TYPE_RAND_SET :: vtype where "VAR_TYPE_RAND_SET \<equiv> 0x0500"
abbreviation (input) VAR_TYPE_INDVAR_SET :: vtype where "VAR_TYPE_INDVAR_SET \<equiv> 0x0700"
abbreviation (input) VAR_TYPE_SET_MASK :: vtype where "VAR_TYPE_SET_MASK \<equiv> 0x0f00"
abbreviation (input) VAR_IND_ASSIGN :: vtype where "VAR_IND_ASSIGN \<equiv> 0x0000"
abbreviation (input) VAR_IND_BINOP_INT :: vtype where "VAR_IND_BINOP_INT \<equiv> 0x0010"
abbreviation (input) VAR_IND_BINOP_DBL :: vtype where "VAR_IND_BINOP_DBL \<equiv> 0x0020"
abbreviation (input) VAR_IND_BINOP_VAR :: vtype where "VAR_IND_BINOP_VAR \<equiv> 0x0030"
abbreviation (input) VAR_INDBINOP_MASK :: vtype where "VAR_INDBINOP_MASK \<equiv> 0x00f0"
abbreviation (input) VAR_IND_VAR_SUM_VC :: vtype where "VAR_IND_VAR_SUM_VC \<equiv> 0x0001"
abbreviation (input) VAR_IND_VAR_DIF_VC :: vtype where "VAR_IND_VAR_DIF_VC \<equiv> 0x0002"
abbreviation (input) VAR_IND_C_DIF_VAR :: vtype where "VAR_IND_C_DIF_VAR \<equiv> 0x0003"
abbreviation (input) VAR_IND_VAR_MUL_VC :: vtype where "VAR_IND_VAR_MUL_VC \<equiv> 0x0005"
abbreviation (input) VAR_IND_VAR_DIV_VC :: vtype where "VAR_IND_VAR_DIV_VC \<equiv> 0x0006"
abbreviation (input) VAR_IND_C_DIV_VAR :: vtype where "VAR_IND_C_DIV_VAR \<equiv> 0x0007"
abbreviation (input) VAR_INDVAR_MASK :: vtype where "VAR_INDVAR_MASK \<equiv> 0x000f"

definition VAR_HAS_BOOLEAN :: "var_t \<Rightarrow> bool" where
  "VAR_HAS_BOOLEAN vp \<longleftrightarrow> var_type vp AND VAR_TYPE_SET_MASK = VAR_TYPE_BOOL_SET"

definition VAR_HAS_INTEGER :: "var_t \<Rightarrow> bool" where
  "VAR_HAS_INTEGER vp \<longleftrightarrow> var_type vp AND VAR_TYPE_SET_MASK = VAR_TYPE_INT_SET"

definition VAR_HAS_DOUBLE :: "var_t \<Rightarrow> bool" where
  "VAR_HAS_DOUBLE vp \<longleftrightarrow> var_type vp AND VAR_TYPE_SET_MASK = VAR_TYPE_DBL_SET"

definition VAR_HAS_STRING :: "var_t \<Rightarrow> bool" where
  "VAR_HAS_STRING vp \<longleftrightarrow> var_type vp AND VAR_TYPE_SET_MASK = VAR_TYPE_STR_SET"

definition VAR_HAS_RANDDIST :: "var_t \<Rightarrow> bool" where
  "VAR_HAS_RANDDIST vp \<longleftrightarrow> var_type vp AND VAR_TYPE_SET_MASK = VAR_TYPE_RAND_SET"

definition VAR_HAS_INDVAR :: "var_t \<Rightarrow> bool" where
  "VAR_HAS_INDVAR vp \<longleftrightarrow> var_type vp AND VAR_TYPE_SET_MASK = VAR_TYPE_INDVAR_SET
     \<and> var_type vp AND VAR_INDBINOP_MASK = VAR_IND_ASSIGN"

definition VAR_HAS_BINOP :: "var_t \<Rightarrow> bool" where
  "VAR_HAS_BINOP vp \<longleftrightarrow> var_type vp AND VAR_TYPE_SET_MASK = VAR_TYPE_INDVAR_SET
     \<and> var_type vp AND VAR_INDBINOP_MASK \<noteq> VAR_IND_ASSIGN"

definition VAR_SET_BOOL :: "var_t \<Rightarrow> int \<Rightarrow> var_t" where
  "VAR_SET_BOOL vp v = vp\<lparr>var_val := VBool v,
     var_type := (var_type vp AND NOT VAR_TYPE_SET_MASK) OR VAR_TYPE_BOOL_SET\<rparr>"

definition VAR_SET_INT :: "var_t \<Rightarrow> fbint \<Rightarrow> var_t" where
  "VAR_SET_INT vp v = vp\<lparr>var_val := VInt v,
     var_type := (var_type vp AND NOT VAR_TYPE_SET_MASK) OR VAR_TYPE_INT_SET\<rparr>"

definition VAR_SET_DBL :: "var_t \<Rightarrow> dbl \<Rightarrow> var_t" where
  "VAR_SET_DBL vp v = vp\<lparr>var_val := VDbl v,
     var_type := (var_type vp AND NOT VAR_TYPE_SET_MASK) OR VAR_TYPE_DBL_SET\<rparr>"

definition VAR_SET_STR :: "var_t \<Rightarrow> string option \<Rightarrow> var_t" where
  "VAR_SET_STR vp v = vp\<lparr>var_val := VStr v,
     var_type := (var_type vp AND NOT VAR_TYPE_SET_MASK) OR VAR_TYPE_STR_SET\<rparr>"

definition VAR_SET_RAND :: "var_t \<Rightarrow> ptr \<Rightarrow> var_t" where
  "VAR_SET_RAND vp v = vp\<lparr>var_val := VRand v,
     var_type := (var_type vp AND NOT VAR_TYPE_SET_MASK) OR VAR_TYPE_RAND_SET\<rparr>"

definition VAR_SET_INDVAR :: "var_t \<Rightarrow> ptr \<Rightarrow> var_t" where
  "VAR_SET_INDVAR vp v = vp\<lparr>var_varptr1 := v,
     var_type := (var_type vp AND NOT (VAR_TYPE_SET_MASK OR VAR_INDVAR_MASK)) OR VAR_TYPE_INDVAR_SET\<rparr>"

definition VAR_SET_BINOP_INDVAR :: "var_t \<Rightarrow> ptr \<Rightarrow> vtype \<Rightarrow> var_t" where
  "VAR_SET_BINOP_INDVAR vp v st = vp\<lparr>var_varptr1 := v,
     var_type := (var_type vp AND NOT (VAR_TYPE_SET_MASK OR VAR_INDVAR_MASK)) OR (VAR_TYPE_INDVAR_SET OR st)\<rparr>"

definition set_var :: "vshm \<Rightarrow> ptr \<Rightarrow> var_t \<Rightarrow> vshm" where
  "set_var s p v = s\<lparr>vars := (vars s)(p := v)\<rparr>"

definition set_avd :: "vshm \<Rightarrow> ptr \<Rightarrow> avd \<Rightarrow> vshm" where
  "set_avd s p a = s\<lparr>avds := (avds s)(p := a)\<rparr>"

text \<open>The names of the types in the messages.\<close>

definition avd_get_type_string :: "avd \<Rightarrow> string" where
  "avd_get_type_string a =
     (case avd_type a of
        AVD_INVALID \<Rightarrow> ''uninitialized''
      | AVD_VAL_BOOL \<Rightarrow> ''boolean value''
      | AVD_VARVAL_BOOL \<Rightarrow> ''points to boolean in var_t''
      | AVD_VAL_INT \<Rightarrow> ''integer value''
      | AVD_VARVAL_INT \<Rightarrow> ''points to integer in var_t''
      | AVD_VAL_STR \<Rightarrow> ''string''
      | AVD_VARVAL_STR \<Rightarrow> ''points to string in var_t''
      | AVD_VAL_DBL \<Rightarrow> ''double float value''
      | AVD_VARVAL_DBL \<Rightarrow> ''points to double float in var_t''
      | AVD_IND_VAR \<Rightarrow> ''points to a var_t''
      | AVD_IND_RANDVAR \<Rightarrow> ''points to var_t's random distribution object'')"

definition var_get_type_string :: "var_t \<Rightarrow> string" where
  "var_get_type_string ivp =
     (let t = var_type ivp AND VAR_TYPE_SET_MASK in
      if t = VAR_TYPE_BOOL_SET then ''boolean'' else if t = VAR_TYPE_INT_SET then ''integer''
      else if t = VAR_TYPE_STR_SET then ''string'' else if t = VAR_TYPE_DBL_SET then ''double float''
      else if t = VAR_TYPE_RAND_SET then ''random'' else ''empty'')"

subsection \<open>Evaluation\<close>

text \<open>
  \<open>var_get_int\<close> and \<open>var_binary_integer_op\<close> call each other; the recursion is tied by passing the
  former to the latter. The second operand is read first. A type word whose operand field is none
  of the three kinds leaves \<open>src2\<close> unset.
\<close>

definition int_op :: "vtype \<Rightarrow> fbint \<Rightarrow> fbint \<Rightarrow> fbint option" where
  "int_op op src1 src2 =
     (if op = VAR_IND_VAR_SUM_VC then Some (src1 + src2)
      else if op = VAR_IND_VAR_DIF_VC then Some (src1 - src2)
      else if op = VAR_IND_C_DIF_VAR then Some (src2 - src1)
      else if op = VAR_IND_VAR_MUL_VC then Some (src1 * src2)
      else if op = VAR_IND_VAR_DIV_VC then (if src2 = 0 then None else Some (src1 div src2))
      else if op = VAR_IND_C_DIV_VAR then (if src1 = 0 then None else Some (src2 div src1))
      else Some 0)"

definition binop_src2_int ::
  "fpu \<Rightarrow> (ptr \<Rightarrow> 'w \<Rightarrow> (fbint \<times> 'w) option) \<Rightarrow> var_t \<Rightarrow> 'w \<Rightarrow> (fbint \<times> 'w) option" where
  "binop_src2_int F get v w =
     (let k = var_type v AND VAR_INDBINOP_MASK in
      if k = VAR_IND_BINOP_INT then map_option (\<lambda>i. (i, w)) (val_int (var_val v))
      else if k = VAR_IND_BINOP_DBL then map_option (\<lambda>d. (fp_to_int F d, w)) (val_dbl (var_val v))
      else if k = VAR_IND_BINOP_VAR then
        (case val_varptr2 (var_val v) of
           None \<Rightarrow> None
         | Some p \<Rightarrow> if p \<noteq> NULL then get p w else Some (0, w))
      else None)"

partial_function (option) var_get_int ::
  "fpu \<Rightarrow> (ptr \<Rightarrow> 'w \<Rightarrow> dbl \<times> 'w) \<Rightarrow> (ptr \<Rightarrow> var_t) \<Rightarrow> ptr \<Rightarrow> 'w \<Rightarrow> (fbint \<times> 'w) option" where
  "var_get_int F R vs var w =
     (if var = NULL then Some (0, w)
      else if VAR_HAS_INTEGER (vs var) then map_option (\<lambda>i. (i, w)) (val_int (var_val (vs var)))
      else if VAR_HAS_RANDDIST (vs var) then
        (case val_rand (var_val (vs var)) of
           None \<Rightarrow> None
         | Some rndp \<Rightarrow>
             if rndp \<noteq> NULL then Some (let (d, w') = R rndp w in (fp_to_int F d, w')) else Some (0, w))
      else if VAR_HAS_BINOP (vs var) then
        (let k = var_type (vs var) AND VAR_INDBINOP_MASK in
         Option.bind
           (if k = VAR_IND_BINOP_INT then map_option (\<lambda>i. (i, w)) (val_int (var_val (vs var)))
            else if k = VAR_IND_BINOP_DBL
              then map_option (\<lambda>d. (fp_to_int F d, w)) (val_dbl (var_val (vs var)))
            else if k = VAR_IND_BINOP_VAR then
              (case val_varptr2 (var_val (vs var)) of
                 None \<Rightarrow> None
               | Some p \<Rightarrow> if p \<noteq> NULL then var_get_int F R vs p w else Some (0, w))
            else None)
           (\<lambda>(src2, w). Option.bind
              (if var_varptr1 (vs var) \<noteq> NULL then var_get_int F R vs (var_varptr1 (vs var)) w
               else Some (0, w))
              (\<lambda>(src1, w). map_option (\<lambda>r. (r, w))
                 (int_op (var_type (vs var) AND VAR_INDVAR_MASK) src1 src2))))
      else Some (0, w))"

definition var_binary_integer_op ::
  "fpu \<Rightarrow> (ptr \<Rightarrow> 'w \<Rightarrow> dbl \<times> 'w) \<Rightarrow> (ptr \<Rightarrow> var_t) \<Rightarrow> ptr \<Rightarrow> 'w \<Rightarrow> (fbint \<times> 'w) option" where
  "var_binary_integer_op F R vs var w =
     (if var = NULL then Some (0, w)
      else do {
        (src2, w) \<leftarrow> binop_src2_int F (var_get_int F R vs) (vs var) w;
        (src1, w) \<leftarrow> (if var_varptr1 (vs var) \<noteq> NULL then var_get_int F R vs (var_varptr1 (vs var)) w
                     else Some (0, w));
        r \<leftarrow> int_op (var_type (vs var) AND VAR_INDVAR_MASK) src1 src2;
        Some (r, w) })"

definition dbl_op :: "fpu \<Rightarrow> vtype \<Rightarrow> dbl \<Rightarrow> dbl \<Rightarrow> dbl" where
  "dbl_op F op src1 src2 =
     (if op = VAR_IND_VAR_SUM_VC then fp_add F src1 src2
      else if op = VAR_IND_VAR_DIF_VC then fp_sub F src1 src2
      else if op = VAR_IND_C_DIF_VAR then fp_sub F src2 src1
      else if op = VAR_IND_VAR_MUL_VC then fp_mul F src1 src2
      else if op = VAR_IND_C_DIV_VAR then fp_div F src2 src1
      else if op = VAR_IND_VAR_DIV_VC then fp_div F src1 src2
      else 0)"

definition binop_src2_dbl ::
  "fpu \<Rightarrow> (ptr \<Rightarrow> 'w \<Rightarrow> (dbl \<times> 'w) option) \<Rightarrow> var_t \<Rightarrow> 'w \<Rightarrow> (dbl \<times> 'w) option" where
  "binop_src2_dbl F get v w =
     (let k = var_type v AND VAR_INDBINOP_MASK in
      if k = VAR_IND_BINOP_INT then map_option (\<lambda>i. (fp_of_int F i, w)) (val_int (var_val v))
      else if k = VAR_IND_BINOP_DBL then map_option (\<lambda>d. (d, w)) (val_dbl (var_val v))
      else if k = VAR_IND_BINOP_VAR then
        (case val_varptr2 (var_val v) of
           None \<Rightarrow> None
         | Some p \<Rightarrow> if p \<noteq> NULL then get p w else Some (0, w))
      else None)"

partial_function (option) var_get_dbl ::
  "fpu \<Rightarrow> (ptr \<Rightarrow> 'w \<Rightarrow> dbl \<times> 'w) \<Rightarrow> (ptr \<Rightarrow> var_t) \<Rightarrow> ptr \<Rightarrow> 'w \<Rightarrow> (dbl \<times> 'w) option" where
  "var_get_dbl F R vs var w =
     (if var = NULL then Some (0, w)
      else if VAR_HAS_INTEGER (vs var)
        then map_option (\<lambda>i. (fp_of_int F i, w)) (val_int (var_val (vs var)))
      else if VAR_HAS_DOUBLE (vs var) then map_option (\<lambda>d. (d, w)) (val_dbl (var_val (vs var)))
      else if VAR_HAS_RANDDIST (vs var) then
        (case val_rand (var_val (vs var)) of
           None \<Rightarrow> None
         | Some rndp \<Rightarrow> if rndp \<noteq> NULL then Some (R rndp w) else Some (0, w))
      else if VAR_HAS_BINOP (vs var) then
        (let k = var_type (vs var) AND VAR_INDBINOP_MASK in
         Option.bind
           (if k = VAR_IND_BINOP_INT
              then map_option (\<lambda>i. (fp_of_int F i, w)) (val_int (var_val (vs var)))
            else if k = VAR_IND_BINOP_DBL then map_option (\<lambda>d. (d, w)) (val_dbl (var_val (vs var)))
            else if k = VAR_IND_BINOP_VAR then
              (case val_varptr2 (var_val (vs var)) of
                 None \<Rightarrow> None
               | Some p \<Rightarrow> if p \<noteq> NULL then var_get_dbl F R vs p w else Some (0, w))
            else None)
           (\<lambda>(src2, w). Option.bind
              (if var_varptr1 (vs var) \<noteq> NULL then var_get_dbl F R vs (var_varptr1 (vs var)) w
               else Some (0, w))
              (\<lambda>(src1, w). Some (dbl_op F (var_type (vs var) AND VAR_INDVAR_MASK) src1 src2, w))))
      else Some (0, w))"

definition var_binary_dbl_flt_op ::
  "fpu \<Rightarrow> (ptr \<Rightarrow> 'w \<Rightarrow> dbl \<times> 'w) \<Rightarrow> (ptr \<Rightarrow> var_t) \<Rightarrow> ptr \<Rightarrow> 'w \<Rightarrow> (dbl \<times> 'w) option" where
  "var_binary_dbl_flt_op F R vs var w =
     (if var = NULL then Some (0, w)
      else do {
        (src2, w) \<leftarrow> binop_src2_dbl F (var_get_dbl F R vs) (vs var) w;
        (src1, w) \<leftarrow> (if var_varptr1 (vs var) \<noteq> NULL then var_get_dbl F R vs (var_varptr1 (vs var)) w
                     else Some (0, w));
        Some (dbl_op F (var_type (vs var) AND VAR_INDVAR_MASK) src1 src2, w) })"

text \<open>\<open>TRUE\<close> and \<open>FALSE\<close> are \<open>1\<close> and \<open>0\<close>; a \<open>boolean_t\<close> is an integer.\<close>

definition var_get_bool :: "(ptr \<Rightarrow> var_t) \<Rightarrow> ptr \<Rightarrow> int option" where
  "var_get_bool vs var =
     (if var = NULL then Some 0
      else if VAR_HAS_BOOLEAN (vs var) then val_bool (var_val (vs var))
      else if VAR_HAS_INTEGER (vs var)
        then map_option (\<lambda>i. if i = 0 then 0 else 1) (val_int (var_val (vs var)))
      else Some 0)"

subsection \<open>Attribute value descriptors\<close>

fun avd_int :: "avd_val \<Rightarrow> fbint option" where
  "avd_int (AInt i) = Some i" | "avd_int AZero = Some 0" | "avd_int _ = None"

fun avd_bool :: "avd_val \<Rightarrow> int option" where
  "avd_bool (ABool i) = Some i" | "avd_bool AZero = Some 0" | "avd_bool _ = None"

fun avd_dbl :: "avd_val \<Rightarrow> dbl option" where
  "avd_dbl (ADbl i) = Some i" | "avd_dbl AZero = Some 0" | "avd_dbl _ = None"

fun avd_str :: "avd_val \<Rightarrow> string option option" where
  "avd_str (AStr x) = Some x" | "avd_str AZero = Some None" | "avd_str _ = None"

fun avd_ptr :: "avd_val \<Rightarrow> ptr option" where
  "avd_ptr (ABoolPtr p) = Some p" | "avd_ptr (AIntPtr p) = Some p" | "avd_ptr (ADblPtr p) = Some p"
| "avd_ptr (AStrPtr p) = Some p" | "avd_ptr (ARand p) = Some p" | "avd_ptr (AVar p) = Some p"
| "avd_ptr AZero = Some NULL" | "avd_ptr _ = None"

definition avd_get_int ::
  "fpu \<Rightarrow> (ptr \<Rightarrow> 'w \<Rightarrow> dbl \<times> 'w) \<Rightarrow> vshm \<Rightarrow> ptr \<Rightarrow> 'w \<Rightarrow> (fbint \<times> 'w) option" where
  "avd_get_int F R s avd w =
     (if avd = NULL then Some (0, w)
      else let a = avds s avd in
        case avd_type a of
          AVD_VAL_INT \<Rightarrow> map_option (\<lambda>i. (i, w)) (avd_int (avd_val a))
        | AVD_VARVAL_INT \<Rightarrow> do {
            p \<leftarrow> avd_ptr (avd_val a);
            if p \<noteq> NULL then map_option (\<lambda>i. (i, w)) (val_int (var_val (vars s p))) else Some (0, w) }
        | AVD_IND_VAR \<Rightarrow> do { p \<leftarrow> avd_ptr (avd_val a); var_get_int F R (vars s) p w }
        | AVD_IND_RANDVAR \<Rightarrow> do {
            rndp \<leftarrow> avd_ptr (avd_val a);
            if rndp = NULL then Some (0, w) else Some (let (d, w') = R rndp w in (fp_to_int F d, w')) }
        | _ \<Rightarrow> Some (0, w))"

definition avd_get_dbl ::
  "fpu \<Rightarrow> (ptr \<Rightarrow> 'w \<Rightarrow> dbl \<times> 'w) \<Rightarrow> vshm \<Rightarrow> ptr \<Rightarrow> 'w \<Rightarrow> (dbl \<times> 'w) option" where
  "avd_get_dbl F R s avd w =
     (if avd = NULL then Some (0, w)
      else let a = avds s avd in
        case avd_type a of
          AVD_VAL_INT \<Rightarrow> map_option (\<lambda>i. (fp_of_int F i, w)) (avd_int (avd_val a))
        | AVD_VAL_DBL \<Rightarrow> map_option (\<lambda>d. (d, w)) (avd_dbl (avd_val a))
        | AVD_VARVAL_INT \<Rightarrow> do {
            p \<leftarrow> avd_ptr (avd_val a);
            if p \<noteq> NULL then map_option (\<lambda>i. (fp_of_int F i, w)) (val_int (var_val (vars s p)))
            else Some (0, w) }
        | AVD_VARVAL_DBL \<Rightarrow> do {
            p \<leftarrow> avd_ptr (avd_val a);
            if p \<noteq> NULL then map_option (\<lambda>d. (d, w)) (val_dbl (var_val (vars s p))) else Some (0, w) }
        | AVD_IND_VAR \<Rightarrow> do { p \<leftarrow> avd_ptr (avd_val a); var_get_dbl F R (vars s) p w }
        | AVD_IND_RANDVAR \<Rightarrow> do {
            rndp \<leftarrow> avd_ptr (avd_val a);
            if rndp = NULL then Some (0, w) else Some (R rndp w) }
        | _ \<Rightarrow> Some (0, w))"

definition avd_get_bool :: "vshm \<Rightarrow> ptr \<Rightarrow> int option" where
  "avd_get_bool s avd =
     (if avd = NULL then Some 0
      else let a = avds s avd in
        case avd_type a of
          AVD_VAL_BOOL \<Rightarrow> avd_bool (avd_val a)
        | AVD_VARVAL_BOOL \<Rightarrow> do {
            p \<leftarrow> avd_ptr (avd_val a); if p \<noteq> NULL then val_bool (var_val (vars s p)) else Some 0 }
        | AVD_VAL_INT \<Rightarrow> map_option (\<lambda>i. if i \<noteq> 0 then 1 else 0) (avd_int (avd_val a))
        | AVD_VARVAL_INT \<Rightarrow> do {
            p \<leftarrow> avd_ptr (avd_val a);
            if p \<noteq> NULL then map_option (\<lambda>i. if i \<noteq> 0 then 1 else 0) (val_int (var_val (vars s p)))
            else Some 0 }
        | AVD_IND_VAR \<Rightarrow> do { p \<leftarrow> avd_ptr (avd_val a); var_get_bool (vars s) p }
        | _ \<Rightarrow> Some 0)"

text \<open>
  The result is the string pointer. For an indirect variable that holds no string the message
  reads the variable's name: following a null pointer is \<open>None\<close>.
\<close>

definition avd_get_str :: "vshm \<Rightarrow> ptr \<Rightarrow> string option option" where
  "avd_get_str s avd =
     (if avd = NULL then Some None
      else let a = avds s avd in
        case avd_type a of
          AVD_VAL_STR \<Rightarrow> avd_str (avd_val a)
        | AVD_VARVAL_STR \<Rightarrow> do {
            p \<leftarrow> avd_ptr (avd_val a); if p \<noteq> NULL then val_str (var_val (vars s p)) else Some None }
        | AVD_IND_VAR \<Rightarrow> do {
            ivp \<leftarrow> avd_ptr (avd_val a);
            if ivp = NULL then None
            else if VAR_HAS_STRING (vars s ivp) then val_str (var_val (vars s ivp))
            else Some None }
        | _ \<Rightarrow> Some None)"

definition avd_alloc_cmn :: "layout \<Rightarrow> vshm \<Rightarrow> (ptr \<times> vshm) option" where
  "avd_alloc_cmn L s = do {
     (p, ipc') \<leftarrow> ipc_malloc L (\<lambda>_. ()) (ipc s) FILEBENCH_AVD;
     Some (p, if p = NULL then s\<lparr>ipc := ipc'\<rparr>
              else set_avd (s\<lparr>ipc := ipc'\<rparr>) p \<lparr>avd_type = AVD_INVALID, avd_val = AZero\<rparr>) }"

definition avd_bool_alloc :: "layout \<Rightarrow> vshm \<Rightarrow> int \<Rightarrow> (ptr \<times> vshm) option" where
  "avd_bool_alloc L s b = do {
     (avd, s) \<leftarrow> avd_alloc_cmn L s;
     if avd = NULL then Some (NULL, s)
     else Some (avd, set_avd s avd \<lparr>avd_type = AVD_VAL_BOOL, avd_val = ABool b\<rparr>) }"

definition avd_int_alloc :: "layout \<Rightarrow> vshm \<Rightarrow> fbint \<Rightarrow> (ptr \<times> vshm) option" where
  "avd_int_alloc L s i = do {
     (avd, s) \<leftarrow> avd_alloc_cmn L s;
     if avd = NULL then Some (NULL, s)
     else Some (avd, set_avd s avd \<lparr>avd_type = AVD_VAL_INT, avd_val = AInt i\<rparr>) }"

definition avd_of_var :: "vshm \<Rightarrow> ptr \<Rightarrow> avd option" where
  "avd_of_var s var =
     (let v = vars s var; t = var_type v AND VAR_TYPE_SET_MASK in
      if t = VAR_TYPE_BOOL_SET then Some \<lparr>avd_type = AVD_VARVAL_BOOL, avd_val = ABoolPtr var\<rparr>
      else if t = VAR_TYPE_INT_SET then Some \<lparr>avd_type = AVD_VARVAL_INT, avd_val = AIntPtr var\<rparr>
      else if t = VAR_TYPE_STR_SET then Some \<lparr>avd_type = AVD_VARVAL_STR, avd_val = AStrPtr var\<rparr>
      else if t = VAR_TYPE_DBL_SET then Some \<lparr>avd_type = AVD_VARVAL_DBL, avd_val = ADblPtr var\<rparr>
      else if t = VAR_TYPE_RAND_SET then
        map_option (\<lambda>p. \<lparr>avd_type = AVD_IND_RANDVAR, avd_val = ARand p\<rparr>) (val_rand (var_val v))
      else if t = VAR_TYPE_INDVAR_SET then
        Some \<lparr>avd_type = AVD_IND_VAR,
              avd_val = AVar (if var_type v AND VAR_INDVAR_MASK = VAR_IND_ASSIGN then var_varptr1 v else var)\<rparr>
      else Some \<lparr>avd_type = AVD_IND_VAR, avd_val = AVar var\<rparr>)"

definition avd_alloc_var_ptr :: "layout \<Rightarrow> vshm \<Rightarrow> ptr \<Rightarrow> (ptr \<times> vshm) option" where
  "avd_alloc_var_ptr L s var =
     (if var = NULL then Some (NULL, s)
      else do {
        (avd, s) \<leftarrow> avd_alloc_cmn L s;
        if avd = NULL then Some (NULL, s)
        else do { a \<leftarrow> avd_of_var s var; Some (avd, set_avd s avd a) } })"

text \<open>A string allocation: the pointer (the string, or \<open>NULL\<close>) and the state.\<close>

definition stralloc :: "vshm \<Rightarrow> string \<Rightarrow> string option \<times> vshm" where
  "stralloc s str =
     (let (r, ipc') = ipc_stralloc (ipc s) str in (map_option (\<lambda>_. str) r, s\<lparr>ipc := ipc'\<rparr>))"

definition avd_str_alloc :: "layout \<Rightarrow> vshm \<Rightarrow> string option \<Rightarrow> (ptr \<times> vshm) option" where
  "avd_str_alloc L s str =
     (case str of
        None \<Rightarrow> Some (NULL, s)
      | Some x \<Rightarrow> do {
          (avd, s) \<leftarrow> avd_alloc_cmn L s;
          if avd = NULL then Some (NULL, s)
          else let (r, s) = stralloc s x in
            Some (avd, set_avd s avd \<lparr>avd_type = AVD_VAL_STR, avd_val = AStr r\<rparr>) })"

subsection \<open>Lists of variables\<close>

text \<open>
  \<open>strcmp (var->var_name, name) == 0\<close> on every variable of a list; \<open>None\<close> if a variable has no name
  or the list does not end.
\<close>

partial_function (option) var_find_list_only :: "(ptr \<Rightarrow> var_t) \<Rightarrow> string \<Rightarrow> ptr \<Rightarrow> ptr option" where
  "var_find_list_only vs name var =
     (if var = NULL then Some NULL
      else
        (case var_name (vs var) of
           None \<Rightarrow> None
         | Some n \<Rightarrow> if n = name then Some var else var_find_list_only vs name (var_next (vs var))))"

definition var_find :: "vshm \<Rightarrow> string \<Rightarrow> ptr option" where
  "var_find s name = do {
     var \<leftarrow> var_find_list_only (vars s) name (shm_var_loc_list s);
     if var \<noteq> NULL then Some var else var_find_list_only (vars s) name (shm_var_list s) }"

definition var_find_list :: "vshm \<Rightarrow> string \<Rightarrow> ptr \<Rightarrow> ptr option" where
  "var_find_list s name var_list = do {
     var \<leftarrow> var_find_list_only (vars s) name var_list;
     if var \<noteq> NULL then Some var else var_find s name }"

text \<open>The loop that finds the end of the list.\<close>

partial_function (option) list_end :: "(ptr \<Rightarrow> var_t) \<Rightarrow> ptr \<Rightarrow> ptr \<Rightarrow> ptr option" where
  "list_end vs var prev =
     (if var = NULL then Some prev else list_end vs (var_next (vs var)) var)"

text \<open>
  A new variable is zeroed by \<open>ipc_malloc\<close>; the \<open>memset\<close> of \<open>sizeof (newvar)\<close> bytes that follows
  clears its first word again. The address of the list head is chosen by the type.
\<close>

definition zero_var :: var_t where
  "zero_var = \<lparr>var_name = None, var_type = 0, var_next = NULL, var_val = VZero, var_varptr1 = NULL\<rparr>"

definition append_var :: "vshm \<Rightarrow> bool \<Rightarrow> ptr \<Rightarrow> vshm option" where
  "append_var s dyn newvar = do {
     prev \<leftarrow> list_end (vars s) (if dyn then shm_var_dyn_list s else shm_var_list s) NULL;
     if prev \<noteq> NULL then Some (set_var s prev ((vars s prev)\<lparr>var_next := newvar\<rparr>))
     else if dyn then Some (s\<lparr>shm_var_dyn_list := newvar\<rparr>) else Some (s\<lparr>shm_var_list := newvar\<rparr>) }"

definition var_alloc_cmn :: "layout \<Rightarrow> vshm \<Rightarrow> string \<Rightarrow> vtype \<Rightarrow> (ptr \<times> vshm) option" where
  "var_alloc_cmn L s name vt = do {
     (newvar, ipc') \<leftarrow> ipc_malloc L (\<lambda>_. ()) (ipc s) FILEBENCH_VARIABLE;
     let s = s\<lparr>ipc := ipc'\<rparr>;
     if newvar = NULL then Some (NULL, s)
     else do {
       let s = set_var s newvar (zero_var\<lparr>var_type := vt\<rparr>);
       let (nm, s) = stralloc s name;
       let s = set_var s newvar ((vars s newvar)\<lparr>var_name := nm\<rparr>);
       if nm = None then Some (NULL, s)
       else if vt AND VAR_TYPE_MASK = VAR_TYPE_LOCAL then
         Some (newvar, (set_var s newvar ((vars s newvar)\<lparr>var_next := shm_var_loc_list s\<rparr>))
                         \<lparr>shm_var_loc_list := newvar\<rparr>)
       else do {
         s \<leftarrow> append_var s (vt AND VAR_TYPE_MASK = VAR_TYPE_DYNAMIC) newvar;
         Some (newvar, s) } } }"

definition var_lvar_alloc_local :: "layout \<Rightarrow> vshm \<Rightarrow> string \<Rightarrow> (ptr \<times> vshm) option" where
  "var_lvar_alloc_local L s name =
     var_alloc_cmn L s (case name of c # cs \<Rightarrow> if c = CHR ''$'' then cs else name | [] \<Rightarrow> name) VAR_TYPE_LOCAL"

definition var_alloc :: "layout \<Rightarrow> vshm \<Rightarrow> string \<Rightarrow> (ptr \<times> vshm) option" where
  "var_alloc L s name = var_alloc_cmn L s name VAR_TYPE_GLOBAL"

definition var_alloc_dynamic :: "layout \<Rightarrow> vshm \<Rightarrow> string \<Rightarrow> (ptr \<times> vshm) option" where
  "var_alloc_dynamic L s name = var_alloc_cmn L s name VAR_TYPE_DYNAMIC"

text \<open>
  The names that the parser passes begin with \<open>$\<close>, which \<open>name += 1\<close> skips; an empty name would be
  read behind its end, which \<open>skip\<close> reports.
\<close>

definition skip :: "string \<Rightarrow> string option" where
  "skip name = (case name of [] \<Rightarrow> None | _ # cs \<Rightarrow> Some cs)"

definition find_or_alloc :: "layout \<Rightarrow> vshm \<Rightarrow> string \<Rightarrow> (ptr \<times> vshm) option" where
  "find_or_alloc L s name = do {
     var \<leftarrow> var_find s name;
     if var = NULL then var_alloc L s name else Some (var, s) }"

definition var_find_alloc :: "layout \<Rightarrow> vshm \<Rightarrow> string option \<Rightarrow> (ptr \<times> vshm) option" where
  "var_find_alloc L s name =
     (case name of
        None \<Rightarrow> Some (NULL, s)
      | Some n \<Rightarrow> do { n' \<leftarrow> skip n; find_or_alloc L s n' })"

definition is_random :: "vshm \<Rightarrow> ptr \<Rightarrow> bool" where
  "is_random s var \<longleftrightarrow> var_type (vars s var) AND VAR_TYPE_MASK = VAR_TYPE_RANDOM"

subsection \<open>Assignment\<close>

definition var_assign_boolean :: "layout \<Rightarrow> vshm \<Rightarrow> string option \<Rightarrow> int \<Rightarrow> (int \<times> vshm) option" where
  "var_assign_boolean L s name b = do {
     (var, s) \<leftarrow> var_find_alloc L s name;
     if var = NULL then Some (-1, s)
     else if is_random s var then Some (-1, s)
     else Some (0, set_var s var (VAR_SET_BOOL (vars s var) b)) }"

definition var_assign_integer :: "layout \<Rightarrow> vshm \<Rightarrow> string option \<Rightarrow> fbint \<Rightarrow> (int \<times> vshm) option" where
  "var_assign_integer L s name i = do {
     (var, s) \<leftarrow> var_find_alloc L s name;
     if var = NULL then Some (-1, s)
     else if is_random s var then Some (-1, s)
     else Some (0, set_var s var (VAR_SET_INT (vars s var) i)) }"

definition var_assign_op_var_int ::
  "layout \<Rightarrow> vshm \<Rightarrow> string option \<Rightarrow> vtype \<Rightarrow> string \<Rightarrow> fbint \<Rightarrow> (int \<times> vshm) option" where
  "var_assign_op_var_int L s name optype src1 src2 = do {
     n1 \<leftarrow> skip src1;
     var_src1 \<leftarrow> var_find s n1;
     if var_src1 = NULL then Some (FILEBENCH_ERROR, s)
     else do {
       (var, s) \<leftarrow> var_find_alloc L s name;
       if var = NULL then Some (FILEBENCH_ERROR, s)
       else if is_random s var then Some (FILEBENCH_ERROR, s)
       else Some (FILEBENCH_OK,
         set_var s var ((VAR_SET_BINOP_INDVAR (vars s var) var_src1 optype)\<lparr>var_val := VInt src2\<rparr>)) } }"

definition var_assign_op_var_var ::
  "layout \<Rightarrow> vshm \<Rightarrow> string option \<Rightarrow> vtype \<Rightarrow> string \<Rightarrow> string \<Rightarrow> (int \<times> vshm) option" where
  "var_assign_op_var_var L s name optype src1 src2 = do {
     n1 \<leftarrow> skip src1;
     var_src1 \<leftarrow> var_find s n1;
     if var_src1 = NULL then Some (FILEBENCH_ERROR, s)
     else do {
       n2 \<leftarrow> skip src2;
       var_src2 \<leftarrow> var_find s n2;
       if var_src2 = NULL then Some (FILEBENCH_ERROR, s)
       else do {
         (var, s) \<leftarrow> var_find_alloc L s name;
         if var = NULL then Some (FILEBENCH_ERROR, s)
         else if is_random s var then Some (FILEBENCH_ERROR, s)
         else Some (FILEBENCH_OK,
           set_var s var ((VAR_SET_BINOP_INDVAR (vars s var) var_src1 optype)\<lparr>var_val := VVar var_src2\<rparr>)) } } }"

definition var_find_randvar :: "vshm \<Rightarrow> string \<Rightarrow> ptr option" where
  "var_find_randvar s name = do {
     n \<leftarrow> skip name;
     newvar \<leftarrow> var_find s n;
     if newvar = NULL then Some NULL
     else if \<not> is_random s newvar \<or> \<not> VAR_HAS_RANDDIST (vars s newvar) then Some NULL
     else Some newvar }"

text \<open>\<open>randdist_alloc\<close> of \<^verbatim>\<open>fb_random.c\<close>.\<close>

definition randdist_alloc :: "layout \<Rightarrow> vshm \<Rightarrow> (ptr \<times> vshm) option" where
  "randdist_alloc L s = do {
     (rndp, ipc') \<leftarrow> ipc_malloc L (\<lambda>_. ()) (ipc s) FILEBENCH_RANDDIST;
     let s = s\<lparr>ipc := ipc'\<rparr>;
     if rndp = NULL then Some (NULL, s)
     else Some (rndp, s\<lparr>rnds := (rnds s)(rndp := \<lparr>rnd_next = shm_rand_list s, rnd_var = NULL, rnd_seed = NULL,
            rnd_mean = NULL, rnd_gamma = NULL, rnd_min = NULL, rnd_round = NULL, rnd_type = 0\<rparr>),
          shm_rand_list := rndp\<rparr>) }"

definition var_define_randvar :: "layout \<Rightarrow> vshm \<Rightarrow> string \<Rightarrow> (ptr \<times> vshm) option" where
  "var_define_randvar L s name = do {
     n \<leftarrow> skip name;
     v \<leftarrow> var_find s n;
     if v \<noteq> NULL then Some (NULL, s)
     else do {
       (newvar, s) \<leftarrow> var_alloc_cmn L s n VAR_TYPE_RANDOM;
       if newvar = NULL then Some (NULL, s)
       else do {
         (rndp, s) \<leftarrow> randdist_alloc L s;
         if rndp = NULL then Some (NULL, s)
         else
           let s = s\<lparr>rnds := (rnds s)(rndp := (rnds s rndp)\<lparr>rnd_var := newvar\<rparr>)\<rparr> in
           Some (newvar, set_var s newvar (VAR_SET_RAND (vars s newvar) rndp)) } } }"

text \<open>Each \<open>if\<close> of \<open>var_copy\<close> tests the source; the destination may be the same variable.\<close>

definition var_copy :: "vshm \<Rightarrow> ptr \<Rightarrow> ptr \<Rightarrow> (int \<times> vshm) option" where
  "var_copy s dst src = do {
     s \<leftarrow> (if VAR_HAS_BOOLEAN (vars s src)
          then do { b \<leftarrow> val_bool (var_val (vars s src)); Some (set_var s dst (VAR_SET_BOOL (vars s dst) b)) }
          else Some s);
     s \<leftarrow> (if VAR_HAS_INTEGER (vars s src)
          then do { i \<leftarrow> val_int (var_val (vars s src)); Some (set_var s dst (VAR_SET_INT (vars s dst) i)) }
          else Some s);
     s \<leftarrow> (if VAR_HAS_DOUBLE (vars s src)
          then do { d \<leftarrow> val_dbl (var_val (vars s src)); Some (set_var s dst (VAR_SET_DBL (vars s dst) d)) }
          else Some s);
     (ok, s) \<leftarrow> (if VAR_HAS_STRING (vars s src)
          then do {
            str \<leftarrow> val_str (var_val (vars s src));
            x \<leftarrow> str;
            let (r, s) = stralloc s x;
            if r = None then Some (False, s)
            else Some (True, set_var s dst (VAR_SET_STR (vars s dst) r)) }
          else Some (True, s));
     if \<not> ok then Some (-1, s)
     else if VAR_HAS_INDVAR (vars s src)
       then Some (0, set_var s dst (VAR_SET_INDVAR (vars s dst) (var_varptr1 (vars s src))))
       else Some (0, s) }"

definition var_assign_var :: "layout \<Rightarrow> vshm \<Rightarrow> string \<Rightarrow> string \<Rightarrow> (int \<times> vshm) option" where
  "var_assign_var L s name src_name = do {
     n \<leftarrow> skip name;
     sn \<leftarrow> skip src_name;
     src \<leftarrow> var_find s sn;
     if src = NULL then Some (-1, s)
     else do {
       (dst, s) \<leftarrow> find_or_alloc L s n;
       if dst = NULL then Some (-1, s)
       else if is_random s dst then Some (-1, s)
       else var_copy s dst src } }"

definition var_assign_string :: "layout \<Rightarrow> vshm \<Rightarrow> string \<Rightarrow> string \<Rightarrow> (int \<times> vshm) option" where
  "var_assign_string L s name str = do {
     n \<leftarrow> skip name;
     (var, s) \<leftarrow> find_or_alloc L s n;
     if var = NULL then Some (-1, s)
     else if is_random s var then Some (-1, s)
     else
       let (r, s) = stralloc s str in
       if r = None then Some (-1, s)
       else Some (0, set_var s var (VAR_SET_STR (vars s var) r)) }"

subsection \<open>Local variables\<close>

definition var_lvar_assign_var :: "fpu \<Rightarrow> layout \<Rightarrow> vshm \<Rightarrow> string \<Rightarrow> string \<Rightarrow> (ptr \<times> vshm) option" where
  "var_lvar_assign_var F L s name src_name = do {
     sn \<leftarrow> skip src_name;
     src \<leftarrow> var_find s sn;
     if src = NULL then Some (NULL, s)
     else do {
       (dst, s) \<leftarrow> var_lvar_alloc_local L s name;
       if dst = NULL then Some (NULL, s)
       else if var_type (vars s src) AND VAR_TYPE_MASK = VAR_TYPE_LOCAL
         then Some (dst, set_var s dst (VAR_SET_INDVAR (vars s dst) src))
       else if VAR_HAS_BOOLEAN (vars s src) then do {
         b \<leftarrow> val_bool (var_val (vars s src)); Some (dst, set_var s dst (VAR_SET_BOOL (vars s dst) b)) }
       else if VAR_HAS_INTEGER (vars s src) then do {
         i \<leftarrow> val_int (var_val (vars s src)); Some (dst, set_var s dst (VAR_SET_INT (vars s dst) i)) }
       else if VAR_HAS_STRING (vars s src) then do {
         str \<leftarrow> val_str (var_val (vars s src));
         x \<leftarrow> str;
         let (r, s) = stralloc s x;
         if r = None then Some (NULL, s) else Some (dst, set_var s dst (VAR_SET_STR (vars s dst) r)) }
       else if VAR_HAS_DOUBLE (vars s src) then do {
         d \<leftarrow> val_dbl (var_val (vars s src));
         Some (dst, set_var s dst (VAR_SET_INT (vars s dst) (fp_to_int F d))) }
       else if VAR_HAS_RANDDIST (vars s src) then do {
         p \<leftarrow> val_rand (var_val (vars s src)); Some (dst, set_var s dst (VAR_SET_RAND (vars s dst) p)) }
       else Some (dst, s) } }"

definition var_lvar_assign_boolean :: "layout \<Rightarrow> vshm \<Rightarrow> string \<Rightarrow> int \<Rightarrow> (ptr \<times> vshm) option" where
  "var_lvar_assign_boolean L s name b = do {
     (var, s) \<leftarrow> var_lvar_alloc_local L s name;
     if var = NULL then Some (NULL, s) else Some (var, set_var s var (VAR_SET_BOOL (vars s var) b)) }"

definition var_lvar_assign_integer :: "layout \<Rightarrow> vshm \<Rightarrow> string \<Rightarrow> fbint \<Rightarrow> (ptr \<times> vshm) option" where
  "var_lvar_assign_integer L s name i = do {
     (var, s) \<leftarrow> var_lvar_alloc_local L s name;
     if var = NULL then Some (NULL, s) else Some (var, set_var s var (VAR_SET_INT (vars s var) i)) }"

definition var_lvar_assign_double :: "layout \<Rightarrow> vshm \<Rightarrow> string \<Rightarrow> dbl \<Rightarrow> (ptr \<times> vshm) option" where
  "var_lvar_assign_double L s name d = do {
     (var, s) \<leftarrow> var_lvar_alloc_local L s name;
     if var = NULL then Some (NULL, s) else Some (var, set_var s var (VAR_SET_DBL (vars s var) d)) }"

definition var_lvar_assign_string :: "layout \<Rightarrow> vshm \<Rightarrow> string \<Rightarrow> string \<Rightarrow> (ptr \<times> vshm) option" where
  "var_lvar_assign_string L s name str = do {
     (var, s) \<leftarrow> var_lvar_alloc_local L s name;
     if var = NULL then Some (NULL, s)
     else
       let (r, s) = stralloc s str in
       if r = None then Some (NULL, s) else Some (var, set_var s var (VAR_SET_STR (vars s var) r)) }"

subsection \<open>Random variable fields in a name\<close>

text \<open>
  The loop from the end of the name to its last period, not looking at the first character: the
  position of the period, \<open>0\<close> if there is none. A name of 128 characters or more is not terminated
  by \<open>strncpy\<close>: \<open>None\<close>.
\<close>

fun last_period :: "string \<Rightarrow> nat \<Rightarrow> nat" where
  "last_period name 0 = 0"
| "last_period name (Suc k) =
     (if Suc k < length name \<and> name ! Suc k = CHR ''.'' then Suc k else last_period name k)"

definition var_is_set4_randvar :: "vshm \<Rightarrow> string \<Rightarrow> nat option" where
  "var_is_set4_randvar s name =
     (if length name \<ge> 128 then None
      else
        let sp = last_period name (length name) in
        if sp = 0 then Some 0
        else do {
          n \<leftarrow> skip (take sp name);
          var \<leftarrow> var_find s n;
          if var = NULL then Some 0
          else if \<not> is_random s var then Some 0
          else Some (length name - sp) })"

subsection \<open>Dynamic variables\<close>

text \<open>
  The routines of other components that fill a dynamic variable, and \<open>getenv\<close>. Each returns the
  variable or \<open>NULL\<close>, and the state.
\<close>

record dynvars =
  stats_findvar :: "vshm \<Rightarrow> ptr \<Rightarrow> string \<Rightarrow> ptr \<times> vshm"
  eventgen_ratevar :: "vshm \<Rightarrow> ptr \<Rightarrow> ptr \<times> vshm"
  date_var :: "vshm \<Rightarrow> ptr \<Rightarrow> ptr \<times> vshm"
  script_var :: "vshm \<Rightarrow> ptr \<Rightarrow> ptr \<times> vshm"
  host_var :: "vshm \<Rightarrow> ptr \<Rightarrow> ptr \<times> vshm"
  getenv :: "string \<Rightarrow> string option"

abbreviation (input) STATS_VAR :: string where "STATS_VAR \<equiv> ''stats.''"
abbreviation (input) EVENTGEN_VAR :: string where "EVENTGEN_VAR \<equiv> ''rate''"
abbreviation (input) DATE_VAR :: string where "DATE_VAR \<equiv> ''date''"
abbreviation (input) SCRIPT_VAR :: string where "SCRIPT_VAR \<equiv> ''scriptname''"
abbreviation (input) HOST_VAR :: string where "HOST_VAR \<equiv> ''hostname''"

text \<open>
  The name without its first character must end in the closing character, which is cut off. If
  nothing follows the first character, the code looks at that one instead, which is the opening
  character.
\<close>

definition inner_name :: "char \<Rightarrow> string \<Rightarrow> string option" where
  "inner_name close n = (if tl n \<noteq> [] \<and> last (tl n) = close then Some (butlast (tl n)) else None)"

definition var_find_internal :: "dynvars \<Rightarrow> vshm \<Rightarrow> ptr \<Rightarrow> (ptr \<times> vshm) option" where
  "var_find_internal D s var = do {
     n \<leftarrow> var_name (vars s var);
     case inner_name (CHR ''}'') n of
       None \<Rightarrow> Some (NULL, s)
     | Some name \<Rightarrow>
         let (rtn, s) = (if take (length STATS_VAR) name = STATS_VAR
                         then stats_findvar D s var (drop (length STATS_VAR) name) else (NULL, s));
             (rtn, s) = (if name = EVENTGEN_VAR then eventgen_ratevar D s var else (rtn, s));
             (rtn, s) = (if name = DATE_VAR then date_var D s var else (rtn, s));
             (rtn, s) = (if name = SCRIPT_VAR then script_var D s var else (rtn, s));
             (rtn, s) = (if name = HOST_VAR then host_var D s var else (rtn, s)) in
         Some (rtn, s) }"

definition var_find_environment :: "dynvars \<Rightarrow> vshm \<Rightarrow> ptr \<Rightarrow> (ptr \<times> vshm) option" where
  "var_find_environment D s var = do {
     n \<leftarrow> var_name (vars s var);
     case inner_name (CHR '')'') n of
       None \<Rightarrow> Some (NULL, s)
     | Some name \<Rightarrow>
         (case getenv D name of
            Some str \<Rightarrow> Some (var, set_var s var (VAR_SET_STR (vars s var) (Some str)))
          | None \<Rightarrow> Some (NULL, s)) }"

text \<open>If the variable cannot be allocated the code follows a null pointer: \<open>None\<close>.\<close>

definition var_find_dynamic :: "dynvars \<Rightarrow> layout \<Rightarrow> vshm \<Rightarrow> string \<Rightarrow> (ptr \<times> vshm) option" where
  "var_find_dynamic D L s name = do {
     v \<leftarrow> var_find_list_only (vars s) name (shm_var_dyn_list s);
     (var, s) \<leftarrow> (if v = NULL then var_alloc_dynamic L s name else Some (v, s));
     if name \<noteq> [] \<and> hd name = CHR ''{'' then (if var = NULL then None else var_find_internal D s var)
     else if name \<noteq> [] \<and> hd name = CHR ''('' then (if var = NULL then None else var_find_environment D s var)
     else Some (NULL, s) }"

definition var_lookup :: "dynvars \<Rightarrow> layout \<Rightarrow> vshm \<Rightarrow> string \<Rightarrow> (ptr \<times> vshm) option" where
  "var_lookup D L s name = do {
     var \<leftarrow> var_find s name;
     if var = NULL then var_find_dynamic D L s name else Some (var, s) }"

text \<open>\<open>filebench_shutdown\<close> ends the run: \<open>None\<close>.\<close>

definition var_ref_attr :: "dynvars \<Rightarrow> layout \<Rightarrow> vshm \<Rightarrow> string \<Rightarrow> (ptr \<times> vshm) option" where
  "var_ref_attr D L s name = do {
     n \<leftarrow> skip name;
     (var, s) \<leftarrow> var_lookup D L s n;
     (var, s) \<leftarrow> (if var = NULL then var_alloc L s n else Some (var, s));
     if var = NULL then None else avd_alloc_var_ptr L s var }"

subsection \<open>Conversion\<close>

definition var_to_boolean :: "dynvars \<Rightarrow> layout \<Rightarrow> vshm \<Rightarrow> string \<Rightarrow> (int \<times> vshm) option" where
  "var_to_boolean D L s name = do {
     n \<leftarrow> skip name;
     (var, s) \<leftarrow> var_lookup D L s n;
     if var \<noteq> NULL then do { b \<leftarrow> var_get_bool (vars s) var; Some (b, s) } else Some (0, s) }"

definition var_to_integer ::
  "fpu \<Rightarrow> (ptr \<Rightarrow> 'w \<Rightarrow> dbl \<times> 'w) \<Rightarrow> dynvars \<Rightarrow> layout \<Rightarrow> vshm \<Rightarrow> string \<Rightarrow> 'w \<Rightarrow> (fbint \<times> vshm \<times> 'w) option" where
  "var_to_integer F R D L s name w = do {
     n \<leftarrow> skip name;
     (var, s) \<leftarrow> var_lookup D L s n;
     if var \<noteq> NULL then do { (i, w) \<leftarrow> var_get_int F R (vars s) var w; Some (i, s, w) } else Some (0, s, w) }"

definition var_to_double ::
  "fpu \<Rightarrow> (ptr \<Rightarrow> 'w \<Rightarrow> dbl \<times> 'w) \<Rightarrow> dynvars \<Rightarrow> layout \<Rightarrow> vshm \<Rightarrow> string \<Rightarrow> 'w \<Rightarrow> (dbl \<times> vshm \<times> 'w) option" where
  "var_to_double F R D L s name w = do {
     n \<leftarrow> skip name;
     (var, s) \<leftarrow> var_lookup D L s n;
     if var \<noteq> NULL then do { (d, w) \<leftarrow> var_get_dbl F R (vars s) var w; Some (d, s, w) } else Some (0, s, w) }"

text \<open>The conversion \<open>%llu\<close>.\<close>

fun dec :: "nat \<Rightarrow> string" where
  "dec n = (if n < 10 then [char_of (48 + n)] else dec (n div 10) @ [char_of (48 + n mod 10)])"

declare dec.simps [simp del]

definition rand_type_name :: "string list \<Rightarrow> 16 word \<Rightarrow> string" where
  "rand_type_name names t =
     (if t AND 0x0fff = 1 then names ! 0 else if t AND 0x0fff = 2 then names ! 1
      else if t AND 0x0fff = 3 then names ! 2 else names ! 3)"

partial_function (option) var_get_string ::
  "fpu \<Rightarrow> (ptr \<Rightarrow> 'w \<Rightarrow> dbl \<times> 'w) \<Rightarrow> vshm \<Rightarrow> ptr \<Rightarrow> 'w \<Rightarrow> (string \<times> 'w) option" where
  "var_get_string F R s var w =
     (let v = vars s var in
      if is_random s var then
        (case val_rand (var_val v) of
           None \<Rightarrow> None
         | Some p \<Rightarrow>
             if p = NULL then None
             else Some (rand_type_name [''uniform random var'', ''gamma random var'', ''tabular random var'',
                    ''unitialized random var''] (rnd_type (rnds s p)), w))
      else if VAR_HAS_STRING v \<and> val_str (var_val v) \<noteq> Some None then
        map_option (\<lambda>x. (the x, w)) (val_str (var_val v))
      else if VAR_HAS_BOOLEAN v then
        map_option (\<lambda>b. (if b \<noteq> 0 then ''true'' else ''false'', w)) (val_bool (var_val v))
      else if VAR_HAS_INTEGER v then map_option (\<lambda>i. (dec (unat i), w)) (val_int (var_val v))
      else if VAR_HAS_INDVAR v \<and> var_varptr1 v \<noteq> NULL then var_get_string F R s (var_varptr1 v) w
      else if VAR_HAS_BINOP v then
        map_option (\<lambda>(i, w). (dec (unat i), w)) (var_binary_integer_op F R (vars s) var w)
      else Some (''No default'', w))"

definition var_to_string ::
  "fpu \<Rightarrow> (ptr \<Rightarrow> 'w \<Rightarrow> dbl \<times> 'w) \<Rightarrow> dynvars \<Rightarrow> layout \<Rightarrow> vshm \<Rightarrow> string \<Rightarrow> 'w
     \<Rightarrow> (string option \<times> vshm \<times> 'w) option" where
  "var_to_string F R D L s name w = do {
     n \<leftarrow> skip name;
     (var, s) \<leftarrow> var_lookup D L s n;
     if var = NULL then Some (None, s, w)
     else do { (x, w) \<leftarrow> var_get_string F R s var w; Some (Some x, s, w) } }"

abbreviation (input) RAND_PARAM_TYPE :: int where "RAND_PARAM_TYPE \<equiv> 1"
abbreviation (input) RAND_PARAM_SRC :: int where "RAND_PARAM_SRC \<equiv> 2"
abbreviation (input) RAND_PARAM_SEED :: int where "RAND_PARAM_SEED \<equiv> 3"
abbreviation (input) RAND_PARAM_MIN :: int where "RAND_PARAM_MIN \<equiv> 4"
abbreviation (input) RAND_PARAM_MEAN :: int where "RAND_PARAM_MEAN \<equiv> 5"
abbreviation (input) RAND_PARAM_GAMMA :: int where "RAND_PARAM_GAMMA \<equiv> 6"
abbreviation (input) RAND_PARAM_ROUND :: int where "RAND_PARAM_ROUND \<equiv> 7"

definition rand_param :: "randdist \<Rightarrow> int \<Rightarrow> ptr option" where
  "rand_param r p =
     (if p = RAND_PARAM_SEED then Some (rnd_seed r) else if p = RAND_PARAM_MIN then Some (rnd_min r)
      else if p = RAND_PARAM_MEAN then Some (rnd_mean r) else if p = RAND_PARAM_GAMMA then Some (rnd_gamma r)
      else if p = RAND_PARAM_ROUND then Some (rnd_round r) else None)"

definition var_randvar_to_string ::
  "fpu \<Rightarrow> (ptr \<Rightarrow> 'w \<Rightarrow> dbl \<times> 'w) \<Rightarrow> dynvars \<Rightarrow> layout \<Rightarrow> vshm \<Rightarrow> string \<Rightarrow> int \<Rightarrow> 'w
     \<Rightarrow> (string option \<times> vshm \<times> 'w) option" where
  "var_randvar_to_string F R D L s name param w = do {
     n \<leftarrow> skip name;
     var \<leftarrow> var_find s n;
     if var = NULL then var_to_string F R D L s name w
     else if \<not> is_random s var \<or> \<not> VAR_HAS_RANDDIST (vars s var) then var_to_string F R D L s name w
     else do {
       rp \<leftarrow> val_rand (var_val (vars s var));
       let r = rnds s rp;
       if rp = NULL \<and> RAND_PARAM_TYPE \<le> param \<and> param \<le> RAND_PARAM_ROUND then None
       else if param = RAND_PARAM_TYPE
         then Some (Some (rand_type_name [''uniform'', ''gamma'', ''tabular'', ''uninitialized''] (rnd_type r)), s, w)
       else if param = RAND_PARAM_SRC
         then Some (Some (if rnd_type r AND 0x1000 \<noteq> 0 then ''rand48'' else ''urandom''), s, w)
       else (case rand_param r param of
               None \<Rightarrow> Some (None, s, w)
             | Some a \<Rightarrow> do { (i, w) \<leftarrow> avd_get_int F R s a w; Some (Some (dec (unat i)), s, w) }) } }"

subsection \<open>Local variables of composite flowops\<close>

text \<open>The result is the new descriptor and the state; \<open>avdp\<close> is the descriptor it replaces.\<close>

definition avd_update :: "layout \<Rightarrow> vshm \<Rightarrow> ptr \<Rightarrow> ptr \<Rightarrow> (ptr \<times> vshm) option" where
  "avd_update L s avdp lvar_list =
     (if avdp = NULL then None
      else if avd_type (avds s avdp) = AVD_IND_VAR then do {
        old_lvar \<leftarrow> avd_ptr (avd_val (avds s avdp));
        if old_lvar = NULL then Some (avdp, s)
        else do {
          n \<leftarrow> var_name (vars s old_lvar);
          new_lvar \<leftarrow> var_find_list s n lvar_list;
          avd_alloc_var_ptr L s (if new_lvar \<noteq> NULL then new_lvar else old_lvar) } }
      else Some (avdp, s))"

definition var_update_comp_lvars :: "vshm \<Rightarrow> ptr \<Rightarrow> ptr \<Rightarrow> ptr \<Rightarrow> vshm option" where
  "var_update_comp_lvars s newlvar proto_comp_vars mstr_lvars = do {
     n \<leftarrow> var_name (vars s newlvar);
     proto \<leftarrow> var_find_list_only (vars s) n proto_comp_vars;
     if proto = NULL then Some s
     else do {
       s \<leftarrow> (if var_type (vars s newlvar) AND VAR_TYPE_SET_MASK = 0
            then map_option snd (var_copy s newlvar proto) else Some s);
       if VAR_HAS_INDVAR (vars s proto) then do {
         let uplvp = var_varptr1 (vars s proto);
         (uplvp, s) \<leftarrow> (if mstr_lvars \<noteq> NULL then
             if uplvp = NULL then None
             else do {
               un \<leftarrow> var_name (vars s uplvp);
               u \<leftarrow> var_find_list_only (vars s) un mstr_lvars;
               Some (u, set_var s newlvar (VAR_SET_INDVAR (vars s newlvar) u)) }
           else Some (uplvp, s));
         if uplvp = NULL then None
         else if VAR_HAS_INDVAR (vars s uplvp)
           then Some (set_var s newlvar (VAR_SET_INDVAR (vars s newlvar) (var_varptr1 (vars s uplvp))))
           else Some s }
       else Some s } }"

end
