(* ===== verification/FB_Vars_Correct.thy ===== *)
theory FB_Vars_Correct
  imports FB_Vars
begin

text \<open>
  Correctness of the variables: the type word, the lists of variables, allocation, assignment and
  reading, and evaluation of derived variables. The invariant \<open>vars_inv\<close> says which variables are on
  the three lists.
\<close>

subsection \<open>The type word\<close>

lemma and_or_distrib: "(x OR y) AND k = (x AND k) OR (y AND k)" for x y k :: "'a::len word"
  by (simp add: bit.conj_disj_distrib2)

lemmas VAR_SET_defs = VAR_SET_BOOL_def VAR_SET_INT_def VAR_SET_DBL_def VAR_SET_STR_def VAR_SET_RAND_def
  VAR_SET_INDVAR_def VAR_SET_BINOP_INDVAR_def

lemmas VAR_HAS_defs = VAR_HAS_BOOLEAN_def VAR_HAS_INTEGER_def VAR_HAS_DOUBLE_def VAR_HAS_STRING_def
  VAR_HAS_RANDDIST_def VAR_HAS_INDVAR_def VAR_HAS_BINOP_def

lemma set_mask_set [simp]:
  "var_type (VAR_SET_BOOL v b) AND 0xf00 = 0x100" "var_type (VAR_SET_INT v i) AND 0xf00 = 0x200"
  "var_type (VAR_SET_STR v x) AND 0xf00 = 0x300" "var_type (VAR_SET_DBL v d) AND 0xf00 = 0x400"
  "var_type (VAR_SET_RAND v p) AND 0xf00 = 0x500"
  unfolding VAR_SET_defs by (simp_all add: and_or_distrib and.assoc)

lemma set_mask_class [simp]:
  "var_type (VAR_SET_BOOL v b) AND 0xf000 = var_type v AND 0xf000"
  "var_type (VAR_SET_INT v i) AND 0xf000 = var_type v AND 0xf000"
  "var_type (VAR_SET_STR v x) AND 0xf000 = var_type v AND 0xf000"
  "var_type (VAR_SET_DBL v d) AND 0xf000 = var_type v AND 0xf000"
  "var_type (VAR_SET_RAND v p) AND 0xf000 = var_type v AND 0xf000"
  "var_type (VAR_SET_INDVAR v p) AND 0xf000 = var_type v AND 0xf000"
  unfolding VAR_SET_defs by (simp_all add: and_or_distrib and.assoc)

lemma set_val [simp]:
  "var_val (VAR_SET_BOOL v b) = VBool b" "var_val (VAR_SET_INT v i) = VInt i"
  "var_val (VAR_SET_STR v x) = VStr x" "var_val (VAR_SET_DBL v d) = VDbl d"
  "var_val (VAR_SET_RAND v p) = VRand p" "var_val (VAR_SET_INDVAR v p) = var_val v"
  "var_val (VAR_SET_BINOP_INDVAR v p st) = var_val v"
  by (simp_all add: VAR_SET_defs)

lemma set_list_fields [simp]:
  "var_name (VAR_SET_BOOL v b) = var_name v" "var_next (VAR_SET_BOOL v b) = var_next v"
  "var_name (VAR_SET_INT v i) = var_name v" "var_next (VAR_SET_INT v i) = var_next v"
  "var_name (VAR_SET_STR v x) = var_name v" "var_next (VAR_SET_STR v x) = var_next v"
  "var_name (VAR_SET_DBL v d) = var_name v" "var_next (VAR_SET_DBL v d) = var_next v"
  "var_name (VAR_SET_RAND v p) = var_name v" "var_next (VAR_SET_RAND v p) = var_next v"
  "var_name (VAR_SET_INDVAR v p) = var_name v" "var_next (VAR_SET_INDVAR v p) = var_next v"
  "var_name (VAR_SET_BINOP_INDVAR v p st) = var_name v" "var_next (VAR_SET_BINOP_INDVAR v p st) = var_next v"
  by (simp_all add: VAR_SET_defs)

lemma set_binop_mask:
  assumes "st AND 0xff00 = 0"
  shows "var_type (VAR_SET_BINOP_INDVAR v p st) AND 0xf00 = 0x700"
    "var_type (VAR_SET_BINOP_INDVAR v p st) AND 0xf = st AND 0xf"
    "var_type (VAR_SET_BINOP_INDVAR v p st) AND 0xf0 = (var_type v OR st) AND 0xf0"
    "var_type (VAR_SET_BINOP_INDVAR v p st) AND 0xf000 = var_type v AND 0xf000"
proof -
  have "st AND 0xf00 = (st AND 0xff00) AND 0xf00" "st AND 0xf000 = (st AND 0xff00) AND 0xf000"
    by (simp_all add: and.assoc)
  then have z: "st AND 0xf00 = 0" "st AND 0xf000 = 0" using assms by simp_all
  show "var_type (VAR_SET_BINOP_INDVAR v p st) AND 0xf00 = 0x700"
    "var_type (VAR_SET_BINOP_INDVAR v p st) AND 0xf = st AND 0xf"
    "var_type (VAR_SET_BINOP_INDVAR v p st) AND 0xf0 = (var_type v OR st) AND 0xf0"
    "var_type (VAR_SET_BINOP_INDVAR v p st) AND 0xf000 = var_type v AND 0xf000"
    unfolding VAR_SET_BINOP_INDVAR_def by (simp_all add: and_or_distrib z and.assoc)
qed

lemma set_var_sel [simp]:
  "vars (set_var s p v) = (vars s)(p := v)" "ipc (set_var s p v) = ipc s" "avds (set_var s p v) = avds s"
  "rnds (set_var s p v) = rnds s" "shm_var_list (set_var s p v) = shm_var_list s"
  "shm_var_dyn_list (set_var s p v) = shm_var_dyn_list s" "shm_var_loc_list (set_var s p v) = shm_var_loc_list s"
  "shm_rand_list (set_var s p v) = shm_rand_list s"
  by (simp_all add: set_var_def)

subsection \<open>Linked lists of variables\<close>

fun vlist :: "(ptr \<Rightarrow> var_t) \<Rightarrow> ptr \<Rightarrow> ptr list \<Rightarrow> bool" where
  "vlist vs p [] \<longleftrightarrow> p = NULL"
| "vlist vs p (x # xs) \<longleftrightarrow> p = x \<and> x \<noteq> NULL \<and> vlist vs (var_next (vs x)) xs"

lemma vlist_frame: "vlist vs p xs \<Longrightarrow> (\<And>x. x \<in> set xs \<Longrightarrow> var_next (vs' x) = var_next (vs x)) \<Longrightarrow> vlist vs' p xs"
  by (induction xs arbitrary: p) auto

lemma vlist_append:
  "vlist vs p xs \<Longrightarrow> xs \<noteq> [] \<Longrightarrow> distinct (xs @ [q]) \<Longrightarrow> q \<noteq> NULL \<Longrightarrow> var_next (vs q) = NULL
    \<Longrightarrow> vlist (vs(last xs := (vs (last xs))\<lparr>var_next := q\<rparr>)) p (xs @ [q])"
proof (induction xs arbitrary: p)
  case (Cons x xs)
  show ?case
  proof (cases "xs = []")
    case False
    with Cons.prems have "vlist (vs(last xs := (vs (last xs))\<lparr>var_next := q\<rparr>)) (var_next (vs x)) (xs @ [q])"
      by (intro Cons.IH) auto
    moreover have "x \<noteq> last xs" using False Cons.prems(3) last_in_set [OF False] by auto
    ultimately show ?thesis using Cons.prems False by (simp add: fun_upd_def)
  qed (use Cons.prems in auto)
qed simp

lemma list_end_vlist: "vlist vs p xs \<Longrightarrow> list_end vs p prev = Some (if xs = [] then prev else last xs)"
  by (induction xs arbitrary: p prev) (auto simp: list_end.simps)

definition first_named :: "(ptr \<Rightarrow> var_t) \<Rightarrow> string \<Rightarrow> ptr list \<Rightarrow> ptr" where
  "first_named vs name xs = (case List.find (\<lambda>x. var_name (vs x) = Some name) xs of None \<Rightarrow> NULL | Some x \<Rightarrow> x)"

lemma first_named_simps [simp]:
  "first_named vs name [] = NULL"
  "first_named vs name (x # xs) = (if var_name (vs x) = Some name then x else first_named vs name xs)"
  by (simp_all add: first_named_def)

lemma first_named_null: "NULL \<notin> set xs \<Longrightarrow> first_named vs name xs = NULL \<longleftrightarrow> (\<forall>x \<in> set xs. var_name (vs x) \<noteq> Some name)"
  by (induction xs) auto

lemma first_named_in: "first_named vs name xs \<noteq> NULL \<Longrightarrow> first_named vs name xs \<in> set xs
    \<and> var_name (vs (first_named vs name xs)) = Some name"
  by (induction xs) auto

lemma first_named_append: "NULL \<notin> set xs \<Longrightarrow> first_named vs name (xs @ ys)
    = (if first_named vs name xs \<noteq> NULL then first_named vs name xs else first_named vs name ys)"
  by (induction xs) auto

lemma first_named_cong:
  "(\<And>x. x \<in> set xs \<Longrightarrow> var_name (vs x) = var_name (vs' x)) \<Longrightarrow> first_named vs name xs = first_named vs' name xs"
  by (induction xs) auto

lemma vlist_null: "vlist vs p xs \<Longrightarrow> NULL \<notin> set xs"
  by (induction xs arbitrary: p) auto

lemma var_find_list_only_vlist:
  "vlist vs p xs \<Longrightarrow> \<forall>x \<in> set xs. var_name (vs x) \<noteq> None
    \<Longrightarrow> var_find_list_only vs name p = Some (first_named vs name xs)"
  by (induction xs arbitrary: p) (auto simp: var_find_list_only.simps split: option.splits)

subsection \<open>The invariant\<close>

definition on_lists :: "ptr list \<Rightarrow> ptr list \<Rightarrow> ptr list \<Rightarrow> ptr set" where
  "on_lists gs ds ls = set gs \<union> set ds \<union> set ls"

definition class_of :: "vshm \<Rightarrow> ptr \<Rightarrow> vtype" where
  "class_of s p = var_type (vars s p) AND VAR_TYPE_MASK"

definition vars_inv :: "layout \<Rightarrow> vshm \<Rightarrow> ptr list \<Rightarrow> ptr list \<Rightarrow> ptr list \<Rightarrow> bool" where
  "vars_inv L s gs ds ls \<longleftrightarrow> layout_ok L \<and> ipc_wf (ipc s)
     \<and> vlist (vars s) (shm_var_list s) gs \<and> vlist (vars s) (shm_var_dyn_list s) ds
     \<and> vlist (vars s) (shm_var_loc_list s) ls \<and> distinct (gs @ ds @ ls)
     \<and> on_lists gs ds ls \<subseteq> ipc_handles L FILEBENCH_VARIABLE (ipc s)
     \<and> (\<forall>p \<in> on_lists gs ds ls. var_name (vars s p) \<noteq> None)
     \<and> (\<forall>p \<in> set gs. class_of s p \<in> {VAR_TYPE_GLOBAL, VAR_TYPE_RANDOM})
     \<and> (\<forall>p \<in> set ds. class_of s p = VAR_TYPE_DYNAMIC) \<and> (\<forall>p \<in> set ls. class_of s p = VAR_TYPE_LOCAL)"

text \<open>
  On well-formed lists \<open>var_find\<close> returns: the first local variable of that name, else the first
  global or random variable of that name, else \<open>NULL\<close>.
\<close>

lemma var_find_inv:
  "vars_inv L s gs ds ls \<Longrightarrow> var_find s name = Some (first_named (vars s) name (ls @ gs))"
  by (auto simp: var_find_def vars_inv_def on_lists_def var_find_list_only_vlist [of "vars s" "shm_var_loc_list s" ls]
      var_find_list_only_vlist [of "vars s" "shm_var_list s" gs] first_named_append vlist_null)

lemma inv_null: "vars_inv L s gs ds ls \<Longrightarrow> NULL \<notin> on_lists gs ds ls"
  by (auto simp: vars_inv_def on_lists_def dest: vlist_null)

text \<open>Changing a variable's value or type keeps the invariant as long as its links, name and class stay.\<close>

lemma inv_set_var:
  assumes "vars_inv L s gs ds ls" "var_next v = var_next (vars s p)" "var_name v = var_name (vars s p)"
    "var_type v AND VAR_TYPE_MASK = var_type (vars s p) AND VAR_TYPE_MASK"
  shows "vars_inv L (set_var s p v) gs ds ls"
proof -
  have l: "vlist (vars s) q xs \<Longrightarrow> vlist ((vars s)(p := v)) q xs" for q xs
    using assms(2) by (auto intro: vlist_frame)
  show ?thesis using assms l by (auto simp: vars_inv_def set_var_def class_of_def)
qed

lemma inv_set_avd [simp]: "vars_inv L (set_avd s p a) gs ds ls = vars_inv L s gs ds ls"
  by (simp add: vars_inv_def set_avd_def class_of_def)

lemma inv_rnds [simp]: "vars_inv L (s\<lparr>rnds := r, shm_rand_list := q\<rparr>) gs ds ls = vars_inv L s gs ds ls"
  "vars_inv L (s\<lparr>rnds := r\<rparr>) gs ds ls = vars_inv L s gs ds ls"
  by (simp_all add: vars_inv_def class_of_def)

lemma inv_ipc:
  "vars_inv L s gs ds ls \<Longrightarrow> ipc_wf i \<Longrightarrow> ipc_handles L FILEBENCH_VARIABLE (ipc s) \<subseteq> ipc_handles L FILEBENCH_VARIABLE i
    \<Longrightarrow> vars_inv L (s\<lparr>ipc := i\<rparr>) gs ds ls"
  by (auto simp: vars_inv_def class_of_def)

subsection \<open>Allocation\<close>

lemma ipc_malloc_string_ptr:
  "ipc_malloc L zero shm type = Some (p, shm') \<Longrightarrow> shm_string_ptr shm' = shm_string_ptr shm"
  by (auto simp: ipc_malloc_def Let_def split: option.splits if_splits)

lemma ipc_malloc_has_slot:
  "ipc_malloc L zero shm type = Some (p, shm') \<Longrightarrow> t \<noteq> type \<Longrightarrow> has_slot shm' t = has_slot shm t"
  by (auto simp: ipc_malloc_def Let_def has_slot_def live_def split: option.splits if_splits)

lemma ipc_malloc_cases:
  assumes "ipc_wf shm" "layout_ok L" "type < FILEBENCH_TYPES"
  obtains (full) "\<not> has_slot shm type" "ipc_malloc L zero shm type = Some (NULL, shm)"
  | (found) p shm' where "has_slot shm type" "ipc_malloc L zero shm type = Some (p, shm')" "p \<noteq> NULL" "ipc_wf shm'"
      "p \<notin> ipc_handles L type shm" "ipc_handles L type shm' = insert p (ipc_handles L type shm)"
      "\<And>t. t \<noteq> type \<Longrightarrow> ipc_handles L t shm' = ipc_handles L t shm"
proof (cases "has_slot shm type")
  case False
  then show thesis using full ipc_malloc_full [OF assms(1,3)] by blast
next
  case True
  obtain i shm' where I: "ipc_malloc L zero shm type = Some (obj_addr L type i, shm')" "i < filebench_sizes ! type"
    "i \<notin> live shm type" "live shm' = (live shm)(type := insert i (live shm type))" "ipc_wf shm'"
    using ipc_malloc_found [OF assms(1,3) True, of L zero] by blast
  have "obj_addr L type i \<noteq> NULL" using assms(2,3) I(2) by (simp add: layout_ok_def)
  moreover have "obj_addr L type i \<notin> ipc_handles L type shm"
    using I(2,3) obj_addr_inj [OF assms(2,3) I(2)] wf_live [OF assms(1,3)] by (auto simp: ipc_handles_def)
  moreover have "ipc_handles L type shm' = insert (obj_addr L type i) (ipc_handles L type shm)"
    "\<And>t. t \<noteq> type \<Longrightarrow> ipc_handles L t shm' = ipc_handles L t shm"
    by (simp_all add: ipc_handles_def I(4))
  ultimately show thesis using found [OF True I(1)] I(5) by blast
qed

lemma stralloc_cases:
  "stralloc s str = (if shm_string_ptr (ipc s) + length str + 1 \<le> FILEBENCH_STRINGMEMORY then Some str else None,
     s\<lparr>ipc := snd (ipc_stralloc (ipc s) str)\<rparr>)"
  by (auto simp: stralloc_def ipc_stralloc_def Let_def)

lemma ipc_stralloc_frame [simp]:
  "ipc_wf (snd (ipc_stralloc shm str)) = ipc_wf shm" "live (snd (ipc_stralloc shm str)) = live shm"
  "ipc_handles L type (snd (ipc_stralloc shm str)) = ipc_handles L type shm"
  "has_slot (snd (ipc_stralloc shm str)) type = has_slot shm type"
  by (auto simp: ipc_stralloc_def Let_def ipc_wf_def live_def ipc_handles_def has_slot_def)

lemma inv_stralloc: "vars_inv L s gs ds ls \<Longrightarrow> vars_inv L (snd (stralloc s str)) gs ds ls"
  by (auto simp: stralloc_cases vars_inv_def class_of_def)

text \<open>What a new variable needs: a slot and room for its name.\<close>

definition can_alloc :: "vshm \<Rightarrow> string \<Rightarrow> bool" where
  "can_alloc s name \<longleftrightarrow> has_slot (ipc s) FILEBENCH_VARIABLE
     \<and> shm_string_ptr (ipc s) + length name + 1 \<le> FILEBENCH_STRINGMEMORY"

definition same_but_next :: "var_t \<Rightarrow> var_t \<Rightarrow> bool" where
  "same_but_next v v' \<longleftrightarrow> v' = v\<lparr>var_next := var_next v'\<rparr>"

lemma same_but_next_refl [simp]: "same_but_next v v" "same_but_next v (v\<lparr>var_next := q\<rparr>)"
  by (simp_all add: same_but_next_def)

lemma same_but_nextD: "same_but_next v v' \<Longrightarrow> var_name v' = var_name v \<and> var_type v' = var_type v
    \<and> var_val v' = var_val v \<and> var_varptr1 v' = var_varptr1 v"
  by (cases v; cases v') (simp add: same_but_next_def)

lemma inv_link_local:
  assumes "vars_inv L s gs ds ls" "p \<in> ipc_handles L FILEBENCH_VARIABLE (ipc s)" "p \<notin> on_lists gs ds ls"
    "p \<noteq> NULL" "var_name v \<noteq> None" "var_type v AND VAR_TYPE_MASK = VAR_TYPE_LOCAL"
  shows "vars_inv L ((set_var s p (v\<lparr>var_next := shm_var_loc_list s\<rparr>))\<lparr>shm_var_loc_list := p\<rparr>) gs ds (p # ls)"
proof -
  have l: "vlist (vars s) q xs \<Longrightarrow> p \<notin> set xs \<Longrightarrow> vlist ((vars s)(p := w)) q xs" for q xs w
    by (auto intro: vlist_frame)
  show ?thesis using assms l by (auto simp: vars_inv_def set_var_def class_of_def on_lists_def)
qed

lemma inv_append_var:
  assumes "vars_inv L s gs ds ls" "p \<in> ipc_handles L FILEBENCH_VARIABLE (ipc s)" "p \<notin> on_lists gs ds ls"
    "p \<noteq> NULL" "var_name (vars s p) \<noteq> None" "var_next (vars s p) = NULL"
    "if dyn then class_of s p = VAR_TYPE_DYNAMIC else class_of s p \<in> {VAR_TYPE_GLOBAL, VAR_TYPE_RANDOM}"
  shows "\<exists>s'. append_var s dyn p = Some s'
    \<and> vars_inv L s' (if dyn then gs else gs @ [p]) (if dyn then ds @ [p] else ds) ls
    \<and> (\<forall>x. same_but_next (vars s x) (vars s' x)) \<and> vars s' p = vars s p
    \<and> ipc s' = ipc s \<and> avds s' = avds s \<and> rnds s' = rnds s"
proof -
  let ?xs = "if dyn then ds else gs" and ?h = "if dyn then shm_var_dyn_list s else shm_var_list s"
  have x: "vlist (vars s) ?h ?xs" "p \<notin> set ?xs" "distinct ?xs"
    using assms(1,3) by (auto simp: vars_inv_def on_lists_def)
  have nz: "?xs \<noteq> [] \<Longrightarrow> last ?xs \<noteq> NULL" using vlist_null [OF x(1)] last_in_set [of ?xs] by metis
  have e: "append_var s dyn p = Some (if ?xs = [] then (if dyn then s\<lparr>shm_var_dyn_list := p\<rparr> else s\<lparr>shm_var_list := p\<rparr>)
      else set_var s (last ?xs) ((vars s (last ?xs))\<lparr>var_next := p\<rparr>))"
    using list_end_vlist [OF x(1), of NULL] nz by (auto simp: append_var_def)
  show ?thesis
  proof (cases "?xs = []")
    case True
    then show ?thesis using e assms by (auto simp: vars_inv_def class_of_def on_lists_def split: if_splits)
  next
    case False
    let ?l = "last ?xs"
    let ?vs = "(vars s)(?l := (vars s ?l)\<lparr>var_next := p\<rparr>)"
    have l: "?l \<in> set ?xs" using False by simp
    have a: "vlist ?vs ?h (?xs @ [p])" using vlist_append [OF x(1) False] x assms(4,6) by simp
    have f: "vlist (vars s) q ys \<Longrightarrow> ?l \<notin> set ys \<Longrightarrow> vlist ?vs q ys" for q ys
      by (auto intro: vlist_frame)
    have ne: "p \<noteq> ?l" using l x(2) by metis
    have n: "?l \<notin> set (if dyn then gs else ds)" "?l \<notin> set ls"
      using l assms(1) by (auto simp: vars_inv_def split: if_splits)
    have c: "class_of (set_var s ?l ((vars s ?l)\<lparr>var_next := p\<rparr>)) = class_of s"
      "var_name (vars (set_var s ?l ((vars s ?l)\<lparr>var_next := p\<rparr>)) y) = var_name (vars s y)" for y
      by (auto simp: fun_eq_iff class_of_def set_var_def)
    have inv: "vars_inv L (set_var s ?l ((vars s ?l)\<lparr>var_next := p\<rparr>))
        (if dyn then gs else gs @ [p]) (if dyn then ds @ [p] else ds) ls"
      using assms a f n unfolding vars_inv_def c
      by (cases dyn) (auto simp: set_var_def on_lists_def)
    show ?thesis using inv e False ne by (auto simp: set_var_def)
  qed
qed

text \<open>What \<open>var_alloc_cmn\<close> leaves alone: the contents of the allocated variables, up to the link.\<close>

definition alloc_frame :: "layout \<Rightarrow> vshm \<Rightarrow> vshm \<Rightarrow> bool" where
  "alloc_frame L s s' \<longleftrightarrow> (\<forall>x \<in> ipc_handles L FILEBENCH_VARIABLE (ipc s). same_but_next (vars s x) (vars s' x))
     \<and> avds s' = avds s \<and> rnds s' = rnds s
     \<and> (\<forall>t. t \<noteq> FILEBENCH_VARIABLE \<longrightarrow> has_slot (ipc s') t = has_slot (ipc s) t)
     \<and> ipc_handles L FILEBENCH_VARIABLE (ipc s) \<subseteq> ipc_handles L FILEBENCH_VARIABLE (ipc s')"

definition new_lists :: "vtype \<Rightarrow> ptr \<Rightarrow> ptr list \<times> ptr list \<times> ptr list \<Rightarrow> ptr list \<times> ptr list \<times> ptr list" where
  "new_lists vt p = (\<lambda>(gs, ds, ls). if vt = VAR_TYPE_LOCAL then (gs, ds, p # ls)
     else if vt = VAR_TYPE_DYNAMIC then (gs, ds @ [p], ls) else (gs @ [p], ds, ls))"

abbreviation vars_inv3 :: "layout \<Rightarrow> vshm \<Rightarrow> ptr list \<times> ptr list \<times> ptr list \<Rightarrow> bool" where
  "vars_inv3 L s \<equiv> \<lambda>(gs, ds, ls). vars_inv L s gs ds ls"

text \<open>The state after \<open>ipc_malloc\<close> and the allocation of the name, before the new variable is linked.\<close>

definition named_var :: "vshm \<Rightarrow> unit filebench_shm \<Rightarrow> ptr \<Rightarrow> string \<Rightarrow> string option \<Rightarrow> vtype \<Rightarrow> vshm" where
  "named_var s i p name n vt =
     set_var (s\<lparr>ipc := snd (ipc_stralloc i name)\<rparr>) p (zero_var\<lparr>var_type := vt, var_name := n\<rparr>)"

lemma named_var_sel [simp]:
  "vars (named_var s i p name n vt) = (vars s)(p := zero_var\<lparr>var_type := vt, var_name := n\<rparr>)"
  "ipc (named_var s i p name n vt) = snd (ipc_stralloc i name)"
  "avds (named_var s i p name n vt) = avds s" "rnds (named_var s i p name n vt) = rnds s"
  "shm_var_loc_list (named_var s i p name n vt) = shm_var_loc_list s"
  by (simp_all add: named_var_def)

lemma named_var_inv:
  assumes "vars_inv L s gs ds ls" "p \<notin> ipc_handles L FILEBENCH_VARIABLE (ipc s)" "ipc_wf i"
    "ipc_handles L FILEBENCH_VARIABLE i = insert p (ipc_handles L FILEBENCH_VARIABLE (ipc s))"
    "ipc_malloc L (\<lambda>_. ()) (ipc s) FILEBENCH_VARIABLE = Some (p, i)"
  shows "vars_inv L (named_var s i p name n vt) gs ds ls" "p \<notin> on_lists gs ds ls"
    "alloc_frame L s (named_var s i p name n vt)"
proof -
  show pn: "p \<notin> on_lists gs ds ls" using assms(1,2) by (auto simp: vars_inv_def)
  have fr: "vlist (vars s) q xs \<Longrightarrow> p \<notin> set xs \<Longrightarrow> vlist ((vars s)(p := w)) q xs" for q xs w
    by (auto intro: vlist_frame)
  show "vars_inv L (named_var s i p name n vt) gs ds ls"
    using assms pn fr by (auto simp: vars_inv_def named_var_def class_of_def on_lists_def)
  show "alloc_frame L s (named_var s i p name n vt)"
    using assms ipc_malloc_has_slot [OF assms(5)] by (auto simp: alloc_frame_def)
qed

lemma var_alloc_cmn_named:
  fixes name :: string and vt :: vtype
  assumes "ipc_malloc L (\<lambda>_. ()) (ipc s) FILEBENCH_VARIABLE = Some (p, i)" "p \<noteq> NULL"
  defines "n \<equiv> if shm_string_ptr i + length name + 1 \<le> FILEBENCH_STRINGMEMORY then Some name else None"
  defines "s3 \<equiv> named_var s i p name n vt"
  shows "var_alloc_cmn L s name vt =
    (if n = None then Some (NULL, s3)
     else if vt AND VAR_TYPE_MASK = VAR_TYPE_LOCAL then
       Some (p, (set_var s3 p ((vars s3 p)\<lparr>var_next := shm_var_loc_list s3\<rparr>))\<lparr>shm_var_loc_list := p\<rparr>)
     else do { s \<leftarrow> append_var s3 (vt AND VAR_TYPE_MASK = VAR_TYPE_DYNAMIC) p; Some (p, s) })"
proof -
  let ?s1 = "set_var (s\<lparr>ipc := i\<rparr>) p (zero_var\<lparr>var_type := vt\<rparr>)"
  have st: "stralloc ?s1 name = (n, ?s1\<lparr>ipc := snd (ipc_stralloc i name)\<rparr>)"
    by (simp add: stralloc_cases n_def)
  have s3: "set_var (?s1\<lparr>ipc := snd (ipc_stralloc i name)\<rparr>) p (zero_var\<lparr>var_type := vt, var_name := n\<rparr>) = s3"
    by (simp add: s3_def named_var_def set_var_def)
  show ?thesis using assms(1,2) s3 by (cases n) (simp_all add: var_alloc_cmn_def st Let_def)
qed

lemma link_named_var:
  fixes name :: string
  assumes "vars_inv L s gs ds ls" "p \<notin> ipc_handles L FILEBENCH_VARIABLE (ipc s)" "ipc_wf i" "p \<noteq> NULL"
    "ipc_handles L FILEBENCH_VARIABLE i = insert p (ipc_handles L FILEBENCH_VARIABLE (ipc s))"
    "vt \<in> {VAR_TYPE_GLOBAL, VAR_TYPE_DYNAMIC, VAR_TYPE_RANDOM, VAR_TYPE_LOCAL}"
    "ipc_malloc L (\<lambda>_. ()) (ipc s) FILEBENCH_VARIABLE = Some (p, i)"
    "shm_string_ptr i + length name + 1 \<le> FILEBENCH_STRINGMEMORY"
  shows "\<exists>s'. var_alloc_cmn L s name vt = Some (p, s')
   \<and> vars_inv3 L s' (new_lists vt p (gs, ds, ls)) \<and> alloc_frame L s s' \<and> var_name (vars s' p) = Some name
   \<and> var_type (vars s' p) = vt \<and> var_val (vars s' p) = VZero \<and> var_varptr1 (vars s' p) = NULL"
proof -
  define s3 where "s3 = named_var s i p name (Some name) vt"
  have e: "var_alloc_cmn L s name vt =
    (if vt AND VAR_TYPE_MASK = VAR_TYPE_LOCAL then
       Some (p, (set_var s3 p ((vars s3 p)\<lparr>var_next := shm_var_loc_list s3\<rparr>))\<lparr>shm_var_loc_list := p\<rparr>)
     else do { s \<leftarrow> append_var s3 (vt AND VAR_TYPE_MASK = VAR_TYPE_DYNAMIC) p; Some (p, s) })"
    using var_alloc_cmn_named [OF assms(7,4), of name vt] assms(8) by (simp add: s3_def)
  have N: "vars_inv L s3 gs ds ls" "p \<notin> on_lists gs ds ls"
    using named_var_inv [OF assms(1-3,5,7)] by (simp_all add: s3_def)
  have h: "p \<in> ipc_handles L FILEBENCH_VARIABLE (ipc s3)" using assms(5) by (simp add: s3_def)
  have v: "vars s3 p = zero_var\<lparr>var_type := vt, var_name := Some name\<rparr>" by (simp add: s3_def)
  have m: "vt AND VAR_TYPE_MASK = vt" using assms(6) by auto
  show ?thesis
  proof (cases "vt = VAR_TYPE_LOCAL")
    case True
    let ?s4 = "(set_var s3 p ((vars s3 p)\<lparr>var_next := shm_var_loc_list s3\<rparr>))\<lparr>shm_var_loc_list := p\<rparr>"
    have "vars_inv L ?s4 gs ds (p # ls)"
      using inv_link_local [OF N(1) h N(2) assms(4), of "vars s3 p"] v True by simp
    moreover have "alloc_frame L s ?s4" using assms(2,5) ipc_malloc_has_slot [OF assms(7)] by (auto simp: alloc_frame_def s3_def)
    ultimately show ?thesis using e True v by (intro exI [of _ ?s4]) (simp add: new_lists_def zero_var_def)
  next
    case False
    let ?dyn = "vt = VAR_TYPE_DYNAMIC"
    obtain s' where s': "append_var s3 ?dyn p = Some s'"
      "vars_inv L s' (if ?dyn then gs else gs @ [p]) (if ?dyn then ds @ [p] else ds) ls"
      "\<forall>x. same_but_next (vars s3 x) (vars s' x)" "vars s' p = vars s3 p"
      "ipc s' = ipc s3" "avds s' = avds s3" "rnds s' = rnds s3"
      using inv_append_var [OF N(1) h N(2) assms(4), of ?dyn] v m assms(6) False
      by (auto simp: class_of_def zero_var_def)
    have "same_but_next (vars s x) (vars s' x)" if "x \<in> ipc_handles L FILEBENCH_VARIABLE (ipc s)" for x
    proof -
      from that have "x \<noteq> p" using assms(2) by auto
      then show ?thesis using s'(3) [rule_format, of x] by (simp add: s3_def)
    qed
    then have "alloc_frame L s s'" using s'(5-7) assms(5) ipc_malloc_has_slot [OF assms(7)]
      by (auto simp: alloc_frame_def s3_def)
    then show ?thesis using e s' v m False by (intro exI [of _ s']) (auto simp: new_lists_def zero_var_def)
  qed
qed

lemma var_alloc_cmn_cases:
  assumes "vars_inv L s gs ds ls" "vt \<in> {VAR_TYPE_GLOBAL, VAR_TYPE_DYNAMIC, VAR_TYPE_RANDOM, VAR_TYPE_LOCAL}"
  obtains (full) s' where "\<not> can_alloc s name" "var_alloc_cmn L s name vt = Some (NULL, s')"
      "vars_inv L s' gs ds ls" "alloc_frame L s s'"
  | (ok) p s' where "can_alloc s name" "var_alloc_cmn L s name vt = Some (p, s')" "p \<noteq> NULL"
      "p \<notin> ipc_handles L FILEBENCH_VARIABLE (ipc s)" "vars_inv3 L s' (new_lists vt p (gs, ds, ls))" "alloc_frame L s s'"
      "var_name (vars s' p) = Some name" "var_type (vars s' p) = vt" "var_val (vars s' p) = VZero"
      "var_varptr1 (vars s' p) = NULL"
proof -
  have L: "ipc_wf (ipc s)" "layout_ok L" "FILEBENCH_VARIABLE < FILEBENCH_TYPES"
    using assms(1) by (simp_all add: vars_inv_def)
  show thesis
  proof (cases rule: ipc_malloc_cases [OF L, of "\<lambda>_. ()", case_names none some])
    case none
    then have e: "var_alloc_cmn L s name vt = Some (NULL, s)" by (simp add: var_alloc_cmn_def Let_def)
    have "\<not> can_alloc s name" using none(1) by (simp add: can_alloc_def)
    then show thesis by (rule full [OF _ e assms(1)]) (simp add: alloc_frame_def)
  next
    case (some p i)
    note e = var_alloc_cmn_named [OF some(2,3), of name vt]
    have can: "can_alloc s name \<longleftrightarrow> shm_string_ptr i + length name + 1 \<le> FILEBENCH_STRINGMEMORY"
      using some(1) ipc_malloc_string_ptr [OF some(2)] by (simp add: can_alloc_def)
    show thesis
    proof (cases "can_alloc s name")
      case False
      then have "var_alloc_cmn L s name vt = Some (NULL, named_var s i p name None vt)" using e can by simp
      then show thesis by (rule full [OF False _ named_var_inv(1,3) [OF assms(1) some(5,4,6,2)]])
    next
      case True
      then have "shm_string_ptr i + length name + 1 \<le> FILEBENCH_STRINGMEMORY" by (simp only: can)
      from link_named_var [OF assms(1) some(5,4,3,6) assms(2) some(2) this]
      show thesis by (elim exE conjE) (rule ok [OF True _ some(3,5)])
    qed
  qed
qed

text \<open>
  C31. \<open>var_alloc_cmn\<close> returns. If a slot and the memory for the name are available, the result is a
  variable that was not allocated before, unset, of the given type and name: a local variable is put
  at the head of its list, any other at the end of its list. Otherwise the result is \<open>NULL\<close> and the
  lists stay. Either way the invariant holds again, no allocated variable changes except for its
  link, and nothing else changes.
\<close>

theorem var_alloc_cmn_correct:
  assumes "vars_inv L s gs ds ls" "vt \<in> {VAR_TYPE_GLOBAL, VAR_TYPE_DYNAMIC, VAR_TYPE_RANDOM, VAR_TYPE_LOCAL}"
  shows "\<exists>p s'. var_alloc_cmn L s name vt = Some (p, s') \<and> alloc_frame L s s' \<and> (p \<noteq> NULL \<longleftrightarrow> can_alloc s name)
    \<and> (if p = NULL then vars_inv L s' gs ds ls
       else p \<notin> ipc_handles L FILEBENCH_VARIABLE (ipc s)
         \<and> var_name (vars s' p) = Some name \<and> var_type (vars s' p) = vt \<and> var_val (vars s' p) = VZero
         \<and> (if vt = VAR_TYPE_LOCAL then vars_inv L s' gs ds (p # ls)
            else if vt = VAR_TYPE_DYNAMIC then vars_inv L s' gs (ds @ [p]) ls
            else vars_inv L s' (gs @ [p]) ds ls))"
  by (rule var_alloc_cmn_cases [OF assms, of name]) (auto simp: new_lists_def split: if_splits)

definition ex_vshm :: vshm where
  "ex_vshm = \<lparr>ipc = ipc_init \<lparr>shm_bitmap = (\<lambda>_ _. 1), shm_lastbitmapindex = (\<lambda>_. 7), shm_obj = (\<lambda>_ _. ()),
     shm_malloc_lock = True, shm_strings = (\<lambda>_. NUL), shm_string_ptr = 3, shm_filesetpaths = (\<lambda>_. NUL),
     shm_path_ptr = 3, shm_semids = (\<lambda>_. 1), shm_id = 0, shm_addr = 1, shm_ptr = 1, shm_allocated = 1,
     shm_ism_lock = False\<rparr>,
     vars = (\<lambda>_. zero_var), avds = (\<lambda>_. \<lparr>avd_type = AVD_INVALID, avd_val = AZero\<rparr>),
     rnds = (\<lambda>_. \<lparr>rnd_next = 0, rnd_var = 0, rnd_seed = 0, rnd_mean = 0, rnd_gamma = 0, rnd_min = 0,
       rnd_round = 0, rnd_type = 0\<rparr>),
     shm_var_list = NULL, shm_var_dyn_list = NULL, shm_var_loc_list = NULL, shm_rand_list = NULL\<rparr>"

lemma ex_inv: "vars_inv ex_layout ex_vshm [] [] []"
  unfolding vars_inv_def on_lists_def using ex_layout_ok ipc_init_wf by (simp add: ex_vshm_def)

lemma ex_can_alloc: "length name < 1000 \<Longrightarrow> can_alloc ex_vshm name"
  unfolding can_alloc_def has_slot_def
  by (auto intro!: exI [of _ 1] simp: live_def ex_vshm_def ipc_init_def filebench_sizes_def)

theorem var_alloc_cmn_witness:
  "\<exists>p s'. var_alloc_cmn ex_layout ex_vshm ''nfiles'' VAR_TYPE_LOCAL = Some (p, s') \<and> p \<noteq> NULL
     \<and> vars_inv ex_layout s' [] [] [p]"
  using var_alloc_cmn_correct [OF ex_inv, of VAR_TYPE_LOCAL "''nfiles''"] ex_can_alloc [of "''nfiles''"] by auto

subsection \<open>Assignment\<close>

definition lookup_name :: "vshm \<Rightarrow> string \<Rightarrow> ptr list \<Rightarrow> ptr list \<Rightarrow> ptr" where
  "lookup_name s name ls gs = first_named (vars s) name (ls @ gs)"

lemma frame_names:
  assumes "vars_inv L s gs ds ls" "alloc_frame L s s'"
  shows "first_named (vars s') name (ls @ gs) = first_named (vars s) name (ls @ gs)"
proof (rule first_named_cong)
  fix x assume "x \<in> set (ls @ gs)"
  then have "x \<in> ipc_handles L FILEBENCH_VARIABLE (ipc s)" using assms(1) by (auto simp: vars_inv_def on_lists_def)
  with assms(2) have "same_but_next (vars s x) (vars s' x)" by (simp add: alloc_frame_def)
  then show "var_name (vars s' x) = var_name (vars s x)" by (simp add: same_but_nextD)
qed

lemma lookup_appended:
  assumes "vars_inv L s gs ds ls" "alloc_frame L s s'" "lookup_name s n ls gs = NULL" "var_name (vars s' p) = Some n"
  shows "lookup_name s' n ls (gs @ [p]) = p"
proof -
  have "NULL \<notin> set (ls @ gs)" using assms(1) by (auto simp: vars_inv_def dest: vlist_null)
  then show ?thesis
    using assms(3,4) frame_names [OF assms(1,2), of n] first_named_append [of "ls @ gs" "vars s'" n "[p]"]
    by (simp add: lookup_name_def)
qed

text \<open>Either the variable exists, or it can be allocated, or there is no memory for it.\<close>

lemma find_or_alloc_cases:
  assumes "vars_inv L s gs ds ls"
  obtains (found) p where "lookup_name s name ls gs = p" "p \<noteq> NULL" "find_or_alloc L s name = Some (p, s)"
  | (new) p s' where "lookup_name s name ls gs = NULL" "can_alloc s name" "find_or_alloc L s name = Some (p, s')"
      "p \<noteq> NULL" "p \<notin> ipc_handles L FILEBENCH_VARIABLE (ipc s)" "vars_inv L s' (gs @ [p]) ds ls" "alloc_frame L s s'"
      "lookup_name s' name ls (gs @ [p]) = p" "\<not> is_random s' p" "var_type (vars s' p) = VAR_TYPE_GLOBAL"
  | (full) s' where "lookup_name s name ls gs = NULL" "\<not> can_alloc s name" "find_or_alloc L s name = Some (NULL, s')"
      "vars_inv L s' gs ds ls" "alloc_frame L s s'"
proof (cases "lookup_name s name ls gs = NULL")
  case False
  then show thesis
    by (intro found) (simp_all add: find_or_alloc_def var_find_inv [OF assms] lookup_name_def)
next
  case True
  have e: "find_or_alloc L s name = var_alloc_cmn L s name VAR_TYPE_GLOBAL"
    using True by (simp add: find_or_alloc_def var_find_inv [OF assms] lookup_name_def var_alloc_def)
  show thesis
  proof (rule var_alloc_cmn_cases [OF assms, of VAR_TYPE_GLOBAL name])
    fix s'
    assume a: "\<not> can_alloc s name" "var_alloc_cmn L s name VAR_TYPE_GLOBAL = Some (NULL, s')"
      "vars_inv L s' gs ds ls" "alloc_frame L s s'"
    show thesis by (rule full [OF True a(1) _ a(3,4)]) (simp add: e a(2))
  next
    fix p s'
    assume a: "can_alloc s name" "var_alloc_cmn L s name VAR_TYPE_GLOBAL = Some (p, s')" "p \<noteq> NULL"
      "p \<notin> ipc_handles L FILEBENCH_VARIABLE (ipc s)" "vars_inv3 L s' (new_lists VAR_TYPE_GLOBAL p (gs, ds, ls))"
      "alloc_frame L s s'" "var_name (vars s' p) = Some name" "var_type (vars s' p) = VAR_TYPE_GLOBAL"
    have inv: "vars_inv L s' (gs @ [p]) ds ls" using a(5) by (simp add: new_lists_def)
    have "lookup_name s' name ls (gs @ [p]) = p" by (rule lookup_appended [OF assms a(6) True a(7)])
    then show thesis
      by (intro new [OF True a(1) _ a(3,4) inv a(6)]) (simp_all add: e a(2) is_random_def a(8))
  qed simp
qed

definition keeps :: "(var_t \<Rightarrow> var_t) \<Rightarrow> bool" where
  "keeps upd \<longleftrightarrow> (\<forall>v. var_next (upd v) = var_next v \<and> var_name (upd v) = var_name v
     \<and> var_type (upd v) AND VAR_TYPE_MASK = var_type v AND VAR_TYPE_MASK)"

lemma keeps_set [simp]:
  "keeps (\<lambda>v. VAR_SET_BOOL v b)" "keeps (\<lambda>v. VAR_SET_INT v i)" "keeps (\<lambda>v. VAR_SET_STR v x)"
  "keeps (\<lambda>v. VAR_SET_DBL v d)" "keeps (\<lambda>v. VAR_SET_RAND v p)" "keeps (\<lambda>v. VAR_SET_INDVAR v p)"
  by (simp_all add: keeps_def)

lemma inv_update: "vars_inv L s gs ds ls \<Longrightarrow> keeps upd \<Longrightarrow> vars_inv L (set_var s p (upd (vars s p))) gs ds ls"
  by (rule inv_set_var) (simp_all add: keeps_def)

lemma lookup_update: "keeps upd \<Longrightarrow> lookup_name (set_var s p (upd (vars s p))) name ls gs = lookup_name s name ls gs"
  unfolding lookup_name_def by (rule first_named_cong) (simp add: keeps_def)

text \<open>The shape the assignments share: find or allocate, refuse a random variable, update.\<close>

definition assign_with :: "layout \<Rightarrow> vshm \<Rightarrow> string \<Rightarrow> (var_t \<Rightarrow> var_t) \<Rightarrow> (int \<times> vshm) option" where
  "assign_with L s name upd = do {
     (var, s) \<leftarrow> find_or_alloc L s name;
     if var = NULL then Some (-1, s)
     else if is_random s var then Some (-1, s)
     else Some (0, set_var s var (upd (vars s var))) }"

definition assignable :: "vshm \<Rightarrow> string \<Rightarrow> ptr list \<Rightarrow> ptr list \<Rightarrow> bool" where
  "assignable s name ls gs \<longleftrightarrow>
     (if lookup_name s name ls gs = NULL then can_alloc s name else \<not> is_random s (lookup_name s name ls gs))"

text \<open>The effect of an assignment that succeeds, and of one that does not.\<close>

definition assigned :: "layout \<Rightarrow> vshm \<Rightarrow> vshm \<Rightarrow> string \<Rightarrow> (var_t \<Rightarrow> var_t) \<Rightarrow> ptr list \<Rightarrow> ptr list \<Rightarrow> ptr list \<Rightarrow> bool" where
  "assigned L s s' name upd gs ds ls \<longleftrightarrow> (\<exists>p v gs'. p \<noteq> NULL \<and> (gs' = gs \<or> gs' = gs @ [p])
     \<and> vars_inv L s' gs' ds ls \<and> lookup_name s' name ls gs' = p \<and> vars s' p = upd v \<and> \<not> is_random s' p
     \<and> (if lookup_name s name ls gs = NULL
         then var_type v = VAR_TYPE_GLOBAL \<and> p \<notin> ipc_handles L FILEBENCH_VARIABLE (ipc s)
         else p = lookup_name s name ls gs \<and> v = vars s p)
     \<and> (\<forall>x \<in> ipc_handles L FILEBENCH_VARIABLE (ipc s) - {p}. same_but_next (vars s x) (vars s' x))
     \<and> avds s' = avds s \<and> rnds s' = rnds s)"

definition unassigned :: "layout \<Rightarrow> vshm \<Rightarrow> vshm \<Rightarrow> ptr list \<Rightarrow> ptr list \<Rightarrow> ptr list \<Rightarrow> bool" where
  "unassigned L s s' gs ds ls \<longleftrightarrow> vars_inv L s' gs ds ls \<and> alloc_frame L s s'"

lemma assign_with_correct:
  assumes "vars_inv L s gs ds ls" "keeps upd"
  shows "\<exists>r s'. assign_with L s name upd = Some (r, s') \<and> r = (if assignable s name ls gs then 0 else -1)
    \<and> (if r = 0 then assigned L s s' name upd gs ds ls else unassigned L s s' gs ds ls)"
proof -
  have refl: "alloc_frame L s s" by (simp add: alloc_frame_def)
  have rnd: "is_random (set_var t p (upd (vars t p))) p \<longleftrightarrow> is_random t p" for t p
    using assms(2) by (simp add: is_random_def keeps_def)
  show ?thesis
  proof (rule find_or_alloc_cases [OF assms(1), of name])
    fix p assume a: "lookup_name s name ls gs = p" "p \<noteq> NULL" "find_or_alloc L s name = Some (p, s)"
    let ?s = "set_var s p (upd (vars s p))"
    have "\<not> is_random s p \<Longrightarrow> assigned L s ?s name upd gs ds ls"
      unfolding assigned_def using a inv_update [OF assms, of p] lookup_update [OF assms(2), of s p name ls gs] rnd
      by (intro exI [of _ p] exI [of _ "vars s p"] exI [of _ gs]) simp
    then show ?thesis
      using a assms(1) refl by (simp add: assign_with_def assignable_def unassigned_def)
  next
    fix p s' assume a: "lookup_name s name ls gs = NULL" "can_alloc s name" "find_or_alloc L s name = Some (p, s')"
      "p \<noteq> NULL" "p \<notin> ipc_handles L FILEBENCH_VARIABLE (ipc s)" "vars_inv L s' (gs @ [p]) ds ls" "alloc_frame L s s'"
      "lookup_name s' name ls (gs @ [p]) = p" "\<not> is_random s' p" "var_type (vars s' p) = VAR_TYPE_GLOBAL"
    let ?s = "set_var s' p (upd (vars s' p))"
    have "assigned L s ?s name upd gs ds ls"
      unfolding assigned_def
      using a inv_update [OF a(6) assms(2), of p] lookup_update [OF assms(2), of s' p name ls "gs @ [p]"] rnd
      by (intro exI [of _ p] exI [of _ "vars s' p"] exI [of _ "gs @ [p]"]) (auto simp: alloc_frame_def)
    with a show ?thesis by (simp add: assign_with_def assignable_def)
  next
    fix s' assume "lookup_name s name ls gs = NULL" "\<not> can_alloc s name" "find_or_alloc L s name = Some (NULL, s')"
      "vars_inv L s' gs ds ls" "alloc_frame L s s'"
    then show ?thesis by (simp add: assign_with_def assignable_def unassigned_def)
  qed
qed

subsection \<open>Reading back what was assigned\<close>

lemma var_lookup_found:
  "vars_inv L s gs ds ls \<Longrightarrow> lookup_name s n ls gs = p \<Longrightarrow> p \<noteq> NULL \<Longrightarrow> var_lookup D L s n = Some (p, s)"
  by (simp add: var_lookup_def var_find_inv lookup_name_def)

lemmas to_defs = var_to_integer_def var_to_boolean_def var_to_string_def var_to_double_def skip_def

lemma var_get_set:
  "p \<noteq> NULL \<Longrightarrow> vs p = VAR_SET_INT v i \<Longrightarrow> var_get_int F R vs p w = Some (i, w)"
  "p \<noteq> NULL \<Longrightarrow> vs p = VAR_SET_INT v i \<Longrightarrow> var_get_bool vs p = Some (if i = 0 then 0 else 1)"
  "p \<noteq> NULL \<Longrightarrow> vs p = VAR_SET_BOOL v b \<Longrightarrow> var_get_bool vs p = Some b"
  by (simp_all add: var_get_int.simps var_get_bool_def VAR_HAS_defs)

lemma var_get_string_set:
  assumes "\<not> is_random s p"
  shows "vars s p = VAR_SET_INT v i \<Longrightarrow> var_get_string F R s p w = Some (dec (unat i), w)"
    "vars s p = VAR_SET_BOOL v b \<Longrightarrow> var_get_string F R s p w = Some (if b \<noteq> 0 then ''true'' else ''false'', w)"
    "vars s p = VAR_SET_STR v (Some x) \<Longrightarrow> var_get_string F R s p w = Some (x, w)"
  using assms by (simp_all add: var_get_string.simps [of F R s p w] VAR_HAS_defs)

text \<open>The number that a string of decimal digits denotes.\<close>

definition decimal :: "string \<Rightarrow> nat" where
  "decimal x = foldl (\<lambda>a c. 10 * a + (of_char c - 48)) 0 x"

lemma decimal_dec: "decimal (dec n) = n"
proof (induction n rule: dec.induct)
  case (1 n)
  have d: "of_char (char_of (48 + d) :: char) = 48 + d" if "d < 10" for d :: nat
    using that by simp
  show ?case
  proof (cases "n < 10")
    case True
    then show ?thesis by (subst dec.simps) (simp add: decimal_def d)
  next
    case False
    with 1 have "foldl (\<lambda>a c. 10 * a + (of_char c - 48)) 0 (dec (n div 10)) = n div 10" by (simp add: decimal_def)
    with False show ?thesis by (subst dec.simps) (simp add: decimal_def d)
  qed
qed

text \<open>
  C32. Assigning an integer to a variable and reading it. \<open>var_assign_integer\<close> returns \<open>0\<close> exactly if
  the name denotes a variable that is not random, or no variable and one can be allocated. Then the
  name denotes a variable that reads back as that integer, as the boolean it stands for, and as a
  decimal numeral with that value; no other variable changes its value and the lists stay
  well-formed. Otherwise it returns \<open>-1\<close> and no variable changes.
\<close>

theorem var_assign_integer_correct:
  assumes "vars_inv L s gs ds ls"
  shows "\<exists>r s'. var_assign_integer L s (Some (c # n)) i = Some (r, s') \<and> r = (if assignable s n ls gs then 0 else -1)
    \<and> (if r = 0
       then assigned L s s' n (\<lambda>v. VAR_SET_INT v i) gs ds ls
         \<and> var_to_integer F R D L s' (c # n) w = Some (i, s', w)
         \<and> var_to_boolean D L s' (c # n) = Some (if i = 0 then 0 else 1, s')
         \<and> (\<exists>x. var_to_string F R D L s' (c # n) w = Some (Some x, s', w) \<and> decimal x = unat i)
       else unassigned L s s' gs ds ls)"
proof -
  have e: "var_assign_integer L s (Some (c # n)) i = assign_with L s n (\<lambda>v. VAR_SET_INT v i)"
    by (simp add: var_assign_integer_def assign_with_def var_find_alloc_def skip_def)
  have rd: "var_to_integer F R D L s' (c # n) w = Some (i, s', w)
      \<and> var_to_boolean D L s' (c # n) = Some (if i = 0 then 0 else 1, s')
      \<and> (\<exists>x. var_to_string F R D L s' (c # n) w = Some (Some x, s', w) \<and> decimal x = unat i)"
    if "assigned L s s' n (\<lambda>v. VAR_SET_INT v i) gs ds ls" for s'
    using that unfolding assigned_def
    by (auto simp: to_defs var_lookup_found var_get_set var_get_string_set decimal_dec)
  show ?thesis
    unfolding e using assign_with_correct [OF assms keeps_set(2), of n i] rd by (auto split: if_splits)
qed

definition ex_F :: fpu where
  "ex_F = \<lparr>fp_of_int = id, fp_to_int = id, fp_add = (+), fp_sub = (-), fp_mul = (*), fp_div = (div)\<rparr>"

definition ex_R :: "ptr \<Rightarrow> unit \<Rightarrow> dbl \<times> unit" where
  "ex_R p w = (0, w)"

definition ex_D :: dynvars where
  "ex_D = \<lparr>stats_findvar = (\<lambda>s p n. (NULL, s)), eventgen_ratevar = (\<lambda>s p. (NULL, s)), date_var = (\<lambda>s p. (NULL, s)),
     script_var = (\<lambda>s p. (NULL, s)), host_var = (\<lambda>s p. (NULL, s)), getenv = (\<lambda>n. None)\<rparr>"

lemma ex_assignable: "length n < 1000 \<Longrightarrow> assignable ex_vshm n [] []"
  using ex_can_alloc [of n] by (simp add: assignable_def lookup_name_def)

theorem var_assign_integer_witness:
  "\<exists>s'. var_assign_integer ex_layout ex_vshm (Some ''$nfiles'') 1000 = Some (0, s')
     \<and> var_to_integer ex_F ex_R ex_D ex_layout s' ''$nfiles'' () = Some (1000, s', ())"
  using var_assign_integer_correct [OF ex_inv, of "CHR ''$''" "''nfiles''" 1000 ex_F ex_R ex_D "()"]
    ex_assignable [of "''nfiles''"] by auto

lemma assign_string_store:
  fixes str :: string
  assumes "vars_inv L t gs ds ls" "lookup_name t n ls gs = p" "p \<noteq> NULL" "\<not> is_random t p"
  defines "t' \<equiv> t\<lparr>ipc := snd (ipc_stralloc (ipc t) str)\<rparr>"
  defines "t2 \<equiv> set_var t' p (VAR_SET_STR (vars t' p) (Some str))"
  shows "vars_inv L t2 gs ds ls" "lookup_name t2 n ls gs = p" "vars_inv L t' gs ds ls"
    "var_to_string F R D L t2 (c # n) w = Some (Some str, t2, w)"
proof -
  show t': "vars_inv L t' gs ds ls" using inv_stralloc [OF assms(1), of str] by (simp add: stralloc_cases t'_def)
  show inv: "vars_inv L t2 gs ds ls" unfolding t2_def by (rule inv_update [OF t' keeps_set(3)])
  have "lookup_name t2 n ls gs = lookup_name t' n ls gs" unfolding t2_def by (rule lookup_update [OF keeps_set(3)])
  then show l: "lookup_name t2 n ls gs = p" using assms(2) by (simp add: lookup_name_def t'_def)
  have "\<not> is_random t2 p" using assms(4) by (simp add: is_random_def t2_def t'_def)
  then show "var_to_string F R D L t2 (c # n) w = Some (Some str, t2, w)"
    using var_lookup_found [OF inv l assms(3)] assms(3) by (simp add: to_defs var_get_string_set t2_def)
qed

lemma var_assign_string_cases:
  assumes "vars_inv L s gs ds ls"
  shows "\<exists>r s' gs'. var_assign_string L s (c # n) str = Some (r, s') \<and> vars_inv L s' gs' ds ls
    \<and> (r = 0 \<and> var_to_string F R D L s' (c # n) w = Some (Some str, s', w)
       \<or> r = -1 \<and> alloc_frame L s s')
    \<and> (r = 0 \<longrightarrow> assignable s n ls gs)"
proof -
  have st: "alloc_frame L s t \<Longrightarrow> alloc_frame L s (t\<lparr>ipc := snd (ipc_stralloc (ipc t) str)\<rparr>)" for t
    by (simp add: alloc_frame_def)
  have refl: "alloc_frame L s s" by (simp add: alloc_frame_def)
  show ?thesis
  proof (rule find_or_alloc_cases [OF assms, of n])
    fix p assume a: "lookup_name s n ls gs = p" "p \<noteq> NULL" "find_or_alloc L s n = Some (p, s)"
    show ?thesis
    proof (cases "is_random s p")
      case True
      with a assms refl show ?thesis by (auto simp: var_assign_string_def skip_def)
    next
      case False
      note A = assign_string_store [OF assms a(1,2) False, where str = str]
      show ?thesis using a False A st [OF refl]
        by (auto simp: var_assign_string_def skip_def stralloc_cases assignable_def)
    qed
  next
    fix p s' assume a: "lookup_name s n ls gs = NULL" "can_alloc s n" "find_or_alloc L s n = Some (p, s')"
      "p \<noteq> NULL" "p \<notin> ipc_handles L FILEBENCH_VARIABLE (ipc s)" "vars_inv L s' (gs @ [p]) ds ls" "alloc_frame L s s'"
      "lookup_name s' n ls (gs @ [p]) = p" "\<not> is_random s' p" "var_type (vars s' p) = VAR_TYPE_GLOBAL"
    note A = assign_string_store [OF a(6,8,4,9), where str = str]
    show ?thesis using a A st [OF a(7)]
      by (auto simp: var_assign_string_def skip_def stralloc_cases assignable_def)
  next
    fix s' assume "lookup_name s n ls gs = NULL" "\<not> can_alloc s n" "find_or_alloc L s n = Some (NULL, s')"
      "vars_inv L s' gs ds ls" "alloc_frame L s s'"
    then show ?thesis by (auto simp: var_assign_string_def skip_def)
  qed
qed

lemma var_assign_boolean_cases:
  assumes "vars_inv L s gs ds ls"
  shows "\<exists>r s'. var_assign_boolean L s (Some (c # n)) b = Some (r, s') \<and> r = (if assignable s n ls gs then 0 else -1)
    \<and> (if r = 0
       then assigned L s s' n (\<lambda>v. VAR_SET_BOOL v b) gs ds ls \<and> var_to_boolean D L s' (c # n) = Some (b, s')
         \<and> var_to_string F R D L s' (c # n) w = Some (Some (if b \<noteq> 0 then ''true'' else ''false''), s', w)
       else unassigned L s s' gs ds ls)"
proof -
  have e: "var_assign_boolean L s (Some (c # n)) b = assign_with L s n (\<lambda>v. VAR_SET_BOOL v b)"
    by (simp add: var_assign_boolean_def assign_with_def var_find_alloc_def skip_def)
  have rd: "var_to_boolean D L s' (c # n) = Some (b, s')
      \<and> var_to_string F R D L s' (c # n) w = Some (Some (if b \<noteq> 0 then ''true'' else ''false''), s', w)"
    if "assigned L s s' n (\<lambda>v. VAR_SET_BOOL v b) gs ds ls" for s'
    using that unfolding assigned_def by (auto simp: to_defs var_lookup_found var_get_set var_get_string_set)
  show ?thesis
    unfolding e using assign_with_correct [OF assms keeps_set(1), of n b] rd by (auto split: if_splits)
qed

text \<open>
  C33. Assigning a string or a boolean and reading it. After \<open>var_assign_string\<close> returns \<open>0\<close> the name
  reads back as that string; after \<open>var_assign_boolean\<close> returns \<open>0\<close> it reads back as that boolean and
  as \<open>true\<close> or \<open>false\<close>. A random variable is refused with \<open>-1\<close>, and when either returns \<open>-1\<close> no
  allocated variable has changed its value.
\<close>

theorem var_assign_string_boolean_correct:
  assumes "vars_inv L s gs ds ls"
  shows "(\<exists>r s' gs'. var_assign_string L s (c # n) str = Some (r, s') \<and> vars_inv L s' gs' ds ls
      \<and> (r = 0 \<and> var_to_string F R D L s' (c # n) w = Some (Some str, s', w) \<or> r = -1 \<and> alloc_frame L s s')
      \<and> (r = 0 \<longrightarrow> assignable s n ls gs))
    \<and> (\<exists>r s'. var_assign_boolean L s (Some (c # n)) b = Some (r, s') \<and> r = (if assignable s n ls gs then 0 else -1)
      \<and> (if r = 0
         then assigned L s s' n (\<lambda>v. VAR_SET_BOOL v b) gs ds ls \<and> var_to_boolean D L s' (c # n) = Some (b, s')
           \<and> var_to_string F R D L s' (c # n) w = Some (Some (if b \<noteq> 0 then ''true'' else ''false''), s', w)
         else unassigned L s s' gs ds ls))"
  by (intro conjI var_assign_string_cases var_assign_boolean_cases assms)

theorem var_assign_string_boolean_witness:
  "\<exists>s'. var_assign_boolean ex_layout ex_vshm (Some ''$dsync'') 1 = Some (0, s')
     \<and> var_to_string ex_F ex_R ex_D ex_layout s' ''$dsync'' () = Some (Some ''true'', s', ())"
  using var_assign_string_boolean_correct [OF ex_inv, of "CHR ''$''" "''dsync''" "''x''" ex_F ex_R ex_D "()" 1]
    ex_assignable [of "''dsync''"] by auto

end
