(* ===== verification/FB_Vars_Eval.thy ===== *)
theory FB_Vars_Eval
  imports FB_Vars_Correct
begin

text \<open>
  Random variables, and the evaluation of variables that are defined from other variables: when it
  returns, what it returns, and how later assignments reach the attribute value descriptors.
\<close>

subsection \<open>Random variables\<close>

lemma randdist_alloc_cases:
  assumes "vars_inv L s gs ds ls"
  obtains (full) "\<not> has_slot (ipc s) FILEBENCH_RANDDIST" "randdist_alloc L s = Some (NULL, s)"
  | (ok) q s' where "has_slot (ipc s) FILEBENCH_RANDDIST" "randdist_alloc L s = Some (q, s')" "q \<noteq> NULL"
      "vars_inv L s' gs ds ls" "vars s' = vars s"
proof -
  have L: "ipc_wf (ipc s)" "layout_ok L" "FILEBENCH_RANDDIST < FILEBENCH_TYPES"
    using assms by (simp_all add: vars_inv_def)
  show thesis
  proof (cases rule: ipc_malloc_cases [OF L, of "\<lambda>_. ()", case_names none some])
    case none
    then show thesis by (intro full) (simp_all add: randdist_alloc_def Let_def)
  next
    case (some q i)
    have "vars_inv L (s\<lparr>ipc := i\<rparr>) gs ds ls" using inv_ipc [OF assms some(4)] some(7) [of FILEBENCH_VARIABLE] by simp
    then show thesis using some(1-3)
      by (intro ok [of q "s\<lparr>ipc := i, rnds := (rnds s)(q := \<lparr>rnd_next = shm_rand_list s, rnd_var = NULL, rnd_seed = NULL,
        rnd_mean = NULL, rnd_gamma = NULL, rnd_min = NULL, rnd_round = NULL, rnd_type = 0\<rparr>), shm_rand_list := q\<rparr>"])
        (simp_all add: randdist_alloc_def Let_def)
  qed
qed

lemma randvar_refuses:
  assumes "vars_inv L s gs ds ls" "lookup_name s n ls gs = p" "p \<noteq> NULL" "is_random s p"
  shows "var_assign_integer L s (Some (c # n)) i = Some (-1, s)" "var_assign_boolean L s (Some (c # n)) b = Some (-1, s)"
    "var_assign_string L s (c # n) str = Some (-1, s)"
proof -
  have "find_or_alloc L s n = Some (p, s)"
    using assms(2,3) by (simp add: find_or_alloc_def var_find_inv [OF assms(1)] lookup_name_def)
  with assms(3,4) show "var_assign_integer L s (Some (c # n)) i = Some (-1, s)"
    "var_assign_boolean L s (Some (c # n)) b = Some (-1, s)" "var_assign_string L s (c # n) str = Some (-1, s)"
    by (simp_all add: var_assign_integer_def var_assign_boolean_def var_assign_string_def var_find_alloc_def skip_def)
qed

text \<open>
  \<open>var_define_randvar\<close> defines a random variable if the name is free and there is memory for the
  variable and its distribution. Then \<open>var_find_randvar\<close> finds it, the distribution points back to it,
  and integers, booleans and strings assigned to it are refused without a change. In every other
  case the result is \<open>NULL\<close>. The lists stay well-formed.
\<close>

theorem var_define_randvar_correct:
  assumes "vars_inv L s gs ds ls"
  shows "\<exists>p s' gs'. var_define_randvar L s (c # n) = Some (p, s') \<and> vars_inv L s' gs' ds ls
    \<and> (p \<noteq> NULL \<longleftrightarrow> lookup_name s n ls gs = NULL \<and> can_alloc s n \<and> has_slot (ipc s) FILEBENCH_RANDDIST)
    \<and> (p \<noteq> NULL \<longrightarrow> gs' = gs @ [p] \<and> var_find_randvar s' (c # n) = Some p
        \<and> (\<exists>q. var_val (vars s' p) = VRand q \<and> q \<noteq> NULL \<and> rnd_var (rnds s' q) = p)
        \<and> var_assign_integer L s' (Some (c # n)) i = Some (-1, s')
        \<and> var_assign_boolean L s' (Some (c # n)) b = Some (-1, s')
        \<and> var_assign_string L s' (c # n) str = Some (-1, s'))"
proof (cases "lookup_name s n ls gs = NULL")
  case False
  then show ?thesis using assms
    by (auto simp: var_define_randvar_def skip_def var_find_inv [OF assms] lookup_name_def)
next
  case True
  have e: "var_define_randvar L s (c # n) = do {
       (newvar, s) \<leftarrow> var_alloc_cmn L s n VAR_TYPE_RANDOM;
       if newvar = NULL then Some (NULL, s)
       else do {
         (rndp, s) \<leftarrow> randdist_alloc L s;
         if rndp = NULL then Some (NULL, s)
         else
           let s = s\<lparr>rnds := (rnds s)(rndp := (rnds s rndp)\<lparr>rnd_var := newvar\<rparr>)\<rparr> in
           Some (newvar, set_var s newvar (VAR_SET_RAND (vars s newvar) rndp)) } }"
    using True by (simp add: var_define_randvar_def skip_def var_find_inv [OF assms] lookup_name_def)
  show ?thesis
  proof (rule var_alloc_cmn_cases [OF assms, of VAR_TYPE_RANDOM n])
    fix s' assume "\<not> can_alloc s n" "var_alloc_cmn L s n VAR_TYPE_RANDOM = Some (NULL, s')"
      "vars_inv L s' gs ds ls"
    then show ?thesis unfolding e by auto
  next
    fix p s1
    assume a: "can_alloc s n" "var_alloc_cmn L s n VAR_TYPE_RANDOM = Some (p, s1)" "p \<noteq> NULL"
      "vars_inv3 L s1 (new_lists VAR_TYPE_RANDOM p (gs, ds, ls))" "alloc_frame L s s1"
      "var_name (vars s1 p) = Some n" "var_type (vars s1 p) = VAR_TYPE_RANDOM"
    have inv: "vars_inv L s1 (gs @ [p]) ds ls" using a(4) by (simp add: new_lists_def)
    have l: "lookup_name s1 n ls (gs @ [p]) = p" by (rule lookup_appended [OF assms a(5) True a(6)])
    have hs: "has_slot (ipc s1) FILEBENCH_RANDDIST = has_slot (ipc s) FILEBENCH_RANDDIST"
      using a(5) by (simp add: alloc_frame_def)
    show ?thesis
    proof (rule randdist_alloc_cases [OF inv])
      assume "\<not> has_slot (ipc s1) FILEBENCH_RANDDIST" "randdist_alloc L s1 = Some (NULL, s1)"
      then show ?thesis unfolding e using a(2,3) inv hs by auto
    next
      fix q s2
      assume q: "has_slot (ipc s1) FILEBENCH_RANDDIST" "randdist_alloc L s1 = Some (q, s2)" "q \<noteq> NULL"
        "vars_inv L s2 (gs @ [p]) ds ls" "vars s2 = vars s1"
      define s3 where "s3 = s2\<lparr>rnds := (rnds s2)(q := (rnds s2 q)\<lparr>rnd_var := p\<rparr>)\<rparr>"
      define s4 where "s4 = set_var s3 p (VAR_SET_RAND (vars s3 p) q)"
      have ev: "var_define_randvar L s (c # n) = Some (p, s4)"
        unfolding e using a(2,3) q(2,3) by (simp add: s4_def s3_def Let_def)
      have inv4: "vars_inv L s4 (gs @ [p]) ds ls"
        unfolding s4_def by (rule inv_update [OF _ keeps_set(5)]) (simp add: s3_def q(4))
      have l4: "lookup_name s4 n ls (gs @ [p]) = p"
        using l lookup_update [OF keeps_set(5), of s3 p q n ls "gs @ [p]"]
        by (simp add: s4_def) (simp add: lookup_name_def s3_def q(5))
      have r4: "is_random s4 p" using a(7) by (simp add: is_random_def s4_def s3_def q(5))
      have "var_find_randvar s4 (c # n) = Some p"
        using l4 r4 var_find_inv [OF inv4, of n]
        by (simp add: var_find_randvar_def skip_def lookup_name_def) (simp add: s4_def VAR_HAS_RANDDIST_def)
      with ev inv4 q a hs True randvar_refuses [OF inv4 l4 a(3) r4] show ?thesis
        by (intro exI [of _ p] exI [of _ s4] exI [of _ "gs @ [p]"]) (simp add: s4_def s3_def)
    qed
  qed simp
qed

theorem var_define_randvar_witness:
  "\<exists>p s'. var_define_randvar ex_layout ex_vshm ''$fsize'' = Some (p, s') \<and> p \<noteq> NULL
     \<and> var_assign_integer ex_layout s' (Some ''$fsize'') 5 = Some (-1, s')"
proof -
  have "has_slot (ipc ex_vshm) 7" unfolding has_slot_def
    by (intro exI [of _ 1]) (simp add: live_def ex_vshm_def ipc_init_def filebench_sizes_def)
  then show ?thesis
    using var_define_randvar_correct [OF ex_inv, of "CHR ''$''" "''fsize''" 5 0 "''x''"] ex_can_alloc [of "''fsize''"]
    by (auto simp: lookup_name_def)
qed

subsection \<open>Evaluation of derived variables\<close>

text \<open>The operands that evaluating a variable evaluates in turn.\<close>

definition deps :: "var_t \<Rightarrow> ptr set" where
  "deps v = (if VAR_HAS_BINOP v
     then {q. q \<noteq> NULL \<and> (q = var_varptr1 v
       \<or> var_type v AND VAR_INDBINOP_MASK = VAR_IND_BINOP_VAR \<and> val_varptr2 (var_val v) = Some q)}
     else {})"

definition dep_rel :: "(ptr \<Rightarrow> var_t) \<Rightarrow> (ptr \<times> ptr) set" where
  "dep_rel vs = {(q, p). p \<noteq> NULL \<and> q \<in> deps (vs p)}"

text \<open>The union holds the member that the type word announces; the operator is not a division.\<close>

definition typed :: "var_t \<Rightarrow> bool" where
  "typed v \<longleftrightarrow> (VAR_HAS_INTEGER v \<longrightarrow> (\<exists>i. var_val v = VInt i)) \<and> (VAR_HAS_RANDDIST v \<longrightarrow> (\<exists>q. var_val v = VRand q))
     \<and> (VAR_HAS_BINOP v \<longrightarrow>
         (let k = var_type v AND VAR_INDBINOP_MASK in
            k = VAR_IND_BINOP_INT \<and> (\<exists>i. var_val v = VInt i) \<or> k = VAR_IND_BINOP_DBL \<and> (\<exists>d. var_val v = VDbl d)
          \<or> k = VAR_IND_BINOP_VAR \<and> (\<exists>q. var_val v = VVar q)))"

definition no_div :: "var_t \<Rightarrow> bool" where
  "no_div v \<longleftrightarrow> (VAR_HAS_BINOP v \<longrightarrow> var_type v AND VAR_INDVAR_MASK \<notin> {VAR_IND_VAR_DIV_VC, VAR_IND_C_DIV_VAR})"

lemma has_exclusive:
  "VAR_HAS_BINOP v \<Longrightarrow> \<not> VAR_HAS_INTEGER v" "VAR_HAS_BINOP v \<Longrightarrow> \<not> VAR_HAS_RANDDIST v"
  by (simp_all add: VAR_HAS_defs)

lemma int_op_returns: "op \<notin> {VAR_IND_VAR_DIV_VC, VAR_IND_C_DIV_VAR} \<Longrightarrow> \<exists>r. int_op op a b = Some r"
  by (simp add: int_op_def)

lemma bind_pair: "Option.bind m (\<lambda>r. Some (r, w)) = map_option (\<lambda>r. (r, w)) m"
  by (cases m) simp_all

lemma var_get_int_binop:
  "p \<noteq> NULL \<Longrightarrow> VAR_HAS_BINOP (vs p) \<Longrightarrow> var_get_int F R vs p w = var_binary_integer_op F R vs p w"
  by (subst var_get_int.simps) (simp add: has_exclusive var_binary_integer_op_def binop_src2_int_def Let_def bind_pair)

lemma var_binary_integer_op_eval:
  assumes "p \<noteq> NULL" "typed (vs p)" "no_div (vs p)" "VAR_HAS_BINOP (vs p)"
    "\<And>q w. q \<in> deps (vs p) \<Longrightarrow> \<exists>r. var_get_int F R vs q w = Some r"
  shows "\<exists>r. var_binary_integer_op F R vs p w = Some r"
proof -
  have 2: "\<exists>i w'. binop_src2_int F (var_get_int F R vs) (vs p) w = Some (i, w')" for w
    using assms(2,4,5) unfolding typed_def deps_def binop_src2_int_def Let_def by auto
  have 1: "\<exists>i w'. (if var_varptr1 (vs p) \<noteq> NULL then var_get_int F R vs (var_varptr1 (vs p)) w else Some (0, w))
      = Some (i, w')" for w
    using assms(4,5) by (auto simp: deps_def)
  have 3: "\<exists>r. int_op (var_type (vs p) AND VAR_INDVAR_MASK) a b = Some r" for a b
    using assms(3,4) by (intro int_op_returns) (simp add: no_div_def)
  obtain i w1 where i: "binop_src2_int F (var_get_int F R vs) (vs p) w = Some (i, w1)" using 2 by blast
  obtain j w2 where j: "(if var_varptr1 (vs p) \<noteq> NULL then var_get_int F R vs (var_varptr1 (vs p)) w1
      else Some (0, w1)) = Some (j, w2)" using 1 by blast
  obtain r where "int_op (var_type (vs p) AND VAR_INDVAR_MASK) j i = Some r" using 3 by blast
  then show ?thesis by (simp add: var_binary_integer_op_def assms(1) i j)
qed

lemma var_get_int_acc:
  fixes R :: "ptr \<Rightarrow> 'w \<Rightarrow> dbl \<times> 'w"
  assumes "var_get_int F R vs p w = Some r"
  shows "p \<in> Wellfounded.acc (dep_rel vs)"
proof (rule var_get_int.raw_induct [where P = "\<lambda>F R vs p w r. p \<in> Wellfounded.acc (dep_rel vs)", OF _ assms], rule accI)
  fix get :: "fpu \<Rightarrow> (ptr \<Rightarrow> 'w \<Rightarrow> dbl \<times> 'w) \<Rightarrow> (ptr \<Rightarrow> var_t) \<Rightarrow> ptr \<Rightarrow> 'w \<Rightarrow> (fbint \<times> 'w) option"
    and F and R :: "ptr \<Rightarrow> 'w \<Rightarrow> dbl \<times> 'w" and vs p w r q
  assume IH: "\<And>F R vs p w r. get F R vs p w = Some r \<Longrightarrow> p \<in> Wellfounded.acc (dep_rel vs)"
    and ev: "(if p = NULL then Some (0, w)
      else if VAR_HAS_INTEGER (vs p) then map_option (\<lambda>i. (i, w)) (val_int (var_val (vs p)))
      else if VAR_HAS_RANDDIST (vs p) then
        (case val_rand (var_val (vs p)) of
           None \<Rightarrow> None
         | Some rndp \<Rightarrow>
             if rndp \<noteq> NULL then Some (let (d, w') = R rndp w in (fp_to_int F d, w')) else Some (0, w))
      else if VAR_HAS_BINOP (vs p) then
        (let k = var_type (vs p) AND VAR_INDBINOP_MASK in
         Option.bind
           (if k = VAR_IND_BINOP_INT then map_option (\<lambda>i. (i, w)) (val_int (var_val (vs p)))
            else if k = VAR_IND_BINOP_DBL then map_option (\<lambda>d. (fp_to_int F d, w)) (val_dbl (var_val (vs p)))
            else if k = VAR_IND_BINOP_VAR then
              (case val_varptr2 (var_val (vs p)) of
                 None \<Rightarrow> None
               | Some p \<Rightarrow> if p \<noteq> NULL then get F R vs p w else Some (0, w))
            else None)
           (\<lambda>(src2, w). Option.bind
              (if var_varptr1 (vs p) \<noteq> NULL then get F R vs (var_varptr1 (vs p)) w else Some (0, w))
              (\<lambda>(src1, w). map_option (\<lambda>r. (r, w)) (int_op (var_type (vs p) AND VAR_INDVAR_MASK) src1 src2))))
      else Some (0, w)) = Some r"
    and "(q, p) \<in> dep_rel vs"
  then have q: "p \<noteq> NULL" "q \<noteq> NULL" "VAR_HAS_BINOP (vs p)"
    "q = var_varptr1 (vs p) \<or> var_type (vs p) AND VAR_INDBINOP_MASK = VAR_IND_BINOP_VAR
       \<and> val_varptr2 (var_val (vs p)) = Some q"
    by (auto simp: dep_rel_def deps_def split: if_splits)
  have "\<exists>w r. get F R vs q w = Some r"
    using ev q by (auto simp: has_exclusive Let_def bind_eq_Some_conv) blast+
  then show "q \<in> Wellfounded.acc (dep_rel vs)" using IH by blast
qed

text \<open>
  C35. When the operands that a variable depends on, directly or indirectly, hold what their type words
  announce and no operator is a division, reading the variable as an integer returns exactly if the
  chains of operands are finite: evaluation ends on acyclic definitions and never ends on a variable
  that depends on itself.
\<close>

theorem var_get_int_returns:
  assumes "\<And>q. (q, p) \<in> (dep_rel vs)\<^sup>* \<Longrightarrow> typed (vs q) \<and> no_div (vs q)"
  shows "(\<exists>r. var_get_int F R vs p w = Some r) \<longleftrightarrow> p \<in> Wellfounded.acc (dep_rel vs)"
proof
  assume "p \<in> Wellfounded.acc (dep_rel vs)"
  then show "\<exists>r. var_get_int F R vs p w = Some r"
    using assms
  proof (induction arbitrary: w rule: acc_induct_rule)
    case (1 p)
    have t: "typed (vs p)" "no_div (vs p)" using "1.prems" by auto
    show ?case
    proof (cases "p \<noteq> NULL \<and> VAR_HAS_BINOP (vs p)")
      case True
      have "\<exists>r. var_get_int F R vs q w = Some r" if "q \<in> deps (vs p)" for q w
      proof (rule "1.IH")
        show e: "(q, p) \<in> dep_rel vs" using that True by (simp add: dep_rel_def)
        fix x assume "(x, q) \<in> (dep_rel vs)\<^sup>*"
        with e show "typed (vs x) \<and> no_div (vs x)" using "1.prems" [of x] by (meson rtrancl.rtrancl_into_rtrancl)
      qed
      then show ?thesis
        using var_binary_integer_op_eval [of p vs F R w] t True var_get_int_binop [of p vs F R w] by auto
    next
      case False
      with t show ?thesis by (auto simp: var_get_int.simps [of F R vs p w] typed_def)
    qed
  qed
qed (elim exE, rule var_get_int_acc)

text \<open>A small example: two variables, of which the second is the first plus a constant.\<close>

definition ex_vs :: "ptr \<Rightarrow> var_t" where
  "ex_vs = (\<lambda>p. if p = 16 then VAR_SET_INT zero_var 40
     else if p = 32 then (VAR_SET_BINOP_INDVAR zero_var 16 (VAR_IND_BINOP_INT OR VAR_IND_VAR_SUM_VC))\<lparr>var_val := VInt 2\<rparr>
     else zero_var)"

lemma ex_vs_facts:
  "typed (ex_vs p)" "no_div (ex_vs p)" "deps (ex_vs p) = (if p = 32 then {16} else {})"
proof -
  have t: "var_type (ex_vs p) = (if p = 16 then 0x200 else if p = 32 then 0x711 else 0)"
    "var_val (ex_vs p) = (if p = 16 then VInt 40 else if p = 32 then VInt 2 else VZero)"
    "var_varptr1 (ex_vs p) = (if p = 32 then 16 else 0)" for p
    by (simp_all add: ex_vs_def VAR_SET_defs zero_var_def)
  show "typed (ex_vs p)" by (simp add: typed_def VAR_HAS_defs t Let_def)
  show "no_div (ex_vs p)" by (simp add: no_div_def VAR_HAS_defs t)
  show "deps (ex_vs p) = (if p = 32 then {16} else {})" by (auto simp: deps_def VAR_HAS_defs t)
qed

theorem var_get_int_returns_witness: "\<exists>r. var_get_int ex_F ex_R ex_vs 32 () = Some r"
proof -
  have "16 \<in> Wellfounded.acc (dep_rel ex_vs)" by (rule accI) (simp add: dep_rel_def ex_vs_facts)
  then have "32 \<in> Wellfounded.acc (dep_rel ex_vs)" by (rule_tac accI) (simp add: dep_rel_def ex_vs_facts)
  then show ?thesis using var_get_int_returns [of 32 ex_vs ex_F ex_R "()"] by (simp add: ex_vs_facts)
qed

subsection \<open>Definition from other variables\<close>

lemma set_binop_class: "st AND 0xff00 = 0 \<Longrightarrow> keeps (\<lambda>v. (VAR_SET_BINOP_INDVAR v p st)\<lparr>var_val := x\<rparr>)"
  by (simp add: keeps_def set_binop_mask)

lemma var_get_int_cong:
  assumes "p \<in> Wellfounded.acc (dep_rel vs)"
    "\<And>q. (q, p) \<in> (dep_rel vs)\<^sup>* \<Longrightarrow> q \<noteq> NULL \<Longrightarrow> var_type (vs' q) = var_type (vs q)
      \<and> var_val (vs' q) = var_val (vs q) \<and> var_varptr1 (vs' q) = var_varptr1 (vs q)"
  shows "var_get_int F R vs' p w = var_get_int F R vs p w"
  using assms
proof (induction arbitrary: w rule: acc_induct_rule)
  case (1 p)
  have IH: "var_get_int F R vs' q w = var_get_int F R vs q w" if "p \<noteq> NULL" "q \<in> deps (vs p)" for q w
  proof (rule "1.IH")
    show e: "(q, p) \<in> dep_rel vs" using that by (simp add: dep_rel_def)
    fix x assume "(x, q) \<in> (dep_rel vs)\<^sup>*" "x \<noteq> NULL"
    with e show "var_type (vs' x) = var_type (vs x) \<and> var_val (vs' x) = var_val (vs x)
        \<and> var_varptr1 (vs' x) = var_varptr1 (vs x)"
      using "1.prems" [of x] by (meson rtrancl.rtrancl_into_rtrancl)
  qed
  show ?case
  proof (cases "p = NULL")
    case False
    then have v: "var_type (vs' p) = var_type (vs p)" "var_val (vs' p) = var_val (vs p)"
      "var_varptr1 (vs' p) = var_varptr1 (vs p)" using "1.prems" [of p] by auto
    then have h: "VAR_HAS_INTEGER (vs' p) = VAR_HAS_INTEGER (vs p)" "VAR_HAS_RANDDIST (vs' p) = VAR_HAS_RANDDIST (vs p)"
      "VAR_HAS_BINOP (vs' p) = VAR_HAS_BINOP (vs p)" by (simp_all add: VAR_HAS_defs)
    show ?thesis
    proof (cases "VAR_HAS_BINOP (vs p)")
      case True
      have s2: "binop_src2_int F (var_get_int F R vs') (vs' p) w = binop_src2_int F (var_get_int F R vs) (vs p) w"
        using True IH False by (auto simp: binop_src2_int_def Let_def v deps_def split: option.splits)
      have s1: "var_varptr1 (vs p) \<noteq> NULL \<Longrightarrow>
          var_get_int F R vs' (var_varptr1 (vs p)) w = var_get_int F R vs (var_varptr1 (vs p)) w" for w
        using True IH False by (auto simp: deps_def)
      show ?thesis
        using True False h s1 s2 by (simp add: var_get_int_binop var_binary_integer_op_def v cong: if_cong)
    next
      case nb: False
      show ?thesis using False nb h v by (simp add: var_get_int.simps [of F R _ p w])
    qed
  qed (simp add: var_get_int.simps)
qed


text \<open>An example state with one global variable \<open>a\<close>, whose value is 40.\<close>

abbreviation (input) ex_a :: ptr where "ex_a \<equiv> 0x500000010"

definition ex_vshm2 :: vshm where
  "ex_vshm2 = ex_vshm\<lparr>ipc := (ipc ex_vshm)\<lparr>shm_bitmap := (\<lambda>t i. if t = 4 \<and> i = 1 then 1 else 0)\<rparr>,
     vars := (\<lambda>_. zero_var)(ex_a := (VAR_SET_INT zero_var 40)\<lparr>var_name := Some ''a''\<rparr>), shm_var_list := ex_a\<rparr>"

lemma ex2_facts [simp]:
  "vars ex_vshm2 ex_a = (VAR_SET_INT zero_var 40)\<lparr>var_name := Some ''a''\<rparr>"
  "ipc_handles ex_layout FILEBENCH_VARIABLE (ipc ex_vshm2) = {ex_a}"
  "lookup_name ex_vshm2 ''a'' [] [ex_a] = ex_a" "lookup_name ex_vshm2 ''b'' [] [ex_a] = NULL"
  by (simp_all add: ex_vshm2_def ipc_handles_def live_def obj_addr_def ex_layout_def lookup_name_def)

lemma ex2_inv: "vars_inv ex_layout ex_vshm2 [ex_a] [] []"
proof -
  have "ipc_wf (ipc ex_vshm2)"
    using ipc_init_wf [of "ipc ex_vshm"]
    by (auto simp: ipc_wf_def ex_vshm2_def ex_vshm_def ipc_init_def filebench_sizes_def split: if_splits)
  moreover have "shm_var_list ex_vshm2 = ex_a" "shm_var_dyn_list ex_vshm2 = NULL" "shm_var_loc_list ex_vshm2 = NULL"
    by (simp_all add: ex_vshm2_def ex_vshm_def)
  ultimately show ?thesis unfolding vars_inv_def on_lists_def class_of_def
    using ex_layout_ok by (simp add: VAR_SET_INT_def zero_var_def)
qed

lemma ex2_slot: "type < FILEBENCH_TYPES \<Longrightarrow> has_slot (ipc ex_vshm2) type"
proof -
  assume t: "type < FILEBENCH_TYPES"
  have "list_all (\<lambda>n. 2 < n) filebench_sizes" "length filebench_sizes = 8" by (simp_all add: filebench_sizes_def)
  with t have "2 < filebench_sizes ! type" by (simp add: list_all_length)
  then show ?thesis unfolding has_slot_def
    by (intro exI [of _ 2]) (simp add: live_def ex_vshm2_def ex_vshm_def ipc_init_def)
qed

lemma ex2_deps: "(q, ex_a) \<in> (dep_rel (vars ex_vshm2))\<^sup>* \<Longrightarrow> q = ex_a"
proof (erule rtranclE)
  fix y assume "(y, ex_a) \<in> dep_rel (vars ex_vshm2)"
  then show ?thesis by (simp add: dep_rel_def deps_def VAR_HAS_defs VAR_SET_INT_def zero_var_def)
qed


subsection \<open>Definitions that go wrong\<close>

lemma acc_irrefl: "p \<in> Wellfounded.acc r \<Longrightarrow> (p, p) \<notin> r"
  by (induction rule: acc_induct_rule) blast

text \<open>
  \<open>set $n = $n + k\<close> is accepted for an existing variable, after which reading the variable never
  returns: the definition refers to the variable, not to its value.
\<close>

theorem var_assign_self_diverges:
  assumes "vars_inv L s gs ds ls" "lookup_name s n ls gs = p" "p \<noteq> NULL" "\<not> is_random s p"
    "op AND 0xff00 = 0" "op AND VAR_INDBINOP_MASK = VAR_IND_BINOP_INT"
  shows "\<exists>s'. var_assign_op_var_int L s (Some (c # n)) op (d # n) k = Some (FILEBENCH_OK, s')
    \<and> var_to_integer F R D L s' (c # n) w = None"
proof -
  let ?upd = "\<lambda>v. (VAR_SET_BINOP_INDVAR v p op)\<lparr>var_val := VInt k\<rparr>"
  let ?s = "set_var s p (?upd (vars s p))"
  have kp: "keeps ?upd" by (rule set_binop_class [OF assms(5)])
  have f: "var_find s n = Some p" using assms(2) by (simp add: var_find_inv [OF assms(1)] lookup_name_def)
  have e: "var_assign_op_var_int L s (Some (c # n)) op (d # n) k = Some (FILEBENCH_OK, ?s)"
    using f assms(3,4) by (simp add: var_assign_op_var_int_def var_find_alloc_def skip_def find_or_alloc_def)
  have l: "lookup_name ?s n ls gs = p" using lookup_update [OF kp, of s p n ls gs] assms(2) by simp
  have "(var_type (vars s p) OR op) AND VAR_INDBINOP_MASK \<noteq> 0"
    unfolding and_or_distrib or_eq_0_iff using assms(6) by simp
  then have "(p, p) \<in> dep_rel (vars ?s)"
    using assms(3) set_binop_mask [OF assms(5)] by (simp add: dep_rel_def deps_def VAR_HAS_BINOP_def VAR_SET_BINOP_INDVAR_def)
  then have "p \<notin> Wellfounded.acc (dep_rel (vars ?s))" by (auto dest: acc_irrefl)
  then have "var_get_int F R (vars ?s) p w = None"
    using var_get_int_acc [of F R "vars ?s" p w] by (cases "var_get_int F R (vars ?s) p w") auto
  then have "var_to_integer F R D L ?s (c # n) w = None"
    using var_lookup_found [OF inv_update [OF assms(1) kp, of p] l assms(3)] assms(3) by (simp add: to_defs)
  with e show ?thesis by blast
qed

theorem var_assign_self_witness:
  "\<exists>s'. var_assign_op_var_int ex_layout ex_vshm2 (Some ''$a'') 0x11 ''$a'' 1 = Some (FILEBENCH_OK, s')
     \<and> var_to_integer ex_F ex_R ex_D ex_layout s' ''$a'' () = None"
proof -
  have "\<not> is_random ex_vshm2 ex_a" by (simp add: is_random_def VAR_SET_INT_def zero_var_def)
  then show ?thesis
    using var_assign_self_diverges [OF ex2_inv, where n = "''a''" and p = ex_a and op = "0x11" and c = "CHR ''$''" and d = "CHR ''$''"
        and k = 1 and F = ex_F and R = ex_R and D = ex_D and w = "()"] by auto
qed

text \<open>
  \<open>VAR_SET_BINOP_INDVAR\<close> does not clear the kind of the second operand: once a variable has been
  defined from two variables, \<open>set $n = $m op k\<close> is accepted, but reading the variable takes the
  integer \<open>k\<close> for the address of a variable.
\<close>

theorem var_assign_op_stale_kind:
  assumes "vars_inv L s gs ds ls" "lookup_name s n ls gs = p" "p \<noteq> NULL" "\<not> is_random s p"
    "var_type (vars s p) AND VAR_INDBINOP_MASK = VAR_IND_BINOP_VAR"
    "lookup_name s m ls gs \<noteq> NULL" "op AND 0xff00 = 0" "op AND VAR_INDBINOP_MASK = VAR_IND_BINOP_INT"
  shows "\<exists>s'. var_assign_op_var_int L s (Some (c # n)) op (d # m) k = Some (FILEBENCH_OK, s')
    \<and> var_val (vars s' p) = VInt k \<and> var_type (vars s' p) AND VAR_INDBINOP_MASK = VAR_IND_BINOP_VAR
    \<and> var_to_integer F R D L s' (c # n) w = None"
proof -
  let ?src = "lookup_name s m ls gs"
  let ?upd = "\<lambda>v. (VAR_SET_BINOP_INDVAR v ?src op)\<lparr>var_val := VInt k\<rparr>"
  let ?s = "set_var s p (?upd (vars s p))"
  have kp: "keeps ?upd" by (rule set_binop_class [OF assms(7)])
  have f: "var_find s n = Some p" "var_find s m = Some ?src"
    using assms(2) by (simp_all add: var_find_inv [OF assms(1)] lookup_name_def)
  have e: "var_assign_op_var_int L s (Some (c # n)) op (d # m) k = Some (FILEBENCH_OK, ?s)"
    using f assms(3,4,6) by (simp add: var_assign_op_var_int_def var_find_alloc_def skip_def find_or_alloc_def)
  have l: "lookup_name ?s n ls gs = p" using lookup_update [OF kp, of s p n ls gs] assms(2) by simp
  have k: "var_type (vars ?s p) AND VAR_INDBINOP_MASK = VAR_IND_BINOP_VAR"
    using assms(5,8) by (simp add: set_binop_mask [OF assms(7)] and_or_distrib)
  have "VAR_HAS_BINOP (vars ?s p)"
    using k set_binop_mask(1) [OF assms(7)] by (simp add: VAR_HAS_BINOP_def)
  then have "var_get_int F R (vars ?s) p w = None"
    using assms(3) k by (simp add: var_get_int_binop var_binary_integer_op_def binop_src2_int_def)
  then have "var_to_integer F R D L ?s (c # n) w = None"
    using var_lookup_found [OF inv_update [OF assms(1) kp, of p] l assms(3)] assms(3) by (simp add: to_defs)
  with e k show ?thesis by auto
qed

theorem var_assign_op_stale_witness:
  "\<exists>s'. var_assign_op_var_int ex_layout
      (set_var ex_vshm2 ex_a ((VAR_SET_BINOP_INDVAR (vars ex_vshm2 ex_a) ex_a 0x31)\<lparr>var_val := VVar ex_a\<rparr>))
      (Some ''$a'') 0x11 ''$a'' 1 = Some (FILEBENCH_OK, s')
     \<and> var_to_integer ex_F ex_R ex_D ex_layout s' ''$a'' () = None"
proof -
  let ?upd = "\<lambda>v. (VAR_SET_BINOP_INDVAR v ex_a 0x31)\<lparr>var_val := VVar ex_a\<rparr>"
  let ?s = "set_var ex_vshm2 ex_a (?upd (vars ex_vshm2 ex_a))"
  have kp: "keeps ?upd" by (rule set_binop_class) simp
  have "lookup_name ?s ''a'' [] [ex_a] = ex_a" by (subst lookup_update [OF kp]) simp
  moreover have "\<not> is_random ?s ex_a" "var_type (vars ?s ex_a) AND 0xf0 = 0x30"
    by (simp_all add: is_random_def VAR_SET_defs zero_var_def)
  ultimately show ?thesis
    using var_assign_op_stale_kind [OF inv_update [OF ex2_inv kp, of ex_a], where n = "''a''" and p = ex_a and m = "''a''"
        and op = "0x11" and c = "CHR ''$''" and d = "CHR ''$''" and k = 1 and F = ex_F and R = ex_R and D = ex_D and w = "()"] by auto
qed

subsection \<open>Delayed binding\<close>

lemma avd_alloc_cmn_found:
  assumes "vars_inv L s gs ds ls" "has_slot (ipc s) FILEBENCH_AVD"
  obtains a s' where "avd_alloc_cmn L s = Some (a, s')" "a \<noteq> NULL" "vars_inv L s' gs ds ls" "vars s' = vars s"
proof -
  have L: "ipc_wf (ipc s)" "layout_ok L" "FILEBENCH_AVD < FILEBENCH_TYPES" using assms(1) by (simp_all add: vars_inv_def)
  show thesis
  proof (cases rule: ipc_malloc_cases [OF L, of "\<lambda>_. ()", case_names none some])
    case none
    with assms(2) show thesis by simp
  next
    case (some a i)
    have "vars_inv L (s\<lparr>ipc := i\<rparr>) gs ds ls" using inv_ipc [OF assms(1) some(4)] some(7) [of FILEBENCH_VARIABLE] by simp
    then have "vars_inv L (set_avd (s\<lparr>ipc := i\<rparr>) a \<lparr>avd_type = AVD_INVALID, avd_val = AZero\<rparr>) gs ds ls" by simp
    then show thesis
      by (rule that [rotated 2]) (use some(2,3) in \<open>simp_all add: avd_alloc_cmn_def set_avd_def\<close>)
  qed
qed



end
