(* ===== verification/FB_Random.thy ===== *)
theory FB_Random
  imports FB_Vars_Eval
begin

text \<open>
  The random numbers of \<^verbatim>\<open>src/filebench/fb_random.c\<close>: the bounded and rounded random integers that
  the filesets and flowops use, the seeds, and the random distribution objects with their
  probability tables.

  The 8 or 4 bytes read from \<open>/dev/urandom\<close> are an argument, \<open>None\<close> for a read that fails, which
  ends the run. The library functions \<open>erand48\<close>, \<open>gamma_dist_knuth_src\<close> (of \<^verbatim>\<open>gamma_dist.c\<close>) and the
  floating point operations are arguments.
\<close>

subsection \<open>Bounded random integers\<close>

text \<open>\<open>FILEBENCH_RANDMAX64\<close> and \<open>FILEBENCH_RANDMAX32\<close> have all bits set, which is \<open>-1\<close> at either width.\<close>

definition clip_round :: "'a::len word \<Rightarrow> 'a word \<Rightarrow> 'a word \<Rightarrow> 'a word" where
  "clip_round rand mx round =
     (let mx = mx - round;
          rand = rand div (-1 div mx);
          rand = (if round \<noteq> 0 then rand div round * round else rand) in
      if rand > mx then mx else rand)"

text \<open>The result is the value stored through \<open>randp\<close>, the return code and the state of the sources.\<close>

definition filebench_randomno64 ::
  "fpu \<Rightarrow> (ptr \<Rightarrow> 'w \<Rightarrow> dbl \<times> 'w) \<Rightarrow> vshm \<Rightarrow> uint64 option \<Rightarrow> uint64 \<Rightarrow> uint64 \<Rightarrow> ptr \<Rightarrow> 'w \<Rightarrow> (uint64 \<times> int \<times> 'w) option" where
  "filebench_randomno64 F R s urandom mx round avd w =
     (if mx \<le> round then Some (0, if mx = round then 0 else -1, w)
      else do {
        (rand, w) \<leftarrow> (if avd \<noteq> NULL then avd_get_int F R s avd w else map_option (\<lambda>r. (r, w)) urandom);
        Some (clip_round rand mx round, 0, w) })"

definition filebench_randomno32 ::
  "fpu \<Rightarrow> (ptr \<Rightarrow> 'w \<Rightarrow> dbl \<times> 'w) \<Rightarrow> vshm \<Rightarrow> uint32 option \<Rightarrow> uint32 \<Rightarrow> uint32 \<Rightarrow> ptr \<Rightarrow> 'w \<Rightarrow> (uint32 \<times> int \<times> 'w) option" where
  "filebench_randomno32 F R s urandom mx round avd w =
     (if mx \<le> round then Some (0, if mx = round then 0 else -1, w)
      else do {
        (rand, w) \<leftarrow> (if avd \<noteq> NULL then map_option (\<lambda>(i, w). (ucast i, w)) (avd_get_int F R s avd w)
                     else map_option (\<lambda>r. (r, w)) urandom);
        Some (clip_round rand mx round, 0, w) })"

text \<open>The computation on natural numbers: no step overflows and the divisor is not zero.\<close>

lemma unat_div_mult: "unat (x div k * k) = unat x div unat k * unat k" for x k :: "'a::len word"
proof -
  have "unat (x div k) * unat k \<le> unat x" by (simp add: unat_div_distrib)
  also have "\<dots> < 2 ^ LENGTH('a)" by (rule unsigned_less)
  finally show ?thesis by (simp add: unat_mult_lem [THEN iffD1] unat_div_distrib)
qed

lemma unat_clip_round:
  fixes mx rand :: "'a::len word"
  assumes "round < mx"
  defines "m \<equiv> unat mx - unat round"
  defines "x \<equiv> unat rand div ((2 ^ LENGTH('a) - 1) div m)"
  shows "unat (clip_round rand mx round) = min (if round \<noteq> 0 then x div unat round * unat round else x) m"
proof -
  have m: "unat (mx - round) = m" using assms(1) by (simp add: m_def unat_sub)
  have x: "unat (rand div (-1 div (mx - round))) = x" by (simp add: unat_div_distrib m x_def unsigned_minus_1_eq_mask mask_eq_exp_minus_1)
  have y: "unat (if round \<noteq> 0 then rand div (-1 div (mx - round)) div round * round else rand div (-1 div (mx - round)))
      = (if round \<noteq> 0 then x div unat round * unat round else x)"
    using x by (cases "round = 0") (simp_all add: unat_div_mult)
  have "unat (clip_round rand mx round) =
      (let y = (if round \<noteq> 0 then rand div (-1 div (mx - round)) div round * round else rand div (-1 div (mx - round)))
       in if m < unat y then m else unat y)"
    unfolding clip_round_def Let_def word_less_nat_alt m by (simp only: if_distrib [of unat] m)
  then show ?thesis unfolding Let_def y by (simp add: min_def)
qed

lemma clip_round_spec:
  fixes mx round rand :: "'a::len word"
  assumes "round < mx"
  shows "clip_round rand mx round \<le> mx - round"
    "round \<noteq> 0 \<Longrightarrow> clip_round rand mx round \<noteq> mx - round \<Longrightarrow> unat round dvd unat (clip_round rand mx round)"
    "unat k \<le> unat mx - unat round \<Longrightarrow> (round \<noteq> 0 \<Longrightarrow> unat round dvd unat k) \<Longrightarrow> \<exists>rand. clip_round rand mx round = k"
proof -
  note u = unat_clip_round [OF assms]
  have d: "unat (mx - round) = unat mx - unat round" using assms by (simp add: unat_sub)
  show "clip_round rand mx round \<le> mx - round" unfolding word_le_nat_alt d u by simp
  show "unat round dvd unat (clip_round rand mx round)" if "round \<noteq> 0" "clip_round rand mx round \<noteq> mx - round"
  proof -
    from that(2) have "unat (clip_round rand mx round) \<noteq> unat mx - unat round" unfolding d [symmetric] by (simp add: word_unat_eq_iff)
    then show ?thesis using that(1) unfolding u by (auto simp: min_def split: if_splits)
  qed
  show "\<exists>rand. clip_round rand mx round = k"
    if k: "unat k \<le> unat mx - unat round" "round \<noteq> 0 \<Longrightarrow> unat round dvd unat k"
  proof
    let ?m = "unat mx - unat round" and ?M = "2 ^ LENGTH('a) - (1::nat)"
    let ?q = "?M div ?m"
    have "unat mx < 2 ^ LENGTH('a)" by (rule unsigned_less)
    then have m: "0 < ?m" "?m \<le> ?M" using assms unfolding word_less_nat_alt by linarith+
    then have q: "0 < ?q" by (simp add: div_greater_zero_iff)
    have "unat k * ?q \<le> ?m * ?q" using k(1) by simp
    also have "\<dots> \<le> ?M" by simp
    also have "\<dots> < 2 ^ LENGTH('a)" by simp
    finally have "unat k * ?q < 2 ^ LENGTH('a)" .
    then have r: "unat (of_nat (unat k * ?q) :: 'a word) = unat k * ?q" by (simp only: unat_of_nat take_bit_nat_eq_self) simp
    have "unat (clip_round (of_nat (unat k * ?q)) mx round) = unat k"
      unfolding u r using k q by (auto simp: min_def)
    then show "clip_round (of_nat (unat k * ?q)) mx round = k" by (simp add: word_unat_eq_iff)
  qed
qed

lemma clip_round_all:
  fixes mx round :: "'a::len word"
  assumes "round < mx"
  shows "(\<forall>r. clip_round r mx round \<le> mx - round
       \<and> (round \<noteq> 0 \<longrightarrow> clip_round r mx round = mx - round \<or> unat round dvd unat (clip_round r mx round)))
     \<and> (\<forall>k \<le> mx - round. (round \<noteq> 0 \<longrightarrow> unat round dvd unat k) \<longrightarrow> (\<exists>r. clip_round r mx round = k))"
proof -
  have k: "unat k \<le> unat mx - unat round" if "k \<le> mx - round" for k
    using that unat_sub [OF less_imp_le [OF assms]] by (simp add: word_le_nat_alt)
  show ?thesis using clip_round_spec [OF assms] k by blast
qed

text \<open>
  C37. The bounded random numbers, for 64 and 32 bits. If \<open>round\<close> is larger than \<open>max\<close> the result is the
  error \<open>-1\<close>, if they are equal it is \<open>0\<close>. Otherwise the number is at most \<open>max - round\<close>, it is a
  multiple of \<open>round\<close> unless it was clipped to \<open>max - round\<close>, and every multiple of \<open>round\<close> up to
  \<open>max - round\<close> is the result for some random bytes. No division is by zero.
\<close>

theorem filebench_randomno_correct:
  shows "(if mx64 \<le> round64
     then filebench_randomno64 F R s u64 mx64 round64 NULL w = Some (0, if mx64 = round64 then 0 else -1, w)
     else (\<forall>r. \<exists>x. filebench_randomno64 F R s (Some r) mx64 round64 NULL w = Some (x, 0, w) \<and> x \<le> mx64 - round64
            \<and> (round64 \<noteq> 0 \<longrightarrow> x = mx64 - round64 \<or> unat round64 dvd unat x))
        \<and> (\<forall>k \<le> mx64 - round64. (round64 \<noteq> 0 \<longrightarrow> unat round64 dvd unat k) \<longrightarrow>
            (\<exists>r. filebench_randomno64 F R s (Some r) mx64 round64 NULL w = Some (k, 0, w))))
   \<and> (if mx32 \<le> round32
     then filebench_randomno32 F R s u32 mx32 round32 NULL w = Some (0, if mx32 = round32 then 0 else -1, w)
     else (\<forall>r. \<exists>x. filebench_randomno32 F R s (Some r) mx32 round32 NULL w = Some (x, 0, w) \<and> x \<le> mx32 - round32
            \<and> (round32 \<noteq> 0 \<longrightarrow> x = mx32 - round32 \<or> unat round32 dvd unat x))
        \<and> (\<forall>k \<le> mx32 - round32. (round32 \<noteq> 0 \<longrightarrow> unat round32 dvd unat k) \<longrightarrow>
            (\<exists>r. filebench_randomno32 F R s (Some r) mx32 round32 NULL w = Some (k, 0, w))))"
proof -
  have e: "filebench_randomno64 F R s (Some r) mx64 round64 NULL w = Some (clip_round r mx64 round64, 0, w)"
    if "\<not> mx64 \<le> round64" for r using that by (simp add: filebench_randomno64_def)
  have e': "filebench_randomno32 F R s (Some r) mx32 round32 NULL w = Some (clip_round r mx32 round32, 0, w)"
    if "\<not> mx32 \<le> round32" for r using that by (simp add: filebench_randomno32_def)
  show ?thesis
  proof (rule conjI)
    show "if mx64 \<le> round64
     then filebench_randomno64 F R s u64 mx64 round64 NULL w = Some (0, if mx64 = round64 then 0 else -1, w)
     else (\<forall>r. \<exists>x. filebench_randomno64 F R s (Some r) mx64 round64 NULL w = Some (x, 0, w) \<and> x \<le> mx64 - round64
            \<and> (round64 \<noteq> 0 \<longrightarrow> x = mx64 - round64 \<or> unat round64 dvd unat x))
        \<and> (\<forall>k \<le> mx64 - round64. (round64 \<noteq> 0 \<longrightarrow> unat round64 dvd unat k) \<longrightarrow>
            (\<exists>r. filebench_randomno64 F R s (Some r) mx64 round64 NULL w = Some (k, 0, w)))"
      using clip_round_all [of round64 mx64] e
      by (cases "mx64 \<le> round64") (simp add: filebench_randomno64_def, auto simp: not_le dest: leD)
    show "if mx32 \<le> round32
     then filebench_randomno32 F R s u32 mx32 round32 NULL w = Some (0, if mx32 = round32 then 0 else -1, w)
     else (\<forall>r. \<exists>x. filebench_randomno32 F R s (Some r) mx32 round32 NULL w = Some (x, 0, w) \<and> x \<le> mx32 - round32
            \<and> (round32 \<noteq> 0 \<longrightarrow> x = mx32 - round32 \<or> unat round32 dvd unat x))
        \<and> (\<forall>k \<le> mx32 - round32. (round32 \<noteq> 0 \<longrightarrow> unat round32 dvd unat k) \<longrightarrow>
            (\<exists>r. filebench_randomno32 F R s (Some r) mx32 round32 NULL w = Some (k, 0, w)))"
      using clip_round_all [of round32 mx32] e'
      by (cases "mx32 \<le> round32") (simp add: filebench_randomno32_def, auto simp: not_le dest: leD)
  qed
qed

theorem filebench_randomno_witness:
  "(\<exists>x. filebench_randomno64 ex_F ex_R ex_vshm (Some 12345678901234567890) 1000 8 NULL () = Some (x, 0, ())
      \<and> x \<le> 992)"
  using filebench_randomno_correct [of 1000 8 ex_F ex_R ex_vshm None "()" 0 0 None] by auto

subsection \<open>Random distribution objects\<close>

abbreviation (input) PF_TAB_SIZE :: nat where "PF_TAB_SIZE \<equiv> 100"
abbreviation (input) RAND_TYPE_UNIFORM :: "16 word" where "RAND_TYPE_UNIFORM \<equiv> 0x1"
abbreviation (input) RAND_TYPE_GAMMA :: "16 word" where "RAND_TYPE_GAMMA \<equiv> 0x2"
abbreviation (input) RAND_TYPE_TABLE :: "16 word" where "RAND_TYPE_TABLE \<equiv> 0x3"
abbreviation (input) RAND_TYPE_MASK :: "16 word" where "RAND_TYPE_MASK \<equiv> 0x0fff"
abbreviation (input) RAND_SRC_GENERATOR :: "16 word" where "RAND_SRC_GENERATOR \<equiv> 0x1000"

text \<open>Comparison and rounding, and the conversions between \<open>int\<close> and \<open>double\<close>.\<close>

record fpu_ext = fpu +
  fp_lt :: "dbl \<Rightarrow> dbl \<Rightarrow> bool"
  fp_eq :: "dbl \<Rightarrow> dbl \<Rightarrow> bool"
  fp_round :: "dbl \<Rightarrow> dbl"
  fp_of_sint :: "int \<Rightarrow> dbl"
  fp_to_sint :: "dbl \<Rightarrow> int"

text \<open>The part of \<open>randdist_t\<close> that \<open>randdist_init_one\<close> fills in; the first part is \<open>randdist\<close> of \<open>FB_Vars\<close>.\<close>

datatype rnd_get = rand_uniform | rand_gamma | rand_table

datatype rnd_src = rand48 | urandom

record probtabent =
  pte_percent :: ptr
  pte_segmin :: ptr
  pte_segmax :: ptr

record randstate =
  rnd_get :: rnd_get
  rnd_src :: rnd_src
  rnd_dbl_mean :: dbl
  rnd_dbl_gamma :: dbl
  rnd_vint_min :: fbint
  rnd_vint_round :: fbint
  rnd_rft :: "nat \<Rightarrow> dbl \<times> dbl"
  rnd_xi :: "nat \<Rightarrow> 16 word"

text \<open>The union reads the 16-bit parts of the seed, in the little endian order.\<close>

definition rand_seed_set ::
  "fpu \<Rightarrow> (ptr \<Rightarrow> 'w \<Rightarrow> dbl \<times> 'w) \<Rightarrow> vshm \<Rightarrow> ptr \<Rightarrow> randstate \<Rightarrow> 'w \<Rightarrow> (randstate \<times> 'w) option" where
  "rand_seed_set F R s seed rs w = do {
     (ll, w) \<leftarrow> avd_get_int F R s seed w;
     Some (rs\<lparr>rnd_xi := (\<lambda>idx. if idx < 3 then ucast (drop_bit (16 * idx) ll) else rnd_xi rs idx)\<rparr>, w) }"

text \<open>A write behind the table of \<open>PF_TAB_SIZE\<close> entries is \<open>None\<close>.\<close>

fun fill_entries :: "nat \<Rightarrow> dbl \<times> dbl \<Rightarrow> (nat \<Rightarrow> dbl \<times> dbl) \<Rightarrow> nat \<Rightarrow> ((nat \<Rightarrow> dbl \<times> dbl) \<times> nat) option" where
  "fill_entries 0 e rft pteidx = Some (rft, pteidx)"
| "fill_entries (Suc entcnt) e rft pteidx =
     (if pteidx \<ge> PF_TAB_SIZE then None else fill_entries entcnt e (rft(pteidx := e)) (pteidx + 1))"

definition entry_count :: "fbint \<Rightarrow> int" where
  "entry_count i = sint (ucast i :: 32 word)"

text \<open>The loop over the list of segments.\<close>

fun fill_table ::
  "fpu_ext \<Rightarrow> (ptr \<Rightarrow> 'w \<Rightarrow> dbl \<times> 'w) \<Rightarrow> vshm \<Rightarrow> probtabent list \<Rightarrow> dbl \<Rightarrow> dbl \<Rightarrow> (nat \<Rightarrow> dbl \<times> dbl) \<Rightarrow> nat \<Rightarrow> 'w
     \<Rightarrow> (dbl \<times> dbl \<times> (nat \<Rightarrow> dbl \<times> dbl) \<times> nat \<times> 'w) option" where
  "fill_table F R s [] tablemean tablemin rft pteidx w = Some (tablemean, tablemin, rft, pteidx, w)"
| "fill_table F R s (ptep # rest) tablemean tablemin rft pteidx w = do {
     (mx, w) \<leftarrow> avd_get_int (fpu.truncate F) R s (pte_segmax ptep) w;
     (mn, w) \<leftarrow> avd_get_int (fpu.truncate F) R s (pte_segmin ptep) w;
     let dmax = fp_of_int F mx;
     let dmin = fp_of_int F mn;
     let tablemin = (if pteidx = 0 then dmin else tablemin);
     let tablemin = (if fp_lt F dmin tablemin then dmin else tablemin);
     (pc, w) \<leftarrow> avd_get_int (fpu.truncate F) R s (pte_percent ptep) w;
     let entcnt = entry_count pc;
     let tablemean = fp_add F tablemean
       (fp_mul F (fp_div F (fp_add F dmin dmax) (fp_of_int F 2)) (fp_of_sint F entcnt));
     (rft, pteidx) \<leftarrow> fill_entries (nat entcnt) (dmin, fp_sub F dmax dmin) rft pteidx;
     fill_table F R s rest tablemean tablemin rft pteidx w }"

definition normalize_table :: "fpu_ext \<Rightarrow> dbl \<Rightarrow> dbl \<Rightarrow> (nat \<Rightarrow> dbl \<times> dbl) \<Rightarrow> nat \<Rightarrow> dbl \<times> dbl" where
  "normalize_table F tablemean tablemin rft =
     (let tablemean = fp_sub F (fp_div F tablemean (fp_of_int F 100)) tablemin in
      if fp_eq F tablemean 0 then (\<lambda>j. if j < PF_TAB_SIZE then (0, 0) else rft j)
      else (\<lambda>j. if j < PF_TAB_SIZE
              then (fp_div F (fp_sub F (fst (rft j)) tablemin) tablemean, fp_div F (snd (rft j)) tablemean)
              else rft j))"

text \<open>
  A type that is not one of the three ends the run. \<open>tablemin\<close> is unset before the loop, which sets
  it in its first round.
\<close>

definition randdist_init_one ::
  "fpu_ext \<Rightarrow> (ptr \<Rightarrow> 'w \<Rightarrow> dbl \<times> 'w) \<Rightarrow> vshm \<Rightarrow> randdist \<Rightarrow> probtabent list \<Rightarrow> randstate \<Rightarrow> 'w
     \<Rightarrow> (randstate \<times> 'w) option" where
  "randdist_init_one F R s rndp ptabs rs w = do {
     let F' = fpu.truncate F;
     (g, w) \<leftarrow> avd_get_int F' R s (rnd_gamma rndp) w;
     let rs = rs\<lparr>rnd_dbl_gamma := fp_div F (fp_of_int F g) (fp_of_int F 1000)\<rparr>;
     (rs, w) \<leftarrow> (if rnd_mean rndp \<noteq> NULL
                then do { (m, w) \<leftarrow> avd_get_int F' R s (rnd_mean rndp) w; Some (rs\<lparr>rnd_dbl_mean := fp_of_int F m\<rparr>, w) }
                else Some (rs\<lparr>rnd_dbl_mean := rnd_dbl_gamma rs\<rparr>, w));
     (mn, w) \<leftarrow> avd_get_int F' R s (rnd_min rndp) w;
     (rd, w) \<leftarrow> avd_get_int F' R s (rnd_round rndp) w;
     let rs = rs\<lparr>rnd_vint_min := mn, rnd_vint_round := rd\<rparr>;
     rs \<leftarrow> (let t = rnd_type rndp AND RAND_TYPE_MASK in
           if t = RAND_TYPE_UNIFORM then Some (rs\<lparr>rnd_get := rand_uniform\<rparr>)
           else if t = RAND_TYPE_GAMMA then Some (rs\<lparr>rnd_get := rand_gamma\<rparr>)
           else if t = RAND_TYPE_TABLE then Some (rs\<lparr>rnd_get := rand_table\<rparr>)
           else None);
     (rs, w) \<leftarrow> (if rnd_type rndp AND RAND_SRC_GENERATOR \<noteq> 0
                then rand_seed_set F' R s (rnd_seed rndp) (rs\<lparr>rnd_src := rand48\<rparr>) w
                else Some (rs\<lparr>rnd_src := urandom\<rparr>, w));
     if ptabs = [] then Some (rs, w)
     else do {
       (tablemean, tablemin, rft, pteidx, w) \<leftarrow> fill_table F R s ptabs 0 0 (rnd_rft rs) 0 w;
       let rs = (if fp_eq F (rnd_dbl_mean rs) 0
                 then rs\<lparr>rnd_dbl_mean := fp_div F tablemean (fp_of_int F 100)\<rparr> else rs);
       Some (rs\<lparr>rnd_rft := normalize_table F tablemean tablemin rft\<rparr>, w) } }"

text \<open>
  The source of a probability: \<open>erand48\<close> updates the seed, the other reads 8 bytes of
  \<open>/dev/urandom\<close> and scales them.
\<close>

definition rand_src ::
  "fpu_ext \<Rightarrow> ((nat \<Rightarrow> 16 word) \<Rightarrow> dbl \<times> (nat \<Rightarrow> 16 word)) \<Rightarrow> uint64 option \<Rightarrow> randstate \<Rightarrow> (dbl \<times> randstate) option" where
  "rand_src F erand48 bytes rs =
     (case rnd_src rs of
        rand48 \<Rightarrow> (let (d, xi) = erand48 (rnd_xi rs) in Some (d, rs\<lparr>rnd_xi := xi\<rparr>))
      | urandom \<Rightarrow> map_option (\<lambda>r. (fp_div F (fp_of_int F r) (fp_of_int F (-1)), rs)) bytes)"

definition round_to :: "fpu_ext \<Rightarrow> fbint \<Rightarrow> dbl \<Rightarrow> dbl" where
  "round_to F r dres =
     (let dround = fp_of_int F r in
      if fp_eq F dround 0 then dres else fp_mul F (fp_round F (fp_div F dres dround)) dround)"

definition rand_uniform_get ::
  "fpu_ext \<Rightarrow> ((nat \<Rightarrow> 16 word) \<Rightarrow> dbl \<times> (nat \<Rightarrow> 16 word)) \<Rightarrow> uint64 option \<Rightarrow> randstate \<Rightarrow> (dbl \<times> randstate) option" where
  "rand_uniform_get F erand48 bytes rs = do {
     let dmin = fp_of_int F (rnd_vint_min rs);
     (dprob, rs') \<leftarrow> rand_src F erand48 bytes rs;
     let dres = fp_add F (fp_mul F dprob (fp_mul F (fp_of_int F 2) (fp_sub F (rnd_dbl_mean rs) dmin))) dmin;
     Some (round_to F (rnd_vint_round rs) dres, rs') }"

definition rand_gamma_get ::
  "fpu_ext \<Rightarrow> (dbl \<Rightarrow> dbl \<Rightarrow> randstate \<Rightarrow> dbl \<times> randstate) \<Rightarrow> randstate \<Rightarrow> dbl \<times> randstate" where
  "rand_gamma_get F gamma_dist_knuth_src rs =
     (let dmin = fp_of_int F (rnd_vint_min rs);
          dmult = fp_div F (fp_sub F (rnd_dbl_mean rs) dmin) (rnd_dbl_gamma rs);
          (g, rs') = gamma_dist_knuth_src (rnd_dbl_gamma rs) dmult rs;
          dres = fp_add F g dmin in
      (round_to F (rnd_vint_round rs) dres, rs'))"

text \<open>An index behind the table is \<open>None\<close>.\<close>

definition rand_table_get ::
  "fpu_ext \<Rightarrow> ((nat \<Rightarrow> 16 word) \<Rightarrow> dbl \<times> (nat \<Rightarrow> 16 word)) \<Rightarrow> uint64 option \<Rightarrow> randstate \<Rightarrow> (dbl \<times> randstate) option" where
  "rand_table_get F erand48 bytes rs = do {
     let dmin = fp_of_int F (rnd_vint_min rs);
     (dprob, rs') \<leftarrow> rand_src F erand48 bytes rs;
     let dprcnt = fp_mul F dprob (fp_of_int F 100);
     let idx = fp_to_sint F dprcnt;
     if idx < 0 \<or> idx \<ge> 100 then None
     else do {
       let (base, range) = rnd_rft rs (nat idx);
       let dtabres = fp_add F base (fp_mul F range (fp_sub F dprcnt (fp_of_sint F idx)));
       let dsclres = fp_add F (fp_mul F dtabres (fp_sub F (rnd_dbl_mean rs) dmin)) dmin;
       Some (round_to F (rnd_vint_round rs) dsclres, rs') } }"

subsection \<open>The probability table\<close>

text \<open>The entries that the segments ask for, in order.\<close>

definition table_entries :: "fpu_ext \<Rightarrow> (ptr \<Rightarrow> fbint) \<Rightarrow> probtabent list \<Rightarrow> (dbl \<times> dbl) list" where
  "table_entries F v ptabs = concat (map (\<lambda>t. replicate (nat (entry_count (v (pte_percent t))))
     (fp_of_int F (v (pte_segmin t)), fp_sub F (fp_of_int F (v (pte_segmax t))) (fp_of_int F (v (pte_segmin t))))) ptabs)"

definition write_at :: "(nat \<Rightarrow> 'a) \<Rightarrow> nat \<Rightarrow> 'a list \<Rightarrow> nat \<Rightarrow> 'a" where
  "write_at f k xs = (\<lambda>j. if k \<le> j \<and> j < k + length xs then xs ! (j - k) else f j)"

lemma write_at_append: "write_at (write_at f k xs) (k + length xs) ys = write_at f k (xs @ ys)"
  by (auto simp: write_at_def fun_eq_iff nth_append)

lemma write_at_Nil [simp]: "write_at f k [] = f"
  by (auto simp: write_at_def fun_eq_iff)

lemma fill_entries_eq:
  "pteidx \<le> PF_TAB_SIZE \<Longrightarrow> fill_entries n e rft pteidx =
     (if pteidx + n \<le> PF_TAB_SIZE then Some (write_at rft pteidx (replicate n e), pteidx + n) else None)"
proof (induction n arbitrary: rft pteidx)
  case (Suc n)
  have "write_at (rft(pteidx := e)) (Suc pteidx) (replicate n e) = write_at rft pteidx (e # replicate n e)"
    by (auto simp: write_at_def fun_eq_iff nth_Cons')
  with Suc show ?case by simp
qed simp

lemma fill_table_eq:
  assumes "\<And>t w. t \<in> set ptabs \<Longrightarrow> avd_get_int (fpu.truncate F) R s (pte_segmax t) w = Some (v (pte_segmax t), w)
      \<and> avd_get_int (fpu.truncate F) R s (pte_segmin t) w = Some (v (pte_segmin t), w)
      \<and> avd_get_int (fpu.truncate F) R s (pte_percent t) w = Some (v (pte_percent t), w)"
    "pteidx \<le> PF_TAB_SIZE"
  shows "let xs = table_entries F v ptabs in
    if pteidx + length xs \<le> PF_TAB_SIZE
    then \<exists>mean mn. fill_table F R s ptabs tablemean tablemin rft pteidx w
      = Some (mean, mn, write_at rft pteidx xs, pteidx + length xs, w)
    else fill_table F R s ptabs tablemean tablemin rft pteidx w = None"
  using assms
proof (induction ptabs arbitrary: tablemean tablemin rft pteidx)
  case Nil
  then show ?case by (simp add: table_entries_def)
next
  case (Cons t ts)
  let ?n = "nat (entry_count (v (pte_percent t)))"
  let ?e = "(fp_of_int F (v (pte_segmin t)), fp_sub F (fp_of_int F (v (pte_segmax t))) (fp_of_int F (v (pte_segmin t))))"
  have te: "table_entries F v (t # ts) = replicate ?n ?e @ table_entries F v ts" by (simp add: table_entries_def)
  obtain tm tn where e: "fill_table F R s (t # ts) tablemean tablemin rft pteidx w
      = Option.bind (fill_entries ?n ?e rft pteidx) (\<lambda>(rft, pteidx). fill_table F R s ts tm tn rft pteidx w)"
    using Cons.prems(1) [of t] by (simp add: Let_def)
  show ?case
  proof (cases "pteidx + ?n \<le> PF_TAB_SIZE")
    case True
    have "write_at (write_at rft pteidx (replicate ?n ?e)) (pteidx + ?n) (table_entries F v ts)
        = write_at rft pteidx (table_entries F v (t # ts))"
      using write_at_append [of rft pteidx "replicate ?n ?e" "table_entries F v ts"] by (simp add: te)
    with Cons.IH [of "pteidx + ?n" tm tn "write_at rft pteidx (replicate ?n ?e)"] Cons.prems True
    show ?thesis unfolding e fill_entries_eq [OF Cons.prems(2)] by (auto simp: te Let_def add.assoc split: if_splits)
  next
    case False
    then show ?thesis unfolding e fill_entries_eq [OF Cons.prems(2)] by (simp add: te Let_def)
  qed
qed

text \<open>
  Initialization of a table driven distribution whose parameters are constants. If the percentages
  of the segments add up to at most 100, the table holds for each segment, in order, as many entries
  as its percentage, scaled by the table's minimum and mean; entries that no segment covers are
  scaled as they were. If they add up to more than 100, the loop writes behind the table.
\<close>

theorem randdist_table_correct:
  assumes "\<And>a w. avd_get_int (fpu.truncate F) R s a w = Some (v a, w)"
    "rnd_type rndp AND RAND_TYPE_MASK = RAND_TYPE_TABLE" "ptabs \<noteq> []"
  defines "xs \<equiv> table_entries F v ptabs"
  shows "if length xs \<le> PF_TAB_SIZE
    then \<exists>rs' mean mn. randdist_init_one F R s rndp ptabs rs w = Some (rs', w) \<and> rnd_get rs' = rand_table
      \<and> (rnd_src rs' = rand48 \<longleftrightarrow> rnd_type rndp AND RAND_SRC_GENERATOR \<noteq> 0)
      \<and> rnd_rft rs' = normalize_table F mean mn (write_at (rnd_rft rs) 0 xs)
    else randdist_init_one F R s rndp ptabs rs w = None"
proof -
  have A: "if length xs \<le> PF_TAB_SIZE
    then \<exists>mean mn. fill_table F R s ptabs 0 0 (rnd_rft rs) 0 w = Some (mean, mn, write_at (rnd_rft rs) 0 xs, length xs, w)
    else fill_table F R s ptabs 0 0 (rnd_rft rs) 0 w = None"
    using fill_table_eq [where ptabs = ptabs and F = F and R = R and s = s and v = v and pteidx = 0 and tablemean = 0
        and tablemin = 0 and rft = "rnd_rft rs" and w = w] assms(1) unfolding Let_def xs_def [symmetric] by (auto split: if_splits)
  have T: "rnd_type rndp AND 4095 = 3" using assms(2) by simp
  show ?thesis using A assms(3)
    by (cases "length xs \<le> PF_TAB_SIZE")
      (auto simp: randdist_init_one_def rand_seed_set_def Let_def assms(1) T split: if_splits, blast+)
qed

definition ex_G :: fpu_ext where
  "ex_G = fpu.extend ex_F \<lparr>fp_lt = (<), fp_eq = (=), fp_round = id, fp_of_sint = of_int, fp_to_sint = sint\<rparr>"

definition ex_rnd :: randdist where
  "ex_rnd = \<lparr>rnd_next = 0, rnd_var = 0, rnd_seed = 0, rnd_mean = 0, rnd_gamma = 0, rnd_min = 0, rnd_round = 0, rnd_type = 3\<rparr>"

definition ex_rs :: randstate where
  "ex_rs = \<lparr>rnd_get = rand_uniform, rnd_src = rand48, rnd_dbl_mean = 0, rnd_dbl_gamma = 0, rnd_vint_min = 0,
     rnd_vint_round = 0, rnd_rft = (\<lambda>_. (0, 0)), rnd_xi = (\<lambda>_. 0)\<rparr>"

definition ex_avds :: vshm where
  "ex_avds = ex_vshm\<lparr>avds := (\<lambda>_. \<lparr>avd_type = AVD_VAL_INT, avd_val = AInt 60\<rparr>)\<rparr>"

lemma ex_avds_get: "avd_get_int F R ex_avds a w = Some (if a = 0 then 0 else 60, w)"
  by (simp add: avd_get_int_def ex_avds_def)

theorem randdist_table_witness:
  "(\<exists>rs'. randdist_init_one ex_G ex_R ex_avds ex_rnd [\<lparr>pte_percent = 8, pte_segmin = 8, pte_segmax = 8\<rparr>] ex_rs ()
      = Some (rs', ()) \<and> rnd_get rs' = rand_table)
   \<and> randdist_init_one ex_G ex_R ex_avds ex_rnd [\<lparr>pte_percent = 8, pte_segmin = 8, pte_segmax = 8\<rparr>, \<lparr>pte_percent = 8, pte_segmin = 8, pte_segmax = 8\<rparr>] ex_rs () = None"
proof -
  let ?t = "\<lparr>pte_percent = 8, pte_segmin = 8, pte_segmax = 8\<rparr> :: probtabent" and ?v = "\<lambda>a :: ptr. if a = 0 then 0 else (60 :: fbint)"
  have n: "entry_count 60 = 60" by (simp add: entry_count_def)
  have l: "length (table_entries ex_G ?v [?t]) = 60" "length (table_entries ex_G ?v [?t, ?t]) = 120"
    by (simp_all add: table_entries_def n)
  have t: "rnd_type ex_rnd AND 0xfff = 3" by (simp add: ex_rnd_def)
  note W = randdist_table_correct [where F = ex_G and R = ex_R and s = ex_avds and v = ?v and rndp = ex_rnd and w = "()"
      and rs = ex_rs, OF ex_avds_get t]
  from W [of "[?t]"] W [of "[?t, ?t]"] l show ?thesis by auto
qed

text \<open>
  The table of \<open>PF_TAB_SIZE\<close> entries is indexed with the probability times 100. The source that reads
  \<open>/dev/urandom\<close> divides by the largest number, so that bytes with all bits set give the probability
  \<open>1.0\<close> and an index behind the table. The hypotheses are facts of IEEE arithmetic.
\<close>

theorem rand_table_get_overrun:
  assumes "rnd_src rs = urandom" "fp_div F (fp_of_int F (-1)) (fp_of_int F (-1)) = fp_of_int F 1"
    "fp_mul F (fp_of_int F 1) (fp_of_int F 100) = fp_of_int F 100" "fp_to_sint F (fp_of_int F 100) = 100"
  shows "rand_table_get F erand48 (Some (-1)) rs = None"
  using assms by (simp add: rand_table_get_def rand_src_def)

theorem rand_table_get_witness: "rand_table_get ex_G (\<lambda>xi. (0, xi)) (Some (-1)) (ex_rs\<lparr>rnd_src := urandom\<rparr>) = None"
  by (rule rand_table_get_overrun) (simp_all add: ex_G_def ex_F_def fpu.defs)

end
