(* ===== verification/FB_Fileset.thy ===== *)
theory FB_Fileset
  imports FB_Avl_Correct FB_Random
begin

text \<open>
  The filesets of \<^verbatim>\<open>src/filebench/fileset.c\<close> and \<^verbatim>\<open>fileset.h\<close>: the entries (files, directories, leaf
  directories) of one fileset, the seven AVL trees that sort them by state, and the operations the
  flowops use: picking an entry, giving it back, resetting the trees. The trees are those of
  \<open>FB_Avl\<close>, on one heap of nodes; the entries are the memory the comparison function reads.

  A mutex is a flag, set while it is held. An operation that has to wait, for the mutex or on a
  condition variable, has the outcome \<open>Waits\<close>: it has changed nothing, and it is tried again from
  its start when it is woken. The condition variables signalled are part of the result. \<open>loc\<close> and \<open>tmp\<close> are the addresses of the local variables
  \<open>desired_fse\<close> and \<open>tmp\<close>. \<open>None\<close> is undefined behaviour: a null pointer followed, an index out of
  bounds, an unset local, a loop that does not end.

  Not modelled: the file system calls, the file access histogram, and the sizes and depths drawn when
  a fileset is populated.
\<close>

subsection \<open>Entries\<close>

abbreviation (input) FSE_MAXTID :: nat where "FSE_MAXTID \<equiv> 16384"

abbreviation (input) FSE_TYPE_FILE :: uint32 where "FSE_TYPE_FILE \<equiv> 0x00"
abbreviation (input) FSE_TYPE_DIR :: uint32 where "FSE_TYPE_DIR \<equiv> 0x01"
abbreviation (input) FSE_TYPE_LEAFDIR :: uint32 where "FSE_TYPE_LEAFDIR \<equiv> 0x02"
abbreviation (input) FSE_TYPE_MASK :: uint32 where "FSE_TYPE_MASK \<equiv> 0x03"
abbreviation (input) FSE_FREE :: uint32 where "FSE_FREE \<equiv> 0x04"
abbreviation (input) FSE_EXISTS :: uint32 where "FSE_EXISTS \<equiv> 0x08"
abbreviation (input) FSE_BUSY :: uint32 where "FSE_BUSY \<equiv> 0x10"
abbreviation (input) FSE_REUSING :: uint32 where "FSE_REUSING \<equiv> 0x20"
abbreviation (input) FSE_THRD_WAITNG :: uint32 where "FSE_THRD_WAITNG \<equiv> 0x40"

abbreviation (input) FILESET_PICKFILE :: uint32 where "FILESET_PICKFILE \<equiv> 0x00"
abbreviation (input) FILESET_PICKDIR :: uint32 where "FILESET_PICKDIR \<equiv> 0x01"
abbreviation (input) FILESET_PICKLEAFDIR :: uint32 where "FILESET_PICKLEAFDIR \<equiv> 0x02"
abbreviation (input) FILESET_PICKMASK :: uint32 where "FILESET_PICKMASK \<equiv> 0x03"
abbreviation (input) FILESET_PICKUNIQUE :: uint32 where "FILESET_PICKUNIQUE \<equiv> 0x04"
abbreviation (input) FILESET_PICKEXISTS :: uint32 where "FILESET_PICKEXISTS \<equiv> 0x10"
abbreviation (input) FILESET_PICKNOEXIST :: uint32 where "FILESET_PICKNOEXIST \<equiv> 0x20"
abbreviation (input) FILESET_PICKBYINDEX :: uint32 where "FILESET_PICKBYINDEX \<equiv> 0x40"

text \<open>The node \<open>fse_link\<close> of an entry is in the heap of the trees, at the offset of the trees.\<close>

record filesetentry =
  fse_next :: ptr
  fse_parent :: ptr
  fse_index :: uint32
  fse_nextoftype :: ptr
  fse_fileset :: ptr
  fse_path :: "string option"
  fse_depth :: uint32
  fse_size :: uint64
  fse_open_cnt :: uint32
  fse_flags :: uint32

type_synonym entries = "ptr \<Rightarrow> filesetentry"

datatype ftree = fs_free_files | fs_exist_files | fs_noex_files | fs_dirs
  | fs_free_leaf_dirs | fs_exist_leaf_dirs | fs_noex_leaf_dirs

record fileset =
  fs_constentries :: fbint
  fs_constleafdirs :: fbint
  fs_realfiles :: uint32
  fs_realleafdirs :: uint32
  fs_bytes :: uint64
  fs_idle_files :: uint64
  fs_idle_dirs :: uint64
  fs_idle_leafdirs :: uint64
  fs_pick_lock :: bool
  fs_tree :: "ftree \<Rightarrow> entries avl_tree"
  fs_filelist :: ptr
  fs_file_exrotor :: "nat \<Rightarrow> uint32"
  fs_file_nerotor :: uint32
  fs_dirlist :: ptr
  fs_dirrotor :: uint32
  fs_leafdirlist :: ptr
  fs_leafdir_exrotor :: uint32
  fs_leafdir_nerotor :: uint32

record fstate =
  fs :: fileset
  ents :: entries
  heap :: avl_heap

definition upd_ent :: "fstate \<Rightarrow> ptr \<Rightarrow> (filesetentry \<Rightarrow> filesetentry) \<Rightarrow> fstate" where
  "upd_ent s e f = s\<lparr>ents := (ents s)(e := f (ents s e))\<rparr>"

definition set_tree :: "fstate \<Rightarrow> ftree \<Rightarrow> avl_heap \<times> entries avl_tree \<Rightarrow> fstate" where
  "set_tree s t ht = s\<lparr>heap := fst ht, fs := (fs s)\<lparr>fs_tree := (fs_tree (fs s))(t := snd ht)\<rparr>\<rparr>"

definition set_flags :: "(uint32 \<Rightarrow> uint32) \<Rightarrow> filesetentry \<Rightarrow> filesetentry" where
  "set_flags f e = e\<lparr>fse_flags := f (fse_flags e)\<rparr>"

definition fileset_entry_compare :: "entries \<Rightarrow> ptr \<Rightarrow> ptr \<Rightarrow> int" where
  "fileset_entry_compare m node_1 node_2 =
     (if fse_index (m node_1) < fse_index (m node_2) then -1
      else if fse_index (m node_1) = fse_index (m node_2) then 0 else 1)"

text \<open>The entries are ordered by their index, as the AVL library asks.\<close>

interpretation fse: avl_order fileset_entry_compare "\<lambda>m e. fse_index (m e)"
  by unfold_locales (simp add: fileset_entry_compare_def)

subsection \<open>Moving and finding entries\<close>

definition fileset_move_entry :: "ptr \<Rightarrow> fstate \<Rightarrow> ftree \<Rightarrow> ftree \<Rightarrow> ptr \<Rightarrow> fstate option" where
  "fileset_move_entry tmp s src_tree dst_tree entry = do {
     ht \<leftarrow> avl_remove (heap s) (fs_tree (fs s) src_tree) tmp entry;
     let s = set_tree s src_tree ht;
     ht \<leftarrow> avl_add (ents s) (heap s) (fs_tree (fs s) dst_tree) entry;
     Some (set_tree s dst_tree ht) }"

definition fileset_find_entry :: "ptr \<Rightarrow> fstate \<Rightarrow> ftree \<Rightarrow> uint32 \<Rightarrow> ptr option" where
  "fileset_find_entry loc s atp index = do {
     let m = (ents s)(loc := (ents s loc)\<lparr>fse_index := index\<rparr>);
     (found_fse, found_loc) \<leftarrow> avl_find m (heap s) (fs_tree (fs s) atp) loc;
     if found_fse \<noteq> NULL then Some found_fse
     else do {
       w \<leftarrow> found_loc;
       found_fse \<leftarrow> avl_nearest (heap s) (fs_tree (fs s) atp) w AVL_AFTER;
       if found_fse \<noteq> NULL then Some found_fse
       else avl_first (heap s) (fs_tree (fs s) atp) } }"

subsection \<open>Resetting the trees\<close>

partial_function (option) pickreset_loop :: "ptr \<Rightarrow> ftree \<Rightarrow> ftree \<Rightarrow> fstate \<Rightarrow> ptr \<Rightarrow> fstate option" where
  "pickreset_loop tmp src dst s entry =
     (if entry = NULL then Some s
      else do {
        let s = upd_ent s entry (\<lambda>e. e\<lparr>fse_flags := fse_flags e OR FSE_FREE, fse_open_cnt := 0\<rparr>);
        s \<leftarrow> fileset_move_entry tmp s src dst entry;
        entry \<leftarrow> AVL_NEXT (heap s) (fs_tree (fs s) src) entry;
        pickreset_loop tmp src dst s entry })"

definition pickreset_tree :: "ptr \<Rightarrow> ftree \<Rightarrow> ftree \<Rightarrow> fstate \<Rightarrow> fstate option" where
  "pickreset_tree tmp src dst s = do {
     entry \<leftarrow> avl_first (heap s) (fs_tree (fs s) src);
     pickreset_loop tmp src dst s entry }"

definition fileset_pickreset :: "ptr \<Rightarrow> fstate \<Rightarrow> uint32 \<Rightarrow> fstate option" where
  "fileset_pickreset tmp s entry_type =
     (let k = entry_type AND FILESET_PICKMASK in
      if k = FILESET_PICKFILE then do {
        s \<leftarrow> pickreset_tree tmp fs_noex_files fs_free_files s;
        pickreset_tree tmp fs_exist_files fs_free_files s }
      else if k = FILESET_PICKLEAFDIR then do {
        s \<leftarrow> pickreset_tree tmp fs_noex_leaf_dirs fs_free_leaf_dirs s;
        pickreset_tree tmp fs_exist_leaf_dirs fs_free_leaf_dirs s }
      else Some s)"

subsection \<open>Picking an entry\<close>

datatype 'a outcome = Returns 'a | Waits

datatype fcv = fs_idle_files_cv | fs_idle_dirs_cv | fs_idle_leafdirs_cv | fs_thrd_wait_cv

definition lock_pick :: "fstate \<Rightarrow> bool \<Rightarrow> fstate" where
  "lock_pick s b = s\<lparr>fs := (fs s)\<lparr>fs_pick_lock := b\<rparr>\<rparr>"

text \<open>The tree to pick from and the number of entries; the case that no branch covers leaves them unset.\<close>

definition pick_tree :: "fstate \<Rightarrow> uint32 \<Rightarrow> (ftree \<times> fbint) option" where
  "pick_tree s flags =
     (let k = flags AND FILESET_PICKMASK in
      if k = FILESET_PICKFILE then
        Some (if flags AND FILESET_PICKUNIQUE \<noteq> 0 then fs_free_files
              else if flags AND FILESET_PICKNOEXIST \<noteq> 0 then fs_noex_files else fs_exist_files,
              fs_constentries (fs s))
      else if k = FILESET_PICKDIR then Some (fs_dirs, 1)
      else if k = FILESET_PICKLEAFDIR then
        Some (if flags AND FILESET_PICKUNIQUE \<noteq> 0 then fs_free_leaf_dirs
              else if flags AND FILESET_PICKNOEXIST \<noteq> 0 then fs_noex_leaf_dirs else fs_exist_leaf_dirs,
              fs_constleafdirs (fs s))
      else None)"

definition pick_list :: "fstate \<Rightarrow> uint32 \<Rightarrow> ptr" where
  "pick_list s flags =
     (let k = flags AND FILESET_PICKMASK in
      if k = FILESET_PICKFILE then fs_filelist (fs s) else if k = FILESET_PICKDIR then fs_dirlist (fs s)
      else fs_leafdirlist (fs s))"

definition pick_idle :: "fstate \<Rightarrow> uint32 \<Rightarrow> uint64" where
  "pick_idle s flags =
     (let k = flags AND FILESET_PICKMASK in
      if k = FILESET_PICKFILE then fs_idle_files (fs s) else if k = FILESET_PICKDIR then fs_idle_dirs (fs s)
      else fs_idle_leafdirs (fs s))"

text \<open>Picking in rotation: the entry at the rotor, which then points behind it.\<close>

definition pick_rotor :: "ptr \<Rightarrow> fstate \<Rightarrow> ftree \<Rightarrow> uint32 \<Rightarrow> nat \<Rightarrow> (ptr \<times> fstate) option" where
  "pick_rotor loc s atp flags tid =
     (let k = flags AND FILESET_PICKMASK; F = fs s in
      if k = FILESET_PICKFILE then
        if flags AND FILESET_PICKNOEXIST \<noteq> 0 then do {
          entry \<leftarrow> fileset_find_entry loc s atp (fs_file_nerotor F);
          if entry = NULL then None
          else Some (entry, s\<lparr>fs := F\<lparr>fs_file_nerotor := fse_index (ents s entry) + 1\<rparr>\<rparr>) }
        else if tid \<ge> FSE_MAXTID then None
        else do {
          entry \<leftarrow> fileset_find_entry loc s atp (fs_file_exrotor F tid);
          if entry = NULL then None
          else Some (entry, s\<lparr>fs := F\<lparr>fs_file_exrotor := (fs_file_exrotor F)(tid := fse_index (ents s entry) + 1)\<rparr>\<rparr>) }
      else if k = FILESET_PICKDIR then do {
        entry \<leftarrow> fileset_find_entry loc s atp (fs_dirrotor F);
        if entry = NULL then None
        else Some (entry, s\<lparr>fs := F\<lparr>fs_dirrotor := fse_index (ents s entry) + 1\<rparr>\<rparr>) }
      else if flags AND FILESET_PICKNOEXIST \<noteq> 0 then do {
        entry \<leftarrow> fileset_find_entry loc s atp (fs_leafdir_nerotor F);
        if entry = NULL then None
        else Some (entry, s\<lparr>fs := F\<lparr>fs_leafdir_nerotor := fse_index (ents s entry) + 1\<rparr>\<rparr>) }
      else do {
        entry \<leftarrow> fileset_find_entry loc s atp (fs_leafdir_exrotor F);
        if entry = NULL then None
        else Some (entry, s\<lparr>fs := F\<lparr>fs_leafdir_exrotor := fse_index (ents s entry) + 1\<rparr>\<rparr>) })"

text \<open>The loop over the busy entries; \<open>NULL\<close> if all are busy.\<close>

partial_function (option) busy_scan :: "entries \<Rightarrow> avl_heap \<Rightarrow> entries avl_tree \<Rightarrow> ptr \<Rightarrow> ptr \<Rightarrow> ptr option" where
  "busy_scan m h atp start_point entry =
     (if fse_flags (m entry) AND FSE_BUSY = 0 then Some entry
      else do {
        nxt \<leftarrow> AVL_NEXT h atp entry;
        entry \<leftarrow> (if nxt = NULL then avl_first h atp else Some nxt);
        if entry = NULL \<or> entry = start_point then Some NULL else busy_scan m h atp start_point entry })"

definition add_idle :: "uint32 \<Rightarrow> uint64 \<Rightarrow> fstate \<Rightarrow> fstate" where
  "add_idle k n s = s\<lparr>fs :=
     (if k = FILESET_PICKFILE then (fs s)\<lparr>fs_idle_files := fs_idle_files (fs s) + n\<rparr>
      else if k = FILESET_PICKDIR then (fs s)\<lparr>fs_idle_dirs := fs_idle_dirs (fs s) + n\<rparr>
      else if k = FILESET_PICKLEAFDIR then (fs s)\<lparr>fs_idle_leafdirs := fs_idle_leafdirs (fs s) + n\<rparr>
      else fs s)\<rparr>"

text \<open>Choosing where to start: the entry and the state, or \<open>None\<close> inside if the random number fails.\<close>

definition pick_start ::
  "fpu \<Rightarrow> (ptr \<Rightarrow> unit \<Rightarrow> dbl \<times> unit) \<Rightarrow> vshm \<Rightarrow> uint64 option \<Rightarrow> ptr \<Rightarrow> fstate \<Rightarrow> ftree \<Rightarrow> fbint
     \<Rightarrow> uint32 \<Rightarrow> nat \<Rightarrow> uint32 \<Rightarrow> ((ptr \<times> fstate) option) option" where
  "pick_start F R vs bytes loc s atp max_entries flags tid index =
     (if flags AND FILESET_PICKUNIQUE \<noteq> 0 then
        if index \<noteq> 0 then do { e \<leftarrow> fileset_find_entry loc s atp index; Some (Some (e, s)) }
        else do {
          (index64, rc, _) \<leftarrow> filebench_randomno64 F R vs bytes max_entries 1 NULL ();
          if rc = FILEBENCH_ERROR then Some None
          else do { e \<leftarrow> fileset_find_entry loc s atp (ucast index64); Some (Some (e, s)) } }
      else if flags AND FILESET_PICKBYINDEX \<noteq> 0 then do {
        e \<leftarrow> fileset_find_entry loc s atp index; Some (Some (e, s)) }
      else map_option Some (pick_rotor loc s atp flags tid))"

definition fileset_pick ::
  "fpu \<Rightarrow> (ptr \<Rightarrow> unit \<Rightarrow> dbl \<times> unit) \<Rightarrow> vshm \<Rightarrow> uint64 option \<Rightarrow> ptr \<Rightarrow> fstate \<Rightarrow> uint32 \<Rightarrow> nat \<Rightarrow> uint32
     \<Rightarrow> ((ptr \<times> fstate) outcome) option" where
  "fileset_pick F R vs bytes loc s flags tid index = (if fs_pick_lock (fs s) then Some Waits else do {
     let s = lock_pick s True;
     (atp, max_entries) \<leftarrow> pick_tree s flags;
     if pick_list s flags = NULL then Some (Returns (NULL, lock_pick s False))
     else if pick_idle s flags = 0 then Some Waits
     else if avl_is_empty (Some (fs_tree (fs s) atp)) then Some (Returns (NULL, lock_pick s False))
     else do {
       r \<leftarrow> pick_start F R vs bytes loc s atp max_entries flags tid index;
       case r of
         None \<Rightarrow> Some (Returns (NULL, s))
       | Some (entry, s) \<Rightarrow>
           if entry = NULL then Some (Returns (NULL, lock_pick s False))
           else do {
             entry \<leftarrow> busy_scan (ents s) (heap s) (fs_tree (fs s) atp) entry entry;
             if entry = NULL then Some (Returns (NULL, lock_pick s False))
             else
               let s = add_idle (flags AND FILESET_PICKMASK) (-1) s;
                   s = upd_ent s entry (set_flags (\<lambda>f. f OR FSE_BUSY)) in
               Some (Returns (entry, lock_pick s False)) } } })"

subsection \<open>Giving an entry back\<close>

text \<open>The move between two trees of the entry's type; a directory stays where it is.\<close>

definition move_by_type :: "ptr \<Rightarrow> fstate \<Rightarrow> ptr \<Rightarrow> ftree \<times> ftree \<Rightarrow> ftree \<times> ftree \<Rightarrow> fstate option" where
  "move_by_type tmp s entry files leafdirs =
     (let k = fse_flags (ents s entry) AND FSE_TYPE_MASK in
      if k = FSE_TYPE_FILE then fileset_move_entry tmp s (fst files) (snd files) entry
      else if k = FSE_TYPE_LEAFDIR then fileset_move_entry tmp s (fst leafdirs) (snd leafdirs) entry
      else Some s)"

definition unbusy_exist :: "ptr \<Rightarrow> fstate \<Rightarrow> ptr \<Rightarrow> bool \<Rightarrow> fstate option" where
  "unbusy_exist tmp s entry new_exist_val =
     (let f = fse_flags (ents s entry) in
      if new_exist_val then
        if f AND FSE_FREE \<noteq> 0 then
          move_by_type tmp (upd_ent s entry (set_flags (\<lambda>f. (f OR FSE_EXISTS) AND NOT FSE_FREE))) entry
            (fs_free_files, fs_exist_files) (fs_free_leaf_dirs, fs_exist_leaf_dirs)
        else if f AND FSE_EXISTS = 0 then
          move_by_type tmp (upd_ent s entry (set_flags (\<lambda>f. f OR FSE_EXISTS))) entry
            (fs_noex_files, fs_exist_files) (fs_noex_leaf_dirs, fs_exist_leaf_dirs)
        else Some s
      else if f AND FSE_FREE \<noteq> 0 then
        move_by_type tmp (upd_ent s entry (set_flags (\<lambda>f. f AND NOT (FSE_FREE OR FSE_EXISTS)))) entry
          (fs_free_files, fs_noex_files) (fs_free_leaf_dirs, fs_noex_leaf_dirs)
      else if f AND FSE_EXISTS \<noteq> 0 then
        move_by_type tmp (upd_ent s entry (set_flags (\<lambda>f. f AND NOT FSE_EXISTS))) entry
          (fs_exist_files, fs_noex_files) (fs_exist_leaf_dirs, fs_noex_leaf_dirs)
      else Some s)"

text \<open>
  Clearing the busy flag: the threads that wait for this entry are woken, and the idle count of the
  type goes up; a thread that waits for an idle entry is woken if the count was zero.
\<close>

definition wake_waiting :: "fstate \<Rightarrow> ptr \<Rightarrow> fstate \<times> fcv list" where
  "wake_waiting s entry =
     (if fse_flags (ents s entry) AND FSE_THRD_WAITNG \<noteq> 0
      then (upd_ent s entry (set_flags (\<lambda>f. f AND NOT FSE_THRD_WAITNG)), [fs_thrd_wait_cv]) else (s, []))"

definition signal_idle :: "fstate \<Rightarrow> uint32 \<Rightarrow> fcv list" where
  "signal_idle s k =
     (if k = FSE_TYPE_FILE then if fs_idle_files (fs s) = 1 then [fs_idle_files_cv] else []
      else if k = FSE_TYPE_DIR then if fs_idle_dirs (fs s) = 1 then [fs_idle_dirs_cv] else []
      else if k = FSE_TYPE_LEAFDIR then if fs_idle_leafdirs (fs s) = 1 then [fs_idle_leafdirs_cv] else []
      else [])"

definition unbusy_release :: "fstate \<Rightarrow> ptr \<Rightarrow> fstate \<times> fcv list" where
  "unbusy_release s entry =
     (if fse_flags (ents s entry) AND FSE_BUSY = 0 then (s, [])
      else
        let s = upd_ent s entry (set_flags (\<lambda>f. f AND NOT FSE_BUSY));
            (s, woken) = wake_waiting s entry;
            k = fse_flags (ents s entry) AND FSE_TYPE_MASK;
            s = add_idle k 1 s in
        (s, woken @ signal_idle s k))"

text \<open>An entry without a fileset is reported and left alone.\<close>

definition fileset_unbusy :: "ptr \<Rightarrow> fstate \<Rightarrow> ptr \<Rightarrow> bool \<Rightarrow> bool \<Rightarrow> uint32 \<Rightarrow> ((fstate \<times> fcv list) outcome) option" where
  "fileset_unbusy tmp s entry update_exist new_exist_val open_cnt_incr =
     (if entry = NULL \<or> fse_fileset (ents s entry) = NULL then Some (Returns (s, []))
      else if fs_pick_lock (fs s) then Some Waits
      else do {
        let s = lock_pick s True;
        s \<leftarrow> (if update_exist then unbusy_exist tmp s entry new_exist_val else Some s);
        let s = upd_ent s entry (\<lambda>e. e\<lparr>fse_open_cnt := fse_open_cnt e + open_cnt_incr\<rparr>);
        let (s, woken) = unbusy_release s entry;
        Some (Returns (lock_pick s False, woken)) })"

subsection \<open>Adding entries\<close>

definition fileset_insfilelist :: "fstate \<Rightarrow> ptr \<Rightarrow> fstate option" where
  "fileset_insfilelist s entry = do {
     let s = upd_ent s entry (set_flags (\<lambda>_. FSE_TYPE_FILE OR FSE_FREE));
     ht \<leftarrow> avl_add (ents s) (heap s) (fs_tree (fs s) fs_free_files) entry;
     let s = set_tree s fs_free_files ht;
     let s = upd_ent s entry (\<lambda>e. e\<lparr>fse_nextoftype := fs_filelist (fs s)\<rparr>);
     Some (s\<lparr>fs := (fs s)\<lparr>fs_filelist := entry\<rparr>\<rparr>) }"

definition fileset_insdirlist :: "fstate \<Rightarrow> ptr \<Rightarrow> fstate option" where
  "fileset_insdirlist s entry = do {
     let s = upd_ent s entry (set_flags (\<lambda>_. FSE_TYPE_DIR OR FSE_EXISTS));
     ht \<leftarrow> avl_add (ents s) (heap s) (fs_tree (fs s) fs_dirs) entry;
     let s = set_tree s fs_dirs ht;
     let s = upd_ent s entry (\<lambda>e. e\<lparr>fse_nextoftype := fs_dirlist (fs s)\<rparr>);
     Some (s\<lparr>fs := (fs s)\<lparr>fs_dirlist := entry\<rparr>\<rparr>) }"

definition fileset_insleafdirlist :: "fstate \<Rightarrow> ptr \<Rightarrow> fstate option" where
  "fileset_insleafdirlist s entry = do {
     let s = upd_ent s entry (set_flags (\<lambda>_. FSE_TYPE_LEAFDIR OR FSE_FREE));
     ht \<leftarrow> avl_add (ents s) (heap s) (fs_tree (fs s) fs_free_leaf_dirs) entry;
     let s = set_tree s fs_free_leaf_dirs ht;
     let s = upd_ent s entry (\<lambda>e. e\<lparr>fse_nextoftype := fs_leafdirlist (fs s)\<rparr>);
     Some (s\<lparr>fs := (fs s)\<lparr>fs_leafdirlist := entry\<rparr>\<rparr>) }"

text \<open>
  A new entry. The arguments are what the calls inside return: the \<open>entry\<close> of \<open>ipc_malloc\<close>, the \<open>name\<close> of
  \<open>ipc_pathalloc\<close> (\<open>None\<close> for \<open>NULL\<close>) and the size \<open>bytes\<close> drawn for a file; \<open>fsp\<close> is the address of the fileset.
  Only one thread populates a fileset, so that \<open>fs_pick_lock\<close> is free.
\<close>

definition new_entry :: "ptr \<Rightarrow> ptr \<Rightarrow> uint32 \<Rightarrow> fstate \<Rightarrow> ptr \<Rightarrow> fstate" where
  "new_entry fsp parent index s entry =
     upd_ent s entry (\<lambda>e. e\<lparr>fse_index := index, fse_parent := parent, fse_fileset := fsp\<rparr>)"

definition fileset_populate_file :: "ptr \<Rightarrow> fstate \<Rightarrow> ptr \<Rightarrow> ptr \<Rightarrow> string option \<Rightarrow> uint64 \<Rightarrow> (int \<times> fstate) option" where
  "fileset_populate_file fsp s parent entry name bytes =
     (if entry = NULL then Some (FILEBENCH_ERROR, s)
      else do {
        let index = ucast (fs_idle_files (fs s));
        let s = add_idle FSE_TYPE_FILE 1 s;
        s \<leftarrow> fileset_insfilelist (new_entry fsp parent index s entry) entry;
        let s = upd_ent s entry (\<lambda>e. e\<lparr>fse_path := name\<rparr>);
        if name = None then Some (FILEBENCH_ERROR, s)
        else
          let s = upd_ent s entry (\<lambda>e. e\<lparr>fse_size := bytes\<rparr>) in
          Some (FILEBENCH_OK, s\<lparr>fs := (fs s)\<lparr>fs_bytes := fs_bytes (fs s) + bytes, fs_realfiles := fs_realfiles (fs s) + 1\<rparr>\<rparr>) })"

definition fileset_populate_leafdir :: "ptr \<Rightarrow> fstate \<Rightarrow> ptr \<Rightarrow> ptr \<Rightarrow> string option \<Rightarrow> (int \<times> fstate) option" where
  "fileset_populate_leafdir fsp s parent entry name =
     (if entry = NULL then Some (FILEBENCH_ERROR, s)
      else do {
        let index = ucast (fs_idle_leafdirs (fs s));
        let s = add_idle FSE_TYPE_LEAFDIR 1 s;
        s \<leftarrow> fileset_insleafdirlist (new_entry fsp parent index s entry) entry;
        let s = upd_ent s entry (\<lambda>e. e\<lparr>fse_path := name\<rparr>);
        if name = None then Some (FILEBENCH_ERROR, s)
        else Some (FILEBENCH_OK, s\<lparr>fs := (fs s)\<lparr>fs_realleafdirs := fs_realleafdirs (fs s) + 1\<rparr>\<rparr>) })"

text \<open>The directory node of \<open>fileset_populate_subdir\<close>; a failing path leaves the idle count raised and the entry on no list.\<close>

definition populate_dirnode :: "ptr \<Rightarrow> fstate \<Rightarrow> ptr \<Rightarrow> ptr \<Rightarrow> string option \<Rightarrow> (int \<times> fstate) option" where
  "populate_dirnode fsp s parent entry name =
     (if entry = NULL then Some (FILEBENCH_ERROR, s)
      else do {
        let index = ucast (fs_idle_dirs (fs s));
        let s = add_idle FSE_TYPE_DIR 1 s;
        let s = upd_ent s entry (\<lambda>e. e\<lparr>fse_path := name\<rparr>);
        if name = None then Some (FILEBENCH_ERROR, s)
        else do {
          s \<leftarrow> fileset_insdirlist (new_entry fsp parent index s entry) entry;
          Some (FILEBENCH_OK, s) } })"

text \<open>The counters, the lock and the trees as \<open>fileset_populate\<close> sets them up.\<close>

definition fileset_create_trees :: "uint64 \<Rightarrow> uint64 \<Rightarrow> fstate \<Rightarrow> fbint \<Rightarrow> fbint \<Rightarrow> fstate" where
  "fileset_create_trees sz off s entries leafdirs = s\<lparr>fs := (fs s)\<lparr>fs_constentries := entries, fs_constleafdirs := leafdirs,
     fs_idle_files := 0, fs_idle_dirs := 0, fs_idle_leafdirs := 0, fs_pick_lock := False,
     fs_tree := (\<lambda>t. case avl_create (Some (fs_tree (fs s) t)) (Some fileset_entry_compare) sz off of
                        Some tr \<Rightarrow> tr | None \<Rightarrow> fs_tree (fs s) t)\<rparr>\<rparr>"

end
