(* ===== verification/FB_Fileset_Trees.thy ===== *)
theory FB_Fileset_Trees
  imports FB_Fileset
begin

text \<open>
  The seven trees of a fileset on one heap: what moving an entry between two trees, searching for an
  index and scanning past the busy entries do, in terms of the lists of entries of the trees. The facts
  on a single tree come from the interpretation \<open>fse\<close> of the contract of the AVL library.
\<close>

subsection \<open>The trees\<close>

abbreviation idx :: "fstate \<Rightarrow> ptr \<Rightarrow> uint32" where
  "idx s e \<equiv> fse_index (ents s e)"

abbreviation busy :: "fstate \<Rightarrow> ptr \<Rightarrow> bool" where
  "busy s e \<equiv> fse_flags (ents s e) AND FSE_BUSY \<noteq> 0"

definition trees_hold :: "uint64 \<Rightarrow> fstate \<Rightarrow> (ftree \<Rightarrow> ptr list) \<Rightarrow> bool" where
  "trees_hold off s D \<longleftrightarrow>
     (\<forall>t. avl_holds (heap s) (fs_tree (fs s) t) (D t) \<and> avl_compar (fs_tree (fs s) t) = fileset_entry_compare
        \<and> avl_offset (fs_tree (fs s) t) = off \<and> sorted_wrt (\<lambda>x y. idx s x < idx s y) (D t))
     \<and> (\<forall>t t'. t \<noteq> t' \<longrightarrow> set (D t) \<inter> set (D t') = {})"

lemma trees_holdD:
  assumes "trees_hold off s D"
  shows "avl_holds (heap s) (fs_tree (fs s) t) (D t)" "avl_compar (fs_tree (fs s) t) = fileset_entry_compare"
    "avl_offset (fs_tree (fs s) t) = off" "sorted_wrt (\<lambda>x y. idx s x < idx s y) (D t)"
    "t \<noteq> t' \<Longrightarrow> set (D t) \<inter> set (D t') = {}"
    "e \<in> set (D t) \<Longrightarrow> e \<noteq> NULL \<and> aligned e \<and> e + off \<noteq> NULL"
proof -
  show H: "avl_holds (heap s) (fs_tree (fs s) t) (D t)" and "avl_compar (fs_tree (fs s) t) = fileset_entry_compare"
    and off: "avl_offset (fs_tree (fs s) t) = off" and "sorted_wrt (\<lambda>x y. idx s x < idx s y) (D t)"
    and "t \<noteq> t' \<Longrightarrow> set (D t) \<inter> set (D t') = {}"
    using assms unfolding trees_hold_def by blast+
  show "e \<noteq> NULL \<and> aligned e \<and> e + off \<noteq> NULL" if "e \<in> set (D t)"
    using H that off avl_holds_node [OF H that] by (auto simp: avl_holds_def AVL_DATA2NODE_def)
qed

lemma nodes_of_off: "avl_offset tree = off \<Longrightarrow> nodes_of tree ds = (\<lambda>d. d + off) ` set ds"
  by (simp add: nodes_of_def AVL_DATA2NODE_def)

lemma set_tree_simps [simp]:
  "heap (set_tree s t ht) = fst ht" "ents (set_tree s t ht) = ents s"
  "fs_tree (fs (set_tree s t ht)) = (fs_tree (fs s))(t := snd ht)"
  by (simp_all add: set_tree_def)

text \<open>Replacing one tree, when its new nodes are outside the other trees.\<close>

lemma trees_hold_set_tree:
  assumes T: "trees_hold off s D"
    and new: "avl_holds h' tree' ds'" "avl_compar tree' = fileset_entry_compare" "avl_offset tree' = off"
      "sorted_wrt (\<lambda>x y. idx s x < idx s y) ds'"
    and dj: "\<And>t'. t' \<noteq> t \<Longrightarrow> set ds' \<inter> set (D t') = {}"
    and fr: "\<And>t' d. t' \<noteq> t \<Longrightarrow> d \<in> set (D t') \<Longrightarrow> h' (d + off) = heap s (d + off)"
  shows "trees_hold off (set_tree s t (h', tree')) (D(t := ds'))"
proof -
  have "avl_holds h' (fs_tree (fs s) t') (D t')" if "t' \<noteq> t" for t'
    using avl_holds_frame [OF trees_holdD(1) [OF T], of t' h'] fr [OF that] trees_holdD(3) [OF T]
    by (auto simp: nodes_of_off)
  then show ?thesis using T new dj unfolding trees_hold_def by (auto simp: Int_commute)
qed

lemma add_trees:
  assumes T: "trees_hold off s D" and e: "\<forall>t. e \<notin> set (D t)" "aligned e" "e \<noteq> NULL" "e + off \<noteq> NULL"
    and new: "\<forall>d \<in> set (D t). idx s d \<noteq> idx s e"
  obtains h' t' where "avl_add (ents s) (heap s) (fs_tree (fs s) t) e = Some (h', t')"
    "trees_hold off (set_tree s t (h', t')) (D(t := insort_key (idx s) e (D t)))"
proof -
  let ?T = "fs_tree (fs s) t"
  note TD = trees_holdD [OF T]
  have e': "e + avl_offset ?T \<noteq> NULL" using e(4) TD(3) by simp
  obtain h2 t2 where A: "avl_add (ents s) (heap s) ?T e = Some (h2, t2)"
    "avl_holds h2 t2 (insort_key (idx s) e (D t))"
    "only_in (nodes_of ?T (e # D t)) (heap s) (?T\<lparr>avl_numnodes := avl_numnodes ?T + 1\<rparr>) h2 t2"
    by (rule fse.find_add_absent [OF TD(1,2,4) new e(2,3) e'])
  note f2 = only_in_fields [OF A(3)]
  have "trees_hold off (set_tree s t (h2, t2)) (D(t := insort_key (idx s) e (D t)))"
  proof (rule trees_hold_set_tree [OF T A(2)])
    show "avl_compar t2 = fileset_entry_compare" "avl_offset t2 = off" using f2 TD(2,3) by simp_all
    show "sorted_wrt (\<lambda>x y. idx s x < idx s y) (insort_key (idx s) e (D t))" by (rule insort_strict [OF TD(4) new])
    show dj: "set (insort_key (idx s) e (D t)) \<inter> set (D t') = {}" if "t' \<noteq> t" for t'
      using TD(5) [of t t'] that e(1) by (auto simp: set_insort_key)
    show "h2 (d + off) = heap s (d + off)" if "t' \<noteq> t" "d \<in> set (D t')" for t' d
    proof -
      have "d \<notin> set (e # D t)" using dj [OF that(1)] that(2) by (auto simp: set_insort_key)
      then have "d + off \<notin> nodes_of ?T (e # D t)" by (auto simp: nodes_of_off [OF TD(3)])
      with A(3) show ?thesis by (simp add: only_in_def)
    qed
  qed
  with A(1) that show thesis by blast
qed

lemma fileset_move_entry_trees:
  assumes T: "trees_hold off s D" and e: "e \<in> set (D src)" "src \<noteq> dst"
    and new: "\<forall>d \<in> set (D dst). idx s d \<noteq> idx s e"
    and tmp: "tmp \<noteq> NULL" "\<forall>t. \<forall>d \<in> set (D t). tmp \<noteq> d + off"
  obtains s' T' where "fileset_move_entry tmp s src dst e = Some s'" "ents s' = ents s"
    "fs s' = (fs s)\<lparr>fs_tree := T'\<rparr>"
    "trees_hold off s' (D(src := remove1 e (D src), dst := insort_key (idx s) e (D dst)))"
proof -
  note TD = trees_holdD [OF T]
  obtain h1 t1 where R: "avl_remove (heap s) (fs_tree (fs s) src) tmp e = Some (h1, t1)"
    "avl_holds h1 t1 (remove1 e (D src))"
    "only_in (insert tmp ((\<lambda>d. d + off) ` set (D src))) (heap s)
       ((fs_tree (fs s) src)\<lparr>avl_numnodes := avl_numnodes (fs_tree (fs s) src) - 1\<rparr>) h1 t1"
    by (rule avl_remove_holds [OF TD(1) e(1) tmp(1)]) (use tmp TD(3) in \<open>auto simp: nodes_of_off\<close>)
  note f1 = only_in_fields [OF R(3)]
  let ?s1 = "set_tree s src (h1, t1)" and ?D1 = "D(src := remove1 e (D src))"
  have srt: "sorted_wrt (\<lambda>x y. idx s x < idx s y) (remove1 e (D src))"
    using TD(4) [of src] avl_holds_distinct [OF TD(1), of src]
    by (simp add: distinct_remove1_removeAll removeAll_filter_not_eq sorted_wrt_filter)
  have T1: "trees_hold off ?s1 ?D1"
  proof (rule trees_hold_set_tree [OF T R(2)])
    show "avl_compar t1 = fileset_entry_compare" "avl_offset t1 = off" using f1 TD(2,3) by simp_all
    show "set (remove1 e (D src)) \<inter> set (D t') = {}" if "t' \<noteq> src" for t'
      using TD(5) [of src t'] that set_remove1_subset [of e "D src"] by fastforce
    show "h1 (d + off) = heap s (d + off)" if "t' \<noteq> src" "d \<in> set (D t')" for t' d
      using R(3) TD(5) [of t' src] that tmp(2) unfolding only_in_def by (fastforce simp: image_iff)
  qed (rule srt)
  have e0: "aligned e" "e \<noteq> NULL" "e + off \<noteq> NULL" using TD(6) e(1) by blast+
  have eD: "\<forall>t. e \<notin> set (?D1 t)"
  proof
    show "e \<notin> set (?D1 t)" for t
      using TD(5) [of src t] e(1) avl_holds_distinct [OF TD(1), of src] by (cases "t = src") auto
  qed
  have new1: "\<forall>d \<in> set (?D1 dst). idx ?s1 d \<noteq> idx ?s1 e" using new e(2) by simp
  obtain h2 t2 where A: "avl_add (ents ?s1) (heap ?s1) (fs_tree (fs ?s1) dst) e = Some (h2, t2)"
    "trees_hold off (set_tree ?s1 dst (h2, t2)) (?D1(dst := insort_key (idx ?s1) e (?D1 dst)))"
    by (rule add_trees [OF T1 eD e0 new1])
  let ?s2 = "set_tree ?s1 dst (h2, t2)"
  have "fileset_move_entry tmp s src dst e = Some ?s2"
    using R(1) A(1) e(2) by (simp add: fileset_move_entry_def Let_def)
  moreover have "fs ?s2 = (fs s)\<lparr>fs_tree := (fs_tree (fs s))(src := t1, dst := t2)\<rparr>" by (simp add: set_tree_def)
  ultimately show thesis using that A(2) e(2) by simp
qed

text \<open>The entries of a tree, starting at an index and going round.\<close>

definition from_index :: "fstate \<Rightarrow> uint32 \<Rightarrow> ptr list \<Rightarrow> ptr list" where
  "from_index s k ds = dropWhile (\<lambda>e. idx s e < k) ds @ takeWhile (\<lambda>e. idx s e < k) ds"

lemma set_from_index [simp]: "set (from_index s k ds) = set ds"
  using arg_cong [OF takeWhile_dropWhile_id, of set "\<lambda>e. idx s e < k" ds] by (auto simp: from_index_def simp del: takeWhile_dropWhile_id)

lemma sorted_key_hd:
  fixes f :: "ptr \<Rightarrow> uint32"
  assumes "sorted_wrt (\<lambda>x y. f x < f y) ds" "d \<in> set ds"
  shows "first_or_null (dropWhile (\<lambda>e. f e < f d) ds) = d"
proof -
  obtain xs ys where ds: "ds = xs @ d # ys" using split_list [OF assms(2)] by blast
  then have "\<forall>x \<in> set xs. f x < f d" using assms(1) by (simp add: sorted_wrt_append)
  then show ?thesis by (simp add: ds)
qed

lemma sorted_wrt_cong_set:
  "(\<And>x. x \<in> set ds \<Longrightarrow> f x = g x) \<Longrightarrow> sorted_wrt (\<lambda>x y. f x < f y) ds = sorted_wrt (\<lambda>x y. g x < (g y :: uint32)) ds"
  by (induction ds) auto

lemma fileset_find_entry_trees:
  assumes T: "trees_hold off s D" and loc: "loc \<notin> set (D t)"
  shows "fileset_find_entry loc s t k = Some (first_or_null (from_index s k (D t)))"
proof -
  let ?m = "(ents s)(loc := (ents s loc)\<lparr>fse_index := k\<rparr>)" and ?T = "fs_tree (fs s) t"
  note H = trees_holdD(1,2) [OF T, where t = t]
  have key: "fse_index (?m d) = idx s d" if "d \<in> set (D t)" for d using loc that by auto
  have st: "sorted_wrt (\<lambda>x y. fse_index (?m x) < fse_index (?m y)) (D t)"
    using trees_holdD(4) [OF T, of t] sorted_wrt_cong_set [of "D t" "\<lambda>e. fse_index (?m e)" "idx s"] key by simp
  have dw: "dropWhile (\<lambda>d. fse_index (?m d) < fse_index (?m loc)) (D t) = dropWhile (\<lambda>d. idx s d < k) (D t)"
    by (rule dropWhile_cong) (simp_all add: key del: fun_upd_apply, simp)
  have NN: "NULL \<notin> set (D t)" using H(1) by (simp add: avl_holds_def)
  show ?thesis
  proof (cases "\<exists>d \<in> set (D t). idx s d = k")
    case True
    then obtain d where d: "d \<in> set (D t)" "idx s d = k" by blast
    have "avl_find ?m (heap s) ?T loc = Some (d, Some 0)"
      by (rule fse.find_present [OF H st d(1)]) (use d key in simp)
    moreover have "first_or_null (dropWhile (\<lambda>d. idx s d < k) (D t)) = d"
      using sorted_key_hd [OF trees_holdD(4) [OF T] d(1)] d(2) by simp
    moreover have "d \<noteq> NULL" using NN d by auto
    moreover have "first_or_null (from_index s k (D t)) = d"
      using calculation(2,3) by (cases "dropWhile (\<lambda>d. idx s d < k) (D t)") (simp_all add: from_index_def)
    ultimately show ?thesis by (simp add: fileset_find_entry_def Let_def)
  next
    case False
    then have v: "\<forall>d \<in> set (D t). fse_index (?m d) \<noteq> fse_index (?m loc)" using key by auto
    obtain w where w: "avl_find ?m (heap s) ?T loc = Some (NULL, Some w)"
      "avl_nearest (heap s) ?T w AVL_AFTER = Some (first_or_null (dropWhile (\<lambda>d. idx s d < k) (D t)))"
      using fse.find_nearest [OF H st v] unfolding dw by blast
    have z: "first_or_null xs = NULL \<longleftrightarrow> xs = []" if "set xs \<subseteq> set (D t)" for xs
      using NN that by (cases xs) auto
    have z': "first_or_null (dropWhile (\<lambda>d. idx s d < k) (D t)) = NULL \<longleftrightarrow> dropWhile (\<lambda>d. idx s d < k) (D t) = []"
      by (rule z) (use set_dropWhileD in fastforce)
    have tw: "takeWhile (\<lambda>d. idx s d < k) (D t) = D t" if "dropWhile (\<lambda>d. idx s d < k) (D t) = []"
      using that by (metis append_Nil2 takeWhile_dropWhile_id)
    show ?thesis
    proof (cases "dropWhile (\<lambda>d. idx s d < k) (D t) = []")
      case True
      have "from_index s k (D t) = D t" unfolding from_index_def True tw [OF True] by simp
      with w [unfolded True] avl_first_holds(1) [OF H(1)] show ?thesis by (simp add: fileset_find_entry_def Let_def)
    next
      case False
      with w z' show ?thesis by (simp add: fileset_find_entry_def Let_def from_index_def del: dropWhile_eq_Nil_conv)
    qed
  qed
qed

text \<open>Going on from an entry to the next one, and from the last one to the first.\<close>

lemma cyclic_next:
  assumes H: "avl_holds h tree ds" and r: "ds = xs @ ys" "ys @ xs = us @ e # vs"
  shows "do { nxt \<leftarrow> AVL_NEXT h tree e; if nxt = NULL then avl_first h tree else Some nxt }
    = Some (hd (vs @ us @ [e]))"
proof -
  have nz: "NULL \<notin> set ds" using H by (simp add: avl_holds_def)
  have *: ?thesis if "ds = as @ e # bs" "vs @ us = bs @ as" for as bs
  proof (cases bs)
    case Nil
    then have "hd (vs @ us @ [e]) = hd (as @ [e])" using that(2) by (metis append_assoc append_Nil)
    with that Nil have "first_or_null ds = hd (vs @ us @ [e])" by (cases as) simp_all
    with that Nil avl_walk_holds(1) [OF H [unfolded that(1)]] avl_first_holds(1) [OF H] show ?thesis by simp
  next
    case (Cons b bs')
    then have "hd (vs @ us @ [e]) = b" using that(2) by (metis append_Cons append_assoc list.sel(1))
    with that Cons nz avl_walk_holds(1) [OF H [unfolded that(1)]] show ?thesis by simp
  qed
  from r(2) consider zs where "ys = us @ e # zs" "vs = zs @ xs" | zs where "xs = zs @ e # vs" "us = ys @ zs"
    by (auto simp: append_eq_append_conv2 append_eq_Cons_conv Cons_eq_append_conv)
  then show ?thesis
  proof cases
    case (1 zs)
    then show ?thesis by (intro * [of "xs @ us" zs]) (simp_all add: r)
  next
    case (2 zs)
    then show ?thesis by (intro * [of zs "vs @ ys"]) (simp_all add: r)
  qed
qed

lemma busy_scan_finds:
  assumes H: "avl_holds h tree ds" and r: "ds = xs @ ys" "ys @ xs = us @ e # vs"
    and us: "\<forall>d \<in> set us. fse_flags (m d) AND FSE_BUSY \<noteq> 0"
  shows "busy_scan m h tree (hd (us @ [e])) e =
    Some (case find (\<lambda>d. fse_flags (m d) AND FSE_BUSY = 0) (e # vs) of None \<Rightarrow> NULL | Some d \<Rightarrow> d)"
  using r(2) us
proof (induction vs arbitrary: us e)
  case (Cons v vs)
  have "set (us @ e # v # vs) = set ds" "distinct (us @ e # v # vs)"
    using arg_cong [OF Cons.prems(1), of set] arg_cong [OF Cons.prems(1), of distinct] avl_holds_distinct [OF H]
    by (auto simp: r(1))
  moreover have "NULL \<notin> set ds" using H by (simp add: avl_holds_def)
  ultimately have v: "v \<noteq> NULL" "v \<noteq> hd (us @ [e])" by (auto simp: hd_append split: if_splits)
  show ?case
  proof (cases "fse_flags (m e) AND FSE_BUSY = 0")
    case True
    then show ?thesis by (subst busy_scan.simps) simp
  next
    case False
    have "busy_scan m h tree (hd ((us @ [e]) @ [v])) v =
      Some (case find (\<lambda>d. fse_flags (m d) AND FSE_BUSY = 0) (v # vs) of None \<Rightarrow> NULL | Some d \<Rightarrow> d)"
      by (rule Cons.IH) (use Cons.prems False in auto)
    moreover have "hd ((us @ [e]) @ [v]) = hd (us @ [e])" by (cases us) simp_all
    moreover have "busy_scan m h tree (hd (us @ [e])) e = busy_scan m h tree (hd (us @ [e])) v"
      using cyclic_next [OF H r(1) Cons.prems(1)] False v
      by (subst busy_scan.simps) (auto simp: bind_eq_Some_conv)
    ultimately show ?thesis using False by simp
  qed
next
  case Nil
  obtain nxt where n: "AVL_NEXT h tree e = Some nxt"
    "(if nxt = NULL then avl_first h tree else Some nxt) = Some (hd (us @ [e]))"
    using cyclic_next [OF H r(1) Nil(1)] unfolding bind_eq_Some_conv append_Nil by blast
  show ?case using n by (subst busy_scan.simps) (cases "nxt = NULL"; simp)
qed

end
