(* ===== verification/FB_Fileset_Correct.thy ===== *)
theory FB_Fileset_Correct
  imports FB_Fileset_Trees
begin

text \<open>
  The invariant of a fileset: an entry is always in the one tree its flags call for, and the idle counts
  are the numbers of entries that are not busy. Picking an entry and giving it back keep it.
\<close>

subsection \<open>The invariant of a fileset\<close>

text \<open>The tree an entry with the given flags belongs to.\<close>

definition home :: "uint32 \<Rightarrow> ftree" where
  "home f =
     (if f AND FSE_TYPE_MASK = FSE_TYPE_DIR then fs_dirs
      else if f AND FSE_TYPE_MASK = FSE_TYPE_FILE then
        if f AND FSE_FREE \<noteq> 0 then fs_free_files
        else if f AND FSE_EXISTS \<noteq> 0 then fs_exist_files else fs_noex_files
      else if f AND FSE_FREE \<noteq> 0 then fs_free_leaf_dirs
      else if f AND FSE_EXISTS \<noteq> 0 then fs_exist_leaf_dirs else fs_noex_leaf_dirs)"

abbreviation flags_of :: "fstate \<Rightarrow> ptr \<Rightarrow> uint32" where
  "flags_of s e \<equiv> fse_flags (ents s e)"

definition idle_of :: "fstate \<Rightarrow> uint32 \<Rightarrow> uint64" where
  "idle_of s k = (if k = FSE_TYPE_FILE then fs_idle_files (fs s) else if k = FSE_TYPE_DIR then fs_idle_dirs (fs s)
     else fs_idle_leafdirs (fs s))"

definition idle_set :: "ptr set \<Rightarrow> fstate \<Rightarrow> uint32 \<Rightarrow> ptr set" where
  "idle_set E s k = {e \<in> E. flags_of s e AND FSE_TYPE_MASK = k \<and> \<not> busy s e}"

definition in_home :: "uint64 \<Rightarrow> ptr set \<Rightarrow> fstate \<Rightarrow> bool" where
  "in_home off E s \<longleftrightarrow>
     (\<exists>D. trees_hold off s D \<and> (\<forall>t. set (D t) = {e \<in> E. home (flags_of s e) = t}))
     \<and> (\<forall>e \<in> E. flags_of s e AND FSE_TYPE_MASK \<noteq> 3)
     \<and> (\<forall>e \<in> E. \<forall>e' \<in> E. flags_of s e AND FSE_TYPE_MASK = flags_of s e' AND FSE_TYPE_MASK \<and> idx s e = idx s e' \<longrightarrow> e = e')"

definition fs_inv :: "uint64 \<Rightarrow> ptr set \<Rightarrow> fstate \<Rightarrow> bool" where
  "fs_inv off E s \<longleftrightarrow> in_home off E s
     \<and> (\<forall>k \<in> {FSE_TYPE_FILE, FSE_TYPE_DIR, FSE_TYPE_LEAFDIR}. idle_of s k = of_nat (card (idle_set E s k)))
     \<and> \<not> fs_pick_lock (fs s)"

lemmas flag_simps = and.assoc bit.conj_disj_distrib2

lemma type_cases:
  fixes f :: uint32
  assumes "f AND FSE_TYPE_MASK \<noteq> 3"
  obtains "f AND FSE_TYPE_MASK = FSE_TYPE_FILE" | "f AND FSE_TYPE_MASK = FSE_TYPE_DIR" | "f AND FSE_TYPE_MASK = FSE_TYPE_LEAFDIR"
proof -
  have "f AND 3 = take_bit 2 f" by (simp add: take_bit_eq_mask mask_eq_exp_minus_1)
  then have "unat (f AND 3) = take_bit 2 (unat f)" by (simp only: unsigned_take_bit_eq)
  then have "unat (f AND 3) < 4" by (simp add: take_bit_eq_mod)
  then have "unat (f AND 3) = 0 \<or> unat (f AND 3) = 1 \<or> unat (f AND 3) = 2 \<or> unat (f AND 3) = 3" by linarith
  then have "f AND 3 = 0 \<or> f AND 3 = 1 \<or> f AND 3 = 2 \<or> f AND 3 = 3"
    by (simp add: word_unat_eq_iff)
  with assms that show thesis by auto
qed

lemma trees_hold_cong:
  assumes "heap s' = heap s" "fs_tree (fs s') = fs_tree (fs s)" "\<And>t e. e \<in> set (D t) \<Longrightarrow> idx s' e = idx s e"
  shows "trees_hold off s' D = trees_hold off s D"
proof -
  have "sorted_wrt (\<lambda>x y. idx s' x < idx s' y) (D t) = sorted_wrt (\<lambda>x y. idx s x < idx s y) (D t)" for t
    by (rule sorted_wrt_cong_set) (rule assms(3))
  then show ?thesis unfolding trees_hold_def assms(1,2) by (simp only:)
qed

lemma in_home_cong:
  assumes I: "in_home off E s" and s: "heap s' = heap s" "fs_tree (fs s') = fs_tree (fs s)"
    and e: "\<And>e. e \<in> E \<Longrightarrow> idx s' e = idx s e" "\<And>e. e \<in> E \<Longrightarrow> home (flags_of s' e) = home (flags_of s e)"
    "\<And>e. e \<in> E \<Longrightarrow> flags_of s' e AND FSE_TYPE_MASK = flags_of s e AND FSE_TYPE_MASK"
  shows "in_home off E s'"
proof -
  obtain D where D: "trees_hold off s D" "\<forall>t. set (D t) = {x \<in> E. home (flags_of s x) = t}"
    using I unfolding in_home_def by blast
  have "trees_hold off s' D" using D(1) by (subst trees_hold_cong [OF s]) (use D(2) e(1) in simp_all)
  moreover have "\<forall>t. set (D t) = {x \<in> E. home (flags_of s' x) = t}" using D(2) e(2) by auto
  moreover have "\<forall>e \<in> E. flags_of s' e AND FSE_TYPE_MASK \<noteq> 3" using I e(3) by (simp add: in_home_def)
  moreover have "\<forall>e \<in> E. \<forall>e' \<in> E. flags_of s' e AND FSE_TYPE_MASK = flags_of s' e' AND FSE_TYPE_MASK \<and> idx s' e = idx s' e' \<longrightarrow> e = e'"
    using I e(1,3) by (simp add: in_home_def)
  ultimately show ?thesis unfolding in_home_def by blast
qed

text \<open>Changing the flags of an entry and moving it to its new home.\<close>

lemma upd_ent_simps [simp]:
  "heap (upd_ent s e g) = heap s" "fs (upd_ent s e g) = fs s" "ents (upd_ent s e g) = (ents s)(e := g (ents s e))"
  by (simp_all add: upd_ent_def)

lemma set_flags_simps [simp]:
  "fse_flags (set_flags g x) = g (fse_flags x)" "fse_index (set_flags g x) = fse_index x"
  "fse_fileset (set_flags g x) = fse_fileset x"
  by (simp_all add: set_flags_def)

lemma move_home:
  assumes I: "in_home off E s" and e: "e \<in> E" and g: "g (flags_of s e) AND FSE_TYPE_MASK = flags_of s e AND FSE_TYPE_MASK"
    and h: "home (flags_of s e) \<noteq> home (g (flags_of s e))"
    and ty: "\<And>x. x \<in> E \<Longrightarrow> home (flags_of s x) = home (g (flags_of s e)) \<Longrightarrow>
      flags_of s x AND FSE_TYPE_MASK = flags_of s e AND FSE_TYPE_MASK"
    and tmp: "tmp \<noteq> NULL" "\<forall>d \<in> E. tmp \<noteq> d + off"
  defines "s1 \<equiv> upd_ent s e (set_flags g)"
  obtains s' T' where "fileset_move_entry tmp s1 (home (flags_of s e)) (home (g (flags_of s e))) e = Some s'"
    "ents s' = ents s1" "fs s' = (fs s)\<lparr>fs_tree := T'\<rparr>" "in_home off E s'"
proof -
  obtain D where D: "trees_hold off s D" "\<And>t. set (D t) = {x \<in> E. home (flags_of s x) = t}"
    and I2: "\<forall>e \<in> E. flags_of s e AND FSE_TYPE_MASK \<noteq> 3"
      "\<forall>e \<in> E. \<forall>e' \<in> E. flags_of s e AND FSE_TYPE_MASK = flags_of s e' AND FSE_TYPE_MASK \<and> idx s e = idx s e' \<longrightarrow> e = e'"
    using I unfolding in_home_def by blast
  let ?a = "home (flags_of s e)" and ?b = "home (g (flags_of s e))"
  have ix: "idx s1 x = idx s x" for x by (simp add: s1_def)
  have T1: "trees_hold off s1 D" using D(1) by (subst trees_hold_cong [of s1 s]) (simp_all add: s1_def)
  have e1: "e \<in> set (D ?a)" using D(2) e by simp
  have new: "\<forall>d \<in> set (D ?b). idx s1 d \<noteq> idx s1 e"
  proof
    fix d assume "d \<in> set (D ?b)"
    then have d: "d \<in> E" "home (flags_of s d) = ?b" by (simp_all add: D(2))
    then have "d \<noteq> e" using h by auto
    with I2(2) ty [OF d] d(1) e show "idx s1 d \<noteq> idx s1 e" unfolding ix by blast
  qed
  have tmp': "\<forall>t. \<forall>d \<in> set (D t). tmp \<noteq> d + off" using D(2) tmp(2) by auto
  obtain s' T' where S: "fileset_move_entry tmp s1 ?a ?b e = Some s'" "ents s' = ents s1"
    "fs s' = (fs s1)\<lparr>fs_tree := T'\<rparr>"
    "trees_hold off s' (D(?a := remove1 e (D ?a), ?b := insort_key (idx s1) e (D ?b)))"
    by (rule fileset_move_entry_trees [OF T1 e1 h new tmp(1) tmp'])
  have fl: "flags_of s' x = (if x = e then g (flags_of s e) else flags_of s x)" for x by (simp add: S(2) s1_def)
  let ?D = "D(?a := remove1 e (D ?a), ?b := insort_key (idx s1) e (D ?b))"
  have di: "distinct (D ?a)" by (rule avl_holds_distinct [OF trees_holdD(1) [OF D(1)]])
  have DD: "set (?D t) = {x \<in> E. home (flags_of s' x) = t}" for t
  proof -
    consider "t = ?b" | "t = ?a" "t \<noteq> ?b" | "t \<noteq> ?a" "t \<noteq> ?b" by blast
    then show ?thesis
    proof cases
      case 1
      then have "set (?D t) = insert e (set (D ?b))" by (simp add: set_insort_key)
      then show ?thesis using 1 e by (auto simp: D(2) fl)
    next
      case 2
      then have "set (?D t) = set (D ?a) - {e}" using di by simp
      then show ?thesis using 2 by (auto simp: D(2) fl)
    next
      case 3
      then have "set (?D t) = set (D t)" by simp
      then show ?thesis using 3 by (auto simp: D(2) fl)
    qed
  qed
  have ty': "flags_of s' x AND FSE_TYPE_MASK = flags_of s x AND FSE_TYPE_MASK" for x using g by (simp add: fl)
  have ix': "idx s' x = idx s x" for x by (simp add: S(2) ix)
  have "in_home off E s'" unfolding in_home_def ty' ix'
    by (intro conjI exI [of _ ?D] S(4) allI DD I2)
  with S that show thesis by (simp add: s1_def)
qed

text \<open>The flags after an entry has been given back with a new state of existence.\<close>

definition exist_flags :: "bool \<Rightarrow> uint32 \<Rightarrow> uint32" where
  "exist_flags b f =
     (if b then if f AND FSE_FREE \<noteq> 0 then (f OR FSE_EXISTS) AND NOT FSE_FREE
                else if f AND FSE_EXISTS = 0 then f OR FSE_EXISTS else f
      else if f AND FSE_FREE \<noteq> 0 then f AND NOT (FSE_FREE OR FSE_EXISTS)
      else if f AND FSE_EXISTS \<noteq> 0 then f AND NOT FSE_EXISTS else f)"

lemma exist_flags_simps [simp]:
  "exist_flags b f AND FSE_TYPE_MASK = f AND FSE_TYPE_MASK" "exist_flags b f AND FSE_BUSY = f AND FSE_BUSY"
  "exist_flags b f AND FSE_FREE = 0" "exist_flags b f AND FSE_EXISTS \<noteq> 0 \<longleftrightarrow> b"
  "exist_flags b f AND FSE_THRD_WAITNG = f AND FSE_THRD_WAITNG"
  by (simp_all add: exist_flags_def flag_simps)

lemma exist_flags_home:
  "home (exist_flags b f) = (if f AND FSE_TYPE_MASK = FSE_TYPE_DIR then fs_dirs
     else if f AND FSE_TYPE_MASK = FSE_TYPE_FILE then if b then fs_exist_files else fs_noex_files
     else if b then fs_exist_leaf_dirs else fs_noex_leaf_dirs)"
  by (simp add: home_def)

lemma home_type:
  "home f = home g \<Longrightarrow> f AND FSE_TYPE_MASK \<noteq> 3 \<Longrightarrow> g AND FSE_TYPE_MASK \<noteq> 3 \<Longrightarrow>
   f AND FSE_TYPE_MASK = g AND FSE_TYPE_MASK"
  by (elim type_cases) (simp_all add: home_def split: if_splits)

lemma upd_flags_cong: "g (flags_of s e) = g' (flags_of s e) \<Longrightarrow> upd_ent s e (set_flags g) = upd_ent s e (set_flags g')"
  by (simp add: upd_ent_def set_flags_def)

lemma upd_flags_id: "g (flags_of s e) = flags_of s e \<Longrightarrow> upd_ent s e (set_flags g) = s"
  by (simp add: upd_ent_def set_flags_def)

lemma unbusy_exist_eq:
  assumes "flags_of s e AND FSE_TYPE_MASK \<noteq> 3"
  shows "unbusy_exist tmp s e b =
    (let f = flags_of s e; s1 = upd_ent s e (set_flags (exist_flags b)) in
     if home f = home (exist_flags b f) then Some s1
     else fileset_move_entry tmp s1 (home f) (home (exist_flags b f)) e)"
proof -
  let ?f = "flags_of s e"
  have m: "move_by_type tmp (upd_ent s e (set_flags g)) e files leafdirs =
      (let s1 = upd_ent s e (set_flags (exist_flags b)) in
       if ?f AND FSE_TYPE_MASK = FSE_TYPE_FILE then fileset_move_entry tmp s1 (fst files) (snd files) e
       else if ?f AND FSE_TYPE_MASK = FSE_TYPE_LEAFDIR then fileset_move_entry tmp s1 (fst leafdirs) (snd leafdirs) e
       else Some s1)" if "g ?f = exist_flags b ?f" for g files leafdirs
    using upd_flags_cong [of g s e "exist_flags b", OF that] by (simp add: move_by_type_def Let_def)
  have id: "Some s = Some (upd_ent s e (set_flags (exist_flags b)))" if "exist_flags b ?f = ?f"
    using upd_flags_id [of "exist_flags b" s e, OF that] by simp
  show ?thesis
    unfolding unbusy_exist_def exist_flags_home
    using assms by (elim type_cases; cases b; cases "?f AND FSE_FREE = 0"; cases "?f AND FSE_EXISTS = 0")
      (simp_all add: m id home_def exist_flags_def Let_def)
qed

lemma unbusy_exist_home:
  assumes I: "in_home off E s" and e: "e \<in> E" and tmp: "tmp \<noteq> NULL" "\<forall>d \<in> E. tmp \<noteq> d + off"
  obtains s' T' where "unbusy_exist tmp s e b = Some s'"
    "ents s' = (ents s)(e := set_flags (exist_flags b) (ents s e))" "fs s' = (fs s)\<lparr>fs_tree := T'\<rparr>" "in_home off E s'"
proof -
  let ?f = "flags_of s e" and ?s1 = "upd_ent s e (set_flags (exist_flags b))"
  have n3: "?f AND FSE_TYPE_MASK \<noteq> 3" "\<And>x. x \<in> E \<Longrightarrow> flags_of s x AND FSE_TYPE_MASK \<noteq> 3" using I e by (auto simp: in_home_def)
  note eq = unbusy_exist_eq [OF n3(1), of tmp b, unfolded Let_def]
  show thesis
  proof (cases "home ?f = home (exist_flags b ?f)")
    case True
    have "in_home off E ?s1" by (rule in_home_cong [OF I]) (use True in auto)
    with True show thesis using that [of ?s1 "fs_tree (fs s)"] by (simp add: eq)
  next
    case False
    obtain s' T' where "fileset_move_entry tmp ?s1 (home ?f) (home (exist_flags b ?f)) e = Some s'"
      "ents s' = ents ?s1" "fs s' = (fs s)\<lparr>fs_tree := T'\<rparr>" "in_home off E s'"
    proof (rule move_home [where g = "exist_flags b", OF I e _ False _ tmp])
      show "flags_of s x AND FSE_TYPE_MASK = ?f AND FSE_TYPE_MASK" if "x \<in> E" "home (flags_of s x) = home (exist_flags b ?f)" for x
        using home_type [OF that(2) n3(2) [OF that(1)]] n3(1) by simp
    qed simp_all
    with False show thesis using that by (simp add: eq)
  qed
qed

text \<open>Clearing the busy flag.\<close>

definition release_flags :: "uint32 \<Rightarrow> uint32" where
  "release_flags f = (if f AND FSE_BUSY = 0 then f
     else if f AND FSE_THRD_WAITNG \<noteq> 0 then (f AND NOT FSE_BUSY) AND NOT FSE_THRD_WAITNG else f AND NOT FSE_BUSY)"

lemma release_flags_simps [simp]:
  "release_flags f AND FSE_TYPE_MASK = f AND FSE_TYPE_MASK" "release_flags f AND FSE_BUSY = 0"
  "release_flags f AND FSE_FREE = f AND FSE_FREE" "release_flags f AND FSE_EXISTS = f AND FSE_EXISTS"
  "home (release_flags f) = home f"
  by (simp_all add: release_flags_def home_def flag_simps)

definition idle_ok :: "ptr set \<Rightarrow> fstate \<Rightarrow> bool" where
  "idle_ok E s \<longleftrightarrow>
     (\<forall>k \<in> {FSE_TYPE_FILE, FSE_TYPE_DIR, FSE_TYPE_LEAFDIR}. idle_of s k = of_nat (card (idle_set E s k)))"

lemma add_idle_simps [simp]:
  "heap (add_idle k n s) = heap s" "ents (add_idle k n s) = ents s"
  "fs_tree (fs (add_idle k n s)) = fs_tree (fs s)" "fs_pick_lock (fs (add_idle k n s)) = fs_pick_lock (fs s)"
  by (simp_all add: add_idle_def)

lemma idle_of_add_idle:
  "k \<in> {FSE_TYPE_FILE, FSE_TYPE_DIR, FSE_TYPE_LEAFDIR} \<Longrightarrow> j \<in> {FSE_TYPE_FILE, FSE_TYPE_DIR, FSE_TYPE_LEAFDIR} \<Longrightarrow>
   idle_of (add_idle k n s) j = (if j = k then idle_of s j + n else idle_of s j)"
  by (auto simp: idle_of_def add_idle_def)

lemma idle_of_cong: "fs s' = (fs s)\<lparr>fs_tree := T\<rparr> \<Longrightarrow> idle_of s' k = idle_of s k"
  "fs s' = (fs s)\<lparr>fs_pick_lock := b\<rparr> \<Longrightarrow> idle_of s' k = idle_of s k"
  by (simp_all add: idle_of_def)

definition idle_cv :: "uint32 \<Rightarrow> fcv" where
  "idle_cv k = (if k = FSE_TYPE_FILE then fs_idle_files_cv else if k = FSE_TYPE_DIR then fs_idle_dirs_cv else fs_idle_leafdirs_cv)"

lemma unbusy_release_eq:
  assumes "flags_of s e AND FSE_TYPE_MASK \<noteq> 3"
  defines "k \<equiv> flags_of s e AND FSE_TYPE_MASK"
  shows "unbusy_release s e = (if busy s e
    then (add_idle k 1 (upd_ent s e (set_flags release_flags)),
      (if flags_of s e AND FSE_THRD_WAITNG \<noteq> 0 then [fs_thrd_wait_cv] else [])
      @ (if idle_of s k = 0 then [idle_cv k] else [])) else (s, []))"
proof -
  let ?s1 = "upd_ent s e (set_flags release_flags)" and ?f = "flags_of s e"
  have z: "idle_of (add_idle k 1 ?s1) k = 1 \<longleftrightarrow> idle_of s k = 0"
    using assms(1) unfolding k_def by (elim type_cases) (simp_all add: idle_of_def add_idle_def)
  have sig: "signal_idle s' k = (if idle_of s' k = 1 then [idle_cv k] else [])" for s'
    using assms(1) unfolding k_def by (elim type_cases) (simp_all add: idle_of_def idle_cv_def signal_idle_def)
  show ?thesis
  proof (cases "?f AND FSE_BUSY = 0")
    case True
    then show ?thesis by (simp add: unbusy_release_def)
  next
    case busy: False
    have K: "flags_of ?s1 e AND FSE_TYPE_MASK = k" by (simp add: k_def)
    have W: "wake_waiting (upd_ent s e (set_flags (\<lambda>f. f AND NOT FSE_BUSY))) e
      = (?s1, if ?f AND FSE_THRD_WAITNG \<noteq> 0 then [fs_thrd_wait_cv] else [])"
      using busy by (simp add: wake_waiting_def flag_simps upd_ent_def set_flags_def release_flags_def)
    show ?thesis unfolding unbusy_release_def Let_def W prod.case K sig z using busy by simp
  qed
qed

lemma unbusy_release_inv:
  assumes I: "in_home off E s" "idle_ok E s" and e: "e \<in> E"
  shows "in_home off E (fst (unbusy_release s e)) \<and> idle_ok E (fst (unbusy_release s e))
    \<and> ents (fst (unbusy_release s e)) = (ents s)(e := set_flags release_flags (ents s e))
    \<and> fs_pick_lock (fs (fst (unbusy_release s e))) = fs_pick_lock (fs s)"
proof (cases "busy s e")
  case False
  then have "set_flags release_flags (ents s e) = ents s e" by (simp add: set_flags_def release_flags_def)
  with False I show ?thesis by (simp add: unbusy_release_def)
next
  case True
  let ?k = "flags_of s e AND FSE_TYPE_MASK" and ?s = "add_idle (flags_of s e AND FSE_TYPE_MASK) 1 (upd_ent s e (set_flags release_flags))"
  have n3: "?k \<noteq> 3" using I(1) e by (simp add: in_home_def)
  then have k: "?k \<in> {FSE_TYPE_FILE, FSE_TYPE_DIR, FSE_TYPE_LEAFDIR}" by (elim type_cases) simp_all
  have eq: "fst (unbusy_release s e) = ?s" using unbusy_release_eq [OF n3] True by simp
  have "in_home off E ?s" by (rule in_home_cong [OF I(1)]) auto
  moreover have "idle_of ?s j = of_nat (card (idle_set E ?s j))" if j: "j \<in> {FSE_TYPE_FILE, FSE_TYPE_DIR, FSE_TYPE_LEAFDIR}" for j
  proof -
    have st: "idle_set E ?s j = (if j = ?k then insert e (idle_set E s j) else idle_set E s j)"
      using e True by (auto simp: idle_set_def)
    have ni: "e \<notin> idle_set E s j" using True by (simp add: idle_set_def)
    have io: "idle_of s j = of_nat (card (idle_set E s j))" using I(2) j unfolding idle_ok_def by blast
    have iu: "idle_of (upd_ent s e (set_flags release_flags)) j = idle_of s j" by (simp add: idle_of_def)
    show ?thesis unfolding idle_of_add_idle [OF k j] st iu io using ni by (cases "j = ?k") simp_all
  qed
  ultimately show ?thesis unfolding eq by (simp add: idle_ok_def)
qed

lemma in_home_entry: "in_home off E s \<Longrightarrow> e \<in> E \<Longrightarrow> e \<noteq> NULL \<and> aligned e \<and> e + off \<noteq> NULL"
  unfolding in_home_def using trees_holdD(6) by blast

lemma idle_zero:
  assumes "in_home off E s" "idle_ok E s" "k \<in> {FSE_TYPE_FILE, FSE_TYPE_DIR, FSE_TYPE_LEAFDIR}"
  shows "idle_of s k = 0 \<longleftrightarrow> idle_set E s k = {}"
proof -
  have "NULL \<notin> idle_set E s k" using in_home_entry [OF assms(1), of NULL] by (auto simp: idle_set_def)
  then have "idle_set E s k \<subset> UNIV" by blast
  then have "card (idle_set E s k) < card (UNIV :: ptr set)" by (rule psubset_card_mono [OF finite])
  then have "card (idle_set E s k) < 2 ^ 64" by (simp add: card_word)
  then have u: "unat (of_nat (card (idle_set E s k)) :: uint64) = card (idle_set E s k)"
    by (simp add: unat_of_nat take_bit_nat_eq_self)
  have "idle_of s k = of_nat (card (idle_set E s k))" using assms(2,3) unfolding idle_ok_def by blast
  then have "idle_of s k = 0 \<longleftrightarrow> card (idle_set E s k) = 0" by (simp only: unat_eq_zero [symmetric] u)
  then show ?thesis by simp
qed

lemma fileset_unbusy_inv:
  assumes I: "fs_inv off E s" and e: "e \<in> E" "fse_fileset (ents s e) \<noteq> NULL"
    and tmp: "tmp \<noteq> NULL" "\<forall>d \<in> E. tmp \<noteq> d + off"
  shows "\<exists>s' woken. fileset_unbusy tmp s e upd b incr = Some (Returns (s', woken)) \<and> fs_inv off E s'
    \<and> ents s' = (ents s)(e := (ents s e)\<lparr>fse_open_cnt := fse_open_cnt (ents s e) + incr, fse_flags := flags_of s' e\<rparr>)
    \<and> \<not> busy s' e \<and> flags_of s' e AND FSE_TYPE_MASK = flags_of s e AND FSE_TYPE_MASK
    \<and> (if upd then flags_of s' e AND FSE_FREE = 0 \<and> (flags_of s' e AND FSE_EXISTS \<noteq> 0 \<longleftrightarrow> b)
       else home (flags_of s' e) = home (flags_of s e))
    \<and> (idle_cv (flags_of s e AND FSE_TYPE_MASK) \<in> set woken \<longleftrightarrow>
       busy s e \<and> idle_set E s (flags_of s e AND FSE_TYPE_MASK) = {})"
proof -
  have I': "in_home off E s" "idle_ok E s" "\<not> fs_pick_lock (fs s)" using I by (simp_all add: fs_inv_def idle_ok_def)
  let ?k = "flags_of s e AND FSE_TYPE_MASK" and ?s0 = "lock_pick s True" and ?g = "if upd then exist_flags b else id"
  have n3: "?k \<noteq> 3" using I'(1) e(1) by (simp add: in_home_def)
  have I0: "in_home off E ?s0" by (rule in_home_cong [OF I'(1)]) (simp_all add: lock_pick_def)
  obtain s1 T1 where S1: "(if upd then unbusy_exist tmp ?s0 e b else Some ?s0) = Some s1"
    "ents s1 = (ents s)(e := set_flags ?g (ents s e))" "fs s1 = (fs ?s0)\<lparr>fs_tree := T1\<rparr>" "in_home off E s1"
  proof (cases upd)
    case True
    obtain s1 T1 where "unbusy_exist tmp ?s0 e b = Some s1"
      "ents s1 = (ents ?s0)(e := set_flags (exist_flags b) (ents ?s0 e))" "fs s1 = (fs ?s0)\<lparr>fs_tree := T1\<rparr>" "in_home off E s1"
      by (rule unbusy_exist_home [OF I0 e(1) tmp])
    with True that show thesis by (simp add: lock_pick_def)
  next
    case False
    then show thesis using that [of ?s0 "fs_tree (fs ?s0)"] I0 by (simp add: lock_pick_def set_flags_def)
  qed
  let ?s2 = "upd_ent s1 e (\<lambda>x. x\<lparr>fse_open_cnt := fse_open_cnt x + incr\<rparr>)"
  have f2: "flags_of ?s2 x = (if x = e then ?g (flags_of s e) else flags_of s x)" for x by (simp add: S1(2))
  have g: "?g (flags_of s e) AND FSE_TYPE_MASK = ?k" "?g (flags_of s e) AND FSE_BUSY = flags_of s e AND FSE_BUSY" by simp_all
  have I2: "in_home off E ?s2" by (rule in_home_cong [OF S1(4)]) simp_all
  have set2: "idle_set E ?s2 j = idle_set E s j" for j using g by (auto simp: idle_set_def S1(2))
  have cnt2: "idle_of ?s2 j = idle_of s j" for j by (simp add: idle_of_def S1(3) lock_pick_def)
  have ok2: "idle_ok E ?s2" using I'(2) unfolding idle_ok_def set2 cnt2 .
  obtain s3 w where R: "unbusy_release ?s2 e = (s3, w)" by fastforce
  from unbusy_release_inv [OF I2 ok2 e(1)]
  have S3: "in_home off E s3" "idle_ok E s3" "ents s3 = (ents ?s2)(e := set_flags release_flags (ents ?s2 e))" by (simp_all add: R)
  let ?s' = "lock_pick s3 False"
  have L: "ents ?s' = ents s3" "heap ?s' = heap s3" "fs_tree (fs ?s') = fs_tree (fs s3)" "\<not> fs_pick_lock (fs ?s')"
    by (simp_all add: lock_pick_def)
  have inv: "fs_inv off E ?s'"
  proof -
    have "in_home off E ?s'" by (rule in_home_cong [OF S3(1)]) (simp_all add: L)
    moreover have "idle_set E ?s' j = idle_set E s3 j" "idle_of ?s' j = idle_of s3 j" for j
      by (simp_all add: idle_set_def idle_of_def lock_pick_def)
    ultimately show ?thesis using S3(2) L(4) by (simp add: fs_inv_def idle_ok_def)
  qed
  have call: "fileset_unbusy tmp s e upd b incr = Some (Returns (?s', w))"
    using e in_home_entry [OF I'(1) e(1)] S1(1) R I'(3) by (simp add: fileset_unbusy_def Let_def)
  have fl: "flags_of ?s' e = release_flags (?g (flags_of s e))" by (simp add: L S3(3) S1(2))
  have en: "ents ?s' = (ents s)(e := (ents s e)\<lparr>fse_open_cnt := fse_open_cnt (ents s e) + incr, fse_flags := flags_of ?s' e\<rparr>)"
    by (simp add: L S3(3) S1(2) set_flags_def fun_eq_iff)
  have wk: "idle_cv ?k \<in> set w \<longleftrightarrow> busy s e \<and> idle_set E s ?k = {}"
  proof -
    have k: "?k \<in> {FSE_TYPE_FILE, FSE_TYPE_DIR, FSE_TYPE_LEAFDIR}" using n3 by (elim type_cases) simp_all
    have "idle_cv ?k \<noteq> fs_thrd_wait_cv" by (simp add: idle_cv_def)
    moreover have f: "flags_of ?s2 e AND FSE_TYPE_MASK = ?k" "busy ?s2 e = busy s e" using f2 [of e] g by simp_all
    ultimately show ?thesis
      using unbusy_release_eq [of ?s2 e, unfolded R f cnt2 idle_zero [OF I'(1,2) k]] n3 by (auto split: if_splits)
  qed
  show ?thesis
    by (intro exI [of _ ?s'] exI [of _ w] conjI call inv en wk) (simp_all only: fl, simp_all)
qed

subsection \<open>Picking an entry\<close>

text \<open>The index at which the search starts.\<close>

definition pick_key :: "uint64 \<Rightarrow> fstate \<Rightarrow> fbint \<Rightarrow> uint32 \<Rightarrow> nat \<Rightarrow> uint32 \<Rightarrow> uint32" where
  "pick_key r s max_entries flags tid index =
     (let k = flags AND FILESET_PICKMASK in
      if flags AND FILESET_PICKUNIQUE \<noteq> 0 then
        if index \<noteq> 0 then index else if max_entries \<le> 1 then 0 else ucast (clip_round r max_entries 1)
      else if flags AND FILESET_PICKBYINDEX \<noteq> 0 then index
      else if k = FILESET_PICKFILE then
        if flags AND FILESET_PICKNOEXIST \<noteq> 0 then fs_file_nerotor (fs s) else fs_file_exrotor (fs s) tid
      else if k = FILESET_PICKDIR then fs_dirrotor (fs s)
      else if flags AND FILESET_PICKNOEXIST \<noteq> 0 then fs_leafdir_nerotor (fs s) else fs_leafdir_exrotor (fs s))"

text \<open>Two states that differ at most in the rotors.\<close>

definition same_but_rotors :: "fstate \<Rightarrow> fstate \<Rightarrow> bool" where
  "same_but_rotors s s' \<longleftrightarrow> heap s' = heap s \<and> ents s' = ents s \<and> fs_tree (fs s') = fs_tree (fs s)
     \<and> (\<forall>k. idle_of s' k = idle_of s k) \<and> fs_pick_lock (fs s') = fs_pick_lock (fs s)"

lemma same_but_rotors_refl [simp]: "same_but_rotors s s"
  by (simp add: same_but_rotors_def)

lemma pick_rotor_trees:
  assumes T: "trees_hold off s D" and loc: "loc \<notin> set (D t)" and ne: "D t \<noteq> []" and tid: "tid < FSE_MAXTID"
    and f: "flags AND FILESET_PICKUNIQUE = 0" "flags AND FILESET_PICKBYINDEX = 0"
  obtains s' where "pick_rotor loc s t flags tid =
      Some (first_or_null (from_index s (pick_key r s mx flags tid index) (D t)), s')" "same_but_rotors s s'"
proof -
  note find = fileset_find_entry_trees [OF T loc]
  have nz: "first_or_null (from_index s k (D t)) \<noteq> NULL" for k
  proof -
    have "from_index s k (D t) \<noteq> []" using ne set_from_index [of s k "D t"] by (metis set_empty)
    moreover have "NULL \<notin> set (from_index s k (D t))" using trees_holdD(1) [OF T, of t] by (simp add: avl_holds_def)
    ultimately show ?thesis by (cases "from_index s k (D t)") auto
  qed
  have "\<exists>s'. pick_rotor loc s t flags tid =
      Some (first_or_null (from_index s (pick_key r s mx flags tid index) (D t)), s') \<and> same_but_rotors s s'"
    using tid f by (simp add: pick_rotor_def pick_key_def find nz Let_def same_but_rotors_def idle_of_def)
  then show thesis using that by blast
qed

lemma pick_start_trees:
  assumes T: "trees_hold off s D" and loc: "loc \<notin> set (D t)" and ne: "D t \<noteq> []" and tid: "tid < FSE_MAXTID"
  shows "if flags AND FILESET_PICKUNIQUE \<noteq> 0 \<and> index = 0 \<and> mx = 0
    then pick_start F R vs (Some r) loc s t mx flags tid index = Some None
    else \<exists>s'. pick_start F R vs (Some r) loc s t mx flags tid index =
      Some (Some (first_or_null (from_index s (pick_key r s mx flags tid index) (D t)), s')) \<and> same_but_rotors s s'"
proof -
  note find = fileset_find_entry_trees [OF T loc]
  consider (u) "flags AND FILESET_PICKUNIQUE \<noteq> 0" | (i) "flags AND FILESET_PICKUNIQUE = 0" "flags AND FILESET_PICKBYINDEX \<noteq> 0"
    | (r) "flags AND FILESET_PICKUNIQUE = 0" "flags AND FILESET_PICKBYINDEX = 0" by blast
  then show ?thesis
  proof cases
    case u
    have "mx \<le> 1 \<longleftrightarrow> mx = 0 \<or> mx = 1" by (metis word_le_0_iff le_less word_less_1 order.refl)
    with u show ?thesis by (auto simp: pick_start_def pick_key_def find filebench_randomno64_def Let_def)
  next
    case i
    then show ?thesis by (simp add: pick_start_def pick_key_def find Let_def)
  next
    case r
    obtain s' where "pick_rotor loc s t flags tid =
      Some (first_or_null (from_index s (pick_key r s mx flags tid index) (D t)), s')" "same_but_rotors s s'"
      by (rule pick_rotor_trees [OF T loc ne tid r])
    with r show ?thesis by (simp add: pick_start_def)
  qed
qed

lemma busy_scan_from_index:
  assumes T: "trees_hold off s D" and ne: "D t \<noteq> []"
  shows "let e = first_or_null (from_index s k (D t)) in e \<noteq> NULL \<and>
    busy_scan (ents s) (heap s) (fs_tree (fs s) t) e e =
    Some (case find (\<lambda>d. \<not> busy s d) (from_index s k (D t)) of None \<Rightarrow> NULL | Some d \<Rightarrow> d)"
proof -
  have H: "avl_holds (heap s) (fs_tree (fs s) t) (D t)" by (rule trees_holdD(1) [OF T])
  obtain e vs where ev: "from_index s k (D t) = e # vs"
    using ne set_from_index [of s k "D t"] by (metis set_empty neq_Nil_conv)
  have "e \<in> set (D t)" using ev set_from_index [of s k "D t"] by (metis list.set_intros(1))
  then have "e \<noteq> NULL" using H by (auto simp: avl_holds_def)
  moreover have "busy_scan (ents s) (heap s) (fs_tree (fs s) t) (hd ([] @ [e])) e =
    Some (case find (\<lambda>d. fse_flags (ents s d) AND FSE_BUSY = 0) (e # vs) of None \<Rightarrow> NULL | Some d \<Rightarrow> d)"
    by (rule busy_scan_finds [OF H takeWhile_dropWhile_id [symmetric, where P = "\<lambda>e. idx s e < k"]])
      (simp_all add: ev [unfolded from_index_def])
  ultimately show ?thesis by (simp add: ev)
qed

lemma mark_busy_inv:
  assumes I: "in_home off E s" "idle_ok E s" and e: "e \<in> E" "\<not> busy s e"
  defines "s' \<equiv> lock_pick (upd_ent (add_idle (flags_of s e AND FSE_TYPE_MASK) (-1) s) e (set_flags (\<lambda>f. f OR FSE_BUSY))) False"
  shows "fs_inv off E s'"
proof -
  let ?k = "flags_of s e AND FSE_TYPE_MASK"
  have "?k \<noteq> 3" using I(1) e(1) by (simp add: in_home_def)
  then have k: "?k \<in> {FSE_TYPE_FILE, FSE_TYPE_DIR, FSE_TYPE_LEAFDIR}" by (elim type_cases) simp_all
  have b: "(f OR FSE_BUSY) AND FSE_TYPE_MASK = f AND FSE_TYPE_MASK" "home (f OR FSE_BUSY) = home f"
    "(f OR FSE_BUSY) AND FSE_BUSY \<noteq> 0" for f :: uint32 by (simp_all add: home_def flag_simps)
  have en: "ents s' = (ents s)(e := set_flags (\<lambda>f. f OR FSE_BUSY) (ents s e))" "\<not> fs_pick_lock (fs s')"
    "heap s' = heap s" "fs_tree (fs s') = fs_tree (fs s)" by (simp_all add: s'_def lock_pick_def)
  have "in_home off E s'" by (rule in_home_cong [OF I(1)]) (use b in \<open>auto simp: en\<close>)
  moreover have "idle_of s' j = of_nat (card (idle_set E s' j))" if j: "j \<in> {FSE_TYPE_FILE, FSE_TYPE_DIR, FSE_TYPE_LEAFDIR}" for j
  proof -
    have st: "idle_set E s' j = (if j = ?k then idle_set E s j - {e} else idle_set E s j)"
      using e b by (auto simp: idle_set_def en)
    have ni: "e \<in> idle_set E s ?k" using e by (simp add: idle_set_def)
    have io: "idle_of s j = of_nat (card (idle_set E s j))" using I(2) j unfolding idle_ok_def by blast
    have iu: "idle_of s' j = idle_of (add_idle ?k (-1) s) j" by (simp add: idle_of_def s'_def lock_pick_def)
    have "card (idle_set E s ?k) = Suc (card (idle_set E s ?k - {e}))" by (rule card.remove [OF finite ni])
    then have c: "of_nat (card (idle_set E s ?k)) - 1 = (of_nat (card (idle_set E s ?k - {e})) :: uint64)" by simp
    show ?thesis unfolding iu idle_of_add_idle [OF k j] st io using c by (cases "j = ?k") simp_all
  qed
  ultimately show ?thesis using en(2) by (simp add: fs_inv_def)
qed

lemma pick_tree_home:
  assumes "pick_tree s flags = Some (home f, mx)" "f AND FSE_TYPE_MASK \<noteq> 3"
  shows "f AND FSE_TYPE_MASK = flags AND FILESET_PICKMASK"
  using assms(2,1) by (elim type_cases) (auto simp: pick_tree_def home_def Let_def split: if_splits)

lemma fileset_pick_inv:
  assumes I: "fs_inv off E s" and t: "pick_tree s flags = Some (t, mx)" and tid: "tid < FSE_MAXTID" and loc: "loc \<notin> E"
  defines "k \<equiv> flags AND FILESET_PICKMASK"
  shows "\<exists>out. fileset_pick F R vs (Some r) loc s flags tid index = Some out \<and>
    (if pick_list s flags = NULL then out = Returns (NULL, s)
     else if idle_set E s k = {} then out = Waits
     else if \<forall>e \<in> E. home (flags_of s e) \<noteq> t then out = Returns (NULL, s)
     else if flags AND FILESET_PICKUNIQUE \<noteq> 0 \<and> index = 0 \<and> mx = 0 then out = Returns (NULL, lock_pick s True)
     else \<exists>ds s'. sorted_wrt (\<lambda>x y. idx s x < idx s y) ds \<and> set ds = {e \<in> E. home (flags_of s e) = t} \<and> fs_inv off E s' \<and>
       (case find (\<lambda>e. \<not> busy s e) (from_index s (pick_key r s mx flags tid index) ds) of
          None \<Rightarrow> out = Returns (NULL, s') \<and> ents s' = ents s
        | Some e \<Rightarrow> out = Returns (e, s') \<and> ents s' = (ents s)(e := set_flags (\<lambda>f. f OR FSE_BUSY) (ents s e))))"
proof -
  have I': "in_home off E s" "idle_ok E s" "\<not> fs_pick_lock (fs s)" using I by (simp_all add: fs_inv_def idle_ok_def)
  obtain D where D: "trees_hold off s D" "\<And>t. set (D t) = {x \<in> E. home (flags_of s x) = t}"
    using I'(1) unfolding in_home_def by blast
  let ?s0 = "lock_pick s True"
  have L: "ents ?s0 = ents s" "heap ?s0 = heap s" "fs_tree (fs ?s0) = fs_tree (fs s)" "lock_pick ?s0 False = s"
    "pick_list ?s0 flags = pick_list s flags" "pick_idle ?s0 flags = pick_idle s flags" "pick_tree ?s0 flags = pick_tree s flags"
    using I'(3) by (simp_all add: lock_pick_def pick_list_def pick_idle_def pick_tree_def Let_def)
  have kn: "k \<in> {FSE_TYPE_FILE, FSE_TYPE_DIR, FSE_TYPE_LEAFDIR}"
    using t by (auto simp: pick_tree_def k_def Let_def split: if_splits)
  have idle: "pick_idle s flags = 0 \<longleftrightarrow> idle_set E s k = {}"
    using idle_zero [OF I'(1,2) kn] kn by (auto simp: idle_of_def pick_idle_def k_def Let_def)
  have T0: "trees_hold off ?s0 D" using D(1) by (subst trees_hold_cong [of ?s0 s]) (simp_all add: L)
  have em: "avl_is_empty (Some (fs_tree (fs s) t)) \<longleftrightarrow> (\<forall>e \<in> E. home (flags_of s e) \<noteq> t)"
  proof -
    have "avl_is_empty (Some (fs_tree (fs s) t)) \<longleftrightarrow> D t = []"
      using avl_holds_numnodes [OF trees_holdD(1) [OF D(1), of t]] by (auto simp: avl_is_empty_def unat_eq_zero)
    also have "\<dots> \<longleftrightarrow> set (D t) = {}" by simp
    finally show ?thesis unfolding D(2) by blast
  qed
  let ?out = "fileset_pick F R vs (Some r) loc s flags tid index"
  note call = fileset_pick_def [of F R vs "Some r" loc s flags tid index, unfolded Let_def L t bind.bind_lunit prod.case idle em]
  show ?thesis
  proof (cases "pick_list s flags = NULL \<or> idle_set E s k = {} \<or> (\<forall>e \<in> E. home (flags_of s e) \<noteq> t)")
    case True
    then show ?thesis using I'(3) by (auto simp: call)
  next
    case False
    then have F: "pick_list s flags \<noteq> NULL" "idle_set E s k \<noteq> {}" "(\<forall>e \<in> E. home (flags_of s e) \<noteq> t) = False" by blast+
    then have ne: "D t \<noteq> []" using D(2) [of t] by auto
    have lt: "loc \<notin> set (D t)" using loc by (simp add: D(2))
    let ?K = "pick_key r s mx flags tid index"
    have K0: "pick_key r ?s0 mx flags tid index = ?K" "from_index ?s0 = from_index s"
      by (simp_all add: pick_key_def from_index_def lock_pick_def Let_def fun_eq_iff)
    note start = pick_start_trees [OF T0 lt ne tid, where F = F and R = R and vs = vs and r = r and mx = mx and flags = flags and index = index, unfolded K0]
    show ?thesis
    proof (cases "flags AND FILESET_PICKUNIQUE \<noteq> 0 \<and> index = 0 \<and> mx = 0")
      case True
      with start have "?out = Some (Returns (NULL, ?s0))" using False I'(3) unfolding call by auto
      with True False show ?thesis by auto
    next
      case nf: False
      with start obtain s1 where S1: "pick_start F R vs (Some r) loc ?s0 t mx flags tid index =
          Some (Some (first_or_null (from_index s ?K (D t)), s1))" "same_but_rotors ?s0 s1" by auto
      have s1: "ents s1 = ents s" "heap s1 = heap s" "fs_tree (fs s1) = fs_tree (fs s)" "\<And>k. idle_of s1 k = idle_of s k"
        using S1(2) by (simp_all add: same_but_rotors_def L idle_of_def) (simp_all add: lock_pick_def)
      note scan = busy_scan_from_index [OF D(1) ne, of ?K, unfolded Let_def]
      have I1: "in_home off E s1" by (rule in_home_cong [OF I'(1)]) (simp_all add: s1)
      have ok1: "idle_ok E s1" using I'(2) by (simp add: idle_ok_def idle_set_def s1)
      have "\<exists>s'. fs_inv off E s' \<and> (case find (\<lambda>e. \<not> busy s e) (from_index s ?K (D t)) of
          None \<Rightarrow> ?out = Some (Returns (NULL, s')) \<and> ents s' = ents s
        | Some e \<Rightarrow> ?out = Some (Returns (e, s')) \<and> ents s' = (ents s)(e := set_flags (\<lambda>f. f OR FSE_BUSY) (ents s e)))"
      proof (cases "find (\<lambda>e. \<not> busy s e) (from_index s ?K (D t))")
        case None
        then have "?out = Some (Returns (NULL, lock_pick s1 False))" using S1(1) scan I'(3) by (simp add: call s1 F)
        moreover have "fs_inv off E (lock_pick s1 False)"
          using in_home_cong [OF I1, of "lock_pick s1 False"] ok1
          by (simp add: fs_inv_def idle_ok_def idle_set_def idle_of_def lock_pick_def)
        ultimately show ?thesis using None by (intro exI [of _ "lock_pick s1 False"]) (simp add: lock_pick_def s1)
      next
        case (Some e)
        then have e: "e \<in> set (D t)" "\<not> busy s e" unfolding set_from_index [of s ?K "D t", symmetric] by (auto simp: find_Some_iff simp del: set_from_index)
        then have eE: "e \<in> E" "home (flags_of s e) = t" "e \<noteq> NULL" using D(2) in_home_entry [OF I'(1)] by auto
        have k: "flags_of s e AND FSE_TYPE_MASK = k"
          using pick_tree_home [of s flags "flags_of s e" mx] t eE(1,2) I'(1) by (simp add: k_def in_home_def)
        let ?s' = "lock_pick (upd_ent (add_idle k (-1) s1) e (set_flags (\<lambda>f. f OR FSE_BUSY))) False"
        have "?out = Some (Returns (e, ?s'))" using S1(1) scan I'(3) Some eE(3) by (simp add: call s1 F k_def [symmetric])
        moreover have "fs_inv off E ?s'" using mark_busy_inv [OF I1 ok1 eE(1)] e(2) by (simp add: s1 k)
        ultimately show ?thesis using Some by (intro exI [of _ ?s']) (simp add: lock_pick_def s1)
      qed
      then obtain s' where "fs_inv off E s'" "case find (\<lambda>e. \<not> busy s e) (from_index s ?K (D t)) of
          None \<Rightarrow> ?out = Some (Returns (NULL, s')) \<and> ents s' = ents s
        | Some e \<Rightarrow> ?out = Some (Returns (e, s')) \<and> ents s' = (ents s)(e := set_flags (\<lambda>f. f OR FSE_BUSY) (ents s e))" by blast
      with D(2) trees_holdD(4) [OF D(1), of t] show ?thesis unfolding F if_not_P [OF F(1)] if_not_P [OF F(2)] if_not_P [OF nf] if_False
        by (auto split: option.splits)
    qed
  qed
qed

end
