(* ===== verification/FB_Fileset_Life.thy ===== *)
theory FB_Fileset_Life
  imports FB_Fileset_Correct
begin

text \<open>
  A fileset from the creation of its trees through the adding of entries to the picks and returns of a
  workload, and the properties of \<^verbatim>\<open>src/filebench/fileset.c\<close> that rest on the invariant.
\<close>

subsection \<open>Populating a fileset\<close>

lemma ins_home:
  assumes I: "in_home off E s" and e: "e \<notin> E" "aligned e" "e \<noteq> NULL" "e + off \<noteq> NULL"
    and f: "f AND FSE_TYPE_MASK \<noteq> 3" and new: "\<forall>x \<in> E. flags_of s x AND FSE_TYPE_MASK = f AND FSE_TYPE_MASK \<longrightarrow> idx s x \<noteq> idx s e"
  defines "s1 \<equiv> upd_ent s e (set_flags (\<lambda>_. f))"
  obtains h' t' where "avl_add (ents s1) (heap s1) (fs_tree (fs s1) (home f)) e = Some (h', t')"
    "in_home off (insert e E) (set_tree s1 (home f) (h', t'))"
proof -
  obtain D where D: "trees_hold off s D" "\<And>t. set (D t) = {x \<in> E. home (flags_of s x) = t}"
    and I2: "\<forall>e \<in> E. flags_of s e AND FSE_TYPE_MASK \<noteq> 3"
      "\<forall>e \<in> E. \<forall>e' \<in> E. flags_of s e AND FSE_TYPE_MASK = flags_of s e' AND FSE_TYPE_MASK \<and> idx s e = idx s e' \<longrightarrow> e = e'"
    using I unfolding in_home_def by blast
  have eD: "\<forall>t. e \<notin> set (D t)" using D(2) e(1) by simp
  have T1: "trees_hold off s1 D" using D(1) eD unfolding s1_def by (subst trees_hold_cong [of _ s]) auto
  have ix: "idx s1 x = idx s x" for x by (simp add: s1_def)
  have nw: "\<forall>d \<in> set (D (home f)). idx s1 d \<noteq> idx s1 e"
    using new home_type [OF _ _ f] I2(1) by (auto simp: D(2) ix)
  obtain h' t' where A: "avl_add (ents s1) (heap s1) (fs_tree (fs s1) (home f)) e = Some (h', t')"
    "trees_hold off (set_tree s1 (home f) (h', t')) (D(home f := insort_key (idx s1) e (D (home f))))"
    by (rule add_trees [OF T1 eD e(2-4) nw])
  let ?s = "set_tree s1 (home f) (h', t')" and ?D = "D(home f := insort_key (idx s1) e (D (home f)))"
  have fl: "flags_of ?s x = (if x = e then f else flags_of s x)" "idx ?s x = idx s x" for x by (simp_all add: s1_def)
  have "set (?D t) = {x \<in> insert e E. home (flags_of ?s x) = t}" for t
    unfolding fl using e(1) by (cases "t = home f") (auto simp: set_insort_key D(2))
  moreover have "\<forall>x \<in> insert e E. flags_of ?s x AND FSE_TYPE_MASK \<noteq> 3" unfolding fl using f I2(1) by simp
  moreover have "\<forall>x \<in> insert e E. \<forall>y \<in> insert e E.
      flags_of ?s x AND FSE_TYPE_MASK = flags_of ?s y AND FSE_TYPE_MASK \<and> idx ?s x = idx ?s y \<longrightarrow> x = y"
    unfolding fl using new I2(2) by auto
  ultimately have "in_home off (insert e E) ?s" unfolding in_home_def using A(2) by blast
  with A(1) that show thesis by blast
qed

text \<open>While a fileset is populated, every entry is idle and the entries of a type are numbered from 0.\<close>

definition type_set :: "ptr set \<Rightarrow> fstate \<Rightarrow> uint32 \<Rightarrow> ptr set" where
  "type_set E s k = {e \<in> E. flags_of s e AND FSE_TYPE_MASK = k}"

definition pop_inv :: "uint64 \<Rightarrow> ptr set \<Rightarrow> fstate \<Rightarrow> bool" where
  "pop_inv off E s \<longleftrightarrow> fs_inv off E s \<and> (\<forall>e \<in> E. \<not> busy s e)
     \<and> (\<forall>e \<in> E. unat (idx s e) < card (type_set E s (flags_of s e AND FSE_TYPE_MASK)))"

definition node_ok :: "uint64 \<Rightarrow> ptr \<Rightarrow> bool" where
  "node_ok off e \<longleftrightarrow> aligned e \<and> e \<noteq> NULL \<and> e + off \<noteq> NULL"

lemma idle_of_simps [simp]:
  "idle_of (upd_ent s e g) k = idle_of s k" "idle_of (set_tree s t ht) k = idle_of s k"
  by (simp_all add: idle_of_def set_tree_def)

lemma populate_pop_inv:
  fixes fsp parent :: ptr
  assumes P: "pop_inv off E s" and e: "e \<notin> E" "node_ok off e"
    and f: "f AND FSE_TYPE_MASK \<in> {FSE_TYPE_FILE, FSE_TYPE_DIR, FSE_TYPE_LEAFDIR}" "f AND FSE_BUSY = 0"
    and small: "card (type_set E s (f AND FSE_TYPE_MASK)) < 2 ^ 32"
    and i: "index = ucast (idle_of s (f AND FSE_TYPE_MASK))"
  defines "s1 \<equiv> upd_ent (new_entry fsp parent index (add_idle (f AND FSE_TYPE_MASK) 1 s) e) e (set_flags (\<lambda>_. f))"
  obtains h' t' where "avl_add (ents s1) (heap s1) (fs_tree (fs s1) (home f)) e = Some (h', t')"
    "pop_inv off (insert e E) (set_tree s1 (home f) (h', t'))"
proof -
  let ?k = "f AND FSE_TYPE_MASK"
  have I: "in_home off E s" "idle_ok E s" "\<not> fs_pick_lock (fs s)" and nb: "\<forall>x \<in> E. \<not> busy s x"
    and ix: "\<forall>x \<in> E. unat (idx s x) < card (type_set E s (flags_of s x AND FSE_TYPE_MASK))"
    using P by (simp_all add: pop_inv_def fs_inv_def idle_ok_def)
  have all: "idle_set E s j = type_set E s j" for j using nb by (auto simp: idle_set_def type_set_def)
  have io: "idle_of s j = of_nat (card (type_set E s j))" if "j \<in> {FSE_TYPE_FILE, FSE_TYPE_DIR, FSE_TYPE_LEAFDIR}" for j
    using I(2) that unfolding idle_ok_def all by blast
  have ui: "unat index = card (type_set E s ?k)"
    using small unfolding i io [OF f(1)] by (simp add: unsigned_ucast_eq unat_of_nat take_bit_nat_eq_self)
  let ?s0 = "new_entry fsp parent index (add_idle ?k 1 s) e"
  have s0: "ents ?s0 = (ents s)(e := (ents s e)\<lparr>fse_index := index, fse_parent := parent, fse_fileset := fsp\<rparr>)"
    by (simp add: new_entry_def)
  have I0: "in_home off E ?s0" by (rule in_home_cong [OF I(1)]) (use e(1) in \<open>auto simp: s0 new_entry_def\<close>)
  have f3: "?k \<noteq> 3" using f(1) by auto
  have "idx s x \<noteq> index" if x: "x \<in> E" "flags_of s x AND FSE_TYPE_MASK = ?k" for x using ix x ui by force
  then have new: "\<forall>x \<in> E. flags_of ?s0 x AND FSE_TYPE_MASK = ?k \<longrightarrow> idx ?s0 x \<noteq> idx ?s0 e" using e(1) by (auto simp: s0)
  obtain h' t' where A: "avl_add (ents s1) (heap s1) (fs_tree (fs s1) (home f)) e = Some (h', t')"
    "in_home off (insert e E) (set_tree s1 (home f) (h', t'))"
    using ins_home [OF I0 e(1) _ _ _ f3 new] e(2) unfolding s1_def node_ok_def by blast
  let ?s = "set_tree s1 (home f) (h', t')"
  have fl: "flags_of ?s x = (if x = e then f else flags_of s x)" "idx ?s x = (if x = e then index else idx s x)" for x
    by (simp_all add: s1_def s0)
  have ty: "type_set (insert e E) ?s j = (if j = ?k then insert e (type_set E s j) else type_set E s j)" for j
    unfolding type_set_def fl using e(1) by auto
  have al: "idle_set (insert e E) ?s j = type_set (insert e E) ?s j" for j
    unfolding idle_set_def type_set_def fl using nb f(2) by auto
  have nt: "e \<notin> type_set E s j" for j using e(1) by (simp add: type_set_def)
  have "idle_of ?s j = of_nat (card (idle_set (insert e E) ?s j))" if j: "j \<in> {FSE_TYPE_FILE, FSE_TYPE_DIR, FSE_TYPE_LEAFDIR}" for j
  proof -
    have "idle_of ?s j = idle_of (add_idle ?k 1 s) j" by (simp add: s1_def new_entry_def)
    then show ?thesis unfolding al ty using nt io [OF j] idle_of_add_idle [OF f(1) j] by (cases "j = ?k") simp_all
  qed
  moreover have "\<not> fs_pick_lock (fs ?s)" using I(3) by (simp add: s1_def new_entry_def set_tree_def)
  moreover have "\<forall>x \<in> insert e E. \<not> busy ?s x" unfolding fl using nb f(2) by auto
  moreover have "\<forall>x \<in> insert e E. unat (idx ?s x) < card (type_set (insert e E) ?s (flags_of ?s x AND FSE_TYPE_MASK))"
    unfolding fl ty using ix ui nt e(1) by (auto intro: less_SucI)
  ultimately have "pop_inv off (insert e E) ?s" using A(2) by (simp add: pop_inv_def fs_inv_def)
  with A(1) that show thesis by blast
qed

text \<open>Two states that the invariants do not tell apart.\<close>

definition alike :: "fstate \<Rightarrow> fstate \<Rightarrow> bool" where
  "alike s s' \<longleftrightarrow> heap s' = heap s \<and> fs_tree (fs s') = fs_tree (fs s) \<and> (\<forall>k. idle_of s' k = idle_of s k)
     \<and> fs_pick_lock (fs s') = fs_pick_lock (fs s) \<and> (\<forall>e. idx s' e = idx s e \<and> flags_of s' e = flags_of s e)"

lemma alike_trans: "alike s s' \<Longrightarrow> alike s' s'' \<Longrightarrow> alike s s''"
  by (simp add: alike_def)

lemma alike_upd: "(\<And>x. fse_index (g x) = fse_index x \<and> fse_flags (g x) = fse_flags x) \<Longrightarrow> alike s (upd_ent s e g)"
  by (simp add: alike_def)

lemma pop_inv_alike:
  assumes P: "pop_inv off E s" and a: "alike s s'"
  shows "pop_inv off E s'"
proof -
  note s = a [unfolded alike_def]
  have "in_home off E s'" by (rule in_home_cong [of off E s]) (use P s in \<open>simp_all add: pop_inv_def fs_inv_def\<close>)
  with P s show ?thesis by (simp add: pop_inv_def fs_inv_def idle_set_def type_set_def)
qed

lemma ins_alike:
  assumes "avl_add (ents s1) (heap s1) (fs_tree (fs s1) t) e = Some ht" "s1 = upd_ent s e (set_flags (\<lambda>_. f))"
  shows "t = fs_free_files \<Longrightarrow> f = FSE_TYPE_FILE OR FSE_FREE \<Longrightarrow> \<exists>s'. fileset_insfilelist s e = Some s' \<and> alike (set_tree s1 t ht) s'"
    "t = fs_dirs \<Longrightarrow> f = FSE_TYPE_DIR OR FSE_EXISTS \<Longrightarrow> \<exists>s'. fileset_insdirlist s e = Some s' \<and> alike (set_tree s1 t ht) s'"
    "t = fs_free_leaf_dirs \<Longrightarrow> f = FSE_TYPE_LEAFDIR OR FSE_FREE \<Longrightarrow> \<exists>s'. fileset_insleafdirlist s e = Some s' \<and> alike (set_tree s1 t ht) s'"
  using assms
  by (simp_all add: fileset_insfilelist_def fileset_insdirlist_def fileset_insleafdirlist_def Let_def alike_def idle_of_def set_tree_def)

lemma insfilelist_pop_inv:
  assumes P: "pop_inv off E s" and e: "e \<notin> E" "node_ok off e" and c: "card (type_set E s FSE_TYPE_FILE) < 2 ^ 32"
  shows "\<exists>s'. fileset_insfilelist (new_entry fsp parent (ucast (fs_idle_files (fs s))) (add_idle FSE_TYPE_FILE 1 s) e) e = Some s'
    \<and> pop_inv off (insert e E) s'"
proof -
  let ?f = "FSE_TYPE_FILE OR FSE_FREE" and ?s0 = "new_entry fsp parent (ucast (fs_idle_files (fs s))) (add_idle FSE_TYPE_FILE 1 s) e"
  let ?s1 = "upd_ent ?s0 e (set_flags (\<lambda>_. ?f))"
  have f: "?f AND FSE_TYPE_MASK = FSE_TYPE_FILE" "home ?f = fs_free_files" by (simp_all add: home_def)
  obtain h' t' where A: "avl_add (ents ?s1) (heap ?s1) (fs_tree (fs ?s1) fs_free_files) e = Some (h', t')"
    "pop_inv off (insert e E) (set_tree ?s1 fs_free_files (h', t'))"
    using populate_pop_inv [OF P e, of ?f "ucast (fs_idle_files (fs s))" fsp parent, unfolded f] c by (simp add: idle_of_def) blast
  from ins_alike(1) [OF A(1) refl refl refl] A(2) pop_inv_alike show ?thesis by blast
qed

lemma insdirlist_pop_inv:
  assumes P: "pop_inv off E s" and e: "e \<notin> E" "node_ok off e" and c: "card (type_set E s FSE_TYPE_DIR) < 2 ^ 32"
  shows "\<exists>s'. fileset_insdirlist (new_entry fsp parent (ucast (fs_idle_dirs (fs s))) (add_idle FSE_TYPE_DIR 1 s) e) e = Some s'
    \<and> pop_inv off (insert e E) s'"
proof -
  let ?f = "FSE_TYPE_DIR OR FSE_EXISTS" and ?s0 = "new_entry fsp parent (ucast (fs_idle_dirs (fs s))) (add_idle FSE_TYPE_DIR 1 s) e"
  let ?s1 = "upd_ent ?s0 e (set_flags (\<lambda>_. ?f))"
  have f: "?f AND FSE_TYPE_MASK = FSE_TYPE_DIR" "home ?f = fs_dirs" by (simp_all add: home_def)
  obtain h' t' where A: "avl_add (ents ?s1) (heap ?s1) (fs_tree (fs ?s1) fs_dirs) e = Some (h', t')"
    "pop_inv off (insert e E) (set_tree ?s1 fs_dirs (h', t'))"
    using populate_pop_inv [OF P e, of ?f "ucast (fs_idle_dirs (fs s))" fsp parent, unfolded f] c by (simp add: idle_of_def) blast
  from ins_alike(2) [OF A(1) refl refl refl] A(2) pop_inv_alike show ?thesis by blast
qed

lemma insleafdirlist_pop_inv:
  assumes P: "pop_inv off E s" and e: "e \<notin> E" "node_ok off e" and c: "card (type_set E s FSE_TYPE_LEAFDIR) < 2 ^ 32"
  shows "\<exists>s'. fileset_insleafdirlist (new_entry fsp parent (ucast (fs_idle_leafdirs (fs s))) (add_idle FSE_TYPE_LEAFDIR 1 s) e) e = Some s'
    \<and> pop_inv off (insert e E) s'"
proof -
  let ?f = "FSE_TYPE_LEAFDIR OR FSE_FREE" and ?s0 = "new_entry fsp parent (ucast (fs_idle_leafdirs (fs s))) (add_idle FSE_TYPE_LEAFDIR 1 s) e"
  let ?s1 = "upd_ent ?s0 e (set_flags (\<lambda>_. ?f))"
  have f: "?f AND FSE_TYPE_MASK = FSE_TYPE_LEAFDIR" "home ?f = fs_free_leaf_dirs" by (simp_all add: home_def)
  obtain h' t' where A: "avl_add (ents ?s1) (heap ?s1) (fs_tree (fs ?s1) fs_free_leaf_dirs) e = Some (h', t')"
    "pop_inv off (insert e E) (set_tree ?s1 fs_free_leaf_dirs (h', t'))"
    using populate_pop_inv [OF P e, of ?f "ucast (fs_idle_leafdirs (fs s))" fsp parent, unfolded f] c by (simp add: idle_of_def) blast
  from ins_alike(3) [OF A(1) refl refl refl] A(2) pop_inv_alike show ?thesis by blast
qed

lemma populate_entry_pop_inv:
  assumes P: "pop_inv off E s" and e: "e \<notin> E" "node_ok off e"
  shows "card (type_set E s FSE_TYPE_FILE) < 2 ^ 32 \<Longrightarrow>
      \<exists>s'. fileset_populate_file fsp s parent e nm bytes = Some (if nm = None then FILEBENCH_ERROR else FILEBENCH_OK, s')
        \<and> pop_inv off (insert e E) s'"
    "card (type_set E s FSE_TYPE_LEAFDIR) < 2 ^ 32 \<Longrightarrow>
      \<exists>s'. fileset_populate_leafdir fsp s parent e nm = Some (if nm = None then FILEBENCH_ERROR else FILEBENCH_OK, s')
        \<and> pop_inv off (insert e E) s'"
    "card (type_set E s FSE_TYPE_DIR) < 2 ^ 32 \<Longrightarrow>
      \<exists>s'. populate_dirnode fsp s parent e (Some d) = Some (FILEBENCH_OK, s') \<and> pop_inv off (insert e E) s'"
proof -
  have e0: "e \<noteq> NULL" using e(2) by (simp add: node_ok_def)
  note al = pop_inv_alike [of off "insert e E"]
  have ap: "alike s2 (upd_ent s2 e (\<lambda>x. x\<lparr>fse_path := nm\<rparr>))" "alike s2 (upd_ent s2 e (\<lambda>x. x\<lparr>fse_size := b\<rparr>))" for s2 nm b
    by (simp_all add: alike_upd)
  have ar: "alike s2 (s2\<lparr>fs := (fs s2)\<lparr>fs_bytes := b, fs_realfiles := n\<rparr>\<rparr>)" "alike s2 (s2\<lparr>fs := (fs s2)\<lparr>fs_realleafdirs := n\<rparr>\<rparr>)"
    for s2 b n by (simp_all add: alike_def idle_of_def)
  show "\<exists>s'. fileset_populate_file fsp s parent e nm bytes = Some (if nm = None then FILEBENCH_ERROR else FILEBENCH_OK, s')
        \<and> pop_inv off (insert e E) s'" if c: "card (type_set E s FSE_TYPE_FILE) < 2 ^ 32"
    using insfilelist_pop_inv [OF P e c, of fsp parent] e0 al [OF al [OF al [OF _ ap(1)] ap(2)] ar(1)] al [OF _ ap(1)]
    by (auto simp: fileset_populate_file_def Let_def)
  show "\<exists>s'. fileset_populate_leafdir fsp s parent e nm = Some (if nm = None then FILEBENCH_ERROR else FILEBENCH_OK, s')
        \<and> pop_inv off (insert e E) s'" if c: "card (type_set E s FSE_TYPE_LEAFDIR) < 2 ^ 32"
    using insleafdirlist_pop_inv [OF P e c, of fsp parent] e0 al [OF al [OF _ ap(1)] ar(2)] al [OF _ ap(1)]
    by (auto simp: fileset_populate_leafdir_def Let_def)
  show "\<exists>s'. populate_dirnode fsp s parent e (Some d) = Some (FILEBENCH_OK, s') \<and> pop_inv off (insert e E) s'"
    if c: "card (type_set E s FSE_TYPE_DIR) < 2 ^ 32"
  proof -
    let ?s = "upd_ent s e (\<lambda>x. x\<lparr>fse_path := Some d\<rparr>)"
    have P': "pop_inv off E ?s" by (rule pop_inv_alike [OF P ap(1)])
    have "type_set E ?s FSE_TYPE_DIR = type_set E s FSE_TYPE_DIR" by (auto simp: type_set_def)
    with c have c': "card (type_set E ?s FSE_TYPE_DIR) < 2 ^ 32" by simp
    have "add_idle FSE_TYPE_DIR 1 ?s = upd_ent (add_idle FSE_TYPE_DIR 1 s) e (\<lambda>x. x\<lparr>fse_path := Some d\<rparr>)"
      by (simp add: add_idle_def upd_ent_def)
    with insdirlist_pop_inv [OF P' e c', of fsp parent] e0 show ?thesis by (auto simp: populate_dirnode_def Let_def)
  qed
qed

lemma create_trees_pop_inv:
  assumes "offset + 24 \<le> sz" "sz \<noteq> 0" "offset AND 7 = 0" "aligned offset"
  shows "pop_inv offset {} (fileset_create_trees sz offset s n m)"
proof -
  let ?s = "fileset_create_trees sz offset s n m"
  have t: "fs_tree (fs ?s) t = (fs_tree (fs s) t)\<lparr>avl_compar := fileset_entry_compare, avl_root := NULL, avl_numnodes := 0,
      avl_size := sz, avl_offset := offset\<rparr>" for t
    using assms by (simp add: fileset_create_trees_def avl_create_def)
  have "avl_holds (heap ?s) (fs_tree (fs ?s) t) []" for t
    using assms(4) by (auto simp: avl_holds_def repc_Nil t intro!: exI [of _ Leaf])
  then have "trees_hold offset ?s (\<lambda>_. [])" by (simp add: trees_hold_def t)
  then have "in_home offset {} ?s" unfolding in_home_def by auto
  then show ?thesis by (simp add: pop_inv_def fs_inv_def idle_set_def idle_of_def fileset_create_trees_def)
qed

subsection \<open>The life of a fileset\<close>

text \<open>
  The states a fileset goes through: the trees are created, then the entries are added one by one,
  then the threads of the workload pick entries and give them back in any order. The indices are
  32-bit numbers, so that there are fewer than \<open>2 ^ 32\<close> entries of a type.
\<close>

inductive fileset_run :: "uint64 \<Rightarrow> ptr set \<Rightarrow> bool \<Rightarrow> fstate \<Rightarrow> bool" for off where
  created: "off + 24 \<le> sz \<Longrightarrow> sz \<noteq> 0 \<Longrightarrow> off AND 7 = 0 \<Longrightarrow>
    fileset_run off {} False (fileset_create_trees sz off s n m)"
| add_file: "fileset_run off E False s \<Longrightarrow> e \<notin> E \<Longrightarrow> node_ok off e \<Longrightarrow> card (type_set E s FSE_TYPE_FILE) < 2 ^ 32 \<Longrightarrow>
    fileset_populate_file fsp s parent e nm bytes = Some (rc, s') \<Longrightarrow> fileset_run off (insert e E) False s'"
| add_leafdir: "fileset_run off E False s \<Longrightarrow> e \<notin> E \<Longrightarrow> node_ok off e \<Longrightarrow> card (type_set E s FSE_TYPE_LEAFDIR) < 2 ^ 32 \<Longrightarrow>
    fileset_populate_leafdir fsp s parent e nm = Some (rc, s') \<Longrightarrow> fileset_run off (insert e E) False s'"
| add_dir: "fileset_run off E False s \<Longrightarrow> e \<notin> E \<Longrightarrow> node_ok off e \<Longrightarrow> card (type_set E s FSE_TYPE_DIR) < 2 ^ 32 \<Longrightarrow>
    populate_dirnode fsp s parent e (Some d) = Some (rc, s') \<Longrightarrow> fileset_run off (insert e E) False s'"
| pick: "fileset_run off E b s \<Longrightarrow> pick_tree s flags = Some (t, mx) \<Longrightarrow> mx \<noteq> 0 \<Longrightarrow> tid < FSE_MAXTID \<Longrightarrow> loc \<notin> E \<Longrightarrow>
    fileset_pick F R vs (Some r) loc s flags tid index = Some (Returns (e, s')) \<Longrightarrow> fileset_run off E True s'"
| unbusy: "fileset_run off E b s \<Longrightarrow> e \<in> E \<Longrightarrow> fse_fileset (ents s e) \<noteq> NULL \<Longrightarrow> tmp \<noteq> NULL \<Longrightarrow> \<forall>d \<in> E. tmp \<noteq> d + off \<Longrightarrow>
    fileset_unbusy tmp s e upd ex incr = Some (Returns (s', woken)) \<Longrightarrow> fileset_run off E True s'"

lemma aligned_and7: "p AND 7 = 0 \<Longrightarrow> aligned p"
  by (simp add: aligned_take_bit take_bit_eq_mask mask_eq_exp_minus_1)

lemma fileset_run_inv: "fileset_run off E b s \<Longrightarrow> fs_inv off E s \<and> (\<not> b \<longrightarrow> pop_inv off E s)"
proof (induction rule: fileset_run.induct)
  case (created sz s n m)
  then show ?case using create_trees_pop_inv [of off sz s n m] aligned_and7 by (simp add: pop_inv_def)
next
  case (add_file E s e fsp parent nm bytes rc s')
  then show ?case using populate_entry_pop_inv(1) [of off E s e fsp parent nm bytes] by (auto simp: pop_inv_def)
next
  case (add_leafdir E s e fsp parent nm rc s')
  then show ?case using populate_entry_pop_inv(2) [of off E s e fsp parent nm] by (auto simp: pop_inv_def)
next
  case (add_dir E s e fsp parent d rc s')
  then show ?case using populate_entry_pop_inv(3) [of off E s e fsp parent d] by (auto simp: pop_inv_def)
next
  case (pick E b s flags t mx tid loc F R vs r index e s')
  then have I: "fs_inv off E s" by blast
  from fileset_pick_inv [OF I pick.hyps(2,4,5), of F R vs r index] pick.hyps(3,6) I show ?case
    by (auto split: if_splits option.splits)
next
  case (unbusy E b s e tmp upd ex incr s' woken)
  then have I: "fs_inv off E s" by blast
  from fileset_unbusy_inv [OF I unbusy.hyps(2-5), of upd ex incr] unbusy.hyps(6) show ?case by auto
qed

subsection \<open>Resetting the trees\<close>

lemma pickreset_tree_empty:
  assumes "trees_hold off s D" "D src = []"
  shows "pickreset_tree tmp src dst s = Some s"
  using avl_first_holds(1) [OF trees_holdD(1) [OF assms(1), of src]] assms(2)
  by (simp add: pickreset_tree_def pickreset_loop.simps)

text \<open>
  The loop asks for the neighbour of the entry it has just moved. When no free file has a higher index,
  there is none, and the loop ends after its first round.
\<close>

lemma pickreset_tree_stops:
  assumes I: "in_home off E s" and a: "a \<in> E" "home (flags_of s a) = fs_exist_files"
    and min: "\<forall>e \<in> E. home (flags_of s e) = fs_exist_files \<longrightarrow> idx s a \<le> idx s e"
    and free: "\<forall>e \<in> E. home (flags_of s e) = fs_free_files \<longrightarrow> idx s e < idx s a"
    and tmp: "tmp \<noteq> NULL" "\<forall>d \<in> E. tmp \<noteq> d + off"
  shows "\<exists>s'. pickreset_tree tmp fs_exist_files fs_free_files s = Some s' \<and> (\<forall>e. e \<noteq> a \<longrightarrow> ents s' e = ents s e)
    \<and> in_home off E s'"
proof -
  obtain D where D: "trees_hold off s D" "\<And>t. set (D t) = {x \<in> E. home (flags_of s x) = t}"
    using I unfolding in_home_def by blast
  let ?g = "\<lambda>f. f OR FSE_FREE" and ?s0 = "upd_ent s a (\<lambda>e. e\<lparr>fse_open_cnt := 0\<rparr>)"
  have I0: "in_home off E ?s0" by (rule in_home_cong [OF I]) simp_all
  have f3: "flags_of s a AND FSE_TYPE_MASK \<noteq> 3" using I a(1) by (simp add: in_home_def)
  have ty: "flags_of s a AND FSE_TYPE_MASK = FSE_TYPE_FILE" using a(2) f3 by (elim type_cases) (simp_all add: home_def split: if_splits)
  have hg: "home (?g (flags_of s a)) = fs_free_files" using ty by (simp add: home_def flag_simps)
  have first: "avl_first (heap s) (fs_tree (fs s) fs_exist_files) = Some a"
  proof -
    have m: "a \<in> set (D fs_exist_files)" using D(2) a by simp
    then obtain d ds where ds: "D fs_exist_files = d # ds" by (cases "D fs_exist_files") auto
    have "d = a"
    proof (rule ccontr)
      assume "d \<noteq> a"
      then have "idx s d < idx s a" using m trees_holdD(4) [OF D(1), of fs_exist_files] by (simp add: ds)
      moreover have "idx s a \<le> idx s d" using min D(2) [of fs_exist_files] ds by auto
      ultimately show False by simp
    qed
    with ds avl_first_holds(1) [OF trees_holdD(1) [OF D(1), of fs_exist_files]] show ?thesis by simp
  qed
  have hs: "home (flags_of ?s0 a) = fs_exist_files" "home (?g (flags_of ?s0 a)) = fs_free_files" using a(2) hg by simp_all
  obtain s1 where S: "fileset_move_entry tmp (upd_ent ?s0 a (set_flags ?g)) fs_exist_files fs_free_files a = Some s1"
    "ents s1 = ents (upd_ent ?s0 a (set_flags ?g))" "in_home off E s1"
  proof (rule move_home [where g = ?g, OF I0 a(1) _ _ _ tmp, unfolded hs])
    show "?g (flags_of ?s0 a) AND FSE_TYPE_MASK = flags_of ?s0 a AND FSE_TYPE_MASK" by (simp add: flag_simps)
    show "flags_of ?s0 x AND FSE_TYPE_MASK = flags_of ?s0 a AND FSE_TYPE_MASK" if "x \<in> E" "home (flags_of ?s0 x) = fs_free_files" for x
    proof -
      have "flags_of s x AND FSE_TYPE_MASK \<noteq> 3" using I that(1) by (simp add: in_home_def)
      then have "flags_of s x AND FSE_TYPE_MASK = FSE_TYPE_FILE" using that(2) by (elim type_cases) (auto simp: home_def split: if_splits)
      with ty show ?thesis by simp
    qed
  qed simp
  have nxt: "AVL_NEXT (heap s1) (fs_tree (fs s1) fs_exist_files) a = Some NULL"
  proof -
    obtain D1 where D1: "trees_hold off s1 D1" "\<And>t. set (D1 t) = {x \<in> E. home (flags_of s1 x) = t}"
      using S(3) unfolding in_home_def by blast
    have fl: "flags_of s1 x = (if x = a then ?g (flags_of s a) else flags_of s x)" "idx s1 x = idx s x" for x by (simp_all add: S(2))
    have "a \<in> set (D1 fs_free_files)" using a(1) hg by (simp add: D1(2) fl)
    then obtain xs ys where D: "D1 fs_free_files = xs @ a # ys" by (meson split_list)
    have "ys = []"
    proof (rule ccontr)
      assume "ys \<noteq> []"
      then obtain y where y: "y \<in> set ys" by (cases ys) auto
      have lt: "idx s a < idx s y" using trees_holdD(4) [OF D1(1), of fs_free_files] y by (simp add: D fl sorted_wrt_append)
      moreover have "y \<in> set (D1 fs_free_files)" using y D by simp
      then have "y \<in> E" "home (flags_of s1 y) = fs_free_files" by (simp_all add: D1(2))
      ultimately show False using free fl(1) [of y] by (cases "y = a") auto
    qed
    then have "AVL_NEXT (heap s1) (fs_tree (fs s1) fs_free_files) a = Some NULL"
      using avl_walk_holds(1) [of "heap s1" _ xs a ys] trees_holdD(1) [OF D1(1), of fs_free_files] by (simp add: D)
    then show ?thesis using trees_holdD(3) [OF D1(1)] by (simp add: avl_walk_def)
  qed
  have u: "upd_ent s a (\<lambda>e. e\<lparr>fse_flags := fse_flags e OR FSE_FREE, fse_open_cnt := 0\<rparr>) = upd_ent ?s0 a (set_flags ?g)"
    by (cases "ents s a") (simp add: upd_ent_def set_flags_def)
  have "a \<noteq> NULL" using in_home_entry [OF I a(1)] by blast
  then have "pickreset_loop tmp fs_exist_files fs_free_files s a = Some s1"
    using S(1) nxt by (subst pickreset_loop.simps) (simp add: u pickreset_loop.simps)
  then show ?thesis using first S(2,3) by (simp add: pickreset_tree_def)
qed

subsection \<open>Properties\<close>

text \<open>An example: a fileset with one file, at address 64, which is free and idle.\<close>

definition ex_fileset :: fstate where
  "ex_fileset = \<lparr>fs = \<lparr>fs_constentries = 1, fs_constleafdirs = 0, fs_realfiles = 1, fs_realleafdirs = 0, fs_bytes = 0,
      fs_idle_files = 1, fs_idle_dirs = 0, fs_idle_leafdirs = 0, fs_pick_lock = False,
      fs_tree = (\<lambda>t. \<lparr>avl_root = (if t = fs_free_files then 80 else NULL), avl_compar = fileset_entry_compare,
        avl_offset = 16, avl_numnodes = (if t = fs_free_files then 1 else 0), avl_size = 120\<rparr>),
      fs_filelist = 64, fs_file_exrotor = (\<lambda>_. 0), fs_file_nerotor = 0, fs_dirlist = NULL, fs_dirrotor = 0,
      fs_leafdirlist = NULL, fs_leafdir_exrotor = 0, fs_leafdir_nerotor = 0\<rparr>,
    ents = (\<lambda>_. \<lparr>fse_next = NULL, fse_parent = NULL, fse_index = 0, fse_nextoftype = NULL, fse_fileset = 8,
      fse_path = None, fse_depth = 0, fse_size = 0, fse_open_cnt = 0, fse_flags = FSE_TYPE_FILE OR FSE_FREE\<rparr>),
    heap = one_heap\<rparr>"

lemma ex_fileset_inv: "fs_inv 16 {64} ex_fileset"
proof -
  have f: "flags_of ex_fileset e = 4" "home 4 = fs_free_files" for e by (simp_all add: ex_fileset_def home_def)
  have "avl_holds (heap ex_fileset) (fs_tree (fs ex_fileset) t) (if t = fs_free_files then [64] else [])" for t
    unfolding avl_holds_def
    by (intro conjI exI [of _ "if t = fs_free_files then Node Leaf 80 0 Leaf else Leaf"])
      (simp_all add: repc_Nil one_heap_def ex_fileset_def AVL_DATA2NODE_def aligned_def)
  then have "trees_hold 16 ex_fileset (\<lambda>t. if t = fs_free_files then [64] else [])"
    by (auto simp: trees_hold_def ex_fileset_def)
  then have "in_home 16 {64} ex_fileset" unfolding in_home_def f
    by (intro conjI exI [of _ "\<lambda>t. if t = fs_free_files then [64] else []"]) auto
  moreover have "idle_set {64} ex_fileset k = (if k = 0 then {64} else {})" for k by (auto simp: idle_set_def f)
  ultimately show ?thesis by (simp add: fs_inv_def idle_of_def ex_fileset_def)
qed

lemma ex_fileset_one:
  "sorted_wrt (\<lambda>x y. idx ex_fileset x < idx ex_fileset y) ds \<Longrightarrow> set ds = {64} \<Longrightarrow> ds = [64]"
  by (cases ds; cases "tl ds") (auto simp: ex_fileset_def)



text \<open>
  C2. \<open>fileset_pick\<close> on a fileset that satisfies its invariant: without entries of the type it returns \<open>NULL\<close>;
  it waits exactly when all entries of the type are busy; otherwise it returns the first entry that is
  not busy of the tree the flags select, going round from the index that the flags, the rotors or the
  random number choose, marks it busy and changes no other entry, or returns \<open>NULL\<close> if every entry
  of the tree is busy. The invariant holds again and the mutex is free, except when the random number
  fails because the count of entries is zero: then the function returns with the mutex held.
\<close>

theorem fileset_pick_correct:
  assumes "fs_inv off E s" "pick_tree s flags = Some (t, mx)" "tid < FSE_MAXTID" "loc \<notin> E"
  shows "\<exists>out. fileset_pick F R vs (Some r) loc s flags tid index = Some out \<and>
    (if pick_list s flags = NULL then out = Returns (NULL, s)
     else if idle_set E s (flags AND FILESET_PICKMASK) = {} then out = Waits
     else if \<forall>e \<in> E. home (flags_of s e) \<noteq> t then out = Returns (NULL, s)
     else if flags AND FILESET_PICKUNIQUE \<noteq> 0 \<and> index = 0 \<and> mx = 0 then out = Returns (NULL, lock_pick s True)
     else \<exists>ds s'. sorted_wrt (\<lambda>x y. idx s x < idx s y) ds \<and> set ds = {e \<in> E. home (flags_of s e) = t} \<and> fs_inv off E s' \<and>
       (case find (\<lambda>e. \<not> busy s e) (from_index s (pick_key r s mx flags tid index) ds) of
          None \<Rightarrow> out = Returns (NULL, s') \<and> ents s' = ents s
        | Some e \<Rightarrow> out = Returns (e, s') \<and> ents s' = (ents s)(e := set_flags (\<lambda>f. f OR FSE_BUSY) (ents s e))))"
  using fileset_pick_inv [OF assms] .

theorem fileset_pick_witness:
  "\<exists>s'. fileset_pick ex_F ex_R ex_vshm (Some 5) 8 ex_fileset FILESET_PICKUNIQUE 0 0 = Some (Returns (64, s')) \<and> fs_inv 16 {64} s'"
proof -
  have t: "pick_tree ex_fileset FILESET_PICKUNIQUE = Some (fs_free_files, 1)" by (simp add: pick_tree_def ex_fileset_def)
  have h: "home (flags_of ex_fileset e) = fs_free_files" "\<not> busy ex_fileset e" for e by (simp_all add: ex_fileset_def home_def)
  have p: "pick_list ex_fileset FILESET_PICKUNIQUE \<noteq> NULL" by (simp add: pick_list_def ex_fileset_def)
  have i: "idle_set {64} ex_fileset 0 = {64}" by (auto simp: idle_set_def ex_fileset_def)
  have fi: "from_index ex_fileset k [64] = [64]" for k by (simp add: from_index_def)
  from fileset_pick_correct [OF ex_fileset_inv t, of 0 8 ex_F ex_R ex_vshm 5 0] p i h show ?thesis
    by (auto simp: fi dest!: ex_fileset_one)
qed

text \<open>
  C3. Giving an entry back (\<open>fileset_unbusy\<close>): the call returns, the invariant of the fileset still
  holds, the entry is no longer busy, and nothing of the other entries has changed. If asked to, the
  call sets whether the entry exists, and the entry is then in the tree of the existing or of the
  non-existing entries of its type; otherwise it stays in its tree. A thread that waits for an idle
  entry is woken exactly when the entry was busy and no entry of the type was idle.
\<close>

theorem fileset_unbusy_correct:
  assumes "fs_inv off E s" "e \<in> E" "fse_fileset (ents s e) \<noteq> NULL" "tmp \<noteq> NULL" "\<forall>d \<in> E. tmp \<noteq> d + off"
  shows "\<exists>s' woken. fileset_unbusy tmp s e upd b incr = Some (Returns (s', woken)) \<and> fs_inv off E s'
    \<and> ents s' = (ents s)(e := (ents s e)\<lparr>fse_open_cnt := fse_open_cnt (ents s e) + incr, fse_flags := flags_of s' e\<rparr>)
    \<and> \<not> busy s' e \<and> flags_of s' e AND FSE_TYPE_MASK = flags_of s e AND FSE_TYPE_MASK
    \<and> (if upd then flags_of s' e AND FSE_FREE = 0 \<and> (flags_of s' e AND FSE_EXISTS \<noteq> 0 \<longleftrightarrow> b)
       else home (flags_of s' e) = home (flags_of s e))
    \<and> (idle_cv (flags_of s e AND FSE_TYPE_MASK) \<in> set woken \<longleftrightarrow>
       busy s e \<and> idle_set E s (flags_of s e AND FSE_TYPE_MASK) = {})"
  using fileset_unbusy_inv [OF assms] .

theorem fileset_unbusy_witness:
  "\<exists>s' woken. fileset_unbusy 200 ex_fileset 64 True True 0 = Some (Returns (s', woken)) \<and> fs_inv 16 {64} s'
     \<and> flags_of s' 64 AND FSE_EXISTS \<noteq> 0"
  using fileset_unbusy_correct [OF ex_fileset_inv, of 64 200 True True 0] by (auto simp: ex_fileset_def)

text \<open>
  \<open>fileset_find_entry\<close> on a tree of a fileset returns the entry with the wanted index, otherwise
  the entry with the next higher index, otherwise the one with the lowest index, and \<open>NULL\<close> only for an empty tree.
\<close>

theorem fileset_find_entry_correct:
  assumes "fs_inv off E s" "loc \<notin> E"
  shows "\<exists>ds. set ds = {e \<in> E. home (flags_of s e) = t} \<and> sorted_wrt (\<lambda>x y. idx s x < idx s y) ds
    \<and> fileset_find_entry loc s t k = Some (first_or_null (filter (\<lambda>e. k \<le> idx s e) ds @ ds))"
proof -
  obtain D where D: "trees_hold off s D" "\<And>t. set (D t) = {x \<in> E. home (flags_of s x) = t}"
    using assms(1) unfolding in_home_def fs_inv_def by blast
  note srt = trees_holdD(4) [OF D(1), of t]
  have "dropWhile (\<lambda>e. idx s e < k) ds = filter (\<lambda>e. k \<le> idx s e) ds" if "sorted_wrt (\<lambda>x y. idx s x < idx s y) ds" for ds
    using that
  proof (induction ds)
    case (Cons d ds)
    then show ?case by (auto simp: not_less intro!: filter_True [symmetric])
  qed simp
  then have "first_or_null (from_index s k (D t)) = first_or_null (filter (\<lambda>e. k \<le> idx s e) (D t) @ D t)"
    using srt by (cases "filter (\<lambda>e. k \<le> idx s e) (D t) = []") (auto simp: from_index_def filter_empty_conv not_le takeWhile_eq_all_conv [THEN iffD2])
  then show ?thesis using fileset_find_entry_trees [OF D(1), of loc t k] D(2) assms(2) srt by auto
qed

theorem fileset_find_entry_witness: "fileset_find_entry 8 ex_fileset fs_free_files 5 = Some 64"
proof -
  have h: "{e \<in> {64}. home (flags_of ex_fileset e) = fs_free_files} = {64}" by (auto simp: ex_fileset_def home_def)
  obtain ds where d: "set ds = {64}" "sorted_wrt (\<lambda>x y. idx ex_fileset x < idx ex_fileset y) ds"
    "fileset_find_entry 8 ex_fileset fs_free_files 5 = Some (first_or_null (filter (\<lambda>e. 5 \<le> idx ex_fileset e) ds @ ds))"
    using fileset_find_entry_correct [OF ex_fileset_inv, of 8 fs_free_files 5, unfolded h] by auto
  have "ds = [64]" by (rule ex_fileset_one [OF d(2,1)])
  with d(3) show ?thesis by simp
qed

text \<open>An example with two existing files, at the addresses 64 and 192, both busy.\<close>

definition ex_two :: fstate where
  "ex_two = \<lparr>fs = (fs ex_fileset)\<lparr>fs_constentries := 2, fs_idle_files := 0,
      fs_tree := (\<lambda>t. \<lparr>avl_root = (if t = fs_exist_files then 80 else NULL), avl_compar = fileset_entry_compare,
        avl_offset = 16, avl_numnodes = (if t = fs_exist_files then 2 else 0), avl_size = 120\<rparr>)\<rparr>,
    ents = (\<lambda>e. (ents ex_fileset e)\<lparr>fse_index := if e = 64 then 0 else 1, fse_flags := FSE_TYPE_FILE OR FSE_EXISTS OR FSE_BUSY\<rparr>),
    heap = one_heap(80 := \<lparr>avl_child = (\<lambda>_. NULL)(1 := 208), avl_parent = NULL, avl_child_index = 0, avl_balance = 1\<rparr>,
      208 := \<lparr>avl_child = (\<lambda>_. NULL), avl_parent = 80, avl_child_index = 1, avl_balance = 0\<rparr>)\<rparr>"

lemma ex_two_inv: "fs_inv 16 {64, 192} ex_two"
proof -
  have f: "flags_of ex_two e = 24" "home 24 = fs_exist_files" for e by (simp_all add: ex_two_def home_def)
  let ?D = "\<lambda>t. if t = fs_exist_files then [64, 192] else []"
  have "avl_holds (heap ex_two) (fs_tree (fs ex_two) t) (?D t)" for t
    unfolding avl_holds_def
    by (intro conjI exI [of _ "if t = fs_exist_files then Node Leaf 80 1 (Node Leaf 208 0 Leaf) else Leaf"])
      (auto simp: repc_Nil one_heap_def ex_two_def AVL_DATA2NODE_def aligned_def)
  then have "trees_hold 16 ex_two ?D" by (auto simp: trees_hold_def ex_two_def)
  then have "in_home 16 {64, 192} ex_two" unfolding in_home_def f
    by (intro conjI exI [of _ ?D]) (auto simp: ex_two_def)
  moreover have "idle_set {64, 192} ex_two k = {}" for k by (auto simp: idle_set_def f)
  ultimately show ?thesis by (simp add: fs_inv_def idle_of_def ex_two_def ex_fileset_def)
qed

text \<open>
  A lost wake-up. When all files are busy and two of them are given back one after the other, before a
  waiting thread runs, the condition variable on which threads wait for an idle file is signalled only once,
  although two files are idle then: of two waiting threads one goes on sleeping.
\<close>

theorem fileset_unbusy_lost_wakeup:
  assumes I: "fs_inv off E s" and e: "e1 \<in> E" "e2 \<in> E" "e1 \<noteq> e2" "busy s e1" "busy s e2"
    "flags_of s e1 AND FSE_TYPE_MASK = FSE_TYPE_FILE" "flags_of s e2 AND FSE_TYPE_MASK = FSE_TYPE_FILE"
    "fse_fileset (ents s e1) \<noteq> NULL" "fse_fileset (ents s e2) \<noteq> NULL"
    and none: "idle_set E s FSE_TYPE_FILE = {}" and tmp: "tmp \<noteq> NULL" "\<forall>d \<in> E. tmp \<noteq> d + off"
  shows "\<exists>s1 w1 s2 w2. fileset_unbusy tmp s e1 False False 0 = Some (Returns (s1, w1))
    \<and> fileset_unbusy tmp s1 e2 False False 0 = Some (Returns (s2, w2))
    \<and> fs_idle_files_cv \<in> set w1 \<and> fs_idle_files_cv \<notin> set w2 \<and> {e1, e2} \<subseteq> idle_set E s2 FSE_TYPE_FILE"
proof -
  have cv: "idle_cv FSE_TYPE_FILE = fs_idle_files_cv" by (simp add: idle_cv_def)
  note U1 = fileset_unbusy_inv [OF I e(1,8) tmp, of False False 0, unfolded e(6) cv none if_False]
  obtain s1 w1 where S1: "fileset_unbusy tmp s e1 False False 0 = Some (Returns (s1, w1))" "fs_inv off E s1"
    "ents s1 = (ents s)(e1 := (ents s e1)\<lparr>fse_open_cnt := fse_open_cnt (ents s e1) + 0, fse_flags := flags_of s1 e1\<rparr>)"
    "\<not> busy s1 e1" "flags_of s1 e1 AND FSE_TYPE_MASK = FSE_TYPE_FILE" "fs_idle_files_cv \<in> set w1"
    using U1 e(4) by blast
  have i1: "e1 \<in> idle_set E s1 FSE_TYPE_FILE" using S1(4,5) e(1) by (simp add: idle_set_def)
  have e2: "ents s1 e2 = ents s e2" by (subst S1(3)) (use e(3) in simp)
  then have e2': "fse_fileset (ents s1 e2) \<noteq> NULL" "flags_of s1 e2 AND FSE_TYPE_MASK = FSE_TYPE_FILE" using e(7,9) by simp_all
  note U2 = fileset_unbusy_inv [OF S1(2) e(2) e2'(1) tmp, of False False 0, unfolded e2'(2) cv if_False]
  obtain s2 w2 where S2: "fileset_unbusy tmp s1 e2 False False 0 = Some (Returns (s2, w2))"
    "ents s2 = (ents s1)(e2 := (ents s1 e2)\<lparr>fse_open_cnt := fse_open_cnt (ents s1 e2) + 0, fse_flags := flags_of s2 e2\<rparr>)"
    "\<not> busy s2 e2" "flags_of s2 e2 AND FSE_TYPE_MASK = FSE_TYPE_FILE" "fs_idle_files_cv \<notin> set w2"
    using U2 i1 by blast
  have "ents s2 e1 = ents s1 e1" by (subst S2(2)) (use e(3) in simp)
  then have "e1 \<in> idle_set E s2 FSE_TYPE_FILE" using i1 by (simp add: idle_set_def)
  moreover have "e2 \<in> idle_set E s2 FSE_TYPE_FILE" using S2(3,4) e(2) by (simp add: idle_set_def)
  ultimately show ?thesis using S1(1,6) S2(1,5) by blast
qed

theorem fileset_unbusy_lost_wakeup_witness:
  "\<exists>s1 w1 s2 w2. fileset_unbusy 400 ex_two 64 False False 0 = Some (Returns (s1, w1))
    \<and> fileset_unbusy 400 s1 192 False False 0 = Some (Returns (s2, w2))
    \<and> fs_idle_files_cv \<in> set w1 \<and> fs_idle_files_cv \<notin> set w2"
proof -
  have x: "busy ex_two e" "flags_of ex_two e AND FSE_TYPE_MASK = FSE_TYPE_FILE" "fse_fileset (ents ex_two e) \<noteq> NULL" for e
    by (simp_all add: ex_two_def ex_fileset_def)
  have "idle_set {64, 192} ex_two FSE_TYPE_FILE = {}" using x(1) by (auto simp: idle_set_def)
  from fileset_unbusy_lost_wakeup [OF ex_two_inv _ _ _ x(1) x(1) x(2) x(2) x(3) x(3) this, of 64 192 400]
  show ?thesis by auto
qed



end
