(* ===== verification/FB_Flowop.thy ===== *)
theory FB_Flowop
  imports FB_Vars
begin

text \<open>
  The flowops of \<^verbatim>\<open>src/filebench/flowop.c\<close> and \<^verbatim>\<open>flowop.h\<close>: the operations a thread of a workload
  executes, in the order of the thread's list. Every flowop is on the global list in shared memory
  (\<open>fo_next\<close>), and on the list of its thread or of the composite flowop it belongs to (\<open>fo_exec_next\<close>).

  The address of a list head is a value of \<open>fhead\<close>. The library of flowops is not part of this theory:
  its functions are the argument \<open>call\<close>, applied to the function pointer. The state \<open>w\<close> of the world
  is threaded through; \<open>clock\<close> is \<open>gethrtime\<close>. An \<open>int\<close> of the program is \<open>int\<close> where it is a code and
  a 32-bit word where it is a counter. \<open>None\<close> is undefined behaviour: a null pointer followed, a name
  that overflows its array, a loop that does not end. \<open>HAVE_PROCFS\<close> is not set, as on the systems
  without the Solaris \<^verbatim>\<open>/proc\<close>.

  Not modelled: log messages, sleeping, and the locks of the whole list, which only one thread at a time holds.
\<close>

subsection \<open>Types\<close>

record flowstat =
  fs_children :: uint32
  fs_active :: uint32
  fs_count :: uint32
  fs_rbytes :: uint64
  fs_wbytes :: uint64
  fs_bytes :: uint64
  fs_rcount :: uint64
  fs_wcount :: uint64
  fs_stime :: uint64
  fs_etime :: uint64
  fs_mstate :: "nat \<Rightarrow> uint64"
  fs_syscpu :: uint64

abbreviation (input) FLOW_MSTATE_LAT :: nat where "FLOW_MSTATE_LAT \<equiv> 0"

abbreviation (input) FLOW_ATTR_READ :: uint32 where "FLOW_ATTR_READ \<equiv> 0x80"
abbreviation (input) FLOW_ATTR_WRITE :: uint32 where "FLOW_ATTR_WRITE \<equiv> 0x100"

abbreviation (input) FLOW_DEFINITION :: int where "FLOW_DEFINITION \<equiv> 0"
abbreviation (input) FLOW_INNER_DEF :: int where "FLOW_INNER_DEF \<equiv> -1"
abbreviation (input) FLOW_MASTER :: int where "FLOW_MASTER \<equiv> -2"

abbreviation (input) FLOW_TYPE_GLOBAL :: uint32 where "FLOW_TYPE_GLOBAL \<equiv> 0"
abbreviation (input) FLOW_TYPE_IO :: uint32 where "FLOW_TYPE_IO \<equiv> 1"
abbreviation (input) FLOW_TYPE_AIO :: uint32 where "FLOW_TYPE_AIO \<equiv> 2"
abbreviation (input) FLOW_TYPE_SYNC :: uint32 where "FLOW_TYPE_SYNC \<equiv> 3"
abbreviation (input) FLOW_TYPE_COMPOSITE :: uint32 where "FLOW_TYPE_COMPOSITE \<equiv> 4"
abbreviation (input) FLOW_TYPE_OTHER :: uint32 where "FLOW_TYPE_OTHER \<equiv> 5"

abbreviation (input) FILEBENCH_ABORT_ERROR :: int where "FILEBENCH_ABORT_ERROR \<equiv> 1"
abbreviation (input) FILEBENCH_ABORT_DONE :: int where "FILEBENCH_ABORT_DONE \<equiv> 2"
abbreviation (input) FILEBENCH_ABORT_RSRC :: int where "FILEBENCH_ABORT_RSRC \<equiv> 3"
abbreviation (input) FILEBENCH_MODE_Q1STDONE :: int where "FILEBENCH_MODE_Q1STDONE \<equiv> 1"
abbreviation (input) FILEBENCH_MODE_QALLDONE :: int where "FILEBENCH_MODE_QALLDONE \<equiv> 2"
abbreviation (input) MAXPATHLEN :: nat where "MAXPATHLEN \<equiv> 1024"

text \<open>
  The methods of a flowop: those of composite flowops, or functions of a library. A file descriptor is a union of
  an \<open>int\<close> and a pointer; \<open>tf_fd\<close> holds its 64 bits.
\<close>

datatype fmethod = NoMethod | Composite | Lib ptr

record flowop =
  fo_name :: string
  fo_instance :: int
  fo_next :: ptr
  fo_exec_next :: ptr
  fo_resultnext :: ptr
  fo_comp_fops :: ptr
  fo_thread :: ptr
  fo_func :: fmethod
  fo_init :: fmethod
  fo_destruct :: fmethod
  fo_type :: uint32
  fo_attrs :: uint32
  fo_filename :: ptr
  fo_fileset :: ptr
  fo_fdnumber :: int
  fo_srcfdnumber :: int
  fo_constvalue :: fbint
  fo_constwss :: fbint
  fo_iosize :: ptr
  fo_wss :: ptr
  fo_targetname :: string
  fo_targets :: ptr
  fo_targetnext :: ptr
  fo_iters :: ptr
  fo_value :: ptr
  fo_random :: ptr
  fo_dsync :: ptr
  fo_blocking :: ptr
  fo_directio :: ptr
  fo_rotatefd :: ptr
  fo_fileindex :: ptr
  fo_stats :: flowstat
  fo_lock :: bool
  fo_private :: ptr
  fo_buf :: ptr
  fo_buf_size :: uint64
  fo_semid_lw :: int
  fo_semid_hw :: int
  fo_highwater :: ptr
  fo_initted :: int
  fo_tputbucket :: uint64
  fo_tputlast :: uint64

record threadflow =
  tf_name :: string
  tf_attrs :: uint32
  tf_instance :: int
  tf_running :: int
  tf_abort :: int
  tf_utid :: int
  tf_process :: ptr
  tf_tid :: uint64
  tf_instances :: ptr
  tf_next :: ptr
  tf_thrd_fops :: ptr
  tf_mem :: ptr
  tf_memsize :: ptr
  tf_constmemsize :: fbint
  tf_fd :: "int \<Rightarrow> uint64"
  tf_fse :: "int \<Rightarrow> ptr"
  tf_fdrotor :: int
  tf_stats :: flowstat
  tf_stime :: uint64

record procflow =
  pf_name :: string
  pf_instance :: int
  pf_instances :: ptr
  pf_running :: int
  pf_next :: ptr
  pf_pid :: int
  pf_tid :: uint64
  pf_threads :: ptr
  pf_nice :: ptr

text \<open>The attributes of a fileset; its entries, trees and counters are the \<open>fileset\<close> of \<open>FB_Fileset\<close>.\<close>

record fsnode =
  fsn_next :: ptr
  fsn_name :: ptr
  fsn_path :: ptr
  fsn_preallocpercent :: ptr
  fsn_attrs :: uint32
  fsn_size :: ptr
  fsn_prealloc :: ptr
  fsn_paralloc :: ptr
  fsn_cached :: ptr
  fsn_reuse :: ptr
  fsn_readonly :: ptr
  fsn_trust_tree :: ptr

record fbstate =
  vs :: vshm
  flowops :: "ptr \<Rightarrow> flowop"
  threads :: "ptr \<Rightarrow> threadflow"
  procs :: "ptr \<Rightarrow> procflow"
  filesets :: "ptr \<Rightarrow> fsnode"
  shm_flowoplist :: ptr
  shm_filesetlist :: ptr
  shm_proclist :: ptr
  shm_f_abort :: int
  shm_bequiet :: bool
  shm_procs_running :: int
  shm_rmode :: int
  shm_utid :: int
  shm_threadflow_lock :: bool
  shm_required :: uint64
  shm_eventgen_enabled :: bool
  shm_eventgen_hz :: ptr
  shm_eventgen_q :: uint64
  controlstats :: flowstat

datatype fhead = tf_fops ptr | comp_fops ptr

definition zero_stats :: flowstat where
  "zero_stats = \<lparr>fs_children = 0, fs_active = 0, fs_count = 0, fs_rbytes = 0, fs_wbytes = 0, fs_bytes = 0, fs_rcount = 0,
     fs_wcount = 0, fs_stime = 0, fs_etime = 0, fs_mstate = (\<lambda>_. 0), fs_syscpu = 0\<rparr>"

definition zero_flowop :: flowop where
  "zero_flowop = \<lparr>fo_name = [], fo_instance = 0, fo_next = NULL, fo_exec_next = NULL, fo_resultnext = NULL, fo_comp_fops = NULL,
     fo_thread = NULL, fo_func = NoMethod, fo_init = NoMethod, fo_destruct = NoMethod, fo_type = 0, fo_attrs = 0,
     fo_filename = NULL, fo_fileset = NULL, fo_fdnumber = 0, fo_srcfdnumber = 0, fo_constvalue = 0, fo_constwss = 0, fo_iosize = NULL, fo_wss = NULL, fo_targetname = [],
     fo_targets = NULL, fo_targetnext = NULL, fo_iters = NULL, fo_value = NULL, fo_random = NULL, fo_dsync = NULL, fo_blocking = NULL, fo_directio = NULL, fo_rotatefd = NULL, fo_fileindex = NULL,
     fo_stats = zero_stats, fo_lock = False, fo_private = NULL, fo_buf = NULL, fo_buf_size = 0,
     fo_semid_lw = 0, fo_semid_hw = 0, fo_highwater = NULL, fo_initted = 0, fo_tputbucket = 0, fo_tputlast = 0\<rparr>"

definition zero_threadflow :: threadflow where
  "zero_threadflow = \<lparr>tf_name = [], tf_attrs = 0, tf_instance = 0, tf_running = 0, tf_abort = 0, tf_utid = 0, tf_process = NULL,
     tf_tid = 0, tf_instances = NULL, tf_next = NULL, tf_thrd_fops = NULL, tf_mem = NULL, tf_memsize = NULL, tf_constmemsize = 0, tf_fd = (\<lambda>_. 0), tf_fse = (\<lambda>_. NULL), tf_fdrotor = 0,
     tf_stats = zero_stats, tf_stime = 0\<rparr>"

definition zero_fsnode :: fsnode where
  "zero_fsnode = \<lparr>fsn_next = NULL, fsn_name = NULL, fsn_path = NULL, fsn_preallocpercent = NULL, fsn_attrs = 0, fsn_size = NULL, fsn_prealloc = NULL,
     fsn_paralloc = NULL, fsn_cached = NULL, fsn_reuse = NULL, fsn_readonly = NULL, fsn_trust_tree = NULL\<rparr>"

definition zero_procflow :: procflow where
  "zero_procflow = \<lparr>pf_name = [], pf_instance = 0, pf_instances = NULL, pf_running = 0, pf_next = NULL, pf_pid = 0, pf_tid = 0,
     pf_threads = NULL, pf_nice = NULL\<rparr>"

definition upd_fo :: "fbstate \<Rightarrow> ptr \<Rightarrow> (flowop \<Rightarrow> flowop) \<Rightarrow> fbstate" where
  "upd_fo s p f = s\<lparr>flowops := (flowops s)(p := f (flowops s p))\<rparr>"

definition upd_tf :: "fbstate \<Rightarrow> ptr \<Rightarrow> (threadflow \<Rightarrow> threadflow) \<Rightarrow> fbstate" where
  "upd_tf s p f = s\<lparr>threads := (threads s)(p := f (threads s p))\<rparr>"

fun get_head :: "fbstate \<Rightarrow> fhead \<Rightarrow> ptr" where
  "get_head s (tf_fops t) = tf_thrd_fops (threads s t)"
| "get_head s (comp_fops f) = fo_comp_fops (flowops s f)"

fun set_head :: "fbstate \<Rightarrow> fhead \<Rightarrow> ptr \<Rightarrow> fbstate" where
  "set_head s (tf_fops t) p = upd_tf s t (\<lambda>x. x\<lparr>tf_thrd_fops := p\<rparr>)"
| "set_head s (comp_fops f) p = upd_fo s f (\<lambda>x. x\<lparr>fo_comp_fops := p\<rparr>)"

subsection \<open>Statistics around an operation\<close>

definition flowop_beginop :: "('w \<Rightarrow> uint64 \<times> 'w) \<Rightarrow> fbstate \<Rightarrow> 'w \<Rightarrow> ptr \<Rightarrow> fbstate \<times> 'w" where
  "flowop_beginop clock s w threadflow =
     (let (now, w) = clock w in (upd_tf s threadflow (\<lambda>t. t\<lparr>tf_stime := now\<rparr>), w))"

definition add_read :: "uint64 \<Rightarrow> flowstat \<Rightarrow> flowstat" where
  "add_read bytes st = st\<lparr>fs_rbytes := fs_rbytes st + bytes, fs_rcount := fs_rcount st + 1\<rparr>"

definition add_write :: "uint64 \<Rightarrow> flowstat \<Rightarrow> flowstat" where
  "add_write bytes st = st\<lparr>fs_wbytes := fs_wbytes st + bytes, fs_wcount := fs_wcount st + 1\<rparr>"

definition upd_stats :: "fbstate \<Rightarrow> ptr \<Rightarrow> (flowstat \<Rightarrow> flowstat) \<Rightarrow> fbstate" where
  "upd_stats s flowop f = upd_fo s flowop (\<lambda>x. x\<lparr>fo_stats := f (fo_stats x)\<rparr>)"

definition flowop_endop :: "('w \<Rightarrow> uint64 \<times> 'w) \<Rightarrow> fbstate \<Rightarrow> 'w \<Rightarrow> ptr \<Rightarrow> ptr \<Rightarrow> uint64 \<Rightarrow> fbstate \<times> 'w" where
  "flowop_endop clock s w threadflow flowop bytes =
     (let (now, w) = clock w;
          lat = now - tf_stime (threads s threadflow);
          s = upd_stats s flowop (\<lambda>st. st\<lparr>fs_mstate := (fs_mstate st)(FLOW_MSTATE_LAT := fs_mstate st FLOW_MSTATE_LAT + lat)\<rparr>);
          s = upd_stats s flowop (\<lambda>st. st\<lparr>fs_count := fs_count st + 1, fs_bytes := fs_bytes st + bytes\<rparr>);
          fo = flowops s flowop;
          s = (if fo_type fo AND FLOW_TYPE_IO \<noteq> 0 \<or> fo_type fo AND FLOW_TYPE_AIO \<noteq> 0
               then s\<lparr>controlstats := (controlstats s)\<lparr>fs_count := fs_count (controlstats s) + 1,
                                                     fs_bytes := fs_bytes (controlstats s) + bytes\<rparr>\<rparr>
               else s);
          s = (if fo_attrs fo AND FLOW_ATTR_READ \<noteq> 0 then
                 let s = upd_tf s threadflow (\<lambda>t. t\<lparr>tf_stats := add_read bytes (tf_stats t)\<rparr>);
                     s = upd_stats s flowop (\<lambda>st. st\<lparr>fs_rcount := fs_rcount st + 1\<rparr>) in
                 s\<lparr>controlstats := add_read bytes (controlstats s)\<rparr>
               else if fo_attrs fo AND FLOW_ATTR_WRITE \<noteq> 0 then
                 let s = upd_tf s threadflow (\<lambda>t. t\<lparr>tf_stats := add_write bytes (tf_stats t)\<rparr>);
                     s = upd_stats s flowop (\<lambda>st. st\<lparr>fs_wcount := fs_wcount st + 1\<rparr>) in
                 s\<lparr>controlstats := add_write bytes (controlstats s)\<rparr>
               else s) in
      (s, w))"

subsection \<open>Defining flowops\<close>

text \<open>The last flowop of a list.\<close>

partial_function (option) exec_end :: "(ptr \<Rightarrow> flowop) \<Rightarrow> ptr \<Rightarrow> ptr option" where
  "exec_end fo p = (if fo_exec_next (fo p) = NULL then Some p else exec_end fo (fo_exec_next (fo p)))"

definition append_exec :: "fbstate \<Rightarrow> fhead \<Rightarrow> ptr \<Rightarrow> fbstate option" where
  "append_exec s hdp flowop =
     (if get_head s hdp = NULL then Some (upd_fo (set_head s hdp flowop) flowop (\<lambda>f. f\<lparr>fo_exec_next := NULL\<rparr>))
      else do {
        flowend \<leftarrow> exec_end (flowops s) (get_head s hdp);
        let s = upd_fo s flowend (\<lambda>f. f\<lparr>fo_exec_next := flowop\<rparr>);
        Some (upd_fo s flowop (\<lambda>f. f\<lparr>fo_exec_next := NULL\<rparr>)) })"

text \<open>The contents of a new flowop: a copy of the inherited one, or zeros and one iteration.\<close>

definition fill_flowop :: "layout \<Rightarrow> fbstate \<Rightarrow> ptr \<Rightarrow> ptr \<Rightarrow> uint32 \<Rightarrow> fbstate option" where
  "fill_flowop L s flowop inherit type =
     (if inherit \<noteq> NULL then
        Some (upd_fo s flowop (\<lambda>_. (flowops s inherit)\<lparr>fo_lock := True, fo_next := NULL, fo_exec_next := NULL\<rparr>))
      else do {
        (iters, v) \<leftarrow> avd_int_alloc L (vs s) 1;
        Some (upd_fo (s\<lparr>vs := v\<rparr>) flowop (\<lambda>_. zero_flowop\<lparr>fo_iters := iters, fo_type := type, fo_lock := True\<rparr>)) })"

definition flowop_define_common ::
  "layout \<Rightarrow> fbstate \<Rightarrow> ptr \<Rightarrow> string option \<Rightarrow> ptr \<Rightarrow> fhead option \<Rightarrow> int \<Rightarrow> uint32 \<Rightarrow> (ptr \<times> fbstate) option" where
  "flowop_define_common L s threadflow name inherit hdp instance type =
     (case name of
        None \<Rightarrow> Some (NULL, s)
      | Some nm \<Rightarrow> do {
          (flowop, i) \<leftarrow> ipc_malloc L (\<lambda>_. ()) (ipc (vs s)) FILEBENCH_FLOWOP;
          let s = s\<lparr>vs := (vs s)\<lparr>ipc := i\<rparr>\<rparr>;
          if flowop = NULL then Some (NULL, s)
          else do {
            s \<leftarrow> fill_flowop L s flowop inherit type;
            let s = upd_fo s flowop (\<lambda>f. f\<lparr>fo_thread := threadflow, fo_next := shm_flowoplist s\<rparr>);
            let s = s\<lparr>shm_flowoplist := flowop\<rparr>;
            if length nm \<ge> 128 then None
            else do {
              let s = upd_fo s flowop (\<lambda>f. f\<lparr>fo_name := nm, fo_instance := instance\<rparr>);
              s \<leftarrow> (case hdp of None \<Rightarrow> Some s | Some h \<Rightarrow> append_exec s h flowop);
              Some (flowop, s) } } })"

definition unlock_fo :: "fbstate \<Rightarrow> ptr \<Rightarrow> fbstate" where
  "unlock_fo s flowop = upd_fo s flowop (\<lambda>f. f\<lparr>fo_lock := False\<rparr>)"

definition flowop_define ::
  "layout \<Rightarrow> fbstate \<Rightarrow> ptr \<Rightarrow> string option \<Rightarrow> ptr \<Rightarrow> fhead option \<Rightarrow> int \<Rightarrow> uint32 \<Rightarrow> (ptr \<times> fbstate) option" where
  "flowop_define L s threadflow name inherit hdp instance type = do {
     (flowop, s) \<leftarrow> flowop_define_common L s threadflow name inherit hdp instance type;
     Some (flowop, if flowop = NULL then s else unlock_fo s flowop) }"

definition flowop_new_composite_define :: "layout \<Rightarrow> fbstate \<Rightarrow> string option \<Rightarrow> (ptr \<times> fbstate) option" where
  "flowop_new_composite_define L s name = do {
     (flowop, s) \<leftarrow> flowop_define_common L s NULL name NULL None 0 FLOW_TYPE_COMPOSITE;
     if flowop = NULL then Some (NULL, s)
     else
       let s = upd_fo s flowop (\<lambda>f. f\<lparr>fo_func := Composite, fo_init := Composite, fo_destruct := Composite\<rparr>) in
       Some (flowop, unlock_fo s flowop) }"

record proto =
  fl_type :: uint32
  fl_attrs :: uint32
  fl_name :: string
  fl_init :: fmethod
  fl_func :: fmethod
  fl_destruct :: fmethod

text \<open>A failing definition ends the program: the result is then \<open>Inl\<close> of the exit code.\<close>

fun flowop_flow_init :: "layout \<Rightarrow> fbstate \<Rightarrow> proto list \<Rightarrow> (int + fbstate) option" where
  "flowop_flow_init L s [] = Some (Inr s)"
| "flowop_flow_init L s (fl # list) = do {
     (flowop, s) \<leftarrow> flowop_define L s NULL (Some (fl_name fl)) NULL None 0 (fl_type fl);
     if flowop = NULL then Some (Inl 1)
     else
       flowop_flow_init L (upd_fo s flowop (\<lambda>f. f\<lparr>fo_func := fl_func fl, fo_init := fl_init fl,
         fo_destruct := fl_destruct fl, fo_attrs := fl_attrs fl\<rparr>)) list }"

subsection \<open>Finding flowops\<close>

text \<open>The barrier that \<open>flowop_find\<close> waits at has no effect on the state.\<close>

partial_function (option) find_loop :: "string \<Rightarrow> fbstate \<Rightarrow> ptr \<Rightarrow> ptr \<Rightarrow> (ptr \<times> fbstate) option" where
  "find_loop name s flowop result =
     (if flowop = NULL then Some (result, s)
      else if name = fo_name (flowops s flowop) then
        let s = upd_fo s flowop (\<lambda>f. f\<lparr>fo_resultnext := result\<rparr>) in find_loop name s (fo_next (flowops s flowop)) flowop
      else find_loop name s (fo_next (flowops s flowop)) result)"

definition flowop_find :: "fbstate \<Rightarrow> string \<Rightarrow> (ptr \<times> fbstate) option" where
  "flowop_find s name = find_loop name s (shm_flowoplist s) NULL"

partial_function (option) find_one_loop :: "(ptr \<Rightarrow> flowop) \<Rightarrow> string \<Rightarrow> int \<Rightarrow> ptr \<Rightarrow> ptr option" where
  "find_one_loop fo name instance p =
     (if p = NULL then Some NULL
      else if name = fo_name (fo p) \<and> instance = fo_instance (fo p) then Some p
      else find_one_loop fo name instance (fo_next (fo p)))"

definition flowop_find_one :: "fbstate \<Rightarrow> string \<Rightarrow> int \<Rightarrow> ptr option" where
  "flowop_find_one s name instance = find_one_loop (flowops s) name instance (shm_flowoplist s)"

text \<open>The full name is built in an array of \<open>MAXPATHLEN\<close> characters.\<close>

definition full_name :: "string option \<Rightarrow> string \<Rightarrow> string" where
  "full_name path name = (case path of None \<Rightarrow> name | Some p \<Rightarrow> p @ ''.'' @ name)"

partial_function (option) flowop_recurse_search :: "(ptr \<Rightarrow> flowop) \<Rightarrow> string option \<Rightarrow> string \<Rightarrow> ptr \<Rightarrow> ptr option" where
  "flowop_recurse_search fo path name p =
     (let fullname = full_name path name in
      if path \<noteq> None \<and> length fullname > MAXPATHLEN then Some NULL
      else if length fullname \<ge> MAXPATHLEN then None
      else if p = NULL then Some NULL
      else if fullname = fo_name (fo p) then Some p
      else if fo_type (fo p) = FLOW_TYPE_COMPOSITE then do {
        found \<leftarrow> flowop_recurse_search fo (Some (fo_name (fo p))) name (fo_comp_fops (fo p));
        if found \<noteq> NULL then Some found else flowop_recurse_search fo path name (fo_exec_next (fo p)) }
      else flowop_recurse_search fo path name (fo_exec_next (fo p)))"

definition flowop_find_from_list :: "fbstate \<Rightarrow> string \<Rightarrow> ptr \<Rightarrow> ptr option" where
  "flowop_find_from_list s name list = flowop_recurse_search (flowops s) None name list"

partial_function (option) fileset_find_loop :: "vshm \<Rightarrow> (ptr \<Rightarrow> fsnode) \<Rightarrow> string \<Rightarrow> ptr \<Rightarrow> ptr option" where
  "fileset_find_loop v fn name p =
     (if p = NULL then Some NULL
      else do {
        n \<leftarrow> avd_get_str v (fsn_name (fn p));
        n \<leftarrow> n;
        if name = n then Some p else fileset_find_loop v fn name (fsn_next (fn p)) })"

definition fileset_find :: "fbstate \<Rightarrow> string \<Rightarrow> ptr option" where
  "fileset_find s name = fileset_find_loop (vs s) (filesets s) name (shm_filesetlist s)"

subsection \<open>Deleting flowops\<close>

partial_function (option) unlink_exec :: "fbstate \<Rightarrow> ptr \<Rightarrow> ptr \<Rightarrow> fbstate option" where
  "unlink_exec s entry flowop =
     (let nxt = fo_exec_next (flowops s entry) in
      if nxt = NULL then Some s
      else if flowop = nxt then Some (upd_fo s entry (\<lambda>f. f\<lparr>fo_exec_next := fo_exec_next (flowops s nxt)\<rparr>))
      else unlink_exec s nxt flowop)"

partial_function (option) unlink_global :: "fbstate \<Rightarrow> ptr \<Rightarrow> ptr \<Rightarrow> (bool \<times> fbstate) option" where
  "unlink_global s entry flowop =
     (let nxt = fo_next (flowops s entry) in
      if nxt = NULL then Some (False, s)
      else if flowop = nxt then Some (True, upd_fo s entry (\<lambda>f. f\<lparr>fo_next := fo_next (flowops s nxt)\<rparr>))
      else unlink_global s nxt flowop)"

definition flowop_delete :: "layout \<Rightarrow> fbstate \<Rightarrow> fhead \<Rightarrow> ptr \<Rightarrow> fbstate option" where
  "flowop_delete L s flowoplist flowop = do {
     let entry = get_head s flowoplist;
     s \<leftarrow> (if flowop = entry then Some (set_head s flowoplist (fo_exec_next (flowops s flowop)))
           else if entry = NULL then None else unlink_exec s entry flowop);
     let entry = shm_flowoplist s;
     (found, s) \<leftarrow> (if flowop = entry then Some (True, s\<lparr>shm_flowoplist := fo_next (flowops s flowop)\<rparr>)
                    else if entry = NULL then None else unlink_global s entry flowop);
     Some (if found then s\<lparr>vs := (vs s)\<lparr>ipc := ipc_free L (ipc (vs s)) FILEBENCH_FLOWOP flowop\<rparr>\<rparr> else s) }"

partial_function (option) delete_all_loop :: "layout \<Rightarrow> fbstate \<Rightarrow> fhead \<Rightarrow> ptr \<Rightarrow> fbstate option" where
  "delete_all_loop L s flowoplist flowop =
     (if flowop = NULL then Some s
      else
        let next_flowop = fo_exec_next (flowops s flowop) in
        if fo_instance (flowops s flowop) = FLOW_MASTER then delete_all_loop L s flowoplist next_flowop
        else do {
          s \<leftarrow> flowop_delete L s flowoplist flowop;
          delete_all_loop L s flowoplist next_flowop })"

definition flowop_delete_all :: "layout \<Rightarrow> fbstate \<Rightarrow> fhead \<Rightarrow> fbstate option" where
  "flowop_delete_all L s flowoplist = delete_all_loop L s flowoplist (get_head s flowoplist)"

definition flowop_destruct_generic :: "fbstate \<Rightarrow> ptr \<Rightarrow> fbstate" where
  "flowop_destruct_generic s flowop = upd_fo s flowop (\<lambda>f. f\<lparr>fo_buf := NULL\<rparr>)"

definition flowop_init_generic :: "fbstate \<Rightarrow> ptr \<Rightarrow> int \<times> fbstate" where
  "flowop_init_generic s flowop = (FILEBENCH_OK, unlock_fo s flowop)"

text \<open>After an inner flowop has been deleted, its \<open>fo_exec_next\<close> is still read.\<close>

partial_function (option) composite_destruct_loop :: "layout \<Rightarrow> fbstate \<Rightarrow> ptr \<Rightarrow> ptr \<Rightarrow> fbstate option" where
  "composite_destruct_loop L s flowop inner =
     (if inner = NULL then Some s
      else if fo_instance (flowops s inner) = FLOW_MASTER
      then composite_destruct_loop L s flowop (fo_exec_next (flowops s inner))
      else do {
        s \<leftarrow> flowop_delete L s (comp_fops flowop) inner;
        composite_destruct_loop L s flowop (fo_exec_next (flowops s inner)) })"

definition flowop_composite_destruct :: "layout \<Rightarrow> fbstate \<Rightarrow> ptr \<Rightarrow> fbstate option" where
  "flowop_composite_destruct L s flowop = composite_destruct_loop L s flowop (fo_comp_fops (flowops s flowop))"

text \<open>The destruct methods of a thread's flowops, called once; \<open>free_lib\<close> are those of the library.\<close>

partial_function (option) destruct_loop :: "layout \<Rightarrow> (ptr \<Rightarrow> fbstate \<Rightarrow> ptr \<Rightarrow> fbstate option) \<Rightarrow> fbstate \<Rightarrow> ptr \<Rightarrow> fbstate option" where
  "destruct_loop L free_lib s flowop =
     (if flowop = NULL then Some s
      else do {
        s \<leftarrow> (case fo_destruct (flowops s flowop) of
                Composite \<Rightarrow> flowop_composite_destruct L s flowop | Lib p \<Rightarrow> free_lib p s flowop | NoMethod \<Rightarrow> None);
        destruct_loop L free_lib s (fo_exec_next (flowops s flowop)) })"

definition flowop_destruct_all_flows ::
  "layout \<Rightarrow> (ptr \<Rightarrow> fbstate \<Rightarrow> ptr \<Rightarrow> fbstate option) \<Rightarrow> fbstate \<Rightarrow> ptr \<Rightarrow> fbstate option" where
  "flowop_destruct_all_flows L free_lib s threadflow =
     (if tf_running (threads s threadflow) = 0 then Some s
      else
        let flowop = tf_thrd_fops (threads s threadflow); s = upd_tf s threadflow (\<lambda>t. t\<lparr>tf_running := 0\<rparr>) in
        destruct_loop L free_lib s flowop)"

subsection \<open>Running flowops\<close>

text \<open>The parameters of a run: the memory layout, the arithmetic, the random sources, the clock and the library of flowops.\<close>

record 'w machine =
  lay :: layout
  fpu :: fpu
  rnd :: "ptr \<Rightarrow> 'w \<Rightarrow> dbl \<times> 'w"
  clock :: "'w \<Rightarrow> uint64 \<times> 'w"
  call :: "ptr \<Rightarrow> ptr \<Rightarrow> ptr \<Rightarrow> fbstate \<Rightarrow> 'w \<Rightarrow> (int \<times> fbstate \<times> 'w) option"
  init_lib :: "ptr \<Rightarrow> ptr \<Rightarrow> fbstate \<Rightarrow> 'w \<Rightarrow> (int \<times> fbstate \<times> 'w) option"

definition get_int :: "'w machine \<Rightarrow> fbstate \<Rightarrow> ptr \<Rightarrow> 'w \<Rightarrow> (fbint \<times> 'w) option" where
  "get_int M s a w = avd_get_int (fpu M) (rnd M) (vs s) a w"

text \<open>The cast \<open>(int)avd_get_int (fo_iters)\<close> and the \<open>for\<close> loop: a negative count runs no iteration.\<close>

definition iter_count :: "fbint \<Rightarrow> nat" where
  "iter_count n = nat (sint (ucast n :: uint32))"

definition note_start :: "'w machine \<Rightarrow> fbstate \<Rightarrow> ptr \<Rightarrow> 'w \<Rightarrow> fbstate \<times> 'w" where
  "note_start M s flowop w =
     (if fs_stime (fo_stats (flowops s flowop)) = 0
      then let (now, w) = clock M w in (upd_stats s flowop (\<lambda>st. st\<lparr>fs_stime := now\<rparr>), w)
      else (s, w))"

definition aborted :: "fbstate \<Rightarrow> ptr \<Rightarrow> bool" where
  "aborted s threadflow \<longleftrightarrow> tf_abort (threads s threadflow) \<noteq> 0 \<or> shm_f_abort s \<noteq> 0"

text \<open>
  One pass through the inner flowops of a composite flowop. \<open>todo\<close> is the number of iterations left of
  the current inner flowop, \<open>None\<close> before the first one.
\<close>

partial_function (option) composite_pass ::
  "'w machine \<Rightarrow> ptr \<Rightarrow> ptr \<Rightarrow> nat option \<Rightarrow> fbstate \<Rightarrow> 'w \<Rightarrow> (int \<times> fbstate \<times> 'w) option" where
  "composite_pass M threadflow inner todo s w =
     (if inner = NULL then Some (FILEBENCH_OK, s, w)
      else case todo of
        None \<Rightarrow>
          if aborted s threadflow then Some (FILEBENCH_DONE, s, w)
          else do {
            let (s, w) = note_start M s inner w;
            (n, w) \<leftarrow> get_int M s (fo_iters (flowops s inner)) w;
            composite_pass M threadflow inner (Some (iter_count n)) s w }
      | Some n \<Rightarrow>
          if n = 0 then composite_pass M threadflow (fo_exec_next (flowops s inner)) None s w
          else do {
            (ret, s, w) \<leftarrow> (case fo_func (flowops s inner) of
                Composite \<Rightarrow> composite_pass M threadflow (fo_comp_fops (flowops s inner)) None s w
              | Lib p \<Rightarrow> call M p threadflow inner s w
              | NoMethod \<Rightarrow> None);
            if ret = FILEBENCH_DONE \<or> ret = FILEBENCH_NORSC \<or> ret = FILEBENCH_ERROR then Some (ret, s, w)
            else composite_pass M threadflow inner (Some (n - 1)) s w })"

definition flowop_composite :: "'w machine \<Rightarrow> ptr \<Rightarrow> ptr \<Rightarrow> fbstate \<Rightarrow> 'w \<Rightarrow> (int \<times> fbstate \<times> 'w) option" where
  "flowop_composite M threadflow flowop s w = composite_pass M threadflow (fo_comp_fops (flowops s flowop)) None s w"

definition exec_fo :: "'w machine \<Rightarrow> ptr \<Rightarrow> ptr \<Rightarrow> fbstate \<Rightarrow> 'w \<Rightarrow> (int \<times> fbstate \<times> 'w) option" where
  "exec_fo M threadflow flowop s w =
     (case fo_func (flowops s flowop) of
        Composite \<Rightarrow> flowop_composite M threadflow flowop s w
      | Lib p \<Rightarrow> call M p threadflow flowop s w
      | NoMethod \<Rightarrow> None)"

text \<open>What the worker does about the return code of a flowop.\<close>

definition handle_ret :: "ptr \<Rightarrow> int \<Rightarrow> fbstate \<Rightarrow> fbstate" where
  "handle_ret threadflow ret s =
     (if ret = FILEBENCH_ERROR then (upd_tf s threadflow (\<lambda>t. t\<lparr>tf_abort := 1\<rparr>))\<lparr>shm_f_abort := FILEBENCH_ABORT_ERROR\<rparr>
      else if ret = FILEBENCH_NORSC then
        let s = upd_tf s threadflow (\<lambda>t. t\<lparr>tf_abort := FILEBENCH_DONE\<rparr>) in
        if shm_rmode s = FILEBENCH_MODE_Q1STDONE then s\<lparr>shm_f_abort := FILEBENCH_ABORT_RSRC\<rparr>
        else if shm_rmode s \<noteq> FILEBENCH_MODE_QALLDONE then s\<lparr>shm_f_abort := FILEBENCH_ABORT_ERROR\<rparr>
        else s
      else if ret = FILEBENCH_DONE then
        (upd_tf s threadflow (\<lambda>t. t\<lparr>tf_abort := FILEBENCH_DONE\<rparr>))\<lparr>shm_f_abort := FILEBENCH_ABORT_DONE\<rparr>
      else if ret \<noteq> FILEBENCH_OK then s\<lparr>shm_f_abort := FILEBENCH_ABORT_ERROR\<rparr>
      else s)"

fun run_iters :: "'w machine \<Rightarrow> ptr \<Rightarrow> ptr \<Rightarrow> nat \<Rightarrow> fbstate \<Rightarrow> 'w \<Rightarrow> (int \<times> fbstate \<times> 'w) option" where
  "run_iters M threadflow flowop 0 s w = Some (FILEBENCH_OK, s, w)"
| "run_iters M threadflow flowop (Suc n) s w = do {
     (ret, s, w) \<leftarrow> exec_fo M threadflow flowop s w;
     if ret = FILEBENCH_OK then run_iters M threadflow flowop n s w else Some (ret, handle_ret threadflow ret s, w) }"

text \<open>
  The main loop of a worker thread. \<open>env\<close> is what the other threads do to the shared state before each
  round. The loop goes on with the next flowop, and with the first one after the last.
\<close>

datatype worker_end = Stopped | NullFlowop

partial_function (option) worker_loop ::
  "'w machine \<Rightarrow> (fbstate \<Rightarrow> 'w \<Rightarrow> fbstate \<times> 'w) \<Rightarrow> ptr \<Rightarrow> ptr \<Rightarrow> fbstate \<Rightarrow> 'w \<Rightarrow> (worker_end \<times> fbstate \<times> 'w) option" where
  "worker_loop M env threadflow flowop s w =
     (let (s, w) = env s w in
      if aborted s threadflow then Some (Stopped, s, w)
      else if shm_bequiet s \<or> shm_procs_running s = 0 then worker_loop M env threadflow flowop s w
      else if flowop = NULL then Some (NullFlowop, s, w)
      else do {
        let (s, w) = note_start M s flowop w;
        (n, w) \<leftarrow> get_int M s (fo_iters (flowops s flowop)) w;
        (ret, s, w) \<leftarrow> run_iters M threadflow flowop (iter_count n) s w;
        let flowop = fo_exec_next (flowops s flowop);
        let (flowop, s) = (if flowop = NULL
          then (tf_thrd_fops (threads s threadflow), upd_tf s threadflow (\<lambda>t. t\<lparr>tf_stats := (tf_stats t)\<lparr>fs_count := fs_count (tf_stats t) + 1\<rparr>\<rparr>))
          else (flowop, s));
        if ret = FILEBENCH_OK then worker_loop M env threadflow flowop s w else Some (Stopped, s, w) })"

subsection \<open>Creating the flowops of a thread\<close>

definition is_avd_string :: "vshm \<Rightarrow> ptr \<Rightarrow> bool" where
  "is_avd_string v p \<longleftrightarrow> p \<noteq> NULL \<and> (avd_type (avds v p) = AVD_VAL_STR \<or> avd_type (avds v p) = AVD_VARVAL_STR)"

definition save_consts :: "'w machine \<Rightarrow> fbstate \<Rightarrow> ptr \<Rightarrow> 'w \<Rightarrow> (fbstate \<times> 'w) option" where
  "save_consts M s flowop w = do {
     let f = flowops s flowop;
     (s, w) \<leftarrow> (if is_avd_string (vs s) (fo_value f) then Some (s, w)
               else do { (v, w) \<leftarrow> get_int M s (fo_value f) w; Some (upd_fo s flowop (\<lambda>f. f\<lparr>fo_constvalue := v\<rparr>), w) });
     (v, w) \<leftarrow> get_int M s (fo_wss f) w;
     Some (upd_fo s flowop (\<lambda>f. f\<lparr>fo_constwss := v\<rparr>), w) }"

text \<open>
  \<open>flowop_create_runtime_flowops\<close> with \<open>flowop_initflow\<close> and \<open>flowop_composite_init\<close>, which calls it again for the
  inner flowops. A file name without a fileset ends the program: \<open>Inl\<close> of the exit code. A failing
  initialisation is only logged.
\<close>

definition resolve_file :: "fbstate \<Rightarrow> ptr \<Rightarrow> ptr \<Rightarrow> (int + fbstate) option" where
  "resolve_file s flowop newflowop =
     (if fo_filename (flowops s flowop) = NULL then Some (Inr s)
      else do {
        name \<leftarrow> avd_get_str (vs s) (fo_filename (flowops s flowop));
        name \<leftarrow> name;
        fileset \<leftarrow> fileset_find s name;
        Some (if fileset = NULL then Inl 1 else Inr (upd_fo s newflowop (\<lambda>f. f\<lparr>fo_fileset := fileset\<rparr>))) })"

partial_function (option) create_runtime ::
  "'w machine \<Rightarrow> ptr \<Rightarrow> fhead \<Rightarrow> ptr \<Rightarrow> fbstate \<Rightarrow> 'w \<Rightarrow> (int + (int \<times> fbstate \<times> 'w)) option" where
  "create_runtime M threadflow hdp flowop s w =
     (if flowop = NULL then Some (Inr (FILEBENCH_OK, s, w))
      else do {
        let s = (if flowop = get_head s hdp then set_head s hdp NULL else s);
        (newflowop, s) \<leftarrow> flowop_define_common (lay M) s threadflow (Some (fo_name (flowops s flowop))) flowop (Some hdp) 1 0;
        if newflowop = NULL then Some (Inr (FILEBENCH_ERROR, s, w))
        else do {
          r \<leftarrow> resolve_file s flowop newflowop;
          case r of
            Inl e \<Rightarrow> Some (Inl e)
          | Inr s \<Rightarrow> do {
              (s, w) \<leftarrow> save_consts M s newflowop w;
              r \<leftarrow> (case fo_init (flowops s newflowop) of
                  Composite \<Rightarrow> do {
                    r \<leftarrow> create_runtime M (fo_thread (flowops s newflowop)) (comp_fops newflowop)
                          (fo_comp_fops (flowops s newflowop)) s w;
                    Some (case r of Inl e \<Rightarrow> Inl e | Inr (rc, s, w) \<Rightarrow> Inr (if rc = FILEBENCH_OK then unlock_fo s newflowop else s, w)) }
                | Lib p \<Rightarrow> do { (_, s, w) \<leftarrow> init_lib M p newflowop s w; Some (Inr (s, w)) }
                | NoMethod \<Rightarrow> None);
              case r of
                Inl e \<Rightarrow> Some (Inl e)
              | Inr (s, w) \<Rightarrow> create_runtime M threadflow hdp (fo_exec_next (flowops s flowop)) s w } } })"

definition flowop_create_runtime_flowops ::
  "'w machine \<Rightarrow> ptr \<Rightarrow> fhead \<Rightarrow> fbstate \<Rightarrow> 'w \<Rightarrow> (int + (int \<times> fbstate \<times> 'w)) option" where
  "flowop_create_runtime_flowops M threadflow hdp s w = create_runtime M threadflow hdp (get_head s hdp) s w"

end
