(* ===== verification/FB_Limit.thy ===== *)
theory FB_Limit
  imports FB_Flowop
begin

text \<open>
  Rate limiting and stopping: the event generator of \<^verbatim>\<open>src/filebench/eventgen.c\<close> and the flowops of
  \<^verbatim>\<open>src/filebench/flowop_library.c\<close> that consume its events or end the run. The generator adds events to
  \<open>shm_eventgen_q\<close>; a limiting flowop keeps an account \<open>fo_tputbucket\<close>, charges it with the work done
  since its last call, and buys events when it is overdrawn, waiting until enough have been generated.

  \<open>env\<close> is what the other threads do to the shared state while a flowop waits on the condition variable, the
  event generator among them. The result \<open>Inl\<close> of a code is an exit of the program. \<open>None\<close> is a
  null pointer followed or a wait that never ends.
\<close>

abbreviation (input) FB_SEC2NSEC :: uint64 where "FB_SEC2NSEC \<equiv> 1000000000"
abbreviation (input) MB :: uint64 where "MB \<equiv> 1048576"

subsection \<open>The event generator\<close>

definition eventgen_setrate :: "fbstate \<Rightarrow> ptr \<Rightarrow> fbstate" where
  "eventgen_setrate s rate = s\<lparr>shm_eventgen_hz := rate\<rparr>"

definition eventgen_reset :: "fbstate \<Rightarrow> fbstate" where
  "eventgen_reset s = s\<lparr>shm_eventgen_q := 0\<rparr>"

text \<open>
  One round of \<open>eventgen_thread\<close>. The rate and the count are \<open>int\<close>s; in \<open>rate * delta\<close> and in the comparison
  with the queue they become unsigned 64-bit numbers. \<open>sleep\<close> is the sleep between the two
  readings of the clock. The second reading, the next \<open>last\<close>, is part of the result.
\<close>

definition eventgen_count :: "uint32 \<Rightarrow> uint64 \<Rightarrow> uint32" where
  "eventgen_count rate delta = ucast ((scast rate * delta) div FB_SEC2NSEC)"

definition eventgen_post :: "uint32 \<Rightarrow> uint32 \<Rightarrow> fbstate \<Rightarrow> fbstate" where
  "eventgen_post rate count s =
     (if shm_eventgen_q s < scast (5 * rate) then s\<lparr>shm_eventgen_q := shm_eventgen_q s + scast count\<rparr> else s)"

definition eventgen_round ::
  "'w machine \<Rightarrow> ('w \<Rightarrow> 'w) \<Rightarrow> fbstate \<Rightarrow> uint64 \<Rightarrow> 'w \<Rightarrow> (fbstate \<times> uint64 \<times> 'w) option" where
  "eventgen_round M sleep s last_time w =
     (if shm_eventgen_hz s = NULL then Some (s, last_time, sleep w)
      else do {
        (r, w) \<leftarrow> get_int M s (shm_eventgen_hz s) w;
        let rate = (ucast r :: uint32);
        if sint rate > 0 then do {
          let s = s\<lparr>shm_eventgen_enabled := True\<rparr>;
          let (now, w) = clock M (sleep w);
          let delta = now - last_time;
          let (last_time, w) = clock M w;
          Some (eventgen_post rate (eventgen_count rate delta) s, last_time, w) }
        else Some (s, last_time, w) })"

subsection \<open>Waiting for events\<close>

partial_function (option) wait_events ::
  "(fbstate \<Rightarrow> 'w \<Rightarrow> fbstate \<times> 'w) \<Rightarrow> uint64 \<Rightarrow> fbstate \<Rightarrow> 'w \<Rightarrow> (bool \<times> fbstate \<times> 'w) option" where
  "wait_events env events s w =
     (if \<not> shm_eventgen_enabled s then Some (False, s, w)
      else if shm_eventgen_q s \<ge> events then Some (True, s\<lparr>shm_eventgen_q := shm_eventgen_q s - events\<rparr>, w)
      else let (s, w) = env s w in wait_events env events s w)"

text \<open>The event limit waits for \<open>shm_eventgen_q > 0\<close>, which is one event.\<close>

definition flowoplib_eventlimit ::
  "'w machine \<Rightarrow> (fbstate \<Rightarrow> 'w \<Rightarrow> fbstate \<times> 'w) \<Rightarrow> ptr \<Rightarrow> ptr \<Rightarrow> fbstate \<Rightarrow> 'w \<Rightarrow> (int \<times> fbstate \<times> 'w) option" where
  "flowoplib_eventlimit M env threadflow flowop s w =
     (if \<not> shm_eventgen_enabled s then Some (FILEBENCH_OK, s, w)
      else do {
        let s = (if fo_initted (flowops s flowop) = 0 then upd_fo s flowop (\<lambda>f. f\<lparr>fo_initted := 1\<rparr>) else s);
        let (s, w) = flowop_beginop (clock M) s w threadflow;
        (_, s, w) \<leftarrow> wait_events env 1 s w;
        let (s, w) = flowop_endop (clock M) s w threadflow flowop 0;
        Some (FILEBENCH_OK, s, w) })"

subsection \<open>The limits of work done\<close>

definition flowoplib_event_find_target :: "fbstate \<Rightarrow> ptr \<Rightarrow> ptr \<Rightarrow> (int + fbstate) option" where
  "flowoplib_event_find_target s threadflow flowop =
     (if fo_targetname (flowops s flowop) \<noteq> [] then do {
        t \<leftarrow> flowop_find_from_list s (fo_targetname (flowops s flowop)) (tf_thrd_fops (threads s threadflow));
        let s = upd_fo s flowop (\<lambda>f. f\<lparr>fo_targets := t\<rparr>);
        Some (if t = NULL then Inl 1 else Inr s) }
      else Some (Inr (upd_fo s flowop (\<lambda>f. f\<lparr>fo_targets := NULL\<rparr>))))"

text \<open>The first call of a limiting flowop; \<open>io\<close> when its target has to be one that reads or writes.\<close>

definition limit_init :: "bool \<Rightarrow> fbstate \<Rightarrow> ptr \<Rightarrow> ptr \<Rightarrow> (int + fbstate) option" where
  "limit_init io s threadflow flowop =
     (if fo_initted (flowops s flowop) \<noteq> 0 then Some (Inr s)
      else do {
        r \<leftarrow> flowoplib_event_find_target (upd_fo s flowop (\<lambda>f. f\<lparr>fo_initted := 1\<rparr>)) threadflow flowop;
        Some (case r of
          Inl e \<Rightarrow> Inl e
        | Inr s \<Rightarrow>
            let t = fo_targets (flowops s flowop) in
            if io \<and> t \<noteq> NULL \<and> fo_attrs (flowops s t) AND (FLOW_ATTR_READ OR FLOW_ATTR_WRITE) = 0 then Inl 1 else Inr s) })"

text \<open>
  The account: \<open>work\<close> is the work done so far, \<open>events_of\<close> the number of events that an overdraft costs and
  \<open>unit\<close> the work that one event pays for. The bucket is a signed number.
\<close>

definition limit_work ::
  "'w machine \<Rightarrow> (fbstate \<Rightarrow> 'w \<Rightarrow> fbstate \<times> 'w) \<Rightarrow> (uint64 \<Rightarrow> uint64) \<Rightarrow> uint64 \<Rightarrow> uint64 \<Rightarrow> ptr \<Rightarrow> ptr \<Rightarrow> fbstate \<Rightarrow> 'w
     \<Rightarrow> (int \<times> fbstate \<times> 'w) option" where
  "limit_work M env events_of unit work threadflow flowop s w =
     (if fo_tputlast (flowops s flowop) = 0 then Some (FILEBENCH_OK, upd_fo s flowop (\<lambda>f. f\<lparr>fo_tputlast := work\<rparr>), w)
      else do {
        let delta = work - fo_tputlast (flowops s flowop);
        let s = upd_fo s flowop (\<lambda>f. f\<lparr>fo_tputbucket := fo_tputbucket f - delta, fo_tputlast := work\<rparr>);
        if 0 \<le> sint (fo_tputbucket (flowops s flowop)) then do {
          let (s, w) = flowop_endop (clock M) s w threadflow flowop 0;
          Some (FILEBENCH_OK, s, w) }
        else do {
          let events = events_of (fo_tputbucket (flowops s flowop) * -1);
          let (s, w) = flowop_beginop (clock M) s w threadflow;
          (got, s, w) \<leftarrow> wait_events env events s w;
          let s = (if got then upd_fo s flowop (\<lambda>f. f\<lparr>fo_tputbucket := fo_tputbucket f + events * unit\<rparr>) else s);
          let (s, w) = flowop_endop (clock M) s w threadflow flowop 0;
          Some (FILEBENCH_OK, s, w) } })"

definition target_stats :: "fbstate \<Rightarrow> ptr \<Rightarrow> flowstat" where
  "target_stats s flowop = fo_stats (flowops s (fo_targets (flowops s flowop)))"

text \<open>The counts of a flowop are \<open>int\<close>s; they are extended with their sign.\<close>

definition iops_work :: "fbstate \<Rightarrow> ptr \<Rightarrow> uint64" where
  "iops_work s flowop = (if fo_targets (flowops s flowop) \<noteq> NULL then scast (fs_count (target_stats s flowop))
     else fs_rcount (controlstats s) + fs_wcount (controlstats s))"

definition ops_work :: "fbstate \<Rightarrow> ptr \<Rightarrow> uint64" where
  "ops_work s flowop = (if fo_targets (flowops s flowop) \<noteq> NULL then scast (fs_count (target_stats s flowop))
     else scast (fs_count (controlstats s)))"

definition bytes_work :: "fbstate \<Rightarrow> ptr \<Rightarrow> uint64" where
  "bytes_work s flowop = (if fo_targets (flowops s flowop) \<noteq> NULL then fs_bytes (target_stats s flowop)
     else fs_rbytes (controlstats s) + fs_wbytes (controlstats s))"

type_synonym 'w libcall = "(int + int \<times> fbstate \<times> 'w) option"

definition flowoplib_iopslimit ::
  "'w machine \<Rightarrow> (fbstate \<Rightarrow> 'w \<Rightarrow> fbstate \<times> 'w) \<Rightarrow> ptr \<Rightarrow> ptr \<Rightarrow> fbstate \<Rightarrow> 'w \<Rightarrow> 'w libcall" where
  "flowoplib_iopslimit M env threadflow flowop s w =
     (if \<not> shm_eventgen_enabled s then Some (Inr (FILEBENCH_OK, s, w))
      else do {
        r \<leftarrow> limit_init True s threadflow flowop;
        case r of
          Inl e \<Rightarrow> Some (Inl e)
        | Inr s \<Rightarrow> map_option Inr (limit_work M env (\<lambda>iops. iops) 1 (iops_work s flowop) threadflow flowop s w) })"

definition flowoplib_opslimit ::
  "'w machine \<Rightarrow> (fbstate \<Rightarrow> 'w \<Rightarrow> fbstate \<times> 'w) \<Rightarrow> ptr \<Rightarrow> ptr \<Rightarrow> fbstate \<Rightarrow> 'w \<Rightarrow> 'w libcall" where
  "flowoplib_opslimit M env threadflow flowop s w =
     (if \<not> shm_eventgen_enabled s then Some (Inr (FILEBENCH_OK, s, w))
      else do {
        r \<leftarrow> limit_init False s threadflow flowop;
        case r of
          Inl e \<Rightarrow> Some (Inl e)
        | Inr s \<Rightarrow> map_option Inr (limit_work M env (\<lambda>ops. ops) 1 (ops_work s flowop) threadflow flowop s w) })"

definition flowoplib_bwlimit ::
  "'w machine \<Rightarrow> (fbstate \<Rightarrow> 'w \<Rightarrow> fbstate \<times> 'w) \<Rightarrow> ptr \<Rightarrow> ptr \<Rightarrow> fbstate \<Rightarrow> 'w \<Rightarrow> 'w libcall" where
  "flowoplib_bwlimit M env threadflow flowop s w =
     (if \<not> shm_eventgen_enabled s then Some (Inr (FILEBENCH_OK, s, w))
      else do {
        r \<leftarrow> limit_init True s threadflow flowop;
        case r of
          Inl e \<Rightarrow> Some (Inl e)
        | Inr s \<Rightarrow> map_option Inr (limit_work M env (\<lambda>bytes. bytes div MB + 1) MB (bytes_work s flowop) threadflow flowop s w) })"

subsection \<open>The flowops that end a run\<close>

definition finish_check :: "'w machine \<Rightarrow> bool \<Rightarrow> ptr \<Rightarrow> ptr \<Rightarrow> fbstate \<Rightarrow> 'w \<Rightarrow> int \<times> fbstate \<times> 'w" where
  "finish_check M done threadflow flowop s w =
     (let (s, w) = flowop_beginop (clock M) s w threadflow;
          (s, w) = flowop_endop (clock M) s w threadflow flowop 0 in
      (if done then FILEBENCH_DONE else FILEBENCH_OK, s, w))"

definition flowoplib_finishonbytes :: "'w machine \<Rightarrow> ptr \<Rightarrow> ptr \<Rightarrow> fbstate \<Rightarrow> 'w \<Rightarrow> 'w libcall" where
  "flowoplib_finishonbytes M threadflow flowop s w = do {
     r \<leftarrow> limit_init True s threadflow flowop;
     Some (case r of
       Inl e \<Rightarrow> Inl e
     | Inr s \<Rightarrow>
         let byte_lim = fo_constvalue (flowops s flowop);
             bytes_io = (if fo_targets (flowops s flowop) \<noteq> NULL then fs_bytes (target_stats s flowop) else fs_bytes (controlstats s)) in
         Inr (finish_check M (bytes_io > byte_lim) threadflow flowop s w)) }"

definition flowoplib_finishoncount :: "'w machine \<Rightarrow> ptr \<Rightarrow> ptr \<Rightarrow> fbstate \<Rightarrow> 'w \<Rightarrow> 'w libcall" where
  "flowoplib_finishoncount M threadflow flowop s w = do {
     r \<leftarrow> limit_init False s threadflow flowop;
     Some (case r of
       Inl e \<Rightarrow> Inl e
     | Inr s \<Rightarrow>
         let count = fo_constvalue (flowops s flowop); ops = ops_work s flowop in
         Inr (finish_check M (ops \<ge> count) threadflow flowop s w)) }"

text \<open>The delay; \<open>sleep\<close> is the sleep of the given number of seconds.\<close>

definition flowoplib_delay :: "'w machine \<Rightarrow> (uint32 \<Rightarrow> 'w \<Rightarrow> 'w) \<Rightarrow> ptr \<Rightarrow> ptr \<Rightarrow> fbstate \<Rightarrow> 'w \<Rightarrow> (int \<times> fbstate \<times> 'w) option" where
  "flowoplib_delay M sleep threadflow flowop s w = do {
     (v, w) \<leftarrow> get_int M s (fo_value (flowops s flowop)) w;
     let (s, w) = flowop_beginop (clock M) s w threadflow;
     let w = sleep (ucast v) w;
     let (s, w) = flowop_endop (clock M) s w threadflow flowop 0;
     Some (FILEBENCH_OK, s, w) }"

end
