(* ===== verification/FB_Chain.thy ===== *)
theory FB_Chain
  imports FB_Prelude
begin

text \<open>
  Singly linked lists in memory, as the flowops, threads and processes are kept on: \<open>chain nxt p xs\<close> says
  that following the links \<open>nxt\<close> from \<open>p\<close> to \<open>NULL\<close> meets the objects \<open>xs\<close>. The links are a function, so that
  one set of facts serves every list, whatever record its links are a field of.
\<close>

fun chain :: "(ptr \<Rightarrow> ptr) \<Rightarrow> ptr \<Rightarrow> ptr list \<Rightarrow> bool" where
  "chain nxt p [] \<longleftrightarrow> p = NULL"
| "chain nxt p (x # xs) \<longleftrightarrow> p = x \<and> x \<noteq> NULL \<and> chain nxt (nxt x) xs"

lemma chain_NULL [simp]: "chain nxt NULL xs \<longleftrightarrow> xs = []"
  by (cases xs) auto

lemma chain_nonempty: "p \<noteq> NULL \<Longrightarrow> chain nxt p xs \<longleftrightarrow> (\<exists>ys. xs = p # ys \<and> chain nxt (nxt p) ys)"
  by (cases xs) auto

lemma chain_not_NULL: "chain nxt p xs \<Longrightarrow> NULL \<notin> set xs"
  by (induction xs arbitrary: p) auto

lemma chain_start: "chain nxt p xs \<Longrightarrow> p = NULL \<longleftrightarrow> xs = []"
  by (cases xs) auto

lemma chain_hd: "chain nxt p xs \<Longrightarrow> xs \<noteq> [] \<Longrightarrow> hd xs = p"
  by (cases xs) auto

lemma chain_unique: "chain nxt p xs \<Longrightarrow> chain nxt p ys \<Longrightarrow> xs = ys"
proof (induction xs arbitrary: p ys)
  case (Cons x xs)
  then show ?case by (cases ys) auto
qed simp

lemma chain_frame: "chain nxt p xs \<Longrightarrow> (\<And>x. x \<in> set xs \<Longrightarrow> nxt' x = nxt x) \<Longrightarrow> chain nxt' p xs"
  by (induction xs arbitrary: p) auto

lemma chain_upd [simp]: "x \<notin> set xs \<Longrightarrow> chain (nxt(x := q)) p xs = chain nxt p xs"
  by (induction xs arbitrary: p) auto

lemma chain_suffix: "chain nxt p (xs @ x # ys) \<Longrightarrow> chain nxt x (x # ys)"
  by (induction xs arbitrary: p) auto

lemma chain_distinct: "chain nxt p xs \<Longrightarrow> distinct xs"
proof (induction xs arbitrary: p)
  case (Cons x xs)
  have "x \<notin> set xs"
  proof
    assume "x \<in> set xs"
    then obtain as bs where xs: "xs = as @ x # bs" by (meson split_list)
    have c: "chain nxt (nxt x) xs" using Cons.prems by simp
    then have "chain nxt (nxt x) bs" using chain_suffix [of nxt _ as x bs] xs by simp
    from chain_unique [OF c this] xs show False by simp
  qed
  with Cons show ?case by auto
qed simp

lemma chain_link: "chain nxt p (xs @ x # ys) \<Longrightarrow> chain nxt (nxt x) ys"
  using chain_suffix [of nxt p xs x ys] by simp

text \<open>The three changes of a list: a new object behind the last one, in front, and one taken out.\<close>

lemma chain_snoc:
  assumes "chain nxt p xs" "xs \<noteq> []" "q \<notin> set xs" "q \<noteq> NULL"
  shows "chain (nxt(last xs := q, q := NULL)) p (xs @ [q])"
  using assms
proof (induction xs arbitrary: p)
  case (Cons x xs)
  then have x: "x \<notin> set xs" using chain_distinct [of nxt p "x # xs"] by simp
  show ?case
  proof (cases "xs = []")
    case False
    then have "x \<noteq> last xs" using x by auto
    with Cons False show ?thesis by auto
  qed (use Cons.prems in auto)
qed simp

lemma chain_take_out:
  assumes "chain nxt p (xs @ a # x # ys)"
  shows "chain (nxt(a := nxt x)) p (xs @ a # ys)"
  using assms
proof (induction xs arbitrary: p)
  case Nil
  then have d: "distinct (a # x # ys)" and c: "chain nxt (nxt x) ys" "p = a" "a \<noteq> NULL"
    using chain_distinct [of nxt p "a # x # ys"] by simp_all
  have "chain (nxt(a := nxt x)) (nxt x) ys" by (subst chain_upd) (use d c in simp_all)
  with c show ?case by (simp del: fun_upd_apply add: fun_upd_same)
next
  case (Cons z xs)
  then have "z \<noteq> a" using chain_distinct [of nxt p "z # xs @ a # x # ys"] by simp
  with Cons show ?case by (simp del: fun_upd_apply add: fun_upd_other)
qed

end
