(* ===== verification/FB_Flowop_Correct.thy ===== *)
theory FB_Flowop_Correct
  imports FB_Flowop FB_Chain FB_Vars_Correct
begin

text \<open>
  The lists of flowops: the global list holds exactly the flowops that are allocated, defining a flowop
  puts it in front of the global list and behind the last flowop of its thread or composite flowop, and
  deleting takes it out of both and frees it.
\<close>

subsection \<open>The lists\<close>

abbreviation gnext :: "fbstate \<Rightarrow> ptr \<Rightarrow> ptr" where
  "gnext s \<equiv> \<lambda>p. fo_next (flowops s p)"

abbreviation enext :: "fbstate \<Rightarrow> ptr \<Rightarrow> ptr" where
  "enext s \<equiv> \<lambda>p. fo_exec_next (flowops s p)"

abbreviation handles :: "layout \<Rightarrow> fbstate \<Rightarrow> ptr set" where
  "handles L s \<equiv> ipc_handles L FILEBENCH_FLOWOP (ipc (vs s))"

definition flow_inv :: "layout \<Rightarrow> fbstate \<Rightarrow> ptr list \<Rightarrow> bool" where
  "flow_inv L s gs \<longleftrightarrow> layout_ok L \<and> ipc_wf (ipc (vs s)) \<and> chain (gnext s) (shm_flowoplist s) gs \<and> set gs = handles L s"

definition on_list :: "fbstate \<Rightarrow> fhead \<Rightarrow> ptr list \<Rightarrow> bool" where
  "on_list s h ls \<longleftrightarrow> chain (enext s) (get_head s h) ls"

lemma on_list_distinct: "on_list s h ls \<Longrightarrow> distinct ls"
  unfolding on_list_def by (rule chain_distinct)

lemma flow_inv_distinct: "flow_inv L s gs \<Longrightarrow> distinct gs"
  unfolding flow_inv_def by (blast intro: chain_distinct)

text \<open>A flowop without its links.\<close>

definition core :: "flowop \<Rightarrow> flowop" where
  "core f = f\<lparr>fo_next := NULL, fo_exec_next := NULL, fo_comp_fops := NULL\<rparr>"

lemma core_simps [simp]:
  "core (f\<lparr>fo_next := p\<rparr>) = core f" "core (f\<lparr>fo_exec_next := p\<rparr>) = core f" "core (f\<lparr>fo_comp_fops := p\<rparr>) = core f"
  by (cases f; simp add: core_def)+

lemma core_fields:
  "core f = core g \<Longrightarrow> fo_name f = fo_name g \<and> fo_instance f = fo_instance g \<and> fo_thread f = fo_thread g
     \<and> fo_func f = fo_func g \<and> fo_type f = fo_type g \<and> fo_iters f = fo_iters g"
  by (cases f; cases g) (simp add: core_def)

lemma upd_fo_simps [simp]:
  "flowops (upd_fo s p f) = (flowops s)(p := f (flowops s p))" "threads (upd_fo s p f) = threads s"
  "shm_flowoplist (upd_fo s p f) = shm_flowoplist s" "vs (upd_fo s p f) = vs s"
  by (simp_all add: upd_fo_def)

lemma upd_tf_simps [simp]:
  "flowops (upd_tf s p g) = flowops s" "threads (upd_tf s p g) = (threads s)(p := g (threads s p))"
  "shm_flowoplist (upd_tf s p g) = shm_flowoplist s" "vs (upd_tf s p g) = vs s"
  by (simp_all add: upd_tf_def)

lemma set_head_simps [simp]:
  "get_head (set_head s h p) h = p" "h' \<noteq> h \<Longrightarrow> get_head (set_head s h p) h' = get_head s h'"
  "fo_next (flowops (set_head s h p) q) = fo_next (flowops s q)"
  "fo_exec_next (flowops (set_head s h p) q) = fo_exec_next (flowops s q)" "vs (set_head s h p) = vs s"
  "shm_flowoplist (set_head s h p) = shm_flowoplist s" "core (flowops (set_head s h p) q) = core (flowops s q)"
  by (cases h; cases h'; auto simp: fun_eq_iff)+

lemma exec_end_chain:
  "chain (\<lambda>p. fo_exec_next (fo p)) p xs \<Longrightarrow> xs \<noteq> [] \<Longrightarrow> exec_end fo p = Some (last xs)"
proof (induction xs arbitrary: p)
  case (Cons x xs)
  then show ?case by (subst exec_end.simps) (auto dest: chain_start)
qed simp

lemma append_exec_list:
  assumes l: "on_list s h ls" and p: "p \<notin> set ls" "p \<noteq> NULL" "h \<noteq> comp_fops p"
  obtains s' where "append_exec s h p = Some s'" "on_list s' h (ls @ [p])" "gnext s' = gnext s"
    "shm_flowoplist s' = shm_flowoplist s" "vs s' = vs s" "\<And>q. core (flowops s' q) = core (flowops s q)"
    "\<And>q. q \<notin> insert p (set ls) \<Longrightarrow> enext s' q = enext s q" "\<And>h'. h' \<noteq> h \<Longrightarrow> get_head s' h' = get_head s h'"
proof (cases ls)
  case Nil
  let ?s = "upd_fo (set_head s h p) p (\<lambda>f. f\<lparr>fo_exec_next := NULL\<rparr>)"
  have n: "get_head s h = NULL" using l by (simp add: on_list_def Nil)
  have g: "get_head ?s h' = get_head (set_head s h p) h'" for h' by (cases h') auto
  have gn: "gnext ?s q = gnext s q" "q \<noteq> p \<Longrightarrow> enext ?s q = enext s q" "core (flowops ?s q) = core (flowops s q)" for q
    by auto
  have "enext ?s p = NULL" "get_head ?s h = p" "shm_flowoplist ?s = shm_flowoplist s" "vs ?s = vs s" by (simp_all add: g)
  then show thesis using that [of ?s] p(2) n gn g by (simp add: append_exec_def on_list_def Nil fun_eq_iff del: upd_fo_simps)
next
  case (Cons x xs)
  then have ne: "ls \<noteq> []" by simp
  have c: "chain (enext s) (get_head s h) ls" using l by (simp add: on_list_def)
  let ?e = "last ls" and ?s = "upd_fo (upd_fo s (last ls) (\<lambda>f. f\<lparr>fo_exec_next := p\<rparr>)) p (\<lambda>f. f\<lparr>fo_exec_next := NULL\<rparr>)"
  have e: "exec_end (flowops s) (get_head s h) = Some ?e" using exec_end_chain [OF c ne] .
  have n: "get_head s h \<noteq> NULL" using chain_start [OF c] ne by simp
  have g: "get_head ?s h' = get_head s h'" for h' by (cases h') auto
  have pe: "p \<noteq> ?e" using p(1) last_in_set [OF ne] by auto
  have "enext ?s = (enext s)(?e := p, p := NULL)" using pe by (auto simp: fun_eq_iff)
  then have "on_list ?s h (ls @ [p])" using chain_snoc [OF c ne p(1,2)] by (simp only: on_list_def g)
  moreover have "append_exec s h p = Some ?s" by (simp add: append_exec_def n e)
  moreover have "gnext ?s = gnext s" using pe by (auto simp: fun_eq_iff)
  moreover have "enext ?s q = enext s q" if "q \<notin> insert p (set ls)" for q
    using that last_in_set [OF ne] by auto
  moreover have "core (flowops ?s q) = core (flowops s q)" for q by simp
  ultimately show thesis by (intro that [of ?s] g) simp_all
qed

subsection \<open>Defining a flowop\<close>

lemma avd_int_alloc_flowops:
  assumes "ipc_wf (ipc v)" "layout_ok L"
  obtains a v' where "avd_int_alloc L v n = Some (a, v')" "ipc_wf (ipc v')"
    "ipc_handles L FILEBENCH_FLOWOP (ipc v') = ipc_handles L FILEBENCH_FLOWOP (ipc v)"
proof (rule ipc_malloc_cases [where type = FILEBENCH_AVD and zero = "\<lambda>_. ()", OF assms])
  show "FILEBENCH_AVD < FILEBENCH_TYPES" by simp
next
  assume "ipc_malloc L (\<lambda>_. ()) (ipc v) FILEBENCH_AVD = Some (NULL, ipc v)"
  then show thesis using that assms(1) by (simp add: avd_int_alloc_def avd_alloc_cmn_def)
next
  fix p i assume "ipc_malloc L (\<lambda>_. ()) (ipc v) FILEBENCH_AVD = Some (p, i)" "p \<noteq> NULL" "ipc_wf i"
    "\<And>t. t \<noteq> FILEBENCH_AVD \<Longrightarrow> ipc_handles L t i = ipc_handles L t (ipc v)"
  then show thesis using that by (simp add: avd_int_alloc_def avd_alloc_cmn_def set_avd_def)
qed

lemma fill_flowop_cases:
  assumes "ipc_wf (ipc (vs s))" "layout_ok L"
  obtains s' where "fill_flowop L s p inherit type = Some s'" "ipc_wf (ipc (vs s'))" "handles L s' = handles L s"
    "threads s' = threads s" "shm_flowoplist s' = shm_flowoplist s" "\<And>q. q \<noteq> p \<Longrightarrow> flowops s' q = flowops s q"
proof (cases "inherit = NULL")
  case True
  obtain a v' where "avd_int_alloc L (vs s) 1 = Some (a, v')" "ipc_wf (ipc v')"
    "ipc_handles L FILEBENCH_FLOWOP (ipc v') = handles L s"
    using avd_int_alloc_flowops [OF assms] by blast
  then show thesis using that True by (simp add: fill_flowop_def)
qed (use that assms in \<open>simp add: fill_flowop_def\<close>)

text \<open>A new flowop is in front of the global list before it joins the list of its thread.\<close>

lemma define_common_cases:
  assumes inv: "flow_inv L s gs" and len: "length nm < 128"
  obtains (full) "\<not> has_slot (ipc (vs s)) FILEBENCH_FLOWOP"
      "flowop_define_common L s tf (Some nm) inherit hdp inst type = Some (NULL, s)"
  | (new) p s' where "has_slot (ipc (vs s)) FILEBENCH_FLOWOP" "p \<noteq> NULL" "p \<notin> set gs" "flow_inv L s' (p # gs)"
      "threads s' = threads s" "\<And>q. q \<noteq> p \<Longrightarrow> flowops s' q = flowops s q"
      "fo_name (flowops s' p) = nm" "fo_instance (flowops s' p) = inst" "fo_thread (flowops s' p) = tf"
      "flowop_define_common L s tf (Some nm) inherit hdp inst type =
         (case hdp of None \<Rightarrow> Some (p, s') | Some h \<Rightarrow> map_option (Pair p) (append_exec s' h p))"
proof (rule ipc_malloc_cases [where shm = "ipc (vs s)" and L = L and type = FILEBENCH_FLOWOP and zero = "\<lambda>_. ()"])
  show "ipc_wf (ipc (vs s))" "layout_ok L" using inv by (simp_all add: flow_inv_def)
  show "FILEBENCH_FLOWOP < FILEBENCH_TYPES" by simp
next
  assume "\<not> has_slot (ipc (vs s)) FILEBENCH_FLOWOP"
    "ipc_malloc L (\<lambda>_. ()) (ipc (vs s)) FILEBENCH_FLOWOP = Some (NULL, ipc (vs s))"
  then show thesis using full by (simp add: flowop_define_common_def)
next
  fix p i
  assume slot: "has_slot (ipc (vs s)) FILEBENCH_FLOWOP" and m: "ipc_malloc L (\<lambda>_. ()) (ipc (vs s)) FILEBENCH_FLOWOP = Some (p, i)"
    and p: "p \<noteq> NULL" "p \<notin> handles L s" and i: "ipc_wf i" "ipc_handles L FILEBENCH_FLOWOP i = insert p (handles L s)"
  let ?s = "s\<lparr>vs := (vs s)\<lparr>ipc := i\<rparr>\<rparr>"
  have "ipc_wf (ipc (vs ?s))" "layout_ok L" using i(1) inv by (simp_all add: flow_inv_def)
  then obtain t where t: "fill_flowop L ?s p inherit type = Some t" "ipc_wf (ipc (vs t))" "handles L t = handles L ?s"
    "threads t = threads ?s" "shm_flowoplist t = shm_flowoplist ?s" "\<And>q. q \<noteq> p \<Longrightarrow> flowops t q = flowops ?s q"
    using fill_flowop_cases [of ?s L p inherit type] by blast
  let ?t = "upd_fo ((upd_fo t p (\<lambda>f. f\<lparr>fo_thread := tf, fo_next := shm_flowoplist t\<rparr>))\<lparr>shm_flowoplist := p\<rparr>) p
    (\<lambda>f. f\<lparr>fo_name := nm, fo_instance := inst\<rparr>)"
  have gs: "p \<notin> set gs" "chain (gnext s) (shm_flowoplist s) gs" using p(2) inv by (simp_all add: flow_inv_def)
  then have "chain (gnext ?t) (shm_flowoplist s) gs" using t(6) by (auto intro: chain_frame)
  then have "flow_inv L ?t (p # gs)" using t(2,3,5) i(2) inv p(1) by (simp add: flow_inv_def)
  moreover have "flowop_define_common L s tf (Some nm) inherit hdp inst type =
      (case hdp of None \<Rightarrow> Some (p, ?t) | Some h \<Rightarrow> map_option (Pair p) (append_exec ?t h p))"
    using m p(1) t(1) len by (cases hdp) (auto simp: flowop_define_common_def map_option_case bind_eq_None_conv split: option.splits)
  moreover have "fo_name (flowops ?t p) = nm" "fo_instance (flowops ?t p) = inst" "fo_thread (flowops ?t p) = tf"
    "threads ?t = threads s" "\<And>q. q \<noteq> p \<Longrightarrow> flowops ?t q = flowops s q" using t(4,6) by simp_all
  ultimately show thesis by (intro new [OF slot p(1) gs(1)])
qed

text \<open>The lists that a new flowop is added to behind its end.\<close>

fun head_ok :: "ptr list \<Rightarrow> fhead \<Rightarrow> bool" where
  "head_ok gs (tf_fops t) \<longleftrightarrow> True"
| "head_ok gs (comp_fops c) \<longleftrightarrow> c \<in> set gs"

definition off_lists :: "fbstate \<Rightarrow> fbstate \<Rightarrow> ptr list \<Rightarrow> fhead \<Rightarrow> ptr list \<Rightarrow> bool" where
  "off_lists s s' gs h ls \<longleftrightarrow> (\<forall>h' ls'. h' \<noteq> h \<longrightarrow> head_ok gs h' \<longrightarrow> on_list s h' ls' \<longrightarrow> set ls' \<subseteq> set gs \<longrightarrow> set ls' \<inter> set ls = {}
     \<longrightarrow> on_list s' h' ls')"

lemma upd_fo_links:
  "(\<And>x. fo_next (f x) = fo_next x) \<Longrightarrow> flow_inv L (upd_fo s p f) gs = flow_inv L s gs"
  "(\<And>x. fo_exec_next (f x) = fo_exec_next x) \<Longrightarrow> (\<And>x. fo_comp_fops (f x) = fo_comp_fops x) \<Longrightarrow>
     on_list (upd_fo s p f) h ls = on_list s h ls"
proof -
  assume "\<And>x. fo_next (f x) = fo_next x"
  then have "gnext (upd_fo s p f) = gnext s" by (auto simp: fun_eq_iff)
  then show "flow_inv L (upd_fo s p f) gs = flow_inv L s gs" unfolding flow_inv_def by (simp only: upd_fo_simps)
next
  assume f: "\<And>x. fo_exec_next (f x) = fo_exec_next x" "\<And>x. fo_comp_fops (f x) = fo_comp_fops x"
  then have "enext (upd_fo s p f) = enext s" by (auto simp: fun_eq_iff)
  moreover have "get_head (upd_fo s p f) h = get_head s h" using f(2) by (cases h) auto
  ultimately show "on_list (upd_fo s p f) h ls = on_list s h ls" unfolding on_list_def by (simp only:)
qed

lemma unlock_fo_simps [simp]:
  "flow_inv L (unlock_fo s p) gs = flow_inv L s gs" "on_list (unlock_fo s p) h ls = on_list s h ls"
  by (simp_all add: unlock_fo_def upd_fo_links)


lemma flowop_define_list:
  assumes inv: "flow_inv L s gs" and l: "on_list s h ls" "set ls \<subseteq> set gs" "head_ok gs h"
    and len: "length nm < 128" and slot: "has_slot (ipc (vs s)) FILEBENCH_FLOWOP"
  obtains p s' where "flowop_define L s tf (Some nm) inherit (Some h) inst type = Some (p, s')" "p \<noteq> NULL" "p \<notin> set gs"
    "flow_inv L s' (p # gs)" "on_list s' h (ls @ [p])" "off_lists s s' gs h ls"
    "\<And>q. q \<noteq> p \<Longrightarrow> core (flowops s' q) = core (flowops s q)"
    "fo_name (flowops s' p) = nm \<and> fo_instance (flowops s' p) = inst \<and> fo_thread (flowops s' p) = tf \<and> \<not> fo_lock (flowops s' p)"
proof (rule define_common_cases [OF inv len, of tf inherit "Some h" inst type])
  assume "\<not> has_slot (ipc (vs s)) FILEBENCH_FLOWOP"
  then show thesis using slot by simp
next
  fix p t
  assume p: "p \<noteq> NULL" "p \<notin> set gs" and t: "flow_inv L t (p # gs)" "threads t = threads s" "\<And>q. q \<noteq> p \<Longrightarrow> flowops t q = flowops s q"
    and f: "fo_name (flowops t p) = nm" "fo_instance (flowops t p) = inst" "fo_thread (flowops t p) = tf"
    and d: "flowop_define_common L s tf (Some nm) inherit (Some h) inst type =
         (case Some h of None \<Rightarrow> Some (p, t) | Some h \<Rightarrow> map_option (Pair p) (append_exec t h p))"
  have keep: "on_list t h' ls'" if "on_list s h' ls'" "set ls' \<subseteq> set gs" "head_ok gs h'" for h' ls'
  proof -
    have "flowops t q = flowops s q" if "q \<in> set gs" for q using that p(2) by (intro t(3)) auto
    then have "get_head t h' = get_head s h'" using that(3) t(2) by (cases h') auto
    then show ?thesis using that(1,2) p(2) t(3) unfolding on_list_def by (metis (mono_tags, lifting) chain_frame subsetD)
  qed
  have pl: "p \<notin> set ls" "h \<noteq> comp_fops p" using p(2) l(2,3) by auto
  obtain u where u: "append_exec t h p = Some u" "on_list u h (ls @ [p])" "gnext u = gnext t"
    "shm_flowoplist u = shm_flowoplist t" "vs u = vs t" "\<And>q. core (flowops u q) = core (flowops t q)"
    "\<And>q. q \<notin> insert p (set ls) \<Longrightarrow> enext u q = enext t q" "\<And>h'. h' \<noteq> h \<Longrightarrow> get_head u h' = get_head t h'"
    using append_exec_list [OF keep [OF l] pl(1) p(1) pl(2)] by blast
  have "flow_inv L u (p # gs)" using t(1) unfolding flow_inv_def u(3,4,5) .
  moreover have "off_lists s (unlock_fo u p) gs h ls"
    unfolding off_lists_def unlock_fo_simps
  proof (intro allI impI)
    fix h' ls' assume h': "h' \<noteq> h" "head_ok gs h'" "on_list s h' ls'" "set ls' \<subseteq> set gs" "set ls' \<inter> set ls = {}"
    have "chain (enext t) (get_head u h') ls'" using keep [OF h'(3,4,2)] u(8) [OF h'(1)] by (simp add: on_list_def)
    then show "on_list u h' ls'" unfolding on_list_def by (rule chain_frame) (rule u(7), use h'(4,5) p(2) in auto)
  qed
  moreover have "core (flowops (unlock_fo u p) q) = core (flowops s q)" if "q \<noteq> p" for q
    using that t(3) u(6) by (simp add: unlock_fo_def)
  moreover have "flowop_define L s tf (Some nm) inherit (Some h) inst type = Some (p, unlock_fo u p)"
    using d u(1) p(1) by (simp add: flowop_define_def)
  ultimately show thesis using that [of p "unlock_fo u p"] p u(2) f core_fields [OF u(6) [of p]]
    by (simp add: unlock_fo_def upd_fo_links)
qed


subsection \<open>Deleting flowops\<close>

lemma unlink_exec_list:
  assumes "chain (enext s) entry (as @ a # f # bs)"
  shows "unlink_exec s entry f = Some (upd_fo s a (\<lambda>x. x\<lparr>fo_exec_next := enext s f\<rparr>))"
  using assms
proof (induction "as" arbitrary: entry)
  case Nil
  then show ?case by (subst unlink_exec.simps) auto
next
  case (Cons y ys)
  then have c: "chain (enext s) (enext s entry) (ys @ a # f # bs)" by simp
  then have n: "enext s entry \<noteq> NULL" using chain_start [OF c] by simp
  have "enext s entry \<noteq> f" using chain_hd [OF c] chain_distinct [OF c] by (cases ys) auto
  then show ?case using n Cons.IH [OF c] by (subst unlink_exec.simps) simp
qed

lemma unlink_global_list:
  assumes "chain (gnext s) entry (as @ a # f # bs)"
  shows "unlink_global s entry f = Some (True, upd_fo s a (\<lambda>x. x\<lparr>fo_next := gnext s f\<rparr>))"
  using assms
proof (induction "as" arbitrary: entry)
  case Nil
  then show ?case by (subst unlink_global.simps) auto
next
  case (Cons y ys)
  then have c: "chain (gnext s) (gnext s entry) (ys @ a # f # bs)" by simp
  then have n: "gnext s entry \<noteq> NULL" using chain_start [OF c] by simp
  have "gnext s entry \<noteq> f" using chain_hd [OF c] chain_distinct [OF c] by (cases ys) auto
  then show ?case using n Cons.IH [OF c] by (subst unlink_global.simps) simp
qed

text \<open>The two ways to be on a list: first, or behind another flowop.\<close>

lemma list_position:
  assumes "f \<in> set xs" "distinct xs"
  obtains (first) ys where "xs = f # ys" "remove1 f xs = ys"
  | (behind) as a bs where "xs = as @ a # f # bs" "remove1 f xs = as @ a # bs"
proof -
  obtain us vs where x: "xs = us @ f # vs" "f \<notin> set us" using assms(1) by (meson split_list_first)
  show thesis
  proof (cases us rule: rev_cases)
    case Nil
    then show thesis using first x by simp
  next
    case (snoc as a)
    then show thesis using behind [of "as" a vs] x by (simp add: remove1_append)
  qed
qed

definition take_local :: "fbstate \<Rightarrow> fhead \<Rightarrow> ptr \<Rightarrow> fbstate option" where
  "take_local s h f = (if f = get_head s h then Some (set_head s h (fo_exec_next (flowops s f)))
     else if get_head s h = NULL then None else unlink_exec s (get_head s h) f)"

lemma take_local_list:
  assumes l: "on_list s h ls" and f: "f \<in> set ls"
  obtains s' where "take_local s h f = Some s'" "on_list s' h (remove1 f ls)" "gnext s' = gnext s"
    "shm_flowoplist s' = shm_flowoplist s" "vs s' = vs s" "\<And>q. core (flowops s' q) = core (flowops s q)"
    "\<And>q. q \<notin> set ls \<Longrightarrow> enext s' q = enext s q" "\<And>h'. h' \<noteq> h \<Longrightarrow> get_head s' h' = get_head s h'"
    "enext s' f = enext s f"
proof -
  have c: "chain (enext s) (get_head s h) ls" using l by (simp add: on_list_def)
  show thesis using f chain_distinct [OF c]
  proof (cases rule: list_position)
    case (first ys)
    let ?s = "set_head s h (enext s f)"
    have "f = get_head s h" "on_list ?s h ys" using c first by (simp_all add: on_list_def)
    then show thesis using that [of ?s] first by (simp add: take_local_def)
  next
    case (behind as a bs)
    let ?s = "upd_fo s a (\<lambda>x. x\<lparr>fo_exec_next := enext s f\<rparr>)"
    have c': "chain (enext s) (get_head s h) (as @ a # f # bs)" using c behind by simp
    have af: "a \<noteq> f" "f \<noteq> get_head s h" using chain_distinct [OF c'] chain_hd [OF c'] by (cases "as"; auto)+
    have "get_head s h \<noteq> NULL" using chain_start [OF c'] by simp
    then have "take_local s h f = Some ?s" using unlink_exec_list [OF c'] af(2) by (simp add: take_local_def)
    moreover have g: "get_head ?s h' = get_head s h'" for h' by (cases h') auto
    moreover have "enext ?s = (enext s)(a := enext s f)" "gnext ?s = gnext s" by (auto simp: fun_eq_iff)
    ultimately show thesis using that [of ?s] chain_take_out [OF c'] behind af(1) by (simp add: on_list_def)
  qed
qed


definition take_global :: "fbstate \<Rightarrow> ptr \<Rightarrow> (bool \<times> fbstate) option" where
  "take_global t f = (if f = shm_flowoplist t then Some (True, t\<lparr>shm_flowoplist := fo_next (flowops t f)\<rparr>)
     else if shm_flowoplist t = NULL then None else unlink_global t (shm_flowoplist t) f)"

lemma take_global_list:
  assumes c: "chain (gnext t) (shm_flowoplist t) gs" and f: "f \<in> set gs"
  obtains u where "take_global t f = Some (True, u)"
      "chain (gnext u) (shm_flowoplist u) (remove1 f gs)" "vs u = vs t" "\<And>q. core (flowops u q) = core (flowops t q)"
      "enext u = enext t" "\<And>h'. get_head u h' = get_head t h'"
  using f chain_distinct [OF c]
proof (cases rule: list_position)
  case (first ys)
  have g: "get_head (t\<lparr>shm_flowoplist := p\<rparr>) h' = get_head t h'" for h' p by (cases h') auto
  then show thesis using that [of "t\<lparr>shm_flowoplist := gnext t f\<rparr>"] c first by (simp add: take_global_def)
next
  case (behind as a bs)
  let ?u = "upd_fo t a (\<lambda>x. x\<lparr>fo_next := gnext t f\<rparr>)"
  have c': "chain (gnext t) (shm_flowoplist t) (as @ a # f # bs)" using c behind by simp
  have "f \<noteq> shm_flowoplist t" using chain_distinct [OF c'] chain_hd [OF c'] by (cases "as") auto
  moreover have "shm_flowoplist t \<noteq> NULL" using chain_start [OF c'] by simp
  moreover have "get_head ?u h' = get_head t h'" for h' by (cases h') auto
  moreover have "gnext ?u = (gnext t)(a := gnext t f)" "enext ?u = enext t" by (auto simp: fun_eq_iff)
  ultimately show thesis using that [of ?u] chain_take_out [OF c'] behind unlink_global_list [OF c'] by (simp add: take_global_def)
qed

lemma flowop_delete_list:
  assumes inv: "flow_inv L s gs" and l: "on_list s h ls" "set ls \<subseteq> set gs" and f: "f \<in> set ls"
  obtains s' where "flowop_delete L s h f = Some s'" "flow_inv L s' (remove1 f gs)" "on_list s' h (remove1 f ls)"
    "off_lists s s' gs h ls" "\<And>q. core (flowops s' q) = core (flowops s q)" "enext s' f = enext s f" "handles L s' = handles L s - {f}"
proof -
  obtain t where t: "take_local s h f = Some t" "on_list t h (remove1 f ls)" "gnext t = gnext s"
    "shm_flowoplist t = shm_flowoplist s" "vs t = vs s" "\<And>q. core (flowops t q) = core (flowops s q)"
    "\<And>q. q \<notin> set ls \<Longrightarrow> enext t q = enext s q" "\<And>h'. h' \<noteq> h \<Longrightarrow> get_head t h' = get_head s h'"
    "enext t f = enext s f"
    using take_local_list [OF l(1) f] by blast
  have c: "chain (gnext t) (shm_flowoplist t) gs" and w: "layout_ok L" "ipc_wf (ipc (vs t))" "set gs = handles L t"
    using inv t(3,4,5) by (simp_all add: flow_inv_def)
  have fg: "f \<in> set gs" using f l(2) by auto
  let ?i = "ipc_free L (ipc (vs t)) FILEBENCH_FLOWOP f"
  have i: "ipc_wf ?i" "ipc_handles L FILEBENCH_FLOWOP ?i = handles L t - {f}"
    using ipc.release_used [of "ipc (vs t)" L FILEBENCH_FLOWOP f] w fg by simp_all
  have gs': "set (remove1 f gs) = handles L t - {f}" using chain_distinct [OF c] w(3) by simp
  obtain u where u: "take_global t f = Some (True, u)"
      "chain (gnext u) (shm_flowoplist u) (remove1 f gs)" "vs u = vs t" "\<And>q. core (flowops u q) = core (flowops t q)"
      "enext u = enext t" "\<And>h'. get_head u h' = get_head t h'"
    using take_global_list [OF c fg] by blast
  let ?s = "u\<lparr>vs := (vs u)\<lparr>ipc := ?i\<rparr>\<rparr>"
  have g: "get_head ?s h' = get_head t h'" for h' using u(6) [of h'] by (cases h') auto
  have e: "enext ?s = enext t" using u(5) by simp
  have "flowop_delete L s h f = Some ?s"
    using t(1) u(1,3) unfolding flowop_delete_def take_local_def take_global_def Let_def by simp
  moreover have "flow_inv L ?s (remove1 f gs)" using u(2) w(1) i gs' by (simp add: flow_inv_def)
  moreover have "on_list ?s h (remove1 f ls)" using t(2) unfolding on_list_def g e .
  moreover have "off_lists s ?s gs h ls"
    unfolding off_lists_def on_list_def g e
  proof (intro allI impI)
    fix h' ls' assume "h' \<noteq> h" "chain (enext s) (get_head s h') ls'" "set ls' \<inter> set ls = {}"
    then show "chain (enext t) (get_head t h') ls'" unfolding t(8) [OF \<open>h' \<noteq> h\<close>]
      by (elim chain_frame) (rule t(7), auto)
  qed
  moreover have "core (flowops ?s q) = core (flowops s q)" for q using u(4) t(6) by simp
  moreover have "enext ?s f = enext s f" using t(9) e by (simp add: fun_eq_iff)
  moreover have "handles L ?s = handles L s - {f}" using i(2) t(5) by simp
  ultimately show thesis by (rule that)
qed

lemma off_lists_mono: "off_lists s s' gs h ls \<Longrightarrow> set gs' \<subseteq> set gs \<Longrightarrow> set ls \<subseteq> set ls' \<Longrightarrow> off_lists s s' gs' h ls'"
proof -
  assume o: "off_lists s s' gs h ls" and sub: "set gs' \<subseteq> set gs" "set ls \<subseteq> set ls'"
  have "head_ok gs h'" if "head_ok gs' h'" for h' using that sub(1) by (cases h') auto
  then show "off_lists s s' gs' h ls'" using o sub unfolding off_lists_def by blast
qed

lemma off_lists_trans: "off_lists s t gs h ls \<Longrightarrow> off_lists t u gs h ls \<Longrightarrow> off_lists s u gs h ls"
  by (simp add: off_lists_def)

lemma chain_mid:
  assumes "chain nxt p (xs @ ys)" "ys \<noteq> []"
  shows "chain nxt (hd ys) ys"
  using chain_suffix [of nxt p xs "hd ys" "tl ys"] assms by simp

abbreviation master :: "fbstate \<Rightarrow> ptr \<Rightarrow> bool" where
  "master s f \<equiv> fo_instance (flowops s f) = FLOW_MASTER"

text \<open>What is left of the flowops \<open>gs\<close> when those of \<open>rest\<close> that are no masters are gone.\<close>

definition left :: "fbstate \<Rightarrow> ptr list \<Rightarrow> ptr list \<Rightarrow> ptr list" where
  "left s rest gs = filter (\<lambda>f. f \<in> set rest \<longrightarrow> master s f) gs"

lemma left_master: "master s f \<Longrightarrow> left s (f # rest) gs = left s rest gs"
  unfolding left_def by (rule filter_cong) auto

lemma left_remove: "\<not> master s f \<Longrightarrow> distinct gs \<Longrightarrow> left s (f # rest) gs = left s rest (remove1 f gs)"
  unfolding left_def by (auto simp: distinct_remove1_removeAll removeAll_filter_not_eq intro!: filter_cong)

lemma left_cong: "(\<And>q. core (flowops t q) = core (flowops s q)) \<Longrightarrow> left t rest gs = left s rest gs"
proof -
  assume "\<And>q. core (flowops t q) = core (flowops s q)"
  from core_fields [OF this] show ?thesis by (simp add: left_def)
qed

lemma set_left: "set (left s rest gs) \<subseteq> set gs"
  by (auto simp: left_def)

definition all_deleted :: "layout \<Rightarrow> fbstate \<Rightarrow> ptr list \<Rightarrow> fhead \<Rightarrow> ptr list \<Rightarrow> ptr list \<Rightarrow> fbstate \<Rightarrow> bool" where
  "all_deleted L s gs h ms rest s' \<longleftrightarrow> flow_inv L s' (left s rest gs) \<and> on_list s' h (ms @ filter (master s) rest)
     \<and> off_lists s s' (left s rest gs) h (ms @ rest) \<and> (\<forall>q. core (flowops s' q) = core (flowops s q))"

lemma all_deleted_step:
  assumes inv: "flow_inv L s gs" and l: "on_list s h (ms @ f # rest)" "set (ms @ f # rest) \<subseteq> set gs" and f: "\<not> master s f"
  obtains t where "flowop_delete L s h f = Some t" "flow_inv L t (remove1 f gs)" "on_list t h (ms @ rest)"
    "set (ms @ rest) \<subseteq> set (remove1 f gs)" "\<And>u. all_deleted L t (remove1 f gs) h ms rest u \<Longrightarrow> all_deleted L s gs h ms (f # rest) u"
proof -
  have i: "f \<in> set (ms @ f # rest)" by simp
  obtain t where t: "flowop_delete L s h f = Some t" "flow_inv L t (remove1 f gs)" "on_list t h (remove1 f (ms @ f # rest))"
    "off_lists s t gs h (ms @ f # rest)" "\<And>q. core (flowops t q) = core (flowops s q)"
    by (rule flowop_delete_list [OF inv l i]) (rule that)
  have d: "distinct (ms @ f # rest)" "distinct gs" using on_list_distinct [OF l(1)] flow_inv_distinct [OF inv] by blast+
  have "on_list t h (ms @ rest)" using t(3) d by (simp add: remove1_append)
  moreover have "set (ms @ rest) \<subseteq> set (remove1 f gs)" using l(2) d by auto
  moreover have "all_deleted L s gs h ms (f # rest) u" if u: "all_deleted L t (remove1 f gs) h ms rest u" for u
  proof -
    have "master t q = master s q" for q using core_fields [OF t(5) [of q]] by simp
    then have m: "filter (master t) rest = filter (master s) rest" by simp
    have g: "left t rest (remove1 f gs) = left s (f # rest) gs" using left_cong [OF t(5)] left_remove [OF f d(2)] by simp
    have "off_lists t u (left s (f # rest) gs) h (ms @ rest)" using u by (simp add: all_deleted_def g)
    then have "off_lists t u (left s (f # rest) gs) h (ms @ f # rest)" by (rule off_lists_mono) auto
    then have "off_lists s u (left s (f # rest) gs) h (ms @ f # rest)"
      using off_lists_trans [OF off_lists_mono [OF t(4) set_left order_refl]] by blast
    then show ?thesis using u t(5) f by (simp add: all_deleted_def g m)
  qed
  ultimately show thesis by (intro that [OF t(1,2)])
qed

lemma delete_all_loop_list:
  assumes "flow_inv L s gs" "on_list s h (ms @ rest)" "set (ms @ rest) \<subseteq> set gs" "chain (enext s) p rest"
  shows "\<exists>s'. delete_all_loop L s h p = Some s' \<and> all_deleted L s gs h ms rest s'"
  using assms
proof (induction rest arbitrary: s gs ms p)
  case Nil
  then show ?case by (subst delete_all_loop.simps) (auto simp: off_lists_def all_deleted_def left_def)
next
  case (Cons f rest)
  have p: "p = f" "f \<noteq> NULL" "chain (enext s) (enext s f) rest" using Cons.prems(4) by simp_all
  show ?case
  proof (cases "master s f")
    case True
    have "delete_all_loop L s h p = delete_all_loop L s h (enext s f)"
      using p True by (subst delete_all_loop.simps) simp
    moreover have "all_deleted L s gs h (ms @ [f]) rest u \<Longrightarrow> all_deleted L s gs h ms (f # rest) u" for u
      using True by (simp add: all_deleted_def left_master)
    moreover have "on_list s h ((ms @ [f]) @ rest)" "set ((ms @ [f]) @ rest) \<subseteq> set gs" using Cons.prems(2,3) by simp_all
    ultimately show ?thesis using Cons.IH [OF Cons.prems(1) _ _ p(3)] by metis
  next
    case False
    obtain t where t: "flowop_delete L s h f = Some t" "flow_inv L t (remove1 f gs)" "on_list t h (ms @ rest)"
      "set (ms @ rest) \<subseteq> set (remove1 f gs)" "\<And>u. all_deleted L t (remove1 f gs) h ms rest u \<Longrightarrow> all_deleted L s gs h ms (f # rest) u"
      using all_deleted_step [OF Cons.prems(1-3) False] by blast
    have "chain (enext t) (enext s f) rest"
    proof (cases "rest = []")
      case True
      then show ?thesis using p(3) by simp
    next
      case False
      then show ?thesis using chain_mid [of "enext t" _ ms rest] t(3) chain_hd [OF p(3)] by (simp add: on_list_def)
    qed
    then obtain u where "delete_all_loop L t h (enext s f) = Some u" "all_deleted L s gs h ms (f # rest) u"
      using Cons.IH [OF t(2-4)] t(5) by blast
    moreover have "delete_all_loop L s h p = delete_all_loop L t h (enext s f)" using p(1,2) False t(1)
      by (subst delete_all_loop.simps) simp
    ultimately show ?thesis by simp
  qed
qed

subsection \<open>Finding flowops\<close>

abbreviation rnext :: "fbstate \<Rightarrow> ptr \<Rightarrow> ptr" where
  "rnext s \<equiv> \<lambda>p. fo_resultnext (flowops s p)"

abbreviation named :: "fbstate \<Rightarrow> string \<Rightarrow> ptr \<Rightarrow> bool" where
  "named s nm \<equiv> \<lambda>p. fo_name (flowops s p) = nm"

definition same_but_result :: "fbstate \<Rightarrow> fbstate \<Rightarrow> bool" where
  "same_but_result s s' \<longleftrightarrow> (\<exists>r. s' = s\<lparr>flowops := (\<lambda>x. (flowops s x)\<lparr>fo_resultnext := r x\<rparr>)\<rparr>)"

lemma same_but_result_refl: "same_but_result s s"
  unfolding same_but_result_def by (rule exI [of _ "rnext s"]) simp

lemma same_but_result_step:
  "same_but_result (upd_fo s p (\<lambda>f. f\<lparr>fo_resultnext := q\<rparr>)) s' \<Longrightarrow> same_but_result s s'"
proof -
  assume "same_but_result (upd_fo s p (\<lambda>f. f\<lparr>fo_resultnext := q\<rparr>)) s'"
  then obtain r where r: "s' = s\<lparr>flowops := (\<lambda>x. (((flowops s)(p := (flowops s p)\<lparr>fo_resultnext := q\<rparr>)) x)\<lparr>fo_resultnext := r x\<rparr>)\<rparr>"
    by (auto simp: same_but_result_def upd_fo_def)
  have "s' = s\<lparr>flowops := (\<lambda>x. (flowops s x)\<lparr>fo_resultnext := r x\<rparr>)\<rparr>"
    unfolding r by (rule arg_cong [where f = "\<lambda>g. s\<lparr>flowops := g\<rparr>"]) auto
  then show ?thesis unfolding same_but_result_def by blast
qed

lemma find_loop_list:
  assumes "chain (gnext s) p xs" "chain (rnext s) r rs" "set rs \<inter> set xs = {}"
  shows "\<exists>q s'. find_loop nm s p r = Some (q, s') \<and> chain (rnext s') q (rev (filter (named s nm) xs) @ rs) \<and> same_but_result s s'"
  using assms
proof (induction xs arbitrary: s p r rs)
  case Nil
  then show ?case using same_but_result_refl by (subst find_loop.simps) simp
next
  case (Cons x xs)
  have p: "p = x" "x \<noteq> NULL" "chain (gnext s) (gnext s x) xs" using Cons.prems(1) by simp_all
  have x: "x \<notin> set xs" using chain_distinct [OF Cons.prems(1)] by simp
  show ?case
  proof (cases "named s nm x")
    case True
    let ?t = "upd_fo s x (\<lambda>f. f\<lparr>fo_resultnext := r\<rparr>)"
    have f: "find_loop nm s p r = find_loop nm ?t (gnext s x) x" using p True by (subst find_loop.simps) simp
    have g: "gnext ?t = gnext s" "rnext ?t = (rnext s)(x := r)" "named ?t nm = named s nm" by (auto simp: fun_eq_iff)
    have "chain (gnext ?t) (gnext s x) xs" unfolding g(1) by (rule p(3))
    moreover have "chain (rnext ?t) x (x # rs)" unfolding g(2) using Cons.prems(2,3) p(2) by auto
    moreover have "set (x # rs) \<inter> set xs = {}" using Cons.prems(3) x by auto
    ultimately obtain q s' where "find_loop nm ?t (gnext s x) x = Some (q, s')"
      "chain (rnext s') q (rev (filter (named s nm) xs) @ x # rs)" "same_but_result ?t s'"
      using Cons.IH [of ?t "gnext s x" x "x # rs"] unfolding g(3) by blast
    then show ?thesis using f True same_but_result_step by auto
  next
    case False
    then have "find_loop nm s p r = find_loop nm s (gnext s x) r" using p by (subst find_loop.simps) auto
    then show ?thesis using Cons.IH [OF p(3) Cons.prems(2)] Cons.prems(3) False by auto
  qed
qed

lemma find_one_loop_list:
  "chain (\<lambda>p. fo_next (fo p)) p xs \<Longrightarrow>
   find_one_loop fo nm inst p = Some (case find (\<lambda>x. fo_name (fo x) = nm \<and> fo_instance (fo x) = inst) xs of None \<Rightarrow> NULL | Some x \<Rightarrow> x)"
proof (induction xs arbitrary: p)
  case (Cons x xs)
  then show ?case by (subst find_one_loop.simps) auto
qed (subst find_one_loop.simps, simp)

subsection \<open>The promises\<close>

text \<open>
  C7. Defining a flowop on the list of a thread or of a composite flowop: when shared memory has room, the
  new flowop is one that was not in use, it is in front of the global list and behind the last one of its own
  list, carries its name, instance and thread and is not locked, every other flowop has its contents and every
  other list is as it was. When there is no room the result is \<open>NULL\<close> and nothing changes.
\<close>

theorem flowop_define_correct:
  assumes "flow_inv L s gs" "on_list s h ls" "set ls \<subseteq> set gs" "head_ok gs h" "length nm < 128"
  shows "if has_slot (ipc (vs s)) FILEBENCH_FLOWOP
    then \<exists>p s'. flowop_define L s tf (Some nm) inherit (Some h) inst type = Some (p, s') \<and> p \<noteq> NULL \<and> p \<notin> set gs
      \<and> flow_inv L s' (p # gs) \<and> on_list s' h (ls @ [p]) \<and> off_lists s s' gs h ls
      \<and> (\<forall>q. q \<noteq> p \<longrightarrow> core (flowops s' q) = core (flowops s q))
      \<and> fo_name (flowops s' p) = nm \<and> fo_instance (flowops s' p) = inst \<and> fo_thread (flowops s' p) = tf \<and> \<not> fo_lock (flowops s' p)
    else flowop_define L s tf (Some nm) inherit (Some h) inst type = Some (NULL, s)"
proof (cases "has_slot (ipc (vs s)) FILEBENCH_FLOWOP")
  case True
  show ?thesis by (rule flowop_define_list [OF assms True, of tf inherit inst type]) (use True in auto)
next
  case False
  then show ?thesis
    by (auto intro: define_common_cases [OF assms(1,5), of tf inherit "Some h" inst type] simp: flowop_define_def)
qed

text \<open>An empty list of flowops in the example memory.\<close>

definition ex_fb :: fbstate where
  "ex_fb = \<lparr>vs = ex_vshm, flowops = (\<lambda>_. zero_flowop), threads = (\<lambda>_. zero_threadflow), procs = (\<lambda>_. zero_procflow),
     filesets = (\<lambda>_. zero_fsnode), shm_flowoplist = NULL, shm_filesetlist = NULL, shm_proclist = NULL,
     shm_f_abort = 0, shm_bequiet = False, shm_procs_running = 1, shm_rmode = 0, shm_utid = 0, shm_threadflow_lock = False, shm_required = 0,
     shm_eventgen_enabled = True, shm_eventgen_hz = NULL, shm_eventgen_q = 0, controlstats = zero_stats\<rparr>"

lemma ex_fb_inv: "flow_inv ex_layout ex_fb []"
proof -
  have "ipc_wf (ipc ex_vshm)" using ipc_init_wf by (simp add: ex_vshm_def)
  moreover have "live (ipc ex_vshm) t = {}" for t by (simp add: ex_vshm_def live_def ipc_init_def)
  ultimately show ?thesis using ex_layout_ok by (simp add: flow_inv_def ex_fb_def ipc_handles_def)
qed

lemma ex_fb_list: "on_list ex_fb (tf_fops t) []"
  by (simp add: on_list_def ex_fb_def zero_threadflow_def)

lemma ex_fb_slot: "has_slot (ipc (vs ex_fb)) FILEBENCH_FLOWOP"
  unfolding has_slot_def by (auto intro!: exI [of _ 1] simp: live_def ex_fb_def ex_vshm_def ipc_init_def filebench_sizes_def)

definition ex_machine :: "unit machine" where
  "ex_machine = \<lparr>lay = ex_layout, fpu = ex_F, rnd = (\<lambda>_ w. (0, w)), clock = (\<lambda>w. (0, w)),
     call = (\<lambda>_ _ _ s w. Some (FILEBENCH_OK, s, w)), init_lib = (\<lambda>_ _ s w. Some (FILEBENCH_OK, s, w))\<rparr>"

theorem flowop_define_correct_witness:
  "\<exists>p s'. flowop_define ex_layout ex_fb 7 (Some ''readfile'') NULL (Some (tf_fops 7)) FLOW_MASTER FLOW_TYPE_IO = Some (p, s')
     \<and> flow_inv ex_layout s' [p] \<and> on_list s' (tf_fops 7) [p] \<and> fo_name (flowops s' p) = ''readfile''"
  using flowop_define_correct [OF ex_fb_inv ex_fb_list [of 7], of "''readfile''" 7 NULL FLOW_MASTER FLOW_TYPE_IO] ex_fb_slot by auto

text \<open>
  C16. Deleting a flowop that has just been defined undoes the definition: both lists, the set of allocated
  flowops and the contents of every other flowop are as before.
\<close>

theorem flowop_define_delete_roundtrip:
  assumes "flow_inv L s gs" "on_list s h ls" "set ls \<subseteq> set gs" "head_ok gs h" "length nm < 128"
    "has_slot (ipc (vs s)) FILEBENCH_FLOWOP"
  shows "\<exists>p s' s''. flowop_define L s tf (Some nm) inherit (Some h) inst type = Some (p, s') \<and> flowop_delete L s' h p = Some s''
    \<and> flow_inv L s'' gs \<and> on_list s'' h ls \<and> handles L s'' = handles L s \<and> (\<forall>q. q \<noteq> p \<longrightarrow> core (flowops s'' q) = core (flowops s q))"
proof -
  obtain p s' where d: "flowop_define L s tf (Some nm) inherit (Some h) inst type = Some (p, s')" "p \<notin> set gs"
    "flow_inv L s' (p # gs)" "on_list s' h (ls @ [p])" "\<And>q. q \<noteq> p \<Longrightarrow> core (flowops s' q) = core (flowops s q)"
    by (rule flowop_define_list [OF assms, of tf inherit inst type]) (rule that)
  have p: "p \<in> set (ls @ [p])" "set (ls @ [p]) \<subseteq> set (p # gs)" "remove1 p (ls @ [p]) = ls"
    using assms(3) d(2) by (auto simp: remove1_append)
  obtain s'' where e: "flowop_delete L s' h p = Some s''" "flow_inv L s'' (remove1 p (p # gs))" "on_list s'' h (remove1 p (ls @ [p]))"
    "\<And>q. core (flowops s'' q) = core (flowops s' q)"
    by (rule flowop_delete_list [OF d(3,4) p(2,1)]) (rule that)
  have i: "flow_inv L s'' gs" "on_list s'' h ls" using e(2,3) p(3) by simp_all
  have "handles L s'' = handles L s" using i(1) assms(1) unfolding flow_inv_def by metis
  then show ?thesis using d(1,5) e(1,4) i by (intro exI [of _ p] exI [of _ s'] exI [of _ s'']) simp
qed

theorem flowop_define_delete_roundtrip_witness:
  "\<exists>p s' s''. flowop_define ex_layout ex_fb 7 (Some ''readfile'') NULL (Some (tf_fops 7)) 1 FLOW_TYPE_IO = Some (p, s')
     \<and> flowop_delete ex_layout s' (tf_fops 7) p = Some s'' \<and> flow_inv ex_layout s'' [] \<and> on_list s'' (tf_fops 7) []"
  using flowop_define_delete_roundtrip [OF ex_fb_inv ex_fb_list [of 7] _ _ _ ex_fb_slot, of "''readfile''" 7 NULL 1 FLOW_TYPE_IO] by auto

text \<open>
  C24. Deleting all flowops of a list returns, and leaves on the list exactly its masters, in their order;
  the global list and the allocated flowops lose exactly the others, and no other list changes.
\<close>

theorem flowop_delete_all_correct:
  assumes "flow_inv L s gs" "on_list s h ls" "set ls \<subseteq> set gs"
  shows "\<exists>s'. flowop_delete_all L s h = Some s' \<and> on_list s' h (filter (master s) ls)
    \<and> flow_inv L s' (filter (\<lambda>f. f \<in> set ls \<longrightarrow> master s f) gs)
    \<and> off_lists s s' (filter (\<lambda>f. f \<in> set ls \<longrightarrow> master s f) gs) h ls"
  using delete_all_loop_list [of L s gs h "[]" ls "get_head s h"] assms
  by (auto simp: flowop_delete_all_def all_deleted_def left_def on_list_def)

theorem flowop_delete_all_correct_witness:
  "\<exists>p s' s''. flowop_define ex_layout ex_fb 7 (Some ''readfile'') NULL (Some (tf_fops 7)) 1 FLOW_TYPE_IO = Some (p, s')
     \<and> flowop_delete_all ex_layout s' (tf_fops 7) = Some s'' \<and> on_list s'' (tf_fops 7) []"
proof -
  obtain p s' where d: "flowop_define ex_layout ex_fb 7 (Some ''readfile'') NULL (Some (tf_fops 7)) 1 FLOW_TYPE_IO = Some (p, s')"
    "flow_inv ex_layout s' [p]" "on_list s' (tf_fops 7) [p]" "fo_instance (flowops s' p) = 1"
    by (rule flowop_define_list [OF ex_fb_inv ex_fb_list [of 7] _ _ _ ex_fb_slot, of "''readfile''" 7 NULL 1 FLOW_TYPE_IO]) auto
  show ?thesis using flowop_delete_all_correct [OF d(2,3)] d(1,4) by auto
qed

text \<open>
  C25. Searching the global list: \<open>flowop_find\<close> links all flowops of the name, the oldest first, and changes
  nothing but the links of the result; \<open>flowop_find_one\<close> gives the newest one of the name and instance,
  or \<open>NULL\<close>.
\<close>

theorem flowop_find_correct:
  assumes "flow_inv L s gs"
  shows "\<exists>q s'. flowop_find s nm = Some (q, s') \<and> chain (rnext s') q (rev (filter (named s nm) gs)) \<and> same_but_result s s'
    \<and> flowop_find_one s nm inst =
        Some (case find (\<lambda>x. fo_name (flowops s x) = nm \<and> fo_instance (flowops s x) = inst) gs of None \<Rightarrow> NULL | Some x \<Rightarrow> x)"
  using find_loop_list [of s "shm_flowoplist s" gs NULL "[]" nm] find_one_loop_list [of "flowops s" "shm_flowoplist s" gs nm inst] assms
  by (simp add: flow_inv_def flowop_find_def flowop_find_one_def)

theorem flowop_find_correct_witness:
  "\<exists>p s' q t. flowop_define ex_layout ex_fb 7 (Some ''readfile'') NULL (Some (tf_fops 7)) 1 FLOW_TYPE_IO = Some (p, s')
     \<and> flowop_find s' ''readfile'' = Some (q, t) \<and> q = p \<and> flowop_find_one s' ''readfile'' 1 = Some p"
proof -
  obtain p s' where d: "flowop_define ex_layout ex_fb 7 (Some ''readfile'') NULL (Some (tf_fops 7)) 1 FLOW_TYPE_IO = Some (p, s')"
    "flow_inv ex_layout s' [p]" "fo_instance (flowops s' p) = 1" "fo_name (flowops s' p) = ''readfile''"
    by (rule flowop_define_list [OF ex_fb_inv ex_fb_list [of 7] _ _ _ ex_fb_slot, of "''readfile''" 7 NULL 1 FLOW_TYPE_IO]) auto
  show ?thesis using flowop_find_correct [OF d(2), of "''readfile''" 1] d(1,3,4) by auto
qed

end
