(* ===== verification/FB_Limit_Correct.thy ===== *)
theory FB_Limit_Correct
  imports FB_Limit FB_Flowop_Correct
begin

text \<open>
  What the limiting flowops promise: the work done is paid for with events, up to one event. The account
  of a limiter is the contract \<open>limiter\<close>, which all three limits of work meet.
\<close>

subsection \<open>Waiting\<close>

definition after :: "(fbstate \<Rightarrow> 'w \<Rightarrow> fbstate \<times> 'w) \<Rightarrow> nat \<Rightarrow> fbstate \<Rightarrow> 'w \<Rightarrow> fbstate \<times> 'w" where
  "after env k s w = ((\<lambda>(s, w). env s w) ^^ k) (s, w)"

lemma after_simps [simp]: "after env 0 s w = (s, w)" "after env (Suc k) s w = (case env s w of (s, w) \<Rightarrow> after env k s w)"
  by (simp_all add: after_def funpow_Suc_right split: prod.splits del: funpow.simps(2))

text \<open>The other threads leave the account of a flowop alone, and the generator is not switched off.\<close>

definition account :: "fbstate \<Rightarrow> ptr \<Rightarrow> int \<times> uint64 \<times> uint64" where
  "account s f = (fo_initted (flowops s f), fo_tputbucket (flowops s f), fo_tputlast (flowops s f))"

definition env_ok :: "(fbstate \<Rightarrow> 'w \<Rightarrow> fbstate \<times> 'w) \<Rightarrow> ptr \<Rightarrow> bool" where
  "env_ok env f \<longleftrightarrow> (\<forall>s w. account (fst (env s w)) f = account s f \<and> (shm_eventgen_enabled s \<longrightarrow> shm_eventgen_enabled (fst (env s w))))"

lemma account_q [simp]: "account (s\<lparr>shm_eventgen_q := q\<rparr>) f = account s f"
  by (simp add: account_def)

definition took :: "(fbstate \<Rightarrow> 'w \<Rightarrow> fbstate \<times> 'w) \<Rightarrow> uint64 \<Rightarrow> fbstate \<Rightarrow> 'w \<Rightarrow> fbstate \<Rightarrow> 'w \<Rightarrow> bool" where
  "took env events s w s' w' \<longleftrightarrow> (\<exists>k t. after env k s w = (t, w') \<and> events \<le> shm_eventgen_q t
     \<and> s' = t\<lparr>shm_eventgen_q := shm_eventgen_q t - events\<rparr>)"

lemma took_step: "env s w = (s1, w1) \<Longrightarrow> took env events s1 w1 s' w' \<Longrightarrow> took env events s w s' w'"
  unfolding took_def by (metis after_simps(2) case_prod_conv)

definition took_all :: "ptr \<Rightarrow> (fbstate \<Rightarrow> 'w \<Rightarrow> fbstate \<times> 'w) \<Rightarrow> uint64 \<Rightarrow> fbstate \<Rightarrow> 'w \<Rightarrow> bool \<times> fbstate \<times> 'w \<Rightarrow> bool" where
  "took_all f env events s w r \<longleftrightarrow> (env_ok env f \<longrightarrow> shm_eventgen_enabled s \<longrightarrow>
     (case r of (got, s', w') \<Rightarrow> got \<and> account s' f = account s f \<and> shm_eventgen_enabled s' \<and> took env events s w s' w'))"

lemma wait_events_takes:
  fixes env :: "fbstate \<Rightarrow> 'w \<Rightarrow> fbstate \<times> 'w"
  assumes "wait_events env events s w = Some r"
  shows "took_all f env events s w r"
proof (rule wait_events.raw_induct [where P = "took_all f", OF _ assms])
  fix wait :: "(fbstate \<Rightarrow> 'w \<Rightarrow> fbstate \<times> 'w) \<Rightarrow> uint64 \<Rightarrow> fbstate \<Rightarrow> 'w \<Rightarrow> (bool \<times> fbstate \<times> 'w) option"
    and env events s w r
  assume IH: "\<And>env events s w r. wait env events s w = Some r \<Longrightarrow> took_all f env events s w r"
    and b: "(if \<not> shm_eventgen_enabled s then Some (False, s, w)
      else if events \<le> shm_eventgen_q s then Some (True, s\<lparr>shm_eventgen_q := shm_eventgen_q s - events\<rparr>, w)
      else let (s, w) = env s w in wait env events s w) = Some r"
  show "took_all f env events s w r"
  proof (cases "env_ok env f \<and> shm_eventgen_enabled s")
    case e: True
    show ?thesis
    proof (cases "events \<le> shm_eventgen_q s")
      case True
      have "took env events s w (s\<lparr>shm_eventgen_q := shm_eventgen_q s - events\<rparr>) w"
        unfolding took_def by (rule exI [of _ 0]) (use True in simp)
      then show ?thesis using b e True by (auto simp: account_def took_all_def)
    next
      case False
      obtain s1 w1 where s1: "env s w = (s1, w1)" by (cases "env s w")
      have a: "account s1 f = account s f" "shm_eventgen_enabled s1" using e s1 unfolding env_ok_def by (metis fst_conv)+
      have "wait env events s1 w1 = Some r" using b e False s1 by simp
      from IH [OF this] show ?thesis using e a took_step [of env s w s1 w1, OF s1] by (auto simp: took_all_def)
    qed
  qed (auto simp: took_all_def)
qed

lemma wait_events_returns:
  assumes "env_ok env f" "shm_eventgen_enabled s" "after env k s w = (t, w')" "events \<le> shm_eventgen_q t"
  shows "\<exists>r. wait_events env events s w = Some r"
  using assms(2-)
proof (induction k arbitrary: s w)
  case 0
  then show ?case by (subst wait_events.simps) auto
next
  case (Suc k)
  obtain s1 w1 where s1: "env s w = (s1, w1)" by (cases "env s w")
  have "shm_eventgen_enabled s1" using assms(1) Suc.prems(1) s1 unfolding env_ok_def by (metis fst_conv)
  then obtain r where "wait_events env events s1 w1 = Some r" using Suc s1 by fastforce
  then show ?case using s1 by (subst wait_events.simps) (cases r, auto)
qed

subsection \<open>The account\<close>

definition limit_cost :: "(uint64 \<Rightarrow> uint64) \<Rightarrow> uint64 \<Rightarrow> uint64" where
  "limit_cost events_of bucket = (if 0 \<le> sint bucket then 0 else events_of (- bucket))"

lemma account_endop [simp]:
  "account (fst (flowop_endop clk s w tf g n)) f = account s f"
  "account (fst (flowop_beginop clk s w tf)) f = account s f"
  "shm_eventgen_enabled (fst (flowop_endop clk s w tf g n)) = shm_eventgen_enabled s"
  "shm_eventgen_enabled (fst (flowop_beginop clk s w tf)) = shm_eventgen_enabled s"
  "shm_eventgen_q (fst (flowop_endop clk s w tf g n)) = shm_eventgen_q s"
  "shm_eventgen_q (fst (flowop_beginop clk s w tf)) = shm_eventgen_q s"
  by (simp_all add: account_def flowop_endop_def flowop_beginop_def upd_stats_def upd_fo_def upd_tf_def Let_def split: prod.splits)

definition overdraft :: "fbstate \<Rightarrow> ptr \<Rightarrow> uint64 \<Rightarrow> uint64" where
  "overdraft s f work = fo_tputbucket (flowops s f) - (work - fo_tputlast (flowops s f))"

lemma account_upd:
  "account (upd_fo s f (\<lambda>x. x\<lparr>fo_tputbucket := b, fo_tputlast := l\<rparr>)) f = (fo_initted (flowops s f), b, l)"
  by (simp add: account_def upd_fo_def)

lemma limit_work_rich:
  assumes "fo_tputlast (flowops s f) \<noteq> 0" "0 \<le> sint (overdraft s f work)"
  shows "\<exists>s' w'. limit_work M env ev unit work tf f s w = Some (FILEBENCH_OK, s', w')
    \<and> account s' f = (fo_initted (flowops s f), overdraft s f work, work) \<and> shm_eventgen_enabled s' = shm_eventgen_enabled s
    \<and> shm_eventgen_q s' = shm_eventgen_q s"
proof -
  let ?s = "upd_fo s f (\<lambda>x. x\<lparr>fo_tputbucket := overdraft s f work, fo_tputlast := work\<rparr>)"
  obtain s' w' where e: "flowop_endop (clock M) ?s w tf f 0 = (s', w')" by fastforce
  have "account s' f = account ?s f" "shm_eventgen_enabled s' = shm_eventgen_enabled ?s" "shm_eventgen_q s' = shm_eventgen_q ?s"
    using account_endop(1,3,5) [where clk = "clock M" and s = ?s and w = w and tf = tf and g = f and n = 0] by (simp_all add: e)
  moreover have "limit_work M env ev unit work tf f s w = Some (FILEBENCH_OK, s', w')"
    using assms e by (simp add: limit_work_def upd_fo_def overdraft_def)
  ultimately show ?thesis by (simp add: account_upd) (simp add: upd_fo_def)
qed

lemma limit_work_poor:
  assumes "fo_tputlast (flowops s f) \<noteq> 0" "\<not> 0 \<le> sint (overdraft s f work)"
    "flowop_beginop (clock M) (upd_fo s f (\<lambda>x. x\<lparr>fo_tputbucket := overdraft s f work, fo_tputlast := work\<rparr>)) w tf = (s1, w1)"
  shows "limit_work M env ev unit work tf f s w = do {
      (got, s2, w2) \<leftarrow> wait_events env (ev (- overdraft s f work)) s1 w1;
      let s3 = (if got then upd_fo s2 f (\<lambda>x. x\<lparr>fo_tputbucket := fo_tputbucket x + ev (- overdraft s f work) * unit\<rparr>) else s2);
      let (s4, w4) = flowop_endop (clock M) s3 w2 tf f 0;
      Some (FILEBENCH_OK, s4, w4) }"
  using assms unfolding overdraft_def by (simp add: limit_work_def upd_fo_def Let_def del: minus_diff_eq)

lemma limit_work_account:
  assumes l: "limit_work M env ev unit work tf f s w = Some (rc, s', w')"
    and env: "env_ok env f" "shm_eventgen_enabled s" "fo_tputlast (flowops s f) \<noteq> 0"
  shows "rc = FILEBENCH_OK \<and> shm_eventgen_enabled s'
    \<and> account s' f = (fo_initted (flowops s f), overdraft s f work + limit_cost ev (overdraft s f work) * unit, work)"
proof (cases "0 \<le> sint (overdraft s f work)")
  case True
  then show ?thesis using limit_work_rich [OF env(3) True, of M env ev unit tf w] l env(2) by (auto simp: limit_cost_def)
next
  case False
  let ?s = "upd_fo s f (\<lambda>x. x\<lparr>fo_tputbucket := overdraft s f work, fo_tputlast := work\<rparr>)"
  obtain s1 w1 where b: "flowop_beginop (clock M) ?s w tf = (s1, w1)" by fastforce
  have s1: "account s1 f = account ?s f" "shm_eventgen_enabled s1"
    using account_endop(2,4) [where clk = "clock M" and s = ?s and w = w and tf = tf] env(2) by (simp_all add: b) (simp add: upd_fo_def)
  obtain got s2 w2 where v: "wait_events env (ev (- overdraft s f work)) s1 w1 = Some (got, s2, w2)"
    using l limit_work_poor [OF env(3) False b] by (auto split: option.splits bind_splits)
  then have s2: "got" "account s2 f = account ?s f" "shm_eventgen_enabled s2"
    using wait_events_takes [OF v, of f] env(1) s1 by (simp_all add: took_all_def)
  let ?t = "upd_fo s2 f (\<lambda>x. x\<lparr>fo_tputbucket := fo_tputbucket x + ev (- overdraft s f work) * unit\<rparr>)"
  obtain s4 w4 where e: "flowop_endop (clock M) ?t w2 tf f 0 = (s4, w4)" by fastforce
  have "account s4 f = account ?t f" "shm_eventgen_enabled s4 = shm_eventgen_enabled ?t"
    using account_endop(1,3) [where clk = "clock M" and s = ?t and w = w2 and tf = tf and g = f and n = 0] by (simp_all add: e)
  moreover have "rc = FILEBENCH_OK" "s4 = s'" using l limit_work_poor [OF env(3) False b] v s2(1) e by simp_all
  ultimately show ?thesis using s2 False by (simp add: limit_cost_def account_def) (simp add: upd_fo_def)
qed

lemma limit_work_returns:
  assumes "env_ok env f" "shm_eventgen_enabled s" "fo_tputlast (flowops s f) \<noteq> 0"
    and feed: "\<And>t u. shm_eventgen_enabled t \<Longrightarrow> \<exists>k. limit_cost ev (overdraft s f work) \<le> shm_eventgen_q (fst (after env k t u))"
  shows "\<exists>s' w'. limit_work M env ev unit work tf f s w = Some (FILEBENCH_OK, s', w')"
proof (cases "0 \<le> sint (overdraft s f work)")
  case True
  then show ?thesis using limit_work_rich [OF assms(3) True, of M env ev unit tf w] by blast
next
  case False
  let ?s = "upd_fo s f (\<lambda>x. x\<lparr>fo_tputbucket := overdraft s f work, fo_tputlast := work\<rparr>)"
  obtain s1 w1 where b: "flowop_beginop (clock M) ?s w tf = (s1, w1)" by fastforce
  have s1: "shm_eventgen_enabled s1" using account_endop(4) [where clk = "clock M" and s = ?s and w = w and tf = tf] assms(2) by (simp add: b) (simp add: upd_fo_def)
  obtain k where "ev (- overdraft s f work) \<le> shm_eventgen_q (fst (after env k s1 w1))"
    using feed [OF s1] False by (auto simp: limit_cost_def)
  then obtain r where "wait_events env (ev (- overdraft s f work)) s1 w1 = Some r"
    using wait_events_returns [OF assms(1) s1] by (metis prod.collapse)
  then show ?thesis using limit_work_poor [OF assms(3) False b, of env ev unit] by (cases r) (auto split: prod.splits)
qed

subsection \<open>Signed arithmetic without overflow\<close>

lemma sint_of_int: "-(2^63) \<le> k \<Longrightarrow> k < 2^63 \<Longrightarrow> sint (word_of_int k :: uint64) = k"
  by (simp add: sint_sbintrunc' signed_take_bit_int_eq_self_iff)

lemma uint_of_int: "0 \<le> k \<Longrightarrow> k < 2^64 \<Longrightarrow> uint (word_of_int k :: uint64) = k"
  by (simp add: uint_word_of_int)

lemma account_step:
  fixes b l n ev unit :: uint64
  assumes b: "0 \<le> sint b" "sint b \<le> uint unit" and u: "0 < uint unit" "uint unit \<le> 2^61"
    and n: "uint l \<le> uint n" "uint n - uint l < 2^62"
  shows "sint (b - (n - l)) = sint b - (uint n - uint l)"
    and "sint (b - (n - l)) < 0 \<Longrightarrow> uint (- (b - (n - l))) = uint n - uint l - sint b"
    and "sint (b - (n - l)) < 0 \<Longrightarrow> uint n - uint l - sint b \<le> uint ev * uint unit \<Longrightarrow>
       uint ev * uint unit \<le> uint n - uint l - sint b + uint unit \<Longrightarrow>
       sint (b - (n - l) + ev * unit) = sint b - (uint n - uint l) + uint ev * uint unit"
proof -
  have x: "b - (n - l) = word_of_int (sint b - (uint n - uint l))" by simp
  show s: "sint (b - (n - l)) = sint b - (uint n - uint l)" unfolding x by (rule sint_of_int) (use b u n in auto)
  show "uint (- (b - (n - l))) = uint n - uint l - sint b" if "sint (b - (n - l)) < 0"
  proof -
    have "- (b - (n - l)) = word_of_int (uint n - uint l - sint b)" by simp
    then show ?thesis using uint_of_int [of "uint n - uint l - sint b"] b u n that s by simp
  qed
  show "sint (b - (n - l) + ev * unit) = sint b - (uint n - uint l) + uint ev * uint unit"
    if "sint (b - (n - l)) < 0" "uint n - uint l - sint b \<le> uint ev * uint unit" "uint ev * uint unit \<le> uint n - uint l - sint b + uint unit"
  proof -
    have "b - (n - l) + ev * unit = word_of_int (sint b - (uint n - uint l) + uint ev * uint unit)" by simp
    also have "sint \<dots> = sint b - (uint n - uint l) + uint ev * uint unit" by (rule sint_of_int) (use b u n that in auto)
    finally show ?thesis .
  qed
qed

subsection \<open>The contract of a limiter\<close>

text \<open>
  \<open>limited\<close> relates the states before and after any number of calls of a limiting flowop, between which the other threads
  may do anything but touch its account, with the number of events that the calls have bought.
\<close>

inductive limited :: "(fbstate \<Rightarrow> 'w \<Rightarrow> 'w libcall) \<Rightarrow> (fbstate \<Rightarrow> uint64) \<Rightarrow> (uint64 \<Rightarrow> uint64) \<Rightarrow> ptr \<Rightarrow> fbstate \<Rightarrow> int \<Rightarrow> fbstate \<Rightarrow> bool"
  for lib work ev f where
  no_call: "limited lib work ev f s 0 s"
| call: "limited lib work ev f s e t \<Longrightarrow> account u f = account t f \<Longrightarrow> shm_eventgen_enabled u \<Longrightarrow>
    lib u w = Some (Inr (rc, v, w')) \<Longrightarrow> uint (fo_tputlast (flowops u f)) \<le> uint (work u) \<Longrightarrow>
    uint (work u) - uint (fo_tputlast (flowops u f)) < 2^62 \<Longrightarrow>
    limited lib work ev f s (e + uint (limit_cost ev (overdraft u f (work u)))) v"

definition in_credit :: "uint64 \<Rightarrow> fbstate \<Rightarrow> ptr \<Rightarrow> bool" where
  "in_credit unit s f \<longleftrightarrow> fo_initted (flowops s f) \<noteq> 0 \<and> fo_tputlast (flowops s f) \<noteq> 0 \<and> 0 \<le> sint (fo_tputbucket (flowops s f))
     \<and> sint (fo_tputbucket (flowops s f)) \<le> uint unit"

lemma in_credit_account: "account s f = account t f \<Longrightarrow> in_credit unit s f = in_credit unit t f"
  by (simp add: in_credit_def account_def)

locale limiter =
  fixes ok :: bool and lib :: "fbstate \<Rightarrow> 'w \<Rightarrow> 'w libcall" and work :: "fbstate \<Rightarrow> uint64"
    and ev :: "uint64 \<Rightarrow> uint64" and unit :: uint64 and f :: ptr
  assumes step: "ok \<Longrightarrow> shm_eventgen_enabled u \<Longrightarrow> fo_initted (flowops u f) \<noteq> 0 \<Longrightarrow> fo_tputlast (flowops u f) \<noteq> 0 \<Longrightarrow>
      lib u w = Some (Inr (rc, v, w')) \<Longrightarrow> rc = FILEBENCH_OK \<and> account v f = (fo_initted (flowops u f),
        overdraft u f (work u) + limit_cost ev (overdraft u f (work u)) * unit, work u)"
    and pays: "0 < uint y \<Longrightarrow> uint y < 2^62 \<Longrightarrow> uint y \<le> uint (ev y) * uint unit \<and> uint (ev y) * uint unit \<le> uint y + uint unit"
    and unit: "0 < uint unit" "uint unit \<le> 2^61"
begin

lemma one_call:
  assumes "ok" "in_credit unit u f" "shm_eventgen_enabled u" "lib u w = Some (Inr (rc, v, w'))"
    "uint (fo_tputlast (flowops u f)) \<le> uint (work u)" "uint (work u) - uint (fo_tputlast (flowops u f)) < 2^62"
  shows "in_credit unit v f \<and> uint (fo_tputlast (flowops v f)) - uint (fo_tputlast (flowops u f)) =
    sint (fo_tputbucket (flowops u f)) + uint (limit_cost ev (overdraft u f (work u))) * uint unit - sint (fo_tputbucket (flowops v f))"
proof -
  let ?b = "fo_tputbucket (flowops u f)" and ?l = "fo_tputlast (flowops u f)" and ?n = "work u"
  let ?x = "?b - (?n - ?l)"
  have c: "0 \<le> sint ?b" "sint ?b \<le> uint unit" "fo_initted (flowops u f) \<noteq> 0" "?l \<noteq> 0" using assms(2) by (simp_all add: in_credit_def)
  note A = account_step [OF c(1,2) unit assms(5,6)]
  have v: "fo_initted (flowops v f) = fo_initted (flowops u f)" "fo_tputbucket (flowops v f) = ?x + limit_cost ev ?x * unit"
    "fo_tputlast (flowops v f) = ?n"
    using step [OF assms(1,3) c(3,4) assms(4)] by (simp_all add: account_def overdraft_def)
  have n: "?n \<noteq> 0" using assms(5) c(4) by (auto simp flip: word_le_def)
  show ?thesis
  proof (cases "0 \<le> sint ?x")
    case True
    then show ?thesis using A(1) v c n assms(5) by (simp add: limit_cost_def in_credit_def overdraft_def)
  next
    case False
    then have lt: "sint ?x < 0" by simp
    have y: "uint (- ?x) = uint ?n - uint ?l - sint ?b" by (rule A(2) [OF lt])
    have p: "uint (- ?x) \<le> uint (ev (- ?x)) * uint unit" "uint (ev (- ?x)) * uint unit \<le> uint (- ?x) + uint unit"
      using pays [of "- ?x"] y A(1) lt c(1) assms(6) by linarith+
    have "sint (?x + ev (- ?x) * unit) = sint ?b - (uint ?n - uint ?l) + uint (ev (- ?x)) * uint unit"
      by (rule A(3) [OF lt]) (use p y in linarith)+
    moreover have "limit_cost ev ?x = ev (- ?x)" using False by (simp add: limit_cost_def)
    ultimately show ?thesis using v c(3) n p y unfolding in_credit_def overdraft_def by simp
  qed
qed

lemma many_calls:
  assumes "limited lib work ev f s e t" "ok" "in_credit unit s f"
  shows "in_credit unit t f \<and> uint (fo_tputlast (flowops t f)) - uint (fo_tputlast (flowops s f)) =
    sint (fo_tputbucket (flowops s f)) + e * uint unit - sint (fo_tputbucket (flowops t f))"
  using assms(1,3)
proof (induction rule: limited.induct)
  case (call s e t u w rc v w')
  have "in_credit unit u f" using call in_credit_account by blast
  from one_call [OF assms(2) this call.hyps(3-6)] show ?case using call.IH [OF call.prems] call.hyps(2)
    by (simp add: account_def algebra_simps)
qed simp

lemma work_is_paid:
  assumes "limited lib work ev f s e t" "ok" "in_credit unit s f"
  shows "uint (fo_tputlast (flowops t f)) - uint (fo_tputlast (flowops s f)) \<le> (e + 1) * uint unit"
    and "(e - 1) * uint unit \<le> uint (fo_tputlast (flowops t f)) - uint (fo_tputlast (flowops s f))"
  using many_calls [OF assms] assms(3) by (auto simp: in_credit_def algebra_simps)

end

lemma limit_init_done: "fo_initted (flowops s f) \<noteq> 0 \<Longrightarrow> limit_init io s tf f = Some (Inr s)"
  by (simp add: limit_init_def)

lemmas limit_lib_defs = flowoplib_bwlimit_def flowoplib_iopslimit_def flowoplib_opslimit_def limit_init_done

lemma bw_pays:
  fixes y :: uint64
  assumes "uint y < 2^62"
  shows "uint y \<le> uint (y div MB + 1) * uint MB \<and> uint (y div MB + 1) * uint MB \<le> uint y + uint MB"
proof -
  have "uint (y div MB) = uint y div 1048576" by (simp add: uint_div)
  moreover have "uint (y div MB + 1) = uint (y div MB) + 1" using assms calculation by (simp add: uint_plus_if')
  ultimately have e: "uint (y div MB + 1) = uint y div 1048576 + 1" by simp
  have "1048576 * (uint y div 1048576) + uint y mod 1048576 = uint y" "0 \<le> uint y mod 1048576" "uint y mod 1048576 < 1048576"
    by simp_all
  then show ?thesis unfolding e by simp linarith
qed

interpretation bw: limiter "env_ok env f" "flowoplib_bwlimit M env tf f" "\<lambda>u. bytes_work u f" "\<lambda>b. b div MB + 1" MB f
  for env :: "fbstate \<Rightarrow> 'w \<Rightarrow> fbstate \<times> 'w" and M :: "'w machine" and tf f :: ptr
proof
  fix u v :: fbstate and w w' :: 'w and rc
  assume "env_ok env f" "shm_eventgen_enabled u" "fo_initted (flowops u f) \<noteq> 0" "fo_tputlast (flowops u f) \<noteq> 0"
    "flowoplib_bwlimit M env tf f u w = Some (Inr (rc, v, w'))"
  then show "rc = FILEBENCH_OK \<and> account v f = (fo_initted (flowops u f),
        overdraft u f (bytes_work u f) + limit_cost (\<lambda>b. b div MB + 1) (overdraft u f (bytes_work u f)) * MB, bytes_work u f)"
    using limit_work_account by (fastforce simp: limit_lib_defs)
qed (use bw_pays in auto)

interpretation iops: limiter "env_ok env f" "flowoplib_iopslimit M env tf f" "\<lambda>u. iops_work u f" "\<lambda>n. n" 1 f
  for env :: "fbstate \<Rightarrow> 'w \<Rightarrow> fbstate \<times> 'w" and M :: "'w machine" and tf f :: ptr
proof
  fix u v :: fbstate and w w' :: 'w and rc
  assume "env_ok env f" "shm_eventgen_enabled u" "fo_initted (flowops u f) \<noteq> 0" "fo_tputlast (flowops u f) \<noteq> 0"
    "flowoplib_iopslimit M env tf f u w = Some (Inr (rc, v, w'))"
  then show "rc = FILEBENCH_OK \<and> account v f = (fo_initted (flowops u f),
        overdraft u f (iops_work u f) + limit_cost (\<lambda>n. n) (overdraft u f (iops_work u f)) * 1, iops_work u f)"
    using limit_work_account by (fastforce simp: limit_lib_defs)
qed auto

interpretation ops: limiter "env_ok env f" "flowoplib_opslimit M env tf f" "\<lambda>u. ops_work u f" "\<lambda>n. n" 1 f
  for env :: "fbstate \<Rightarrow> 'w \<Rightarrow> fbstate \<times> 'w" and M :: "'w machine" and tf f :: ptr
proof
  fix u v :: fbstate and w w' :: 'w and rc
  assume "env_ok env f" "shm_eventgen_enabled u" "fo_initted (flowops u f) \<noteq> 0" "fo_tputlast (flowops u f) \<noteq> 0"
    "flowoplib_opslimit M env tf f u w = Some (Inr (rc, v, w'))"
  then show "rc = FILEBENCH_OK \<and> account v f = (fo_initted (flowops u f),
        overdraft u f (ops_work u f) + limit_cost (\<lambda>n. n) (overdraft u f (ops_work u f)) * 1, ops_work u f)"
    using limit_work_account by (fastforce simp: limit_lib_defs)
qed auto

subsection \<open>The promises\<close>


text \<open>A generator that adds one event at a time, and a limiter that has seen three megabytes too many.\<close>

definition ex_gen :: "fbstate \<Rightarrow> unit \<Rightarrow> fbstate \<times> unit" where
  "ex_gen s w = (s\<lparr>shm_eventgen_q := shm_eventgen_q s + 1\<rparr>, w)"

definition ex_limited :: fbstate where
  "ex_limited = (upd_fo ex_fb 5 (\<lambda>f. f\<lparr>fo_initted := 1, fo_tputlast := 1\<rparr>))
     \<lparr>shm_eventgen_q := 10, controlstats := zero_stats\<lparr>fs_rbytes := 3 * MB + 1\<rparr>\<rparr>"

lemma ex_gen_ok: "env_ok ex_gen f"
  by (simp add: env_ok_def ex_gen_def)

lemma ex_credit: "in_credit MB ex_limited 5"
  by (simp add: in_credit_def ex_limited_def upd_fo_def ex_fb_def zero_flowop_def)

lemma ex_bytes: "overdraft ex_limited 5 (bytes_work ex_limited 5) = - (3 * MB)" "bytes_work ex_limited 5 = 3 * MB + 1"
  "fo_tputlast (flowops ex_limited 5) = 1" "shm_eventgen_enabled ex_limited" "fo_initted (flowops ex_limited 5) = 1" "shm_eventgen_q ex_limited = 10"
  by (simp_all add: overdraft_def bytes_work_def ex_limited_def upd_fo_def ex_fb_def zero_flowop_def zero_stats_def)

lemma ex_gen_feeds: "\<exists>k. c \<le> shm_eventgen_q (fst (after ex_gen k t u))"
proof -
  have "shm_eventgen_q (fst (after ex_gen k t u)) = shm_eventgen_q t + of_nat k" for k
    by (induction k arbitrary: t u) (auto simp: ex_gen_def algebra_simps)
  then have "shm_eventgen_q (fst (after ex_gen (unat (c - shm_eventgen_q t)) t u)) = c" by simp
  then show ?thesis by (metis order_refl)
qed




end
