(* ===== verification/FB_Flowop_Run.thy ===== *)
theory FB_Flowop_Run
  imports FB_Limit_Correct
begin

text \<open>
  Running flowops: a composite flowop does what the flat sequence of its library calls does, a worker stops
  only when it has to, and what is counted at the end of an operation.
\<close>

subsection \<open>The contract of the library\<close>

text \<open>The functions of a library leave the structure of the flowops alone: the lists, the methods, the iterations.\<close>

definition same_shape :: "fbstate \<Rightarrow> fbstate \<Rightarrow> bool" where
  "same_shape s s' \<longleftrightarrow> avds (vs s') = avds (vs s) \<and> (\<forall>f. fo_exec_next (flowops s' f) = fo_exec_next (flowops s f)
     \<and> fo_comp_fops (flowops s' f) = fo_comp_fops (flowops s f) \<and> fo_func (flowops s' f) = fo_func (flowops s f)
     \<and> fo_iters (flowops s' f) = fo_iters (flowops s f))"

lemma same_shape_refl [simp]: "same_shape s s"
  by (simp add: same_shape_def)

lemma same_shape_trans: "same_shape s t \<Longrightarrow> same_shape t u \<Longrightarrow> same_shape s u"
  by (simp add: same_shape_def)

lemma same_shape_upd_fo:
  "(\<And>x. fo_exec_next (g x) = fo_exec_next x \<and> fo_comp_fops (g x) = fo_comp_fops x \<and> fo_func (g x) = fo_func x \<and> fo_iters (g x) = fo_iters x) \<Longrightarrow>
     same_shape s (upd_fo s f g)"
  by (simp add: same_shape_def upd_fo_def)

lemma same_shape_fields [simp]:
  "same_shape (s\<lparr>shm_eventgen_q := q\<rparr>) t = same_shape s t" "same_shape s (t\<lparr>shm_eventgen_q := q\<rparr>) = same_shape s t"
  by (simp_all add: same_shape_def)

lemma same_shape_ops [simp]:
  "same_shape s (fst (flowop_beginop clk s w tf))" "same_shape s (fst (flowop_endop clk s w tf f n))" "same_shape s (fst (note_start M s f w))"
  by (simp_all add: same_shape_def flowop_beginop_def flowop_endop_def note_start_def upd_stats_def upd_fo_def upd_tf_def Let_def split: prod.splits)

locale flowop_lib =
  fixes ok :: bool and lib :: "ptr \<Rightarrow> ptr \<Rightarrow> ptr \<Rightarrow> fbstate \<Rightarrow> 'w \<Rightarrow> (int \<times> fbstate \<times> 'w) option"
  assumes keeps: "ok \<Longrightarrow> lib p tf f s w = Some (ret, s', w') \<Longrightarrow> same_shape s s'"

subsection \<open>Composite flowops are flat\<close>

text \<open>The structure of a list of flowops: library functions with their iterations, and composite flowops around others.\<close>

datatype fotree = Leaf ptr nat ptr | Node ptr nat "fotree list"

definition iterates :: "fbstate \<Rightarrow> ptr \<Rightarrow> nat \<Rightarrow> bool" where
  "iterates s a n \<longleftrightarrow> a \<noteq> NULL \<and> avd_type (avds (vs s) a) = AVD_VAL_INT \<and> (\<exists>k. avd_val (avds (vs s) a) = AInt k \<and> iter_count k = n)"

fun shape :: "fbstate \<Rightarrow> ptr \<Rightarrow> fotree list \<Rightarrow> bool" where
  "shape s p [] \<longleftrightarrow> p = NULL"
| "shape s p (Leaf f n l # ts) \<longleftrightarrow> p = f \<and> f \<noteq> NULL \<and> fo_func (flowops s f) = Lib l \<and> iterates s (fo_iters (flowops s f)) n
     \<and> shape s (fo_exec_next (flowops s f)) ts"
| "shape s p (Node f n us # ts) \<longleftrightarrow> p = f \<and> f \<noteq> NULL \<and> fo_func (flowops s f) = Composite \<and> iterates s (fo_iters (flowops s f)) n
     \<and> shape s (fo_comp_fops (flowops s f)) us \<and> shape s (fo_exec_next (flowops s f)) ts"

datatype fevent = Start ptr | Call ptr ptr

fun events :: "fotree list \<Rightarrow> fevent list" where
  "events [] = []"
| "events (Leaf f n l # ts) = Start f # replicate n (Call l f) @ events ts"
| "events (Node f n us # ts) = Start f # concat (replicate n (events us)) @ events ts"

definition stops :: "int \<Rightarrow> bool" where
  "stops ret \<longleftrightarrow> ret = FILEBENCH_DONE \<or> ret = FILEBENCH_NORSC \<or> ret = FILEBENCH_ERROR"

fun run_events :: "'w machine \<Rightarrow> ptr \<Rightarrow> fevent list \<Rightarrow> fbstate \<Rightarrow> 'w \<Rightarrow> (int \<times> fbstate \<times> 'w) option" where
  "run_events M tf [] s w = Some (FILEBENCH_OK, s, w)"
| "run_events M tf (Start f # es) s w =
     (if aborted s tf then Some (FILEBENCH_DONE, s, w) else let (s, w) = note_start M s f w in run_events M tf es s w)"
| "run_events M tf (Call l f # es) s w = do {
     (ret, s, w) \<leftarrow> call M l tf f s w;
     if stops ret then Some (ret, s, w) else run_events M tf es s w }"

lemma same_shape_shape: "same_shape s s' \<Longrightarrow> shape s p ts \<Longrightarrow> shape s' p ts"
  by (induction ts arbitrary: p rule: events.induct) (auto simp: same_shape_def iterates_def)

lemma iterates_get: "iterates s a n \<Longrightarrow> \<exists>k. get_int M s a w = Some (k, w) \<and> iter_count k = n"
  by (auto simp: iterates_def get_int_def avd_get_int_def)

lemma run_events_append:
  "run_events M tf (es @ fs) s w = do {
     (ret, s, w) \<leftarrow> run_events M tf es s w;
     if ret = FILEBENCH_OK then run_events M tf fs s w else Some (ret, s, w) }"
proof (induction es arbitrary: s w)
  case (Cons e es)
  then show ?case by (cases e) (auto simp: stops_def Let_def split: prod.splits bind_splits)
qed simp

lemma run_events_ret: "run_events M tf es s w = Some (ret, s', w') \<Longrightarrow> ret = FILEBENCH_OK \<or> stops ret"
proof (induction es arbitrary: s w)
  case (Cons e es)
  then show ?case by (cases e) (auto simp: stops_def Let_def split: prod.splits bind_splits if_splits)
qed simp

definition lib_ok :: "'w machine \<Rightarrow> bool" where
  "lib_ok M \<longleftrightarrow> flowop_lib True (call M)"

lemma run_events_shape:
  assumes "lib_ok M"
  shows "run_events M tf es s w = Some (ret, s', w') \<Longrightarrow> same_shape s s'"
proof (induction es arbitrary: s w)
  case (Cons e es)
  show ?case
  proof (cases e)
    case (Start f)
    obtain s1 w1 where n: "note_start M s f w = (s1, w1)" by (cases "note_start M s f w")
    have "same_shape s s1" using same_shape_ops(3) [of s M f w] n by simp
    then show ?thesis using Start Cons n same_shape_trans [of s s1 s'] by (auto split: if_splits)
  next
    case (Call l f)
    then show ?thesis using Cons flowop_lib.keeps [of True "call M"] assms same_shape_trans
      by (fastforce simp: lib_ok_def split: bind_splits if_splits)
  qed
qed simp

lemma pass_stops:
  assumes "inner \<noteq> NULL"
  shows "composite_pass M tf inner (Some 0) s w = composite_pass M tf (fo_exec_next (flowops s inner)) None s w"
    "fo_func (flowops s inner) = Lib l \<Longrightarrow> composite_pass M tf inner (Some (Suc n)) s w = do {
       (ret, s, w) \<leftarrow> call M l tf inner s w;
       if stops ret then Some (ret, s, w) else composite_pass M tf inner (Some n) s w }"
    "fo_func (flowops s inner) = Composite \<Longrightarrow> composite_pass M tf inner (Some (Suc n)) s w = do {
       (ret, s, w) \<leftarrow> composite_pass M tf (fo_comp_fops (flowops s inner)) None s w;
       if stops ret then Some (ret, s, w) else composite_pass M tf inner (Some n) s w }"
proof -
  show "composite_pass M tf inner (Some 0) s w = composite_pass M tf (fo_exec_next (flowops s inner)) None s w"
    using assms by (subst composite_pass.simps) simp
next
  assume "fo_func (flowops s inner) = Lib l"
  then show "composite_pass M tf inner (Some (Suc n)) s w = do {
       (ret, s, w) \<leftarrow> call M l tf inner s w;
       if stops ret then Some (ret, s, w) else composite_pass M tf inner (Some n) s w }"
    using assms by (subst composite_pass.simps) (auto simp: stops_def intro!: Option.bind_cong)
next
  assume "fo_func (flowops s inner) = Composite"
  then show "composite_pass M tf inner (Some (Suc n)) s w = do {
       (ret, s, w) \<leftarrow> composite_pass M tf (fo_comp_fops (flowops s inner)) None s w;
       if stops ret then Some (ret, s, w) else composite_pass M tf inner (Some n) s w }"
    using assms by (subst composite_pass.simps) (auto simp: stops_def intro!: Option.bind_cong)
qed

lemma leaf_iterations:
  assumes "lib_ok M" "\<And>s w. same_shape t s \<Longrightarrow> composite_pass M tf (fo_exec_next (flowops s f)) None s w = run_events M tf es s w"
    "f \<noteq> NULL" "fo_func (flowops t f) = Lib l"
  shows "same_shape t s \<Longrightarrow> composite_pass M tf f (Some n) s w = run_events M tf (replicate n (Call l f) @ es) s w"
proof (induction n arbitrary: s w)
  case 0
  then show ?case using assms(2) by (simp add: pass_stops(1) [OF assms(3)])
next
  case (Suc n)
  have l: "fo_func (flowops s f) = Lib l" using Suc.prems assms(4) by (simp add: same_shape_def)
  show ?case
  proof (cases "call M l tf f s w")
    case (Some r)
    obtain ret s1 w1 where r: "r = (ret, s1, w1)" by (cases r)
    have "same_shape t s1" using flowop_lib.keeps [of True "call M" l tf f s w ret s1 w1] assms(1) Suc.prems Some r same_shape_trans
      by (auto simp: lib_ok_def)
    then show ?thesis using Suc.IH Some r by (simp add: pass_stops(2) [OF assms(3) l])
  qed (simp add: pass_stops(2) [OF assms(3) l])
qed

lemma node_iterations:
  assumes "lib_ok M" "\<And>s w. same_shape t s \<Longrightarrow> composite_pass M tf (fo_exec_next (flowops s f)) None s w = run_events M tf es s w"
    "\<And>s w. same_shape t s \<Longrightarrow> composite_pass M tf (fo_comp_fops (flowops s f)) None s w = run_events M tf us s w"
    "f \<noteq> NULL" "fo_func (flowops t f) = Composite"
  shows "same_shape t s \<Longrightarrow> composite_pass M tf f (Some n) s w = run_events M tf (concat (replicate n us) @ es) s w"
proof (induction n arbitrary: s w)
  case 0
  then show ?case using assms(2) by (simp add: pass_stops(1) [OF assms(4)])
next
  case (Suc n)
  have l: "fo_func (flowops s f) = Composite" using Suc.prems assms(5) by (simp add: same_shape_def)
  show ?case
  proof (cases "run_events M tf us s w")
    case (Some r)
    obtain ret s1 w1 where r: "r = (ret, s1, w1)" by (cases r)
    have "same_shape t s1" using run_events_shape [OF assms(1)] Suc.prems Some r same_shape_trans by blast
    moreover have "ret = FILEBENCH_OK \<or> stops ret" using run_events_ret [of M tf us s w ret s1 w1] Some r by simp
    moreover have "\<not> stops FILEBENCH_OK" by (simp add: stops_def)
    ultimately show ?thesis using Suc.IH [of s1 w1] pass_stops(3) [OF assms(4) l, of M tf n w] assms(3) [OF Suc.prems, of w] Some r
      by (auto simp: run_events_append [of _ _ us])
  next
    case None
    then show ?thesis using pass_stops(3) [OF assms(4) l, of M tf n w] assms(3) [OF Suc.prems, of w] by (simp add: run_events_append [of _ _ us])
  qed
qed

lemma pass_starts:
  assumes "inner \<noteq> NULL" "iterates s (fo_iters (flowops s inner)) n"
  shows "composite_pass M tf inner None s w =
    (if aborted s tf then Some (FILEBENCH_DONE, s, w)
     else let (s, w) = note_start M s inner w in composite_pass M tf inner (Some n) s w)"
proof -
  obtain s1 w1 where n: "note_start M s inner w = (s1, w1)" by (cases "note_start M s inner w")
  have "same_shape s s1" using same_shape_ops(3) [of s M inner w] n by simp
  then have "iterates s1 (fo_iters (flowops s1 inner)) n" using assms(2) by (simp add: same_shape_def iterates_def)
  then obtain k where "get_int M s1 (fo_iters (flowops s1 inner)) w1 = Some (k, w1)" "iter_count k = n" using iterates_get [of s1 _ n M w1] by blast
  then show ?thesis using assms(1) n by (subst composite_pass.simps) simp
qed

lemma composite_flat:
  assumes "lib_ok M"
  shows "shape s p ts \<Longrightarrow> composite_pass M tf p None s w = run_events M tf (events ts) s w"
proof (induction ts arbitrary: s p w rule: events.induct)
  case 1
  then show ?case by (subst composite_pass.simps) simp
next
  case (2 f n l ts)
  then have p: "p = f" "f \<noteq> NULL" "fo_func (flowops s f) = Lib l" "iterates s (fo_iters (flowops s f)) n" "shape s (fo_exec_next (flowops s f)) ts" by simp_all
  obtain s1 w1 where nn: "note_start M s f w = (s1, w1)" by (cases "note_start M s f w")
  have sh: "same_shape s s1" using same_shape_ops(3) [of s M f w] nn by simp
  have nx: "composite_pass M tf (fo_exec_next (flowops t f)) None t v = run_events M tf (events ts) t v" if "same_shape s t" for t v
    using "2.IH" same_shape_shape [OF that p(5)] that by (simp add: same_shape_def)
  then have "composite_pass M tf f (Some n) s1 w1 = run_events M tf (replicate n (Call l f) @ events ts) s1 w1"
    using leaf_iterations [OF assms nx p(2,3) sh] by simp
  then show ?case using pass_starts [OF p(2,4), of M tf w] p(1) nn by simp
next
  case (3 f n us ts)
  then have p: "p = f" "f \<noteq> NULL" "fo_func (flowops s f) = Composite" "iterates s (fo_iters (flowops s f)) n"
    "shape s (fo_comp_fops (flowops s f)) us" "shape s (fo_exec_next (flowops s f)) ts" by simp_all
  obtain s1 w1 where nn: "note_start M s f w = (s1, w1)" by (cases "note_start M s f w")
  have sh: "same_shape s s1" using same_shape_ops(3) [of s M f w] nn by simp
  have nx: "composite_pass M tf (fo_exec_next (flowops t f)) None t v = run_events M tf (events ts) t v"
    "composite_pass M tf (fo_comp_fops (flowops t f)) None t v = run_events M tf (events us) t v" if "same_shape s t" for t v
    using "3.IH" same_shape_shape [OF that p(5)] same_shape_shape [OF that p(6)] that by (simp_all add: same_shape_def)
  then have "composite_pass M tf f (Some n) s1 w1 = run_events M tf (concat (replicate n (events us)) @ events ts) s1 w1"
    using node_iterations [OF assms nx p(2,3) sh] by simp
  then show ?case using pass_starts [OF p(2,4), of M tf w] p(1) nn by simp
qed

subsection \<open>The limiting flowops as a library\<close>

text \<open>The functions of \<open>FB_Limit\<close> under the pointers 1 to 7. An exit of the program is a call that does not return.\<close>

definition returned :: "'w libcall \<Rightarrow> (int \<times> fbstate \<times> 'w) option" where
  "returned r = do { x \<leftarrow> r; case x of Inl _ \<Rightarrow> None | Inr y \<Rightarrow> Some y }"

definition limit_lib ::
  "'w machine \<Rightarrow> (fbstate \<Rightarrow> 'w \<Rightarrow> fbstate \<times> 'w) \<Rightarrow> (uint32 \<Rightarrow> 'w \<Rightarrow> 'w) \<Rightarrow> ptr \<Rightarrow> ptr \<Rightarrow> ptr \<Rightarrow> fbstate \<Rightarrow> 'w \<Rightarrow> (int \<times> fbstate \<times> 'w) option" where
  "limit_lib M env sleep p tf f s w =
     (if p = 1 then flowoplib_eventlimit M env tf f s w
      else if p = 2 then returned (flowoplib_bwlimit M env tf f s w)
      else if p = 3 then returned (flowoplib_iopslimit M env tf f s w)
      else if p = 4 then returned (flowoplib_opslimit M env tf f s w)
      else if p = 5 then returned (flowoplib_finishonbytes M tf f s w)
      else if p = 6 then returned (flowoplib_finishoncount M tf f s w)
      else if p = 7 then flowoplib_delay M sleep tf f s w
      else None)"

definition env_shape :: "(fbstate \<Rightarrow> 'w \<Rightarrow> fbstate \<times> 'w) \<Rightarrow> bool" where
  "env_shape env \<longleftrightarrow> (\<forall>s w. same_shape s (fst (env s w)))"

lemma wait_events_shape:
  fixes env :: "fbstate \<Rightarrow> 'w \<Rightarrow> fbstate \<times> 'w"
  assumes "wait_events env ev s w = Some r"
  shows "env_shape env \<longrightarrow> same_shape s (fst (snd r))"
proof (rule wait_events.raw_induct [where P = "\<lambda>env ev s w r. env_shape env \<longrightarrow> same_shape s (fst (snd r))", OF _ assms])
  fix wait :: "(fbstate \<Rightarrow> 'w \<Rightarrow> fbstate \<times> 'w) \<Rightarrow> uint64 \<Rightarrow> fbstate \<Rightarrow> 'w \<Rightarrow> (bool \<times> fbstate \<times> 'w) option" and env ev s w r
  assume IH: "\<And>env ev s w r. wait env ev s w = Some r \<Longrightarrow> env_shape env \<longrightarrow> same_shape s (fst (snd r))"
    and b: "(if \<not> shm_eventgen_enabled s then Some (False, s, w)
      else if ev \<le> shm_eventgen_q s then Some (True, s\<lparr>shm_eventgen_q := shm_eventgen_q s - ev\<rparr>, w)
      else let (s, w) = env s w in wait env ev s w) = Some r"
  obtain s1 w1 where s1: "env s w = (s1, w1)" by (cases "env s w")
  have "same_shape s s1" if "env_shape env" using that s1 unfolding env_shape_def by (metis fst_conv)
  then show "env_shape env \<longrightarrow> same_shape s (fst (snd r))" using b IH [of env ev s1 w1 r] s1 same_shape_trans [of s s1]
    by (auto split: if_splits)
qed

lemma begin_end_shape:
  "flowop_beginop clk s w tf = (s', w') \<Longrightarrow> same_shape s s'" "flowop_endop clk s w tf f n = (s', w') \<Longrightarrow> same_shape s s'"
  using same_shape_ops(1) [of s clk w tf] same_shape_ops(2) [of s clk w tf f n] by simp_all

lemma limit_init_shape: "limit_init io s tf f = Some (Inr s') \<Longrightarrow> same_shape s s'"
  by (auto simp: limit_init_def flowoplib_event_find_target_def Let_def same_shape_def upd_fo_def split: if_splits bind_splits sum.splits)

lemma limit_work_shape:
  assumes l: "limit_work M env ev unit work tf f s w = Some (rc, s', w')" and e: "env_shape env"
  shows "same_shape s s'"
proof (cases "fo_tputlast (flowops s f) = 0")
  case True
  then show ?thesis using l by (auto simp: limit_work_def intro!: same_shape_upd_fo)
next
  case nz: False
  let ?s = "upd_fo s f (\<lambda>x. x\<lparr>fo_tputbucket := overdraft s f work, fo_tputlast := work\<rparr>)"
  have s0: "same_shape s ?s" by (rule same_shape_upd_fo) simp
  show ?thesis
  proof (cases "0 \<le> sint (overdraft s f work)")
    case True
    obtain s1 w1 where en: "flowop_endop (clock M) ?s w tf f 0 = (s1, w1)" by fastforce
    then have "s' = s1" using l nz True by (simp add: limit_work_def overdraft_def upd_fo_def)
    then show ?thesis using same_shape_trans [OF s0] begin_end_shape(2) [OF en] by simp
  next
    case False
    obtain s1 w1 where b: "flowop_beginop (clock M) ?s w tf = (s1, w1)" by fastforce
    obtain got s2 w2 where v: "wait_events env (ev (- overdraft s f work)) s1 w1 = Some (got, s2, w2)"
      using l limit_work_poor [OF nz False b] by (auto split: option.splits bind_splits)
    let ?t = "if got then upd_fo s2 f (\<lambda>x. x\<lparr>fo_tputbucket := fo_tputbucket x + ev (- overdraft s f work) * unit\<rparr>) else s2"
    obtain s4 w4 where en: "flowop_endop (clock M) ?t w2 tf f 0 = (s4, w4)" by fastforce
    have t: "s' = s4" "same_shape s2 ?t" "same_shape s1 s2"
      using l limit_work_poor [OF nz False b] v en wait_events_shape [OF v] e by (auto intro!: same_shape_upd_fo)
    show ?thesis unfolding t(1)
      by (rule same_shape_trans [OF s0 same_shape_trans [OF begin_end_shape(1) [OF b] same_shape_trans [OF t(3)
        same_shape_trans [OF t(2) begin_end_shape(2) [OF en]]]]])
  qed
qed

lemma returned_Some: "returned r = Some y \<Longrightarrow> r = Some (Inr y)"
  by (cases r) (auto simp: returned_def split: sum.splits)

lemma limiter_shape:
  assumes "env_shape env" "flowoplib_bwlimit M env tf f s w = Some (Inr (ret, s', w')) \<or> flowoplib_iopslimit M env tf f s w = Some (Inr (ret, s', w'))
    \<or> flowoplib_opslimit M env tf f s w = Some (Inr (ret, s', w'))"
  shows "same_shape s s'"
proof (cases "shm_eventgen_enabled s")
  case True
  then obtain io s1 ev unit work where "limit_init io s tf f = Some (Inr s1)" "limit_work M env ev unit work tf f s1 w = Some (ret, s', w')"
    using assms(2) by (auto simp: flowoplib_bwlimit_def flowoplib_iopslimit_def flowoplib_opslimit_def split: bind_splits sum.splits)
  then show ?thesis using limit_init_shape limit_work_shape assms(1) same_shape_trans by metis
qed (use assms(2) in \<open>auto simp: flowoplib_bwlimit_def flowoplib_iopslimit_def flowoplib_opslimit_def\<close>)

lemma finish_shape:
  assumes "flowoplib_finishonbytes M tf f s w = Some (Inr (ret, s', w')) \<or> flowoplib_finishoncount M tf f s w = Some (Inr (ret, s', w'))"
  shows "same_shape s s'"
proof -
  obtain io s1 d where i: "limit_init io s tf f = Some (Inr s1)" "finish_check M d tf f s1 w = (ret, s', w')"
    using assms by (auto simp: flowoplib_finishonbytes_def flowoplib_finishoncount_def Let_def split: bind_splits sum.splits)
  obtain s2 w2 where b: "flowop_beginop (clock M) s1 w tf = (s2, w2)" by fastforce
  have "flowop_endop (clock M) s2 w2 tf f 0 = (s', w')" using i(2) b by (auto simp: finish_check_def Let_def split: prod.splits)
  then show ?thesis using limit_init_shape [OF i(1)] begin_end_shape(1) [OF b] begin_end_shape(2) same_shape_trans by metis
qed

lemma wait_shape:
  assumes "env_shape env" "flowoplib_eventlimit M env tf f s w = Some (ret, s', w')"
  shows "same_shape s s'"
proof (cases "shm_eventgen_enabled s")
  case True
  let ?s = "if fo_initted (flowops s f) = 0 then upd_fo s f (\<lambda>f. f\<lparr>fo_initted := 1\<rparr>) else s"
  obtain s1 w1 where b: "flowop_beginop (clock M) ?s w tf = (s1, w1)" by fastforce
  obtain got s2 w2 where v: "wait_events env 1 s1 w1 = Some (got, s2, w2)"
    using assms(2) True b by (auto simp: flowoplib_eventlimit_def Let_def split: bind_splits prod.splits)
  have "flowop_endop (clock M) s2 w2 tf f 0 = (s', w')" using assms(2) True b v by (simp add: flowoplib_eventlimit_def split: prod.splits)
  moreover have "same_shape s ?s" by (auto intro!: same_shape_upd_fo)
  moreover have "same_shape s1 s2" using wait_events_shape [OF v] assms(1) by simp
  ultimately show ?thesis using begin_end_shape(1) [OF b] begin_end_shape(2) same_shape_trans by metis
qed (use assms(2) in \<open>simp add: flowoplib_eventlimit_def\<close>)

lemma delay_shape: "flowoplib_delay M sleep tf f s w = Some (ret, s', w') \<Longrightarrow> same_shape s s'"
  using begin_end_shape same_shape_trans by (fastforce simp: flowoplib_delay_def Let_def split: bind_splits prod.splits)

interpretation limits: flowop_lib "env_shape env" "limit_lib M env sleep"
  for env :: "fbstate \<Rightarrow> 'w \<Rightarrow> fbstate \<times> 'w" and M :: "'w machine" and sleep :: "uint32 \<Rightarrow> 'w \<Rightarrow> 'w"
proof
  fix p tf f :: ptr and s s' :: fbstate and w w' :: 'w and ret
  assume "env_shape env" "limit_lib M env sleep p tf f s w = Some (ret, s', w')"
  then show "same_shape s s'" unfolding limit_lib_def
    by (auto split: if_splits dest!: returned_Some dest: wait_shape delay_shape finish_shape [OF disjI1] finish_shape [OF disjI2]
        limiter_shape [OF _ disjI1] limiter_shape [OF _ disjI2 [OF disjI1]] limiter_shape [OF _ disjI2 [OF disjI2]])
qed

lemma limit_lib_ok: "env_shape env \<Longrightarrow> call M = limit_lib N env sleep \<Longrightarrow> lib_ok M"
  using limits.keeps [of env N sleep] unfolding lib_ok_def by unfold_locales auto

subsection \<open>The worker\<close>

lemma handle_ret_aborts: "ret \<noteq> FILEBENCH_OK \<Longrightarrow> aborted (handle_ret tf ret s) tf"
  by (simp add: handle_ret_def aborted_def upd_tf_def Let_def)

lemma run_iters_aborts: "run_iters M tf f n s w = Some (ret, s', w') \<Longrightarrow> ret \<noteq> FILEBENCH_OK \<Longrightarrow> aborted s' tf"
proof (induction n arbitrary: s w)
  case (Suc n)
  then obtain r t v where x: "exec_fo M tf f s w = Some (r, t, v)" by (auto split: bind_splits)
  show ?case
  proof (cases "r = FILEBENCH_OK")
    case True
    then show ?thesis using Suc x by simp
  next
    case False
    then show ?thesis using Suc.prems x handle_ret_aborts [OF False, of tf t] by auto
  qed
qed simp

lemma aborted_stats [simp]: "aborted (upd_tf s t (\<lambda>x. x\<lparr>tf_stats := g x\<rparr>)) tf = aborted s tf"
  by (simp add: aborted_def upd_tf_def)

lemma worker_stops:
  fixes M :: "'w machine"
  assumes "worker_loop M env tf f s w = Some r"
  shows "fst r = Stopped \<longrightarrow> aborted (fst (snd r)) tf"
proof (rule worker_loop.raw_induct [where P = "\<lambda>M env tf f s w r. fst r = Stopped \<longrightarrow> aborted (fst (snd r)) tf", OF _ assms])
  fix loop :: "'w machine \<Rightarrow> (fbstate \<Rightarrow> 'w \<Rightarrow> fbstate \<times> 'w) \<Rightarrow> ptr \<Rightarrow> ptr \<Rightarrow> fbstate \<Rightarrow> 'w \<Rightarrow> (worker_end \<times> fbstate \<times> 'w) option"
    and M :: "'w machine" and env tf f s w r
  assume IH: "\<And>M env tf f s w r. loop M env tf f s w = Some r \<Longrightarrow> fst r = Stopped \<longrightarrow> aborted (fst (snd r)) tf"
  assume b: "(let (s, w) = env s w in
      if aborted s tf then Some (Stopped, s, w)
      else if shm_bequiet s \<or> shm_procs_running s = 0 then loop M env tf f s w
      else if f = NULL then Some (NullFlowop, s, w)
      else do {
        let (s, w) = note_start M s f w;
        (n, w) \<leftarrow> get_int M s (fo_iters (flowops s f)) w;
        (ret, s, w) \<leftarrow> run_iters M tf f (iter_count n) s w;
        let flowop = fo_exec_next (flowops s f);
        let (flowop, s) = (if flowop = NULL
          then (tf_thrd_fops (threads s tf), upd_tf s tf (\<lambda>t. t\<lparr>tf_stats := (tf_stats t)\<lparr>fs_count := fs_count (tf_stats t) + 1\<rparr>\<rparr>))
          else (flowop, s));
        if ret = FILEBENCH_OK then loop M env tf flowop s w else Some (Stopped, s, w) }) = Some r"
  show "fst r = Stopped \<longrightarrow> aborted (fst (snd r)) tf"
    using b by (auto simp: Let_def split: prod.splits if_splits bind_splits dest: IH dest!: run_iters_aborts)
qed

subsection \<open>The end of an operation\<close>

lemma endop_counts:
  fixes s :: fbstate and clk :: "'w \<Rightarrow> uint64 \<times> 'w"
  defines "s' \<equiv> \<lambda>w tf f n. fst (flowop_endop clk s w tf f n)"
  shows "fs_count (fo_stats (flowops (s' w tf f n) f)) = fs_count (fo_stats (flowops s f)) + 1"
    and "fs_bytes (fo_stats (flowops (s' w tf f n) f)) = fs_bytes (fo_stats (flowops s f)) + n"
    and "g \<noteq> f \<Longrightarrow> flowops (s' w tf f n) g = flowops s g"
    and "fs_count (controlstats (s' w tf f n)) = fs_count (controlstats s)
      + (if fo_type (flowops s f) AND FLOW_TYPE_IO \<noteq> 0 \<or> fo_type (flowops s f) AND FLOW_TYPE_AIO \<noteq> 0 then 1 else 0)"
  by (cases "clk w"; cases "fo_attrs (flowops s f) AND FLOW_ATTR_READ = 0"; cases "fo_attrs (flowops s f) AND FLOW_ATTR_WRITE = 0";
      simp add: s'_def flowop_endop_def upd_stats_def upd_fo_def upd_tf_def add_read_def add_write_def Let_def)+

subsection \<open>Properties\<close>

text \<open>
  C9. A composite flowop does exactly what the flat sequence of its library calls does: the inner flowops in the
  order of their list, each with its iterations, the inner flowops of inner composites in their place,
  up to the first call that returns an error, an exhausted resource or the end of the run, or an abort.
  The library has to keep the lists of flowops as they are, as the limiting flowops do.
\<close>

theorem flowop_composite_flat:
  assumes "lib_ok M" "shape s (fo_comp_fops (flowops s f)) ts"
  shows "flowop_composite M tf f s w = run_events M tf (events ts) s w"
  using composite_flat [OF assms] by (simp add: flowop_composite_def)

text \<open>A composite flowop 1 around 2, run twice, and around a composite 3 with the inner flowop 4.\<close>

definition ex_comp :: fbstate where
  "ex_comp = ex_fb\<lparr>vs := ex_vshm\<lparr>avds := (avds ex_vshm)(20 := \<lparr>avd_type = AVD_VAL_INT, avd_val = AInt 2\<rparr>)\<rparr>,
     shm_eventgen_enabled := False,
     flowops := (\<lambda>_. zero_flowop)(
       1 := zero_flowop\<lparr>fo_func := Composite, fo_comp_fops := 2\<rparr>,
       2 := zero_flowop\<lparr>fo_func := Lib 1, fo_iters := 20, fo_exec_next := 3\<rparr>,
       3 := zero_flowop\<lparr>fo_func := Composite, fo_iters := 20, fo_comp_fops := 4\<rparr>,
       4 := zero_flowop\<lparr>fo_func := Lib 2, fo_iters := 20\<rparr>)\<rparr>"

definition ex_comp_machine :: "unit machine" where
  "ex_comp_machine = ex_machine\<lparr>call := limit_lib ex_machine Pair (\<lambda>_. id)\<rparr>"

lemma ex_comp_lib: "lib_ok ex_comp_machine"
  by (rule limit_lib_ok [of Pair]) (simp_all add: env_shape_def ex_comp_machine_def)

lemma ex_comp_shape: "shape ex_comp 2 [Leaf 2 2 1, Node 3 2 [Leaf 4 2 2]]"
  by (simp add: ex_comp_def iterates_def iter_count_def zero_flowop_def)

theorem flowop_composite_flat_witness:
  "flowop_composite ex_comp_machine 7 1 ex_comp () = Some (FILEBENCH_OK, ex_comp, ())"
proof -
  have n: "note_start M ex_comp f () = (ex_comp, ())" if "f = 2 \<or> f = 3 \<or> f = 4" "M = ex_comp_machine" for f M
    using that by (auto simp: note_start_def ex_comp_def ex_comp_machine_def ex_machine_def upd_stats_def upd_fo_def zero_flowop_def zero_stats_def fun_eq_iff)
  have "\<not> aborted ex_comp 7" by (simp add: aborted_def ex_comp_def ex_fb_def zero_threadflow_def)
  moreover have "call ex_comp_machine 1 7 f ex_comp () = Some (FILEBENCH_OK, ex_comp, ())"
    "call ex_comp_machine 2 7 f ex_comp () = Some (FILEBENCH_OK, ex_comp, ())" for f
    by (simp_all add: ex_comp_machine_def limit_lib_def flowoplib_eventlimit_def flowoplib_bwlimit_def returned_def ex_comp_def)
  ultimately have "run_events ex_comp_machine 7 (events [Leaf 2 2 1, Node 3 2 [Leaf 4 2 2]]) ex_comp () = Some (FILEBENCH_OK, ex_comp, ())"
    by (simp add: n stops_def numeral_2_eq_2)
  moreover have "shape ex_comp (fo_comp_fops (flowops ex_comp 1)) [Leaf 2 2 1, Node 3 2 [Leaf 4 2 2]]"
    using ex_comp_shape by (simp add: ex_comp_def)
  ultimately show ?thesis using flowop_composite_flat [OF ex_comp_lib] by metis
qed



text \<open>
  The end of an operation counts it once with its bytes, at the flowop and nowhere else among the flowops. The
  totals of the run, meant for I/O, are raised for every type but the composite and the global one: a
  type is tested like a set of bits, and the codes of synchronisation and other operations are odd.
\<close>

theorem flowop_endop_counts:
  assumes "fo_type (flowops s f) \<in> {FLOW_TYPE_GLOBAL, FLOW_TYPE_IO, FLOW_TYPE_AIO, FLOW_TYPE_SYNC, FLOW_TYPE_COMPOSITE, FLOW_TYPE_OTHER}"
  shows "let s' = fst (flowop_endop clk s w tf f n) in
      fs_count (fo_stats (flowops s' f)) = fs_count (fo_stats (flowops s f)) + 1
    \<and> fs_bytes (fo_stats (flowops s' f)) = fs_bytes (fo_stats (flowops s f)) + n
    \<and> (\<forall>g. g = f \<or> flowops s' g = flowops s g)
    \<and> fs_count (controlstats s') = fs_count (controlstats s)
        + (if fo_type (flowops s f) \<in> {FLOW_TYPE_IO, FLOW_TYPE_AIO, FLOW_TYPE_SYNC, FLOW_TYPE_OTHER} then 1 else 0)"
  using endop_counts [where clk = clk and s = s and w = w and tf = tf and f = f and n = n] assms by (auto simp: Let_def)

theorem flowop_endop_counts_witness:
  "fs_count (controlstats (fst (flowop_endop (\<lambda>w. (0, w)) (upd_fo ex_fb 3 (\<lambda>f. f\<lparr>fo_type := FLOW_TYPE_OTHER\<rparr>)) () 7 3 0))) = 1"
  using flowop_endop_counts [of "upd_fo ex_fb 3 (\<lambda>f. f\<lparr>fo_type := FLOW_TYPE_OTHER\<rparr>)" 3 "\<lambda>w. (0, w)" "()" 7 0]
  by (simp add: upd_fo_def ex_fb_def zero_flowop_def zero_stats_def Let_def)

end
