(* ===== verification/FB_Stats.thy ===== *)
theory FB_Stats
  imports FB_Flowop FB_Random
begin

text \<open>
  The statistics of \<^verbatim>\<open>src/filebench/stats.c\<close>: clearing them, rolling the counters of the flowops up into the totals
  of each type and into their masters, and the values that scripts can read. The table \<open>globalstats\<close> is
  \<open>None\<close> before it is allocated. \<open>cputime\<close> is what \<open>kstats_read_cpu_relative\<close> reads from the system.

  Not modelled: the printed reports and the reading of the system's CPU times.
\<close>

abbreviation (input) FLOW_TYPES :: nat where "FLOW_TYPES \<equiv> 6"
abbreviation (input) FLOW_MSTATES :: nat where "FLOW_MSTATES \<equiv> 4"
abbreviation (input) FLOW_MSTATE_CPU :: nat where "FLOW_MSTATE_CPU \<equiv> 1"
abbreviation (input) FLOW_MSTATE_WAIT :: nat where "FLOW_MSTATE_WAIT \<equiv> 2"
abbreviation (input) FLOW_MSTATE_OHEAD :: nat where "FLOW_MSTATE_OHEAD \<equiv> 3"
abbreviation (input) GLOBAL :: nat where "GLOBAL \<equiv> 0"
abbreviation (input) IO :: nat where "IO \<equiv> 1"
abbreviation (input) AIO :: nat where "AIO \<equiv> 2"

type_synonym gstats = "nat \<Rightarrow> flowstat"

definition stats_add :: "flowstat \<Rightarrow> flowstat \<Rightarrow> flowstat" where
  "stats_add a b = a\<lparr>fs_count := fs_count a + fs_count b, fs_rcount := fs_rcount a + fs_rcount b,
     fs_wcount := fs_wcount a + fs_wcount b, fs_bytes := fs_bytes a + fs_bytes b, fs_rbytes := fs_rbytes a + fs_rbytes b,
     fs_wbytes := fs_wbytes a + fs_wbytes b,
     fs_mstate := (\<lambda>i. if i < FLOW_MSTATES then fs_mstate a i + fs_mstate b i else fs_mstate a i)\<rparr>"

definition io_stats_ohead :: "gstats \<Rightarrow> uint64" where
  "io_stats_ohead g = fs_mstate (g GLOBAL) FLOW_MSTATE_OHEAD + fs_mstate (g GLOBAL) FLOW_MSTATE_CPU
     - fs_mstate (g IO) FLOW_MSTATE_CPU - fs_mstate (g AIO) FLOW_MSTATE_CPU"

definition gl_stats_ohead :: "gstats \<Rightarrow> uint64" where
  "gl_stats_ohead g = fs_mstate (g GLOBAL) FLOW_MSTATE_OHEAD"

subsection \<open>Clearing\<close>

partial_function (option) clear_loop :: "fbstate \<Rightarrow> ptr \<Rightarrow> fbstate option" where
  "clear_loop s flowop =
     (if flowop = NULL then Some s
      else let s = upd_stats s flowop (\<lambda>_. zero_stats) in clear_loop s (fo_next (flowops s flowop)))"

definition stats_clear :: "('w \<Rightarrow> uint64 \<times> 'w) \<Rightarrow> fbstate \<Rightarrow> 'w \<Rightarrow> (gstats \<times> fbstate \<times> 'w) option" where
  "stats_clear clk s w = do {
     let g = (\<lambda>_. zero_stats);
     s \<leftarrow> clear_loop s (shm_flowoplist s);
     let g = g(GLOBAL := zero_stats);
     let (now, w) = clk w;
     Some (g(GLOBAL := (g GLOBAL)\<lparr>fs_stime := now\<rparr>), s, w) }"

subsection \<open>The snapshot\<close>

text \<open>A worker flowop is added to the totals of its type, to those of all types and to its master.\<close>

definition add_total :: "gstats \<Rightarrow> nat \<Rightarrow> flowstat \<Rightarrow> gstats" where
  "add_total g t st = g(t := stats_add (g t) st)"

definition roll_master :: "flowstat \<Rightarrow> flowstat \<Rightarrow> flowstat" where
  "roll_master m st =
     (let m = (if fs_count st \<noteq> 0 then m\<lparr>fs_active := fs_active m + 1\<rparr> else m);
          m = m\<lparr>fs_children := fs_children m + 1\<rparr> in
      stats_add m st)"

partial_function (option) roll_loop :: "gstats \<Rightarrow> fbstate \<Rightarrow> ptr \<Rightarrow> (gstats \<times> fbstate) option" where
  "roll_loop g s flowop =
     (if flowop = NULL then Some (g, s)
      else if fo_instance (flowops s flowop) \<le> FLOW_DEFINITION then roll_loop g s (fo_next (flowops s flowop))
      else do {
        master \<leftarrow> flowop_find_one s (fo_name (flowops s flowop)) FLOW_MASTER;
        let type = unat (fo_type (flowops s flowop));
        if type \<ge> FLOW_TYPES then None
        else do {
          let st = fo_stats (flowops s flowop);
          let g = add_total (add_total g type st) GLOBAL st;
          let s = (if master \<noteq> NULL then upd_stats s master (\<lambda>m. roll_master m st) else s);
          roll_loop g s (fo_next (flowops s flowop)) } })"

definition net :: "uint64 \<Rightarrow> uint64 \<Rightarrow> uint64" where
  "net cputime ohead = (if cputime > ohead then cputime - ohead else 0)"

definition stats_snap ::
  "('w \<Rightarrow> uint64 \<times> 'w) \<Rightarrow> uint64 \<Rightarrow> gstats option \<Rightarrow> fbstate \<Rightarrow> 'w \<Rightarrow> (gstats option \<times> fbstate \<times> 'w) option" where
  "stats_snap clk cputime globalstats s w =
     (case globalstats of
        None \<Rightarrow> Some (None, s, w)
      | Some g \<Rightarrow>
          if shm_f_abort s = FILEBENCH_ABORT_ERROR then Some (Some g, s, w)
          else do {
            let (now, w) = clk w;
            let g = g(GLOBAL := (g GLOBAL)\<lparr>fs_etime := now\<rparr>);
            let s = s\<lparr>shm_bequiet := True\<rparr>;
            (g, s) \<leftarrow> roll_loop g s (shm_flowoplist s);
            let g = g(IO := (g IO)\<lparr>fs_syscpu := net cputime (io_stats_ohead g)\<rparr>);
            let g = g(GLOBAL := (g GLOBAL)\<lparr>fs_syscpu := net cputime (gl_stats_ohead g)\<rparr>);
            Some (Some g, s\<lparr>shm_bequiet := False\<rparr>, w) })"

subsection \<open>The values that scripts read\<close>

text \<open>
  The counts are \<open>int\<close>s: their sum wraps at 32 bits and is extended with its sign. Dividing by \<open>count * 1000\<close> is guarded by
  the count. The rates are computed with doubles; the constants are the bit patterns of \<open>1000000000.0\<close> and \<open>1000.0\<close>.
\<close>

abbreviation (input) FSECS :: dbl where "FSECS \<equiv> 0x41CDCD6500000000"
abbreviation (input) D1000 :: dbl where "D1000 \<equiv> 0x408F400000000000"

definition per_op :: "uint64 \<Rightarrow> uint32 \<Rightarrow> fbint" where
  "per_op time count = (if count \<noteq> 0 then time div (scast count * 1000) else 0)"

definition period :: "fpu_ext \<Rightarrow> gstats \<Rightarrow> dbl" where
  "period F g = fp_div F (fp_of_int F (fs_etime (g GLOBAL) - fs_stime (g GLOBAL))) FSECS"

definition stats_value :: "fpu_ext \<Rightarrow> gstats \<Rightarrow> string \<Rightarrow> fbint option" where
  "stats_value F g name =
     (let io = g IO; aio = g AIO; count = fs_count io + fs_count aio in
      if name = ''iocount'' then Some (scast count)
      else if name = ''iorate'' then Some (fp_to_int F (fp_div F (fp_of_sint F (sint count)) (period F g)))
      else if name = ''ioreadrate'' then Some (fp_to_int F (fp_div F (fp_of_int F (fs_rcount io + fs_rcount aio)) (period F g)))
      else if name = ''iowriterate'' then Some (fp_to_int F (fp_div F (fp_of_int F (fs_wcount io + fs_wcount aio)) (period F g)))
      else if name = ''iobandwidth''
      then Some (fp_to_int F (fp_div F (fp_of_int F ((fs_bytes io + fs_bytes aio) div (1024 * 1024))) (period F g)))
      else if name = ''iolatency'' then Some (per_op (fs_mstate io FLOW_MSTATE_LAT) (fs_count io))
      else if name = ''iocpu'' then Some (per_op (fs_mstate io FLOW_MSTATE_CPU + fs_mstate aio FLOW_MSTATE_CPU) count)
      else if name = ''oheadcpu'' then Some (per_op (io_stats_ohead g) count)
      else if name = ''iowait'' then Some (per_op (fs_mstate io FLOW_MSTATE_WAIT) (fs_count io))
      else if name = ''syscpu'' then Some (fp_to_int F (fp_div F (fp_of_int F (fs_syscpu (g GLOBAL))) D1000))
      else if name = ''iocpusys'' then Some (per_op (fs_syscpu io) count)
      else None)"

text \<open>The table of statistics has to exist: its entries are addressed before the test for it.\<close>

definition stats_findvar :: "fpu_ext \<Rightarrow> gstats option \<Rightarrow> var_t \<Rightarrow> string \<Rightarrow> var_t option option" where
  "stats_findvar F globalstats var name =
     (case globalstats of None \<Rightarrow> None | Some g \<Rightarrow> Some (map_option (VAR_SET_INT var) (stats_value F g name)))"

end
