(* ===== verification/FB_Stats_Correct.thy ===== *)
theory FB_Stats_Correct
  imports FB_Stats FB_Flowop_Correct
begin

text \<open>
  What a snapshot computes: the loop over the global list is the same as adding, for each type, the counters of the
  workers of that type, and to each master those of the workers of its name.
\<close>

subsection \<open>The sums\<close>

abbreviation worker :: "fbstate \<Rightarrow> ptr \<Rightarrow> bool" where
  "worker s f \<equiv> fo_instance (flowops s f) > FLOW_DEFINITION"

abbreviation stat :: "fbstate \<Rightarrow> ptr \<Rightarrow> flowstat" where
  "stat s f \<equiv> fo_stats (flowops s f)"

abbreviation ftype :: "fbstate \<Rightarrow> ptr \<Rightarrow> nat" where
  "ftype s f \<equiv> unat (fo_type (flowops s f))"

definition master_of :: "fbstate \<Rightarrow> ptr list \<Rightarrow> ptr \<Rightarrow> ptr" where
  "master_of s gs f = (case find (\<lambda>x. fo_name (flowops s x) = fo_name (flowops s f) \<and> fo_instance (flowops s x) = FLOW_MASTER) gs of
     None \<Rightarrow> NULL | Some x \<Rightarrow> x)"

definition workers_of :: "fbstate \<Rightarrow> ptr list \<Rightarrow> ptr \<Rightarrow> ptr list \<Rightarrow> flowstat list" where
  "workers_of s gs m xs = map (stat s) (filter (\<lambda>f. worker s f \<and> m \<noteq> NULL \<and> master_of s gs f = m) xs)"

definition rolled :: "fbstate \<Rightarrow> ptr list \<Rightarrow> ptr list \<Rightarrow> fbstate" where
  "rolled s gs xs = s\<lparr>flowops := (\<lambda>q. (flowops s q)\<lparr>fo_stats := foldl roll_master (stat s q) (workers_of s gs q xs)\<rparr>)\<rparr>"

definition totals :: "fbstate \<Rightarrow> ptr list \<Rightarrow> gstats \<Rightarrow> gstats" where
  "totals s xs g = foldl (\<lambda>g f. add_total (add_total g (ftype s f) (stat s f)) GLOBAL (stat s f)) g (filter (worker s) xs)"

lemma totals_simps [simp]:
  "totals s [] g = g" "\<not> worker s f \<Longrightarrow> totals s (f # xs) g = totals s xs g"
  "worker s f \<Longrightarrow> totals s (f # xs) g = totals s xs (add_total (add_total g (ftype s f) (stat s f)) GLOBAL (stat s f))"
  by (simp_all add: totals_def)

lemma rolled_Nil [simp]: "rolled s gs [] = s"
  by (simp add: rolled_def workers_of_def)

lemma rolled_skip: "\<not> worker s f \<or> master_of s gs f = NULL \<Longrightarrow> rolled s gs (f # xs) = rolled s gs xs"
  unfolding rolled_def by (intro arg_cong [where f = "\<lambda>h. s\<lparr>flowops := h\<rparr>"] ext) (auto simp: workers_of_def)

text \<open>Two states that differ in the statistics of masters only.\<close>

lemma upd_master:
  assumes "\<not> worker s m" "t = upd_stats s m u"
  shows "fo_next (flowops t f) = fo_next (flowops s f)" "fo_instance (flowops t f) = fo_instance (flowops s f)"
    "fo_name (flowops t f) = fo_name (flowops s f)" "fo_type (flowops t f) = fo_type (flowops s f)"
    "worker s f \<Longrightarrow> flowops t f = flowops s f" "shm_flowoplist t = shm_flowoplist s" "master_of t gs f = master_of s gs f"
proof -
  have a: "fo_next (flowops t f) = fo_next (flowops s f)" "fo_instance (flowops t f) = fo_instance (flowops s f)"
    "fo_name (flowops t f) = fo_name (flowops s f)" "fo_type (flowops t f) = fo_type (flowops s f)" for f
    by (simp_all add: assms(2) upd_stats_def)
  show "fo_next (flowops t f) = fo_next (flowops s f)" "fo_instance (flowops t f) = fo_instance (flowops s f)"
    "fo_name (flowops t f) = fo_name (flowops s f)" "fo_type (flowops t f) = fo_type (flowops s f)" by (fact a)+
  show "worker s f \<Longrightarrow> flowops t f = flowops s f" using assms by (auto simp: upd_stats_def)
  show "shm_flowoplist t = shm_flowoplist s" by (simp add: assms(2) upd_stats_def)
  show "master_of t gs f = master_of s gs f" by (simp add: master_of_def a)
qed

lemma master_of_is_master: "master_of s gs f \<noteq> NULL \<Longrightarrow> fo_instance (flowops s (master_of s gs f)) = FLOW_MASTER"
  by (induction gs) (auto simp: master_of_def)

lemma rolled_step:
  assumes "worker s f" "master_of s gs f = m" "m \<noteq> NULL" and t: "t = upd_stats s m (\<lambda>x. roll_master x (stat s f))"
  shows "rolled s gs (f # xs) = rolled t gs xs" and "totals s xs g = totals t xs g"
proof -
  have m: "\<not> worker s m" using master_of_is_master [of s gs f] assms(2,3) by simp
  note u = upd_master [OF m t]
  have fil: "filter (\<lambda>x. worker t x \<and> q \<noteq> NULL \<and> master_of t gs x = q) xs = filter (\<lambda>x. worker s x \<and> q \<noteq> NULL \<and> master_of s gs x = q) xs" for q
    by (simp add: u)
  have w: "workers_of t gs q xs = workers_of s gs q xs" for q
    unfolding workers_of_def fil by (intro map_cong refl) (use u(5) in auto)
  have "flowops (rolled s gs (f # xs)) q = flowops (rolled t gs xs) q" for q
    using assms w [of q] by (auto simp: rolled_def workers_of_def upd_stats_def t)
  then have "flowops (rolled s gs (f # xs)) = flowops (rolled t gs xs)" ..
  then show "rolled s gs (f # xs) = rolled t gs xs" by (simp add: rolled_def upd_stats_def upd_fo_def t)
  show "totals s xs g = totals t xs g"
    unfolding totals_def by (simp add: u) (rule foldl_cong, use u in auto)
qed

lemma roll_loop_list:
  assumes "chain (gnext s) p xs" "chain (gnext s) (shm_flowoplist s) gs" "\<And>f. f \<in> set xs \<Longrightarrow> worker s f \<Longrightarrow> ftype s f < FLOW_TYPES"
  shows "roll_loop g s p = Some (totals s xs g, rolled s gs xs)"
  using assms
proof (induction xs arbitrary: g s p)
  case Nil
  then show ?case by (subst roll_loop.simps) simp
next
  case (Cons f xs)
  have p: "p = f" "f \<noteq> NULL" "chain (gnext s) (gnext s f) xs" using Cons.prems(1) by simp_all
  show ?case
  proof (cases "worker s f")
    case False
    then have "roll_loop g s p = roll_loop g s (gnext s f)" using p by (subst roll_loop.simps) simp
    then show ?thesis using Cons.IH [OF p(3) Cons.prems(2)] Cons.prems(3) False rolled_skip [of s f gs xs] by simp
  next
    case True
    have m: "flowop_find_one s (fo_name (flowops s f)) FLOW_MASTER = Some (master_of s gs f)"
      using find_one_loop_list [OF Cons.prems(2)] by (simp add: flowop_find_one_def master_of_def)
    have ty: "ftype s f < FLOW_TYPES" using Cons.prems(3) True by simp
    let ?g = "add_total (add_total g (ftype s f) (stat s f)) GLOBAL (stat s f)"
    show ?thesis
    proof (cases "master_of s gs f = NULL")
      case nm: True
      have "roll_loop g s p = roll_loop ?g s (gnext s f)" using p True m ty nm by (subst roll_loop.simps) (simp add: Let_def)
      then show ?thesis using Cons.IH [OF p(3) Cons.prems(2)] Cons.prems(3) True rolled_skip [of s f gs xs] nm by simp
    next
      case nm: False
      define t where t: "t = upd_stats s (master_of s gs f) (\<lambda>x. roll_master x (stat s f))"
      have im: "\<not> worker s (master_of s gs f)" using master_of_is_master [OF nm] by simp
      note u = upd_master [OF im t]
      have "gnext t = gnext s" using u(1) by auto
      then have c: "chain (gnext t) (gnext s f) xs" "chain (gnext t) (shm_flowoplist t) gs"
        using p(3) Cons.prems(2) u(6) by simp_all
      have "roll_loop g s p = roll_loop ?g t (gnext t f)"
        using p True m ty nm by (subst roll_loop.simps) (simp add: t Let_def)
      also have "\<dots> = Some (totals t xs ?g, rolled t gs xs)"
        using Cons.IH [OF c] Cons.prems(3) u(1,2,4) by simp
      finally show ?thesis using rolled_step(1) [OF True refl nm t, of xs] rolled_step(2) [OF True refl nm t, of xs ?g] True by simp
    qed
  qed
qed

text \<open>The totals of a type are the sum over the workers of that type.\<close>

lemma totals_type:
  assumes "\<And>f. f \<in> set xs \<Longrightarrow> worker s f \<Longrightarrow> ftype s f \<noteq> GLOBAL"
  shows "totals s xs g t = foldl stats_add (g t) (map (stat s) (filter (\<lambda>f. worker s f \<and> (t = GLOBAL \<or> ftype s f = t)) xs))"
  using assms
proof (induction xs arbitrary: g)
  case (Cons f xs)
  then have IH: "totals s xs g t = foldl stats_add (g t) (map (stat s) (filter (\<lambda>f. worker s f \<and> (t = GLOBAL \<or> ftype s f = t)) xs))" for g
    by simp
  show ?case
  proof (cases "worker s f")
    case True
    then show ?thesis using Cons.prems [of f] by (auto simp: IH add_total_def)
  qed (simp add: IH)
qed simp

text \<open>The counters of \<open>ws\<close> added to those of \<open>a\<close>, field by field.\<close>

definition sums :: "flowstat \<Rightarrow> flowstat list \<Rightarrow> flowstat \<Rightarrow> bool" where
  "sums a ws b \<longleftrightarrow> fs_count b = fs_count a + sum_list (map fs_count ws) \<and> fs_bytes b = fs_bytes a + sum_list (map fs_bytes ws)
     \<and> fs_rbytes b = fs_rbytes a + sum_list (map fs_rbytes ws) \<and> fs_wbytes b = fs_wbytes a + sum_list (map fs_wbytes ws)
     \<and> fs_rcount b = fs_rcount a + sum_list (map fs_rcount ws) \<and> fs_wcount b = fs_wcount a + sum_list (map fs_wcount ws)
     \<and> (\<forall>i < FLOW_MSTATES. fs_mstate b i = fs_mstate a i + sum_list (map (\<lambda>w. fs_mstate w i) ws))"

lemma sums_stats_add: "sums a ws (foldl stats_add a ws)"
proof (induction ws arbitrary: a)
  case (Cons w ws)
  show ?case using Cons.IH [of "stats_add a w"] by (simp add: sums_def stats_add_def add.assoc)
qed (simp add: sums_def)

lemma sums_fields:
  "sums ((g(GLOBAL := (g GLOBAL)\<lparr>fs_etime := now\<rparr>)) t) ws b = sums (g t) ws b"
  "sums a ws ((let k = h(IO := (h IO)\<lparr>fs_syscpu := net cpu (io_stats_ohead h)\<rparr>) in
     k(GLOBAL := (k GLOBAL)\<lparr>fs_syscpu := net cpu (gl_stats_ohead k)\<rparr>)) t) = sums a ws (h t)"
  by (simp_all add: sums_def Let_def)

lemma sums_roll_master:
  "sums a ws (foldl roll_master a ws) \<and> fs_children (foldl roll_master a ws) = fs_children a + of_nat (length ws)
   \<and> fs_active (foldl roll_master a ws) = fs_active a + of_nat (length (filter (\<lambda>w. fs_count w \<noteq> 0) ws))"
proof (induction ws arbitrary: a)
  case (Cons w ws)
  show ?case using Cons.IH [of "roll_master a w"] by (simp add: sums_def roll_master_def stats_add_def add.assoc Let_def)
qed (simp add: sums_def)

lemma clear_loop_list:
  "chain (gnext s) p xs \<Longrightarrow> \<exists>s'. clear_loop s p = Some s' \<and>
     s' = s\<lparr>flowops := (\<lambda>q. if q \<in> set xs then (flowops s q)\<lparr>fo_stats := zero_stats\<rparr> else flowops s q)\<rparr>"
proof (induction xs arbitrary: s p)
  case Nil
  then show ?case by (subst clear_loop.simps) simp
next
  case (Cons f xs)
  let ?t = "upd_stats s f (\<lambda>_. zero_stats)"
  have p: "p = f" "f \<noteq> NULL" "chain (gnext s) (gnext s f) xs" using Cons.prems by simp_all
  have "gnext ?t = gnext s" by (auto simp: upd_stats_def)
  then have c: "chain (gnext ?t) (gnext s f) xs" using p(3) by simp
  have "clear_loop s p = clear_loop ?t (gnext s f)" using p by (subst clear_loop.simps) (simp add: upd_stats_def Let_def)
  with Cons.IH [OF c] show ?case by (auto simp: upd_stats_def upd_fo_def fun_eq_iff)
qed

subsection \<open>The promises\<close>

text \<open>
  C14. A snapshot adds to the totals of every type exactly the counters of the workers of that type, to the global
  totals those of all workers, and to every master those of the workers of its name, whatever the order of
  the global list; it changes no other flowop, and leaves the run unpaused. It takes none of this back: a second
  snapshot adds the same counters again.
\<close>

theorem stats_snap_correct:
  assumes "flow_inv L s gs" "\<forall>f \<in> set gs. worker s f \<longrightarrow> ftype s f < FLOW_TYPES \<and> ftype s f \<noteq> GLOBAL"
    "shm_f_abort s \<noteq> FILEBENCH_ABORT_ERROR"
  shows "\<exists>g' s' w'. stats_snap clk cpu (Some g) s w = Some (Some g', s', w') \<and> \<not> shm_bequiet s'
    \<and> (\<forall>t. sums (g t) (map (stat s) (filter (\<lambda>f. worker s f \<and> (t = GLOBAL \<or> ftype s f = t)) gs)) (g' t))
    \<and> (\<forall>q. let ws = workers_of s gs q gs in
         flowops s' q = (flowops s q)\<lparr>fo_stats := stat s' q\<rparr> \<and> sums (stat s q) ws (stat s' q)
         \<and> fs_children (stat s' q) = fs_children (stat s q) + of_nat (length ws)
         \<and> fs_active (stat s' q) = fs_active (stat s q) + of_nat (length (filter (\<lambda>w. fs_count w \<noteq> 0) ws))
         \<and> (ws = [] \<longrightarrow> flowops s' q = flowops s q))"
proof -
  obtain now w' where n: "clk w = (now, w')" by (cases "clk w")
  let ?g = "g(GLOBAL := (g GLOBAL)\<lparr>fs_etime := now\<rparr>)" and ?s = "s\<lparr>shm_bequiet := True\<rparr>"
  have st: "worker ?s f = worker s f" "stat ?s f = stat s f" "ftype ?s f = ftype s f" "master_of ?s gs f = master_of s gs f" for f
    by (simp_all add: master_of_def)
  have c: "chain (gnext ?s) (shm_flowoplist ?s) gs" using assms(1) by (simp add: flow_inv_def)
  have r: "roll_loop ?g ?s (shm_flowoplist ?s) = Some (totals ?s gs ?g, rolled ?s gs gs)"
    using roll_loop_list [OF c c] assms(2) by simp
  define h where "h = totals ?s gs ?g"
  define h2 where "h2 = (let g = h(IO := (h IO)\<lparr>fs_syscpu := net cpu (io_stats_ohead h)\<rparr>) in
    g(GLOBAL := (g GLOBAL)\<lparr>fs_syscpu := net cpu (gl_stats_ohead g)\<rparr>))"
  let ?s' = "(rolled ?s gs gs)\<lparr>shm_bequiet := False\<rparr>"
  have snap: "stats_snap clk cpu (Some g) s w = Some (Some h2, ?s', w')"
    using assms(3) n r unfolding h2_def h_def by (simp add: stats_snap_def Let_def)
  have "sums (?g t) (map (stat s) (filter (\<lambda>f. worker s f \<and> (t = GLOBAL \<or> ftype s f = t)) gs)) (h t)" for t
    using totals_type [of gs ?s ?g t] assms(2) sums_stats_add by (simp add: h_def del: fun_upd_apply)
  then have "sums (g t) (map (stat s) (filter (\<lambda>f. worker s f \<and> (t = GLOBAL \<or> ftype s f = t)) gs)) (h2 t)" for t
    unfolding h2_def sums_fields by simp
  moreover have q: "flowops ?s' q = (flowops s q)\<lparr>fo_stats := foldl roll_master (stat s q) (workers_of s gs q gs)\<rparr>" for q
    by (simp add: rolled_def workers_of_def st)
  ultimately show ?thesis using snap sums_roll_master
    by (intro exI [of _ h2] exI [of _ ?s'] exI [of _ w']) (simp add: Let_def)
qed

text \<open>A master and one worker of it, which has read 4096 bytes.\<close>

definition ex_pair :: fbstate where
  "ex_pair = ex_fb\<lparr>vs := ex_vshm\<lparr>ipc := (ipc ex_vshm)\<lparr>shm_bitmap := (\<lambda>t i. if t = FILEBENCH_FLOWOP \<and> (i = 1 \<or> i = 2) then 1 else 0)\<rparr>\<rparr>,
     flowops := (\<lambda>p. if p = 12884901904 then zero_flowop\<lparr>fo_name := ''rd'', fo_instance := FLOW_MASTER, fo_type := FLOW_TYPE_IO\<rparr>
       else zero_flowop\<lparr>fo_name := ''rd'', fo_instance := 1, fo_type := FLOW_TYPE_IO, fo_next := 12884901904,
         fo_stats := zero_stats\<lparr>fs_count := 1, fs_bytes := 4096\<rparr>\<rparr>),
     shm_flowoplist := 12884901920\<rparr>"

lemma ex_pair_inv: "flow_inv ex_layout ex_pair [12884901920, 12884901904]"
proof -
  have "live (ipc (vs ex_pair)) FILEBENCH_FLOWOP = {1, 2}" by (auto simp: live_def ex_pair_def)
  then have "ipc_handles ex_layout FILEBENCH_FLOWOP (ipc (vs ex_pair)) = {12884901904, 12884901920}"
    by (simp add: ipc_handles_def obj_addr_def ex_layout_def)
  moreover have "ipc_wf (ipc (vs ex_pair))"
    using sizes_pos by (auto simp: ipc_wf_def ex_pair_def ex_vshm_def ipc_init_def filebench_sizes_def)
  ultimately show ?thesis using ex_layout_ok by (auto simp: flow_inv_def ex_pair_def ex_fb_def zero_flowop_def)
qed

theorem stats_snap_correct_witness:
  "\<exists>g s' w'. stats_snap (\<lambda>w. (0, w)) 0 (Some (\<lambda>_. zero_stats)) ex_pair () = Some (Some g, s', w')
     \<and> fs_bytes (g IO) = 4096 \<and> fs_count (g GLOBAL) = 1 \<and> fs_bytes (g AIO) = 0 \<and> fs_bytes (stat s' 12884901904) = 4096
     \<and> fs_children (stat s' 12884901904) = 1"
proof -
  let ?gs = "[12884901920, 12884901904]"
  have m: "master_of ex_pair ?gs 12884901920 = 12884901904" by (simp add: master_of_def ex_pair_def)
  obtain g s' w' where sn: "stats_snap (\<lambda>w. (0, w)) 0 (Some (\<lambda>_. zero_stats)) ex_pair () = Some (Some g, s', w')"
    and g: "\<And>t. sums zero_stats (map (stat ex_pair) (filter (\<lambda>f. worker ex_pair f \<and> (t = GLOBAL \<or> ftype ex_pair f = t)) ?gs)) (g t)"
    and q: "\<And>q. let ws = workers_of ex_pair ?gs q ?gs in
         flowops s' q = (flowops ex_pair q)\<lparr>fo_stats := stat s' q\<rparr> \<and> sums (stat ex_pair q) ws (stat s' q)
         \<and> fs_children (stat s' q) = fs_children (stat ex_pair q) + of_nat (length ws)
         \<and> fs_active (stat s' q) = fs_active (stat ex_pair q) + of_nat (length (filter (\<lambda>w. fs_count w \<noteq> 0) ws))
         \<and> (ws = [] \<longrightarrow> flowops s' q = flowops ex_pair q)"
    using stats_snap_correct [OF ex_pair_inv, of "\<lambda>w. (0, w)" 0 "\<lambda>_. zero_stats" "()"] by (auto simp: ex_pair_def ex_fb_def)
  have "workers_of ex_pair ?gs 12884901904 ?gs = [zero_stats\<lparr>fs_count := 1, fs_bytes := 4096\<rparr>]"
    using m by (simp add: workers_of_def ex_pair_def zero_flowop_def)
  then have "fs_bytes (stat s' 12884901904) = 4096" "fs_children (stat s' 12884901904) = 1"
    using q [of 12884901904] by (simp_all add: Let_def sums_def ex_pair_def zero_flowop_def zero_stats_def)
  moreover have "fs_bytes (g IO) = 4096" "fs_count (g GLOBAL) = 1" "fs_bytes (g AIO) = 0"
    using g [of IO] g [of GLOBAL] g [of AIO] by (simp_all add: ex_pair_def zero_stats_def sums_def)
  ultimately show ?thesis using sn by blast
qed

end
