(* ===== verification/FB_Threadflow.thy ===== *)
theory FB_Threadflow
  imports FB_Flowop
begin

text \<open>
  The threads of \<^verbatim>\<open>src/filebench/threadflow.c\<close> and the processes of \<^verbatim>\<open>src/filebench/procflow.c\<close>. A script defines
  masters; when the run starts, each process is copied once for each instance and each of its threads likewise, the
  copies at the head of the list; when it ends, everything but the masters is deleted.

  The program is the one compiled without \<^verbatim>\<open>USE_PROCESS_MODEL\<close>: a process is a thread that runs \<open>threadflow_init\<close>.
  \<open>env\<close> is what happens to the shared state during a sleep. \<open>spawn\<close> is \<open>pthread_create\<close>: the identifier
  of the thread, or none. \<open>join\<close> is \<open>pthread_join\<close>: the number the thread has left, if the call succeeds.

  The lock of the threads is the flag \<open>shm_threadflow_lock\<close>. An operation that finds it set does not return. \<open>None\<close> is
  that, or undefined behaviour as in \<open>FB_Flowop\<close>. \<open>Inl\<close> is the end of the program, with the exit code or the signal.
\<close>

abbreviation (input) THREADFLOW_USEISM :: uint32 where "THREADFLOW_USEISM \<equiv> 1"
abbreviation (input) SHUTDOWN_WAIT_SECONDS :: int where "SHUTDOWN_WAIT_SECONDS \<equiv> 3"
abbreviation (input) FILEBENCH_ABORT_FINI :: int where "FILEBENCH_ABORT_FINI \<equiv> 4"
abbreviation (input) SIGKILL :: int where "SIGKILL \<equiv> 9"

definition upd_pf :: "fbstate \<Rightarrow> ptr \<Rightarrow> (procflow \<Rightarrow> procflow) \<Rightarrow> fbstate" where
  "upd_pf s p f = s\<lparr>procs := (procs s)(p := f (procs s p))\<rparr>"

definition lock_tf :: "fbstate \<Rightarrow> fbstate option" where
  "lock_tf s = (if shm_threadflow_lock s then None else Some (s\<lparr>shm_threadflow_lock := True\<rparr>))"

definition unlock_tf :: "fbstate \<Rightarrow> fbstate" where
  "unlock_tf s = s\<lparr>shm_threadflow_lock := False\<rparr>"

subsection \<open>Defining threads\<close>

text \<open>With an empty list, the next thread of the new one is \<open>NULL\<close>, which is the head as well.\<close>

definition threadflow_define_common :: "layout \<Rightarrow> fbstate \<Rightarrow> ptr \<Rightarrow> string option \<Rightarrow> ptr \<Rightarrow> int \<Rightarrow> (ptr \<times> fbstate) option" where
  "threadflow_define_common L s procflow name inherit instance =
     (case name of
        None \<Rightarrow> Some (NULL, s)
      | Some nm \<Rightarrow> do {
          (threadflow, i) \<leftarrow> ipc_malloc L (\<lambda>_. ()) (ipc (vs s)) FILEBENCH_THREADFLOW;
          let s = s\<lparr>vs := (vs s)\<lparr>ipc := i\<rparr>\<rparr>;
          if threadflow = NULL then Some (NULL, s)
          else do {
            let s = upd_tf s threadflow (\<lambda>_. if inherit \<noteq> NULL then threads s inherit else zero_threadflow);
            let s = s\<lparr>shm_utid := shm_utid s + 1\<rparr>;
            let s = upd_tf s threadflow (\<lambda>t. t\<lparr>tf_utid := shm_utid s, tf_instance := instance\<rparr>);
            if length nm \<ge> 128 then None
            else do {
              let s = upd_tf s threadflow (\<lambda>t. t\<lparr>tf_name := nm, tf_process := procflow\<rparr>);
              let s = upd_tf s threadflow (\<lambda>t. t\<lparr>tf_next := pf_threads (procs s procflow)\<rparr>);
              Some (threadflow, upd_pf s procflow (\<lambda>p. p\<lparr>pf_threads := threadflow\<rparr>)) } } })"

text \<open>When there is no thread left, the lock stays held.\<close>

definition threadflow_define :: "layout \<Rightarrow> fbstate \<Rightarrow> ptr \<Rightarrow> string option \<Rightarrow> ptr \<Rightarrow> ptr \<Rightarrow> (ptr \<times> fbstate) option" where
  "threadflow_define L s procflow name inherit instances = do {
     s \<leftarrow> lock_tf s;
     (threadflow, s) \<leftarrow> threadflow_define_common L s procflow name inherit FLOW_MASTER;
     if threadflow = NULL then Some (NULL, s)
     else Some (threadflow, unlock_tf (upd_tf s threadflow (\<lambda>t. t\<lparr>tf_instances := instances\<rparr>))) }"

partial_function (option) tf_find_loop :: "(ptr \<Rightarrow> threadflow) \<Rightarrow> string \<Rightarrow> ptr \<Rightarrow> ptr option" where
  "tf_find_loop tf name p =
     (if p = NULL then Some NULL else if name = tf_name (tf p) then Some p else tf_find_loop tf name (tf_next (tf p)))"

definition threadflow_find :: "fbstate \<Rightarrow> ptr \<Rightarrow> string \<Rightarrow> (ptr \<times> fbstate) option" where
  "threadflow_find s threadlist name = do {
     s \<leftarrow> lock_tf s;
     p \<leftarrow> tf_find_loop (threads s) name threadlist;
     Some (p, unlock_tf s) }"

subsection \<open>Running threads\<close>

type_synonym 'w spawn = "fbstate \<Rightarrow> ptr \<Rightarrow> 'w \<Rightarrow> uint64 option \<times> 'w"

text \<open>The result is \<open>FILEBENCH_OK\<close>, or the program ends.\<close>

definition threadflow_createthread :: "'w machine \<Rightarrow> 'w spawn \<Rightarrow> fbstate \<Rightarrow> ptr \<Rightarrow> 'w \<Rightarrow> (int + fbstate \<times> 'w) option" where
  "threadflow_createthread M spawn s threadflow w = do {
     (memsize, w) \<leftarrow> get_int M s (tf_memsize (threads s threadflow)) w;
     let s = upd_tf s threadflow (\<lambda>t. t\<lparr>tf_constmemsize := memsize\<rparr>);
     let s = (if tf_attrs (threads s threadflow) AND THREADFLOW_USEISM \<noteq> 0 then s\<lparr>shm_required := shm_required s + memsize\<rparr> else s);
     let (tid, w) = spawn s threadflow w;
     Some (case tid of
       None \<Rightarrow> Inl 1
     | Some tid \<Rightarrow> Inr (upd_tf s threadflow (\<lambda>t. t\<lparr>tf_tid := tid\<rparr>), w)) }"

text \<open>The copies of one thread, with the given instance numbers; \<open>False\<close> when there is no thread left.\<close>

fun create_instances ::
  "'w machine \<Rightarrow> 'w spawn \<Rightarrow> ptr \<Rightarrow> ptr \<Rightarrow> int list \<Rightarrow> fbstate \<Rightarrow> 'w \<Rightarrow> (int + bool \<times> fbstate \<times> 'w) option" where
  "create_instances M spawn procflow threadflow [] s w = Some (Inr (True, s, w))"
| "create_instances M spawn procflow threadflow (i # is) s w = do {
     (newthread, s) \<leftarrow> threadflow_define_common (lay M) s procflow (Some (tf_name (threads s threadflow))) threadflow i;
     if newthread = NULL then Some (Inr (False, s, w))
     else do {
       r \<leftarrow> threadflow_createthread M spawn s newthread w;
       case r of
         Inl e \<Rightarrow> Some (Inl e)
       | Inr (s, w) \<Rightarrow> create_instances M spawn procflow threadflow is s w } }"

text \<open>The instance numbers in the order of their creation: \<open>2\<close> to the number of instances, and \<open>1\<close> at the end.\<close>

definition instance_order :: "fbint \<Rightarrow> int list" where
  "instance_order instances = map int [2..<Suc (iter_count instances)] @ [1]"

partial_function (option) create_threads ::
  "'w machine \<Rightarrow> 'w spawn \<Rightarrow> ptr \<Rightarrow> ptr \<Rightarrow> fbstate \<Rightarrow> 'w \<Rightarrow> (int + bool \<times> fbstate \<times> 'w) option" where
  "create_threads M spawn procflow threadflow s w =
     (if threadflow = NULL then Some (Inr (True, s, w))
      else do {
        (instances, w) \<leftarrow> get_int M s (tf_instances (threads s threadflow)) w;
        r \<leftarrow> create_instances M spawn procflow threadflow (instance_order instances) s w;
        case r of
          Inl e \<Rightarrow> Some (Inl e)
        | Inr (ok, s, w) \<Rightarrow>
            if ok then create_threads M spawn procflow (tf_next (threads s threadflow)) s w else Some (Inr (False, s, w)) })"

partial_function (option) join_threads ::
  "(uint64 \<Rightarrow> fbstate \<Rightarrow> 'w \<Rightarrow> int option \<times> fbstate \<times> 'w) \<Rightarrow> ptr \<Rightarrow> int \<Rightarrow> fbstate \<Rightarrow> 'w \<Rightarrow> (int \<times> fbstate \<times> 'w) option" where
  "join_threads join threadflow ret s w =
     (if threadflow = NULL then Some (ret, s, w)
      else if tf_tid (threads s threadflow) = 0 then join_threads join (tf_next (threads s threadflow)) ret s w
      else
        let (status, s, w) = join (tf_tid (threads s threadflow)) s w;
            ret = (case status of None \<Rightarrow> ret | Some n \<Rightarrow> ret + n) in
        join_threads join (tf_next (threads s threadflow)) ret s w)"

text \<open>When there is no thread left, the lock stays held here too.\<close>

definition threadflow_init ::
  "'w machine \<Rightarrow> 'w spawn \<Rightarrow> (uint64 \<Rightarrow> fbstate \<Rightarrow> 'w \<Rightarrow> int option \<times> fbstate \<times> 'w) \<Rightarrow> ptr \<Rightarrow> fbstate \<Rightarrow> 'w
     \<Rightarrow> (int + int \<times> fbstate \<times> 'w) option" where
  "threadflow_init M spawn join procflow s w = do {
     let threadflow = pf_threads (procs s procflow);
     s \<leftarrow> lock_tf s;
     r \<leftarrow> create_threads M spawn procflow threadflow s w;
     case r of
       Inl e \<Rightarrow> Some (Inl e)
     | Inr (ok, s, w) \<Rightarrow>
         if \<not> ok then Some (Inr (-1, s, w))
         else do {
           let threadflow = pf_threads (procs s procflow);
           let s = unlock_tf s;
           (ret, s, w) \<leftarrow> join_threads join threadflow 0 s w;
           Some (Inr (ret, upd_pf s procflow (\<lambda>p. p\<lparr>pf_running := 0\<rparr>), w)) } }"

partial_function (option) threadflow_allstarted_loop :: "(fbstate \<Rightarrow> fbstate) \<Rightarrow> nat \<Rightarrow> fbstate \<Rightarrow> ptr \<Rightarrow> fbstate option" where
  "threadflow_allstarted_loop env waits s threadflow =
     (if threadflow = NULL then Some s
      else if tf_instance (threads s threadflow) = 0 \<or> tf_instance (threads s threadflow) = FLOW_MASTER
      then threadflow_allstarted_loop env 10 s (tf_next (threads s threadflow))
      else if waits \<noteq> 0 \<and> tf_running (threads s threadflow) = 0 \<and> shm_f_abort s = 0
      then do {
        s \<leftarrow> lock_tf (env (unlock_tf s));
        threadflow_allstarted_loop env (waits - 1) s threadflow }
      else threadflow_allstarted_loop env 10 s (tf_next (threads s threadflow)))"

definition threadflow_allstarted :: "(fbstate \<Rightarrow> fbstate) \<Rightarrow> fbstate \<Rightarrow> ptr \<Rightarrow> fbstate option" where
  "threadflow_allstarted env s threadflow = do {
     s \<leftarrow> lock_tf s;
     s \<leftarrow> threadflow_allstarted_loop env 10 s threadflow;
     Some (unlock_tf s) }"

subsection \<open>Deleting threads\<close>

fun kill_wait :: "(fbstate \<Rightarrow> fbstate) \<Rightarrow> ptr \<Rightarrow> nat \<Rightarrow> fbstate \<Rightarrow> fbstate" where
  "kill_wait env threadflow 0 s = s"
| "kill_wait env threadflow (Suc n) s =
     (if tf_running (threads s threadflow) \<noteq> 0 then kill_wait env threadflow n (env s) else s)"

text \<open>\<open>SIGKILL\<close> ends the whole process, whatever thread it is sent to.\<close>

definition threadflow_kill :: "(fbstate \<Rightarrow> fbstate) \<Rightarrow> fbstate \<Rightarrow> ptr \<Rightarrow> int + fbstate" where
  "threadflow_kill env s threadflow =
     (let s = upd_tf s threadflow (\<lambda>t. t\<lparr>tf_abort := 1\<rparr>);
          s = kill_wait env threadflow 2 s in
      if tf_running (threads s threadflow) \<noteq> 0 then Inl SIGKILL else Inr s)"

definition drop_thread :: "layout \<Rightarrow> fbstate \<Rightarrow> ptr \<Rightarrow> fbstate" where
  "drop_thread L s threadflow = s\<lparr>vs := (vs s)\<lparr>ipc := ipc_free L (ipc (vs s)) FILEBENCH_THREADFLOW threadflow\<rparr>\<rparr>"

partial_function (option) tf_before :: "(ptr \<Rightarrow> threadflow) \<Rightarrow> ptr \<Rightarrow> ptr \<Rightarrow> ptr option" where
  "tf_before tf threadflow entry =
     (if tf_next (tf entry) = NULL then Some NULL
      else if threadflow = tf_next (tf entry) then Some entry
      else tf_before tf threadflow (tf_next (tf entry)))"

definition threadflow_delete :: "layout \<Rightarrow> (fbstate \<Rightarrow> fbstate) \<Rightarrow> fbstate \<Rightarrow> ptr \<Rightarrow> ptr \<Rightarrow> (int + int \<times> fbstate) option" where
  "threadflow_delete L env s procflow threadflow = do {
     let entry = pf_threads (procs s procflow);
     let s = (if tf_attrs (threads s threadflow) AND THREADFLOW_USEISM \<noteq> 0
              then s\<lparr>shm_required := shm_required s - tf_constmemsize (threads s threadflow)\<rparr> else s);
     if threadflow = entry then
       (case threadflow_kill env s threadflow of
          Inl e \<Rightarrow> Some (Inl e)
        | Inr s \<Rightarrow> do {
            s \<leftarrow> flowop_delete_all L s (tf_fops threadflow);
            let s = upd_pf s procflow (\<lambda>p. p\<lparr>pf_threads := tf_next (threads s threadflow)\<rparr>);
            Some (Inr (0, drop_thread L s threadflow)) })
     else if entry = NULL then None
     else do {
       before \<leftarrow> tf_before (threads s) threadflow entry;
       if before = NULL then Some (Inr (-1, s))
       else
         (case threadflow_kill env s threadflow of
            Inl e \<Rightarrow> Some (Inl e)
          | Inr s \<Rightarrow> do {
              s \<leftarrow> flowop_delete_all L s (tf_fops threadflow);
              let s = drop_thread L s threadflow;
              Some (Inr (0, upd_tf s before (\<lambda>t. t\<lparr>tf_next := tf_next (threads s (tf_next t))\<rparr>))) }) } }"

text \<open>The next thread is read from the one that has just been freed.\<close>

partial_function (option) tf_delete_loop :: "layout \<Rightarrow> (fbstate \<Rightarrow> fbstate) \<Rightarrow> ptr \<Rightarrow> fbstate \<Rightarrow> ptr \<Rightarrow> (int + fbstate) option" where
  "tf_delete_loop L env procflow s threadflow =
     (if threadflow = NULL then Some (Inr s)
      else if tf_instance (threads s threadflow) = FLOW_MASTER
      then tf_delete_loop L env procflow s (tf_next (threads s threadflow))
      else do {
        r \<leftarrow> threadflow_delete L env s procflow threadflow;
        case r of
          Inl e \<Rightarrow> Some (Inl e)
        | Inr (_, s) \<Rightarrow> tf_delete_loop L env procflow s (tf_next (threads s threadflow)) })"

definition threadflow_delete_all :: "layout \<Rightarrow> (fbstate \<Rightarrow> fbstate) \<Rightarrow> fbstate \<Rightarrow> ptr \<Rightarrow> (int + fbstate) option" where
  "threadflow_delete_all L env s procflow = do {
     s \<leftarrow> lock_tf s;
     r \<leftarrow> tf_delete_loop L env procflow s (pf_threads (procs s procflow));
     Some (case r of Inl e \<Rightarrow> Inl e | Inr s \<Rightarrow> Inr (unlock_tf s)) }"

subsection \<open>Processes\<close>

definition procflow_define_common :: "layout \<Rightarrow> fbstate \<Rightarrow> string option \<Rightarrow> ptr \<Rightarrow> int \<Rightarrow> (ptr \<times> fbstate) option" where
  "procflow_define_common L s name inherit instance =
     (case name of
        None \<Rightarrow> Some (NULL, s)
      | Some nm \<Rightarrow> do {
          (procflow, i) \<leftarrow> ipc_malloc L (\<lambda>_. ()) (ipc (vs s)) FILEBENCH_PROCFLOW;
          let s = s\<lparr>vs := (vs s)\<lparr>ipc := i\<rparr>\<rparr>;
          if procflow = NULL then Some (NULL, s)
          else do {
            let s = upd_pf s procflow (\<lambda>_. if inherit \<noteq> NULL then procs s inherit else zero_procflow);
            let s = upd_pf s procflow (\<lambda>p. p\<lparr>pf_instance := instance\<rparr>);
            if length nm \<ge> 128 then None
            else do {
              let s = upd_pf s procflow (\<lambda>p. p\<lparr>pf_name := nm, pf_next := shm_proclist s\<rparr>);
              Some (procflow, s\<lparr>shm_proclist := procflow\<rparr>) } } })"

text \<open>A null pointer is followed when there is no process left.\<close>

definition procflow_define :: "layout \<Rightarrow> fbstate \<Rightarrow> string option \<Rightarrow> ptr \<Rightarrow> ptr \<Rightarrow> (ptr \<times> fbstate) option" where
  "procflow_define L s name inherit instances = do {
     (procflow, s) \<leftarrow> procflow_define_common L s name inherit FLOW_MASTER;
     if procflow = NULL then None
     else Some (procflow, upd_pf s procflow (\<lambda>p. p\<lparr>pf_instances := instances\<rparr>)) }"

partial_function (option) pf_find_loop :: "(ptr \<Rightarrow> procflow) \<Rightarrow> string \<Rightarrow> int \<Rightarrow> ptr \<Rightarrow> ptr option" where
  "pf_find_loop pf name instance p =
     (if p = NULL then Some NULL
      else if name = pf_name (pf p) \<and> instance = pf_instance (pf p) then Some p
      else pf_find_loop pf name instance (pf_next (pf p)))"

definition procflow_find :: "fbstate \<Rightarrow> string \<Rightarrow> int \<Rightarrow> ptr option" where
  "procflow_find s name instance = pf_find_loop (procs s) name instance (shm_proclist s)"

text \<open>A process that cannot be started is marked as not running; the result is \<open>0\<close> all the same.\<close>

definition procflow_createproc :: "'w spawn \<Rightarrow> fbstate \<Rightarrow> ptr \<Rightarrow> 'w \<Rightarrow> int \<times> fbstate \<times> 'w" where
  "procflow_createproc spawn s procflow w =
     (let s = upd_pf s procflow (\<lambda>p. p\<lparr>pf_running := 1\<rparr>);
          (tid, w) = spawn s procflow w in
      case tid of
        None \<Rightarrow> (0, upd_pf s procflow (\<lambda>p. p\<lparr>pf_running := 0\<rparr>), w)
      | Some tid \<Rightarrow> (0, upd_pf s procflow (\<lambda>p. p\<lparr>pf_tid := tid\<rparr>), w))"

fun create_procs :: "layout \<Rightarrow> 'w spawn \<Rightarrow> ptr \<Rightarrow> int list \<Rightarrow> fbstate \<Rightarrow> 'w \<Rightarrow> (int \<times> fbstate \<times> 'w) option" where
  "create_procs L spawn procflow [] s w = Some (0, s, w)"
| "create_procs L spawn procflow (i # is) s w = do {
     (newproc, s) \<leftarrow> procflow_define_common L s (Some (pf_name (procs s procflow))) procflow i;
     if newproc = NULL then Some (-1, s, w)
     else
       let (ret, s, w) = procflow_createproc spawn s newproc w in
       if ret = 0 then create_procs L spawn procflow is s w else Some (ret, s, w) }"

partial_function (option) create_all_loop :: "'w machine \<Rightarrow> 'w spawn \<Rightarrow> ptr \<Rightarrow> fbstate \<Rightarrow> 'w \<Rightarrow> (int \<times> fbstate \<times> 'w) option" where
  "create_all_loop M spawn procflow s w =
     (if procflow = NULL then Some (0, s, w)
      else do {
        (instances, w) \<leftarrow> get_int M s (pf_instances (procs s procflow)) w;
        (ret, s, w) \<leftarrow> create_procs (lay M) spawn procflow (map int [1..<Suc (iter_count instances)]) s w;
        if ret \<noteq> 0 then Some (ret, s, w) else create_all_loop M spawn (pf_next (procs s procflow)) s w })"

definition procflow_create_all_procs :: "'w machine \<Rightarrow> 'w spawn \<Rightarrow> fbstate \<Rightarrow> 'w \<Rightarrow> (int \<times> fbstate \<times> 'w) option" where
  "procflow_create_all_procs M spawn s w = create_all_loop M spawn (shm_proclist s) s w"

text \<open>The value of \<open>avd_get_int\<close> that \<open>procflow_init\<close> logs is read before the processes are created.\<close>

definition procflow_init :: "'w machine \<Rightarrow> 'w spawn \<Rightarrow> fbstate \<Rightarrow> 'w \<Rightarrow> (int \<times> fbstate \<times> 'w) option" where
  "procflow_init M spawn s w =
     (if shm_proclist s = NULL then Some (FILEBENCH_ERROR, s, w)
      else do {
        (_, w) \<leftarrow> get_int M s (pf_instances (procs s (shm_proclist s))) w;
        procflow_create_all_procs M spawn s w })"

subsection \<open>Ending processes\<close>

text \<open>The test is a bitwise conjunction of the flag and the number of seconds left.\<close>

partial_function (option) procflow_sleep :: "(fbstate \<Rightarrow> fbstate) \<Rightarrow> ptr \<Rightarrow> int \<Rightarrow> fbstate \<Rightarrow> fbstate option" where
  "procflow_sleep env procflow wait_cnt s =
     (if pf_running (procs s procflow) AND wait_cnt \<noteq> 0 then procflow_sleep env procflow (wait_cnt - 1) (env s) else Some s)"

partial_function (option) pf_before :: "(ptr \<Rightarrow> procflow) \<Rightarrow> ptr \<Rightarrow> ptr \<Rightarrow> ptr option" where
  "pf_before pf procflow entry =
     (if entry = NULL \<or> pf_next (pf entry) = procflow then Some entry else pf_before pf procflow (pf_next (pf entry)))"

definition drop_proc :: "layout \<Rightarrow> fbstate \<Rightarrow> ptr \<Rightarrow> fbstate" where
  "drop_proc L s procflow = s\<lparr>vs := (vs s)\<lparr>ipc := ipc_free L (ipc (vs s)) FILEBENCH_PROCFLOW procflow\<rparr>\<rparr>"

definition procflow_cleanup :: "layout \<Rightarrow> fbstate \<Rightarrow> ptr \<Rightarrow> (int \<times> fbstate) option" where
  "procflow_cleanup L s procflow = do {
     let s = upd_pf s procflow (\<lambda>p. p\<lparr>pf_running := 0\<rparr>);
     if shm_proclist s = procflow then
       Some (0, drop_proc L (s\<lparr>shm_proclist := pf_next (procs s procflow)\<rparr>) procflow)
     else do {
       entry \<leftarrow> pf_before (procs s) procflow (shm_proclist s);
       if entry = NULL then Some (-1, s)
       else Some (0, drop_proc L (upd_pf s entry (\<lambda>p. p\<lparr>pf_next := pf_next (procs s procflow)\<rparr>)) procflow) } }"

partial_function (option) proc_started_wait :: "(fbstate \<Rightarrow> fbstate) \<Rightarrow> nat \<Rightarrow> ptr \<Rightarrow> fbstate \<Rightarrow> (bool \<times> fbstate) option" where
  "proc_started_wait env waits procflow s =
     (if waits \<noteq> 0 \<and> pf_running (procs s procflow) = 0 then
        if shm_f_abort s = 1 then Some (False, s) else proc_started_wait env (waits - 1) procflow (env s)
      else Some (True, s))"

partial_function (option) proc_allstarted_loop :: "(fbstate \<Rightarrow> fbstate) \<Rightarrow> int \<Rightarrow> fbstate \<Rightarrow> ptr \<Rightarrow> (int \<times> fbstate) option" where
  "proc_allstarted_loop env running s procflow =
     (if procflow = NULL then Some (0, s\<lparr>shm_procs_running := running\<rparr>)
      else if pf_instance (procs s procflow) = FLOW_MASTER then proc_allstarted_loop env running s (pf_next (procs s procflow))
      else do {
        (ok, s) \<leftarrow> proc_started_wait env 10 procflow s;
        if \<not> ok then Some (-1, s)
        else do {
          s \<leftarrow> threadflow_allstarted env s (pf_threads (procs s procflow));
          proc_allstarted_loop env (running + 1) s (pf_next (procs s procflow)) } })"

text \<open>The first second of sleep comes before the list is walked.\<close>

definition procflow_allstarted :: "(fbstate \<Rightarrow> fbstate) \<Rightarrow> fbstate \<Rightarrow> (int \<times> fbstate) option" where
  "procflow_allstarted env s = proc_allstarted_loop env 0 (env s) (shm_proclist s)"

partial_function (option) shutdown_loop :: "layout \<Rightarrow> (fbstate \<Rightarrow> fbstate) \<Rightarrow> int \<Rightarrow> fbstate \<Rightarrow> ptr \<Rightarrow> (int + fbstate) option" where
  "shutdown_loop L env wait_cnt s procflow =
     (if procflow = NULL then Some (Inr s)
      else if pf_instance (procs s procflow) = FLOW_MASTER then shutdown_loop L env wait_cnt s (pf_next (procs s procflow))
      else do {
        let next_procflow = pf_next (procs s procflow);
        s \<leftarrow> procflow_sleep env procflow wait_cnt s;
        r \<leftarrow> (if pf_running (procs s procflow) \<noteq> 0 then threadflow_delete_all L env s procflow else Some (Inr s));
        case r of
          Inl e \<Rightarrow> Some (Inl e)
        | Inr s \<Rightarrow> do {
            (_, s) \<leftarrow> procflow_cleanup L s procflow;
            shutdown_loop L env (if wait_cnt > 0 then wait_cnt - 1 else wait_cnt) s next_procflow } })"

definition procflow_shutdown :: "layout \<Rightarrow> (fbstate \<Rightarrow> fbstate) \<Rightarrow> fbstate \<Rightarrow> (int + fbstate) option" where
  "procflow_shutdown L env s =
     (if shm_procs_running s \<le> 0 then Some (Inr s)
      else if shm_f_abort s = FILEBENCH_ABORT_FINI then Some (Inr s)
      else do {
        let procflow = shm_proclist s;
        let s = (if shm_f_abort s = FILEBENCH_OK then s\<lparr>shm_f_abort := FILEBENCH_ABORT_DONE\<rparr> else s);
        r \<leftarrow> shutdown_loop L env SHUTDOWN_WAIT_SECONDS s procflow;
        Some (case r of
          Inl e \<Rightarrow> Inl e
        | Inr s \<Rightarrow> Inr (s\<lparr>shm_f_abort := FILEBENCH_ABORT_FINI, shm_procs_running := 0\<rparr>)) })"

end
