(* ===== verification/FB_Threadflow_Correct.thy ===== *)
theory FB_Threadflow_Correct
  imports FB_Threadflow FB_Flowop_Correct
begin

text \<open>
  Starting and ending a run: \<open>threadflow_init\<close> makes one copy of each thread for each instance, and at least one; and
  \<open>procflow_shutdown\<close> deletes every process that is not a master.
\<close>

subsection \<open>The lists\<close>

abbreviation tnext :: "fbstate \<Rightarrow> ptr \<Rightarrow> ptr" where
  "tnext s \<equiv> \<lambda>p. tf_next (threads s p)"

abbreviation pnext :: "fbstate \<Rightarrow> ptr \<Rightarrow> ptr" where
  "pnext s \<equiv> \<lambda>p. pf_next (procs s p)"

abbreviation thandles :: "layout \<Rightarrow> fbstate \<Rightarrow> ptr set" where
  "thandles L s \<equiv> ipc_handles L FILEBENCH_THREADFLOW (ipc (vs s))"

abbreviation phandles :: "layout \<Rightarrow> fbstate \<Rightarrow> ptr set" where
  "phandles L s \<equiv> ipc_handles L FILEBENCH_PROCFLOW (ipc (vs s))"

definition mem_ok :: "layout \<Rightarrow> fbstate \<Rightarrow> bool" where
  "mem_ok L s \<longleftrightarrow> layout_ok L \<and> ipc_wf (ipc (vs s))"

definition on_threads :: "fbstate \<Rightarrow> ptr \<Rightarrow> ptr list \<Rightarrow> bool" where
  "on_threads s pf ts \<longleftrightarrow> chain (tnext s) (pf_threads (procs s pf)) ts"

lemma upd_pf_simps [simp]:
  "flowops (upd_pf s p f) = flowops s" "threads (upd_pf s p f) = threads s" "procs (upd_pf s p f) = (procs s)(p := f (procs s p))"
  "shm_flowoplist (upd_pf s p f) = shm_flowoplist s" "shm_proclist (upd_pf s p f) = shm_proclist s" "vs (upd_pf s p f) = vs s"
  "shm_threadflow_lock (upd_pf s p f) = shm_threadflow_lock s"
  by (simp_all add: upd_pf_def)

lemma upd_tf_more [simp]:
  "procs (upd_tf s p f) = procs s" "shm_proclist (upd_tf s p f) = shm_proclist s" "shm_threadflow_lock (upd_tf s p f) = shm_threadflow_lock s"
  "shm_utid (upd_tf s p f) = shm_utid s"
  by (simp_all add: upd_tf_def)

text \<open>What stays when memory is allocated: the values that descriptors give.\<close>

definition same_vars :: "fbstate \<Rightarrow> fbstate \<Rightarrow> bool" where
  "same_vars s t \<longleftrightarrow> (\<exists>i. vs t = (vs s)\<lparr>ipc := i\<rparr>)"

lemma same_vars_refl: "same_vars s s"
  by (auto simp: same_vars_def intro: exI [of _ "ipc (vs s)"])

lemma same_vars_trans: "same_vars s t \<Longrightarrow> same_vars t u \<Longrightarrow> same_vars s u"
  by (auto simp: same_vars_def)

lemma same_vars_eq: "vs t = vs s \<Longrightarrow> same_vars s t"
  using same_vars_refl by (simp add: same_vars_def)

definition reads :: "'w machine \<Rightarrow> fbstate \<Rightarrow> ptr \<Rightarrow> fbint \<Rightarrow> bool" where
  "reads M s a n \<longleftrightarrow> (\<forall>t w. same_vars s t \<longrightarrow> get_int M t a w = Some (n, w))"

lemma reads_get: "reads M s a n \<Longrightarrow> get_int M s a w = Some (n, w)"
  using same_vars_refl by (simp add: reads_def)

lemma reads_same: "reads M s a n \<Longrightarrow> same_vars s t \<Longrightarrow> reads M t a n"
  unfolding reads_def using same_vars_trans by blast

subsection \<open>Copies of a thread\<close>

lemma define_thread_cases:
  assumes m: "mem_ok L s" and l: "on_threads s pf ts" "set ts \<subseteq> thandles L s" and len: "length nm < 128"
  obtains (full) "\<not> has_slot (ipc (vs s)) FILEBENCH_THREADFLOW" "threadflow_define_common L s pf (Some nm) inherit inst = Some (NULL, s)"
  | (new) p s' where "threadflow_define_common L s pf (Some nm) inherit inst = Some (p, s')" "p \<noteq> NULL" "p \<notin> thandles L s"
      "mem_ok L s'" "on_threads s' pf (p # ts)" "thandles L s' = insert p (thandles L s)" "same_vars s s'"
      "\<And>q. q \<noteq> p \<Longrightarrow> threads s' q = threads s q" "tf_name (threads s' p) = nm" "tf_instance (threads s' p) = inst"
      "inherit \<noteq> NULL \<Longrightarrow> tf_memsize (threads s' p) = tf_memsize (threads s inherit)"
      "shm_threadflow_lock s' = shm_threadflow_lock s" "procs s' = (procs s)(pf := (procs s pf)\<lparr>pf_threads := p\<rparr>)"
proof (rule ipc_malloc_cases [where shm = "ipc (vs s)" and L = L and type = FILEBENCH_THREADFLOW and zero = "\<lambda>_. ()"])
  show "ipc_wf (ipc (vs s))" "layout_ok L" using m by (simp_all add: mem_ok_def)
  show "FILEBENCH_THREADFLOW < FILEBENCH_TYPES" by simp
next
  assume "\<not> has_slot (ipc (vs s)) FILEBENCH_THREADFLOW"
    "ipc_malloc L (\<lambda>_. ()) (ipc (vs s)) FILEBENCH_THREADFLOW = Some (NULL, ipc (vs s))"
  then show thesis using full by (simp add: threadflow_define_common_def)
next
  fix p i
  assume a: "ipc_malloc L (\<lambda>_. ()) (ipc (vs s)) FILEBENCH_THREADFLOW = Some (p, i)" "p \<noteq> NULL" "ipc_wf i" "p \<notin> thandles L s"
    "ipc_handles L FILEBENCH_THREADFLOW i = insert p (thandles L s)"
  let ?t = "(if inherit \<noteq> NULL then threads s inherit else zero_threadflow)
    \<lparr>tf_utid := shm_utid s + 1, tf_instance := inst, tf_name := nm, tf_process := pf, tf_next := pf_threads (procs s pf)\<rparr>"
  let ?s = "s\<lparr>vs := (vs s)\<lparr>ipc := i\<rparr>, threads := (threads s)(p := ?t), shm_utid := shm_utid s + 1,
    procs := (procs s)(pf := (procs s pf)\<lparr>pf_threads := p\<rparr>)\<rparr>"
  have d: "threadflow_define_common L s pf (Some nm) inherit inst = Some (p, ?s)"
    using a(1,2) len by (simp add: threadflow_define_common_def upd_tf_def upd_pf_def)
  have "p \<notin> set ts" using a(4) l(2) by auto
  then have "chain (tnext ?s) (pf_threads (procs s pf)) ts"
    using l(1) unfolding on_threads_def by (elim chain_frame) auto
  then have o: "on_threads ?s pf (p # ts)" using a(2) by (simp add: on_threads_def)
  have h: "mem_ok L ?s" "thandles L ?s = insert p (thandles L s)" "same_vars s ?s"
    using m a(3,5) by (auto simp: mem_ok_def same_vars_def)
  show thesis by (rule new [OF d a(2,4) h(1) o h(2,3)]) simp_all
qed

definition spawns :: "'w spawn \<Rightarrow> bool" where
  "spawns spawn \<longleftrightarrow> (\<forall>s t w. fst (spawn s t w) \<noteq> None)"

abbreviation label :: "fbstate \<Rightarrow> ptr \<Rightarrow> string \<times> int" where
  "label s t \<equiv> (tf_name (threads s t), tf_instance (threads s t))"

text \<open>The threads \<open>ts\<close> of a process, with new ones of the given labels in front, the last label first.\<close>

definition grown :: "layout \<Rightarrow> fbstate \<Rightarrow> ptr \<Rightarrow> ptr list \<Rightarrow> (string \<times> int) list \<Rightarrow> fbstate \<Rightarrow> ptr list \<Rightarrow> bool" where
  "grown L s pf ts labels s' new \<longleftrightarrow> mem_ok L s' \<and> on_threads s' pf (new @ ts) \<and> set (new @ ts) \<subseteq> thandles L s' \<and> same_vars s s'
     \<and> (\<forall>q \<in> set ts. threads s' q = threads s q) \<and> map (label s') new = rev labels
     \<and> shm_threadflow_lock s' = shm_threadflow_lock s \<and> (\<forall>q. pf_running (procs s' q) = pf_running (procs s q))"

lemma grown_refl: "mem_ok L s \<Longrightarrow> on_threads s pf ts \<Longrightarrow> set ts \<subseteq> thandles L s \<Longrightarrow> grown L s pf ts [] s []"
  by (simp add: grown_def same_vars_refl)

lemma grown_trans:
  assumes "grown L s pf ts as t xs" "grown L t pf (xs @ ts) bs u ys"
  shows "grown L s pf ts (as @ bs) u (ys @ xs)"
proof -
  have "map (label u) xs = map (label t) xs" using assms(2) by (intro map_cong) (auto simp: grown_def)
  then show ?thesis using assms same_vars_trans unfolding grown_def by auto
qed

lemma one_instance:
  assumes sp: "spawns spawn" and g: "mem_ok (lay M) s" "on_threads s pf ts" "set ts \<subseteq> thandles (lay M) s"
    and t: "tf \<noteq> NULL" "reads M s (tf_memsize (threads s tf)) n" "length (tf_name (threads s tf)) < 128"
  obtains (full) "\<not> has_slot (ipc (vs s)) FILEBENCH_THREADFLOW"
      "threadflow_define_common (lay M) s pf (Some (tf_name (threads s tf))) tf i = Some (NULL, s)"
  | (new) p s1 s2 w2 where "p \<noteq> NULL" "threadflow_define_common (lay M) s pf (Some (tf_name (threads s tf))) tf i = Some (p, s1)"
      "threadflow_createthread M spawn s1 p w = Some (Inr (s2, w2))" "grown (lay M) s pf ts [(tf_name (threads s tf), i)] s2 [p]"
proof (rule define_thread_cases [OF g t(3), of tf i])
  assume "\<not> has_slot (ipc (vs s)) FILEBENCH_THREADFLOW" "threadflow_define_common (lay M) s pf (Some (tf_name (threads s tf))) tf i = Some (NULL, s)"
  then show thesis by (rule full)
next
  fix p s1
  assume d: "threadflow_define_common (lay M) s pf (Some (tf_name (threads s tf))) tf i = Some (p, s1)" "p \<noteq> NULL" "p \<notin> thandles (lay M) s"
    "mem_ok (lay M) s1" "on_threads s1 pf (p # ts)" "thandles (lay M) s1 = insert p (thandles (lay M) s)" "same_vars s s1"
    "\<And>q. q \<noteq> p \<Longrightarrow> threads s1 q = threads s q" "tf_name (threads s1 p) = tf_name (threads s tf)" "tf_instance (threads s1 p) = i"
    "tf \<noteq> NULL \<Longrightarrow> tf_memsize (threads s1 p) = tf_memsize (threads s tf)" "shm_threadflow_lock s1 = shm_threadflow_lock s"
    "procs s1 = (procs s)(pf := (procs s pf)\<lparr>pf_threads := p\<rparr>)"
  have r: "get_int M s1 (tf_memsize (threads s1 p)) w = Some (n, w)" using reads_get [OF reads_same [OF t(2) d(7)]] d(11) t(1) by simp
  let ?s = "upd_tf s1 p (\<lambda>t. t\<lparr>tf_constmemsize := n\<rparr>)"
  let ?u = "if tf_attrs (threads ?s p) AND THREADFLOW_USEISM \<noteq> 0 then ?s\<lparr>shm_required := shm_required ?s + n\<rparr> else ?s"
  obtain tid w2 where w: "spawn ?u p w = (Some tid, w2)" using sp unfolding spawns_def by (metis option.exhaust prod.collapse)
  let ?v = "upd_tf ?u p (\<lambda>t. t\<lparr>tf_tid := tid\<rparr>)"
  have c: "threadflow_createthread M spawn s1 p w = Some (Inr (?v, w2))"
    using r w by (simp add: threadflow_createthread_def Let_def)
  have same: "tf_next (threads ?v q) = tf_next (threads s1 q)" "q \<noteq> p \<Longrightarrow> threads ?v q = threads s1 q"
    "label ?v p = label s1 p" "procs ?v = procs s1" "vs ?v = vs s1" "shm_threadflow_lock ?v = shm_threadflow_lock s1" for q
    by (simp_all add: upd_tf_def)
  have "on_threads ?v pf (p # ts)" using d(5) unfolding on_threads_def same(4) by (elim chain_frame) (simp add: same(1))
  moreover have "p \<notin> set ts" using d(3) g(3) by auto
  moreover have "mem_ok (lay M) ?v" "thandles (lay M) ?v = insert p (thandles (lay M) s)" "same_vars s ?v"
    using d(4,6,7) same(5) by (simp_all add: mem_ok_def same_vars_def)
  moreover have "\<forall>q \<in> set ts. threads ?v q = threads s q" using d(8) same(2) calculation(2) by metis
  ultimately have "grown (lay M) s pf ts [(tf_name (threads s tf), i)] ?v [p]"
    using d(9,10,12,13) same(3,4,6) g(3) unfolding grown_def by auto
  then show thesis by (rule new [OF d(2,1) c])
qed

lemma grown_keeps:
  assumes "grown L s pf ts ls t new" "q \<in> set ts"
  shows "threads t q = threads s q" "q \<in> set (new @ ts)" "mem_ok L t" "on_threads t pf (new @ ts)" "set (new @ ts) \<subseteq> thandles L t" "same_vars s t"
  using assms by (simp_all add: grown_def)

lemma create_instances_list:
  assumes sp: "spawns spawn" and "mem_ok (lay M) s" "on_threads s pf ts" "set ts \<subseteq> thandles (lay M) s" "tf \<in> set ts"
    "reads M s (tf_memsize (threads s tf)) n" "length (tf_name (threads s tf)) < 128"
  shows "\<exists>ok s' w' new k. create_instances M spawn pf tf is s w = Some (Inr (ok, s', w')) \<and>
    grown (lay M) s pf ts (map (Pair (tf_name (threads s tf))) (take k is)) s' new
    \<and> (if ok then k = length is else \<not> has_slot (ipc (vs s')) FILEBENCH_THREADFLOW)"
  using assms(2-)
proof (induction "is" arbitrary: s w ts)
  case Nil
  have "grown (lay M) s pf ts [] s []" by (rule grown_refl [OF Nil.prems(1-3)])
  then show ?case by auto
next
  case (Cons i "is")
  have tf: "tf \<noteq> NULL" using chain_not_NULL Cons.prems(2,4) by (auto simp: on_threads_def)
  show ?case
  proof (rule one_instance [OF sp Cons.prems(1-3) tf Cons.prems(5,6), where i = i and w = w])
    assume f: "\<not> has_slot (ipc (vs s)) FILEBENCH_THREADFLOW"
      "threadflow_define_common (lay M) s pf (Some (tf_name (threads s tf))) tf i = Some (NULL, s)"
    have "grown (lay M) s pf ts (map (Pair (tf_name (threads s tf))) (take 0 (i # is))) s []"
      using grown_refl [OF Cons.prems(1-3)] by simp
    moreover have "create_instances M spawn pf tf (i # is) s w = Some (Inr (False, s, w))" using f(2) by simp
    ultimately show ?thesis using f(1) by (intro exI [of _ False] exI [of _ s] exI [of _ w] exI [of _ "[]"] exI [of _ 0]) simp
  next
    fix p s1 s2 w2
    assume d: "p \<noteq> NULL" "threadflow_define_common (lay M) s pf (Some (tf_name (threads s tf))) tf i = Some (p, s1)"
      "threadflow_createthread M spawn s1 p w = Some (Inr (s2, w2))" "grown (lay M) s pf ts [(tf_name (threads s tf), i)] s2 [p]"
    note g = grown_keeps [OF d(4) Cons.prems(4)]
    obtain ok s' w' new k where r: "create_instances M spawn pf tf is s2 w2 = Some (Inr (ok, s', w'))"
      "grown (lay M) s2 pf ([p] @ ts) (map (Pair (tf_name (threads s tf))) (take k is)) s' new"
      "if ok then k = length is else \<not> has_slot (ipc (vs s')) FILEBENCH_THREADFLOW"
      using Cons.IH [OF g(3-5,2), of w2] Cons.prems(5,6) reads_same [OF Cons.prems(5) g(6)] g(1) by auto
    have "create_instances M spawn pf tf (i # is) s w = Some (Inr (ok, s', w'))" using d(1-3) r(1) by simp
    moreover have "grown (lay M) s pf ts (map (Pair (tf_name (threads s tf))) (take (Suc k) (i # is))) s' (new @ [p])"
      using grown_trans [OF d(4) r(2)] by simp
    ultimately show ?thesis using r(3)
      by (intro exI [of _ ok] exI [of _ s'] exI [of _ w'] exI [of _ "new @ [p]"] exI [of _ "Suc k"]) (cases ok; simp)
  qed
qed

text \<open>The labels of the copies of a list of threads, in the order of their creation.\<close>

definition copies :: "fbstate \<Rightarrow> (ptr \<Rightarrow> fbint) \<Rightarrow> ptr list \<Rightarrow> (string \<times> int) list" where
  "copies s num ts = concat (map (\<lambda>t. map (Pair (tf_name (threads s t))) (map int ([2..<Suc (iter_count (num t))] @ [1]))) ts)"

lemma instance_order_eq: "instance_order n = map int ([2..<Suc (iter_count n)] @ [1])"
  by (simp add: instance_order_def)

lemma copies_eq: "copies s num ts = concat (map (\<lambda>t. map (Pair (tf_name (threads s t))) (instance_order (num t))) ts)"
  unfolding copies_def instance_order_eq by (rule refl)

definition readable :: "'w machine \<Rightarrow> fbstate \<Rightarrow> (ptr \<Rightarrow> fbint) \<Rightarrow> ptr list \<Rightarrow> bool" where
  "readable M s num ts \<longleftrightarrow> (\<forall>t \<in> set ts. reads M s (tf_instances (threads s t)) (num t) \<and> (\<exists>n. reads M s (tf_memsize (threads s t)) n)
     \<and> length (tf_name (threads s t)) < 128)"

lemma create_threads_list:
  assumes sp: "spawns spawn" and "mem_ok (lay M) s" "on_threads s pf (pre @ ts)" "set (pre @ ts) \<subseteq> thandles (lay M) s"
    "chain (tnext s) p ts" "readable M s num ts"
  shows "\<exists>ok s' w' new ls. create_threads M spawn pf p s w = Some (Inr (ok, s', w')) \<and> grown (lay M) s pf (pre @ ts) ls s' new
    \<and> (if ok then ls = copies s num ts else \<not> has_slot (ipc (vs s')) FILEBENCH_THREADFLOW)"
  using assms(2-)
proof (induction ts arbitrary: s w p pre)
  case Nil
  then show ?case using grown_refl [of "lay M" s pf pre] by (subst create_threads.simps) (auto simp: copies_eq)
next
  case (Cons t ts)
  have p: "p = t" "t \<noteq> NULL" "chain (tnext s) (tnext s t) ts" using Cons.prems(4) by simp_all
  have t: "t \<in> set (pre @ t # ts)" "reads M s (tf_instances (threads s t)) (num t)" "length (tf_name (threads s t)) < 128"
    using Cons.prems(5) by (simp_all add: readable_def)
  obtain n where n: "reads M s (tf_memsize (threads s t)) n" using Cons.prems(5) by (auto simp: readable_def)
  obtain ok s1 w1 new k where r: "create_instances M spawn pf t (instance_order (num t)) s w = Some (Inr (ok, s1, w1))"
    "grown (lay M) s pf (pre @ t # ts) (map (Pair (tf_name (threads s t))) (take k (instance_order (num t)))) s1 new"
    "if ok then k = length (instance_order (num t)) else \<not> has_slot (ipc (vs s1)) FILEBENCH_THREADFLOW"
    using create_instances_list [OF sp Cons.prems(1-3) t(1) n t(3)] by blast
  note g = grown_keeps [OF r(2) t(1)]
  have keep: "threads s1 q = threads s q" if "q \<in> set (pre @ t # ts)" for q using grown_keeps(1) [OF r(2) that] .
  show ?case
  proof (cases ok)
    case False
    have "create_threads M spawn pf p s w = Some (Inr (False, s1, w1))"
      using p r(1) False reads_get [OF t(2)] by (subst create_threads.simps) simp
    then show ?thesis using r(2,3) False by (intro exI [of _ False] exI [of _ s1] exI [of _ w1] exI [of _ new]) auto
  next
    case True
    have c: "chain (tnext s1) (tnext s1 t) ts" using chain_frame [OF p(3), of "tnext s1"] keep by simp
    have l: "on_threads s1 pf ((new @ pre @ [t]) @ ts)" "set ((new @ pre @ [t]) @ ts) \<subseteq> thandles (lay M) s1" using g(4,5) by simp_all
    have rd: "readable M s1 num ts"
      unfolding readable_def
    proof
      fix x assume x: "x \<in> set ts"
      then obtain n where "reads M s (tf_instances (threads s x)) (num x)" "reads M s (tf_memsize (threads s x)) n" "length (tf_name (threads s x)) < 128"
        using Cons.prems(5) by (auto simp: readable_def)
      then show "reads M s1 (tf_instances (threads s1 x)) (num x) \<and> (\<exists>n. reads M s1 (tf_memsize (threads s1 x)) n) \<and> length (tf_name (threads s1 x)) < 128"
        using reads_same [OF _ g(6)] keep [of x] x by auto
    qed
    obtain ok' s' w' new' ls where q: "create_threads M spawn pf (tnext s1 t) s1 w1 = Some (Inr (ok', s', w'))"
      "grown (lay M) s1 pf (new @ pre @ t # ts) ls s' new'"
      "if ok' then ls = copies s1 num ts else \<not> has_slot (ipc (vs s')) FILEBENCH_THREADFLOW"
      using Cons.IH [OF g(3) l c rd, of w1] by auto
    have cp: "copies s1 num ts = copies s num ts" unfolding copies_eq by (intro arg_cong [where f = concat] map_cong) (simp_all add: keep)
    have "create_threads M spawn pf p s w = Some (Inr (ok', s', w'))"
      using p r(1) True reads_get [OF t(2)] q(1) by (subst create_threads.simps) simp
    moreover have "grown (lay M) s pf (pre @ t # ts) (map (Pair (tf_name (threads s t))) (instance_order (num t)) @ ls) s' (new' @ new)"
      using grown_trans [OF r(2)] q(2) r(3) True by simp
    ultimately show ?thesis using q(3) cp
      by (intro exI [of _ ok'] exI [of _ s'] exI [of _ w'] exI [of _ "new' @ new"]) (auto simp: copies_eq)
  qed
qed

lemma join_threads_list:
  assumes "\<And>i s w. fst (snd (join i s w)) = s" "chain (tnext s) p ts"
  shows "\<exists>ret' w'. join_threads join p ret s w = Some (ret', s, w')"
  using assms(2)
proof (induction ts arbitrary: p ret w)
  case Nil
  then show ?case by (subst join_threads.simps) simp
next
  case (Cons t ts)
  obtain st w1 where j: "join (tf_tid (threads s t)) s w = (st, s, w1)" using assms(1) by (metis prod.collapse)
  show ?case using Cons j by (subst join_threads.simps) (auto split: option.splits)
qed


text \<open>A process with one thread, whose number of instances is not given and therefore zero.\<close>

definition ex_crew :: "int \<Rightarrow> fbstate" where
  "ex_crew inst = ex_fb\<lparr>vs := ex_vshm\<lparr>ipc := (ipc ex_vshm)\<lparr>shm_bitmap := (\<lambda>t i. if t = FILEBENCH_THREADFLOW \<and> i = 1 then 1 else 0)\<rparr>\<rparr>,
     threads := (\<lambda>_. zero_threadflow\<lparr>tf_name := ''t'', tf_instance := inst\<rparr>),
     procs := (\<lambda>_. zero_procflow\<lparr>pf_threads := 8589934608\<rparr>)\<rparr>"

lemma ex_crew_wf: "mem_ok ex_layout (ex_crew inst)" "thandles ex_layout (ex_crew inst) = {8589934608}"
  "on_threads (ex_crew inst) pf [8589934608]" "handles ex_layout (ex_crew inst) = {}" "\<not> shm_threadflow_lock (ex_crew inst)"
proof -
  have "live (ipc (vs (ex_crew inst))) FILEBENCH_THREADFLOW = {1}" "live (ipc (vs (ex_crew inst))) FILEBENCH_FLOWOP = {}"
    by (auto simp: live_def ex_crew_def)
  then show "thandles ex_layout (ex_crew inst) = {8589934608}" "handles ex_layout (ex_crew inst) = {}"
    by (simp_all add: ipc_handles_def obj_addr_def ex_layout_def)
  show "mem_ok ex_layout (ex_crew inst)"
    using ex_layout_ok sizes_pos by (auto simp: mem_ok_def ipc_wf_def ex_crew_def ex_vshm_def ipc_init_def filebench_sizes_def)
  show "on_threads (ex_crew inst) pf [8589934608]" "\<not> shm_threadflow_lock (ex_crew inst)"
    by (simp_all add: on_threads_def ex_crew_def ex_fb_def zero_threadflow_def)
qed

lemma ex_crew_reads: "readable ex_machine (ex_crew inst) (\<lambda>_. 0) [8589934608]"
proof -
  have "reads ex_machine s NULL 0" for s by (simp add: reads_def get_int_def avd_get_int_def)
  then show ?thesis by (auto simp: readable_def ex_crew_def zero_threadflow_def)
qed


end
