(* ===== verification/FB_Teardown.thy ===== *)
theory FB_Teardown
  imports FB_Threadflow_Correct
begin

text \<open>
  Ending a run: deleting the threads of a process with their flowops, and the processes themselves. What is deleted
  is given back to shared memory, and what is not deleted is not touched.
\<close>

subsection \<open>What deleting flowops leaves alone\<close>

definition no_flow :: "threadflow \<Rightarrow> threadflow" where
  "no_flow t = t\<lparr>tf_thrd_fops := NULL\<rparr>"

definition tframe :: "layout \<Rightarrow> fbstate \<Rightarrow> fbstate \<Rightarrow> bool" where
  "tframe L s s' \<longleftrightarrow> procs s' = procs s \<and> shm_proclist s' = shm_proclist s \<and> shm_threadflow_lock s' = shm_threadflow_lock s
     \<and> (\<forall>t. no_flow (threads s' t) = no_flow (threads s t)) \<and> (\<forall>ty. ty \<noteq> FILEBENCH_FLOWOP \<longrightarrow> ipc_handles L ty (ipc (vs s')) = ipc_handles L ty (ipc (vs s)))"

lemma tframe_refl [simp]: "tframe L s s"
  by (simp add: tframe_def)

lemma tframe_trans: "tframe L s t \<Longrightarrow> tframe L t u \<Longrightarrow> tframe L s u"
  by (simp add: tframe_def)

lemma tframe_upd_fo [simp]: "tframe L s (upd_fo s p f)"
  by (simp add: tframe_def upd_fo_def)

lemma tframe_set_head [simp]: "tframe L s (set_head s h p)"
  by (cases h) (auto simp: tframe_def upd_fo_def upd_tf_def no_flow_def)

lemma no_flow_fields: "no_flow a = no_flow b \<Longrightarrow> tf_next a = tf_next b \<and> tf_instance a = tf_instance b \<and> tf_name a = tf_name b
    \<and> tf_running a = tf_running b \<and> tf_attrs a = tf_attrs b \<and> tf_constmemsize a = tf_constmemsize b"
  by (cases a; cases b) (simp add: no_flow_def)

lemma ipc_free_other: "ty \<noteq> type \<Longrightarrow> ipc_handles L ty (ipc_free L shm type p) = ipc_handles L ty shm"
  by (auto simp: ipc_free_def Let_def ipc_handles_def live_def)

lemma unlink_exec_frame: "unlink_exec s e f = Some s' \<Longrightarrow> tframe L s s'"
  by (rule unlink_exec.raw_induct [where P = "\<lambda>s e f s'. tframe L s s'"]) (auto simp: Let_def split: if_splits)

lemma unlink_global_frame: "unlink_global s e f = Some r \<Longrightarrow> tframe L s (snd r)"
  by (rule unlink_global.raw_induct [where P = "\<lambda>s e f r. tframe L s (snd r)"]) (auto simp: Let_def split: if_splits)

lemma flowop_delete_frame:
  assumes "flowop_delete L s h f = Some s'"
  shows "tframe L s s'"
proof -
  obtain t where t: "(if f = get_head s h then Some (set_head s h (fo_exec_next (flowops s f)))
      else if get_head s h = NULL then None else unlink_exec s (get_head s h) f) = Some t"
    using assms by (auto simp: flowop_delete_def Let_def split: bind_splits if_splits)
  obtain found u where u: "(if f = shm_flowoplist t then Some (True, t\<lparr>shm_flowoplist := fo_next (flowops t f)\<rparr>)
      else if shm_flowoplist t = NULL then None else unlink_global t (shm_flowoplist t) f) = Some (found, u)"
    "s' = (if found then u\<lparr>vs := (vs u)\<lparr>ipc := ipc_free L (ipc (vs u)) FILEBENCH_FLOWOP f\<rparr>\<rparr> else u)"
    using assms t by (auto simp: flowop_delete_def Let_def split: bind_splits if_splits)
  have "tframe L s t" using t unlink_exec_frame by (auto split: if_splits)
  moreover have "tframe L t u" using u(1) unlink_global_frame [of t "shm_flowoplist t" f "(found, u)" L]
    by (auto split: if_splits simp: tframe_def)
  moreover have "tframe L u s'" unfolding u(2) by (simp add: tframe_def ipc_free_other)
  ultimately show ?thesis by (metis tframe_trans)
qed

lemma delete_all_frame: "delete_all_loop L s h f = Some s' \<Longrightarrow> tframe L s s'"
proof (rule delete_all_loop.raw_induct [where P = "\<lambda>L s h f s'. tframe L s s'"])
  fix loop L s h f s'
  assume IH: "\<And>L s h f s'. loop L s h f = Some s' \<Longrightarrow> tframe L s s'"
    and b: "(if f = NULL then Some s
      else let next_flowop = fo_exec_next (flowops s f) in
        if fo_instance (flowops s f) = FLOW_MASTER then loop L s h next_flowop
        else do { s \<leftarrow> flowop_delete L s h f; loop L s h next_flowop }) = Some s'"
  show "tframe L s s'"
  proof (cases "flowop_delete L s h f")
    case (Some t)
    then show ?thesis using b IH tframe_trans [OF flowop_delete_frame [OF Some]] by (auto simp: Let_def split: if_splits)
  qed (use b IH in \<open>auto simp: Let_def split: if_splits\<close>)
qed

subsection \<open>Deleting a thread\<close>

text \<open>The threads of a process that have all stopped, with the flowops of each.\<close>

definition team :: "layout \<Rightarrow> fbstate \<Rightarrow> ptr list \<Rightarrow> ptr \<Rightarrow> ptr list \<Rightarrow> (ptr \<Rightarrow> ptr list) \<Rightarrow> bool" where
  "team L s gs pf ts fl \<longleftrightarrow> flow_inv L s gs \<and> on_threads s pf ts \<and> set ts \<subseteq> thandles L s
     \<and> (\<forall>t \<in> set ts. tf_running (threads s t) = 0 \<and> on_list s (tf_fops t) (fl t) \<and> set (fl t) \<subseteq> set gs
         \<and> (\<forall>u \<in> set ts. u \<noteq> t \<longrightarrow> set (fl u) \<inter> set (fl t) = {}))"

lemma flow_inv_cong: "flowops t = flowops s \<Longrightarrow> shm_flowoplist t = shm_flowoplist s \<Longrightarrow> vs t = vs s \<Longrightarrow> flow_inv L t gs = flow_inv L s gs"
  by (simp add: flow_inv_def)

lemma on_list_cong: "flowops t = flowops s \<Longrightarrow> tf_thrd_fops (threads t x) = tf_thrd_fops (threads s x) \<Longrightarrow> on_list t (tf_fops x) ls = on_list s (tf_fops x) ls"
  by (simp add: on_list_def)

lemma tf_before_list:
  assumes "chain (\<lambda>p. tf_next (tf p)) entry (as @ a # t # bs)"
  shows "tf_before tf t entry = Some a"
  using assms
proof (induction "as" arbitrary: entry)
  case Nil
  then show ?case by (subst tf_before.simps) auto
next
  case (Cons y ys)
  then have c: "chain (\<lambda>p. tf_next (tf p)) (tf_next (tf entry)) (ys @ a # t # bs)" by simp
  then have n: "tf_next (tf entry) \<noteq> NULL" using chain_start [OF c] by simp
  have "tf_next (tf entry) \<noteq> t" using chain_hd [OF c] chain_distinct [OF c] by (cases ys) auto
  then show ?case using n Cons.IH [OF c] by (subst tf_before.simps) simp
qed

lemma kill_stopped: "tf_running (threads s t) = 0 \<Longrightarrow> threadflow_kill env s t = Inr (upd_tf s t (\<lambda>t. t\<lparr>tf_abort := 1\<rparr>))"
  by (simp add: threadflow_kill_def numeral_2_eq_2)

text \<open>Taking a thread off its list, and out of memory.\<close>

definition tf_unlink :: "fbstate \<Rightarrow> ptr \<Rightarrow> ptr \<Rightarrow> ptr \<Rightarrow> fbstate" where
  "tf_unlink s pf a t = (if a = NULL then upd_pf s pf (\<lambda>p. p\<lparr>pf_threads := tf_next (threads s t)\<rparr>)
     else upd_tf s a (\<lambda>x. x\<lparr>tf_next := tf_next (threads s t)\<rparr>))"

lemma tf_unlink_list:
  assumes "on_threads s pf ts" "t \<in> set ts"
  obtains a where "on_threads (tf_unlink s pf a t) pf (remove1 t ts)" "a \<noteq> t" "a = NULL \<Longrightarrow> t = pf_threads (procs s pf)"
    "a \<noteq> NULL \<Longrightarrow> t \<noteq> pf_threads (procs s pf) \<and> pf_threads (procs s pf) \<noteq> NULL \<and> tf_next (threads s a) = t
       \<and> (\<forall>u. (\<forall>x. tf_next (u x) = tf_next (threads s x)) \<longrightarrow> tf_before u t (pf_threads (procs s pf)) = Some a)"
proof -
  have c: "chain (tnext s) (pf_threads (procs s pf)) ts" using assms(1) by (simp add: on_threads_def)
  have nt: "t \<noteq> NULL" using chain_not_NULL [OF c] assms(2) by auto
  show thesis using assms(2) chain_distinct [OF c]
  proof (cases rule: list_position)
    case (first ys)
    have "on_threads (tf_unlink s pf NULL t) pf (remove1 t ts)" using c first by (simp add: on_threads_def tf_unlink_def)
    then show thesis by (rule that) (use c first nt in auto)
  next
    case (behind as a bs)
    have c': "chain (tnext s) (pf_threads (procs s pf)) (as @ a # t # bs)" using c behind by simp
    have a: "a \<noteq> NULL" "a \<noteq> t" using chain_not_NULL [OF c'] chain_distinct [OF c'] by auto
    have t: "t \<noteq> pf_threads (procs s pf)" using chain_hd [OF c'] chain_distinct [OF c'] by (cases "as") auto
    have n: "tf_next (threads s a) = t" using chain_suffix [OF c'] by simp
    have "tnext (tf_unlink s pf a t) = (tnext s)(a := tnext s t)" using a by (auto simp: tf_unlink_def)
    then have "on_threads (tf_unlink s pf a t) pf (remove1 t ts)"
      using chain_take_out [OF c'] behind a by (simp add: on_threads_def tf_unlink_def)
    moreover have "tf_before u t (pf_threads (procs s pf)) = Some a" if "\<forall>x. tf_next (u x) = tf_next (threads s x)" for u
      using tf_before_list [of u _ "as" a t bs] c' that by simp
    moreover have "pf_threads (procs s pf) \<noteq> NULL" using chain_start [OF c'] by simp
    ultimately show thesis by (intro that [of a] conjI allI impI) (use a t n in auto)
  qed
qed

lemma delete_flows:
  assumes "flow_inv L s gs" "on_list s h ls" "set ls \<subseteq> set gs"
  obtains s' where "flowop_delete_all L s h = Some s'" "all_deleted L s gs h [] ls s'" "tframe L s s'"
proof -
  obtain s' where s': "delete_all_loop L s h (get_head s h) = Some s'" "all_deleted L s gs h [] ls s'"
    using delete_all_loop_list [of L s gs h "[]" ls "get_head s h"] assms by (auto simp: on_list_def)
  then show thesis using that delete_all_frame [OF s'(1)] by (simp add: flowop_delete_all_def)
qed

text \<open>The state in which a stopped thread is deleted: its memory no longer counted, told to stop.\<close>

definition doomed :: "fbstate \<Rightarrow> ptr \<Rightarrow> fbstate" where
  "doomed s t = upd_tf (if tf_attrs (threads s t) AND THREADFLOW_USEISM \<noteq> 0
     then s\<lparr>shm_required := shm_required s - tf_constmemsize (threads s t)\<rparr> else s) t (\<lambda>x. x\<lparr>tf_abort := 1\<rparr>)"

lemma doomed_simps [simp]:
  "flowops (doomed s t) = flowops s" "shm_flowoplist (doomed s t) = shm_flowoplist s" "vs (doomed s t) = vs s" "procs (doomed s t) = procs s"
  "tf_next (threads (doomed s t) x) = tf_next (threads s x)" "tf_thrd_fops (threads (doomed s t) x) = tf_thrd_fops (threads s x)"
  "tf_running (threads (doomed s t) x) = tf_running (threads s x)" "tf_instance (threads (doomed s t) x) = tf_instance (threads s x)"
  "shm_threadflow_lock (doomed s t) = shm_threadflow_lock s" "shm_proclist (doomed s t) = shm_proclist s"
  by (simp_all add: doomed_def upd_tf_def)

lemma threadflow_delete_steps:
  assumes r: "tf_running (threads s t) = 0" and d: "flowop_delete_all L (doomed s t) (tf_fops t) = Some s2" "tframe L (doomed s t) s2"
    and a: "a \<noteq> t" "a = NULL \<Longrightarrow> t = pf_threads (procs s pf)"
    "a \<noteq> NULL \<Longrightarrow> t \<noteq> pf_threads (procs s pf) \<and> pf_threads (procs s pf) \<noteq> NULL \<and> tf_next (threads s a) = t
       \<and> (\<forall>u. (\<forall>x. tf_next (u x) = tf_next (threads s x)) \<longrightarrow> tf_before u t (pf_threads (procs s pf)) = Some a)"
  shows "threadflow_delete L env s pf t = Some (Inr (0, drop_thread L (tf_unlink s2 pf a t) t))"
proof -
  let ?s = "if tf_attrs (threads s t) AND THREADFLOW_USEISM \<noteq> 0
     then s\<lparr>shm_required := shm_required s - tf_constmemsize (threads s t)\<rparr> else s"
  have k: "threadflow_kill env ?s t = Inr (doomed s t)" using kill_stopped [of ?s t env] r by (simp add: doomed_def)
  have th: "threads ?s = threads s" "procs ?s = procs s" by simp_all
  show ?thesis
  proof (cases "a = NULL")
    case True
    then have "pf_threads (procs s pf) = t" using a(2) by simp
    then show ?thesis using k d(1) True by (cases "tf_attrs (threads s t) AND THREADFLOW_USEISM = 0") (simp_all add: threadflow_delete_def Let_def tf_unlink_def)
  next
    case False
    note b = a(3) [OF False]
    have "tf_before (threads ?s) t (pf_threads (procs s pf)) = Some a" using b th by simp
    moreover have "tf_next (threads s2 a) = t"
      using d(2) b no_flow_fields [of "threads s2 a" "threads (doomed s t) a"] by (simp add: tframe_def)
    ultimately show ?thesis using b False k d(1)
      by (cases "tf_attrs (threads s t) AND THREADFLOW_USEISM = 0")
        (simp_all add: threadflow_delete_def Let_def tf_unlink_def drop_thread_def upd_tf_def)
  qed
qed

lemma drop_thread_handles:
  assumes "layout_ok L" "ipc_wf (ipc (vs s))" "t \<in> thandles L s"
  shows "ipc_wf (ipc (vs (drop_thread L s t)))" "thandles L (drop_thread L s t) = thandles L s - {t}"
    "ty \<noteq> FILEBENCH_THREADFLOW \<Longrightarrow> ipc_handles L ty (ipc (vs (drop_thread L s t))) = ipc_handles L ty (ipc (vs s))"
  using ipc.release_used [of "ipc (vs s)" L FILEBENCH_THREADFLOW t] assms by (simp_all add: drop_thread_def ipc_free_other)

lemma tf_unlink_simps [simp]:
  "flowops (tf_unlink s pf a t) = flowops s" "shm_flowoplist (tf_unlink s pf a t) = shm_flowoplist s" "vs (tf_unlink s pf a t) = vs s"
  "tf_thrd_fops (threads (tf_unlink s pf a t) x) = tf_thrd_fops (threads s x)" "tf_running (threads (tf_unlink s pf a t) x) = tf_running (threads s x)"
  "tf_instance (threads (tf_unlink s pf a t) x) = tf_instance (threads s x)" "shm_threadflow_lock (tf_unlink s pf a t) = shm_threadflow_lock s"
  "a \<noteq> x \<Longrightarrow> threads (tf_unlink s pf a t) x = threads s x" "q \<noteq> pf \<Longrightarrow> procs (tf_unlink s pf a t) q = procs s q"
  "shm_proclist (tf_unlink s pf a t) = shm_proclist s"
  by (simp_all add: tf_unlink_def upd_tf_def upd_pf_def)

lemma drop_thread_simps [simp]:
  "flowops (drop_thread L s t) = flowops s" "shm_flowoplist (drop_thread L s t) = shm_flowoplist s" "threads (drop_thread L s t) = threads s"
  "procs (drop_thread L s t) = procs s" "shm_threadflow_lock (drop_thread L s t) = shm_threadflow_lock s"
  "shm_proclist (drop_thread L s t) = shm_proclist s"
  by (simp_all add: drop_thread_def)

text \<open>What deleting threads does not change.\<close>

definition tkeep :: "ptr \<Rightarrow> fbstate \<Rightarrow> fbstate \<Rightarrow> bool" where
  "tkeep pf s s' \<longleftrightarrow> shm_threadflow_lock s' = shm_threadflow_lock s \<and> shm_proclist s' = shm_proclist s
     \<and> (\<forall>q. q \<noteq> pf \<longrightarrow> procs s' q = procs s q) \<and> (\<forall>q. tf_instance (threads s' q) = tf_instance (threads s q))
     \<and> (\<forall>f. fo_instance (flowops s' f) = fo_instance (flowops s f))"

lemma threadflow_delete_team:
  assumes tm: "team L s gs pf ts fl" and t: "t \<in> set ts"
  obtains s' where "threadflow_delete L env s pf t = Some (Inr (0, s'))" "team L s' (left s (fl t) gs) pf (remove1 t ts) fl"
    "thandles L s' = thandles L s - {t}" "tnext s' t = tnext s t" "tkeep pf s s'"
proof -
  have i: "flow_inv L s gs" "on_threads s pf ts" "set ts \<subseteq> thandles L s" "tf_running (threads s t) = 0" "on_list s (tf_fops t) (fl t)" "set (fl t) \<subseteq> set gs"
    using tm t by (simp_all add: team_def)
  let ?s1 = "doomed s t" and ?gs = "left s (fl t) gs"
  have "flow_inv L ?s1 gs" "on_list ?s1 (tf_fops t) (fl t)" using i(1,5) by (simp_all add: flow_inv_def on_list_def)
  then obtain s2 where s2: "flowop_delete_all L ?s1 (tf_fops t) = Some s2" "all_deleted L ?s1 gs (tf_fops t) [] (fl t) s2" "tframe L ?s1 s2"
    using delete_flows i(6) by blast
  have l: "left ?s1 (fl t) gs = ?gs" by (simp add: left_def)
  have d2: "flow_inv L s2 ?gs" "off_lists ?s1 s2 ?gs (tf_fops t) (fl t)" "\<And>q. core (flowops s2 q) = core (flowops s q)"
    using s2(2) l by (simp_all add: all_deleted_def)
  have f2: "tf_next (threads s2 x) = tf_next (threads s x)" "tf_running (threads s2 x) = tf_running (threads s x)"
    "tf_instance (threads s2 x) = tf_instance (threads s x)" for x
    using s2(3) no_flow_fields [of "threads s2 x" "threads ?s1 x"] by (simp_all add: tframe_def)
  have p2: "procs s2 = procs s" "thandles L s2 = thandles L s" "shm_threadflow_lock s2 = shm_threadflow_lock s" "shm_proclist s2 = shm_proclist s"
    using s2(3) by (simp_all add: tframe_def)
  have "on_threads s2 pf ts" using i(2) by (simp add: on_threads_def p2(1) f2(1))
  then obtain a where a: "on_threads (tf_unlink s2 pf a t) pf (remove1 t ts)" "a \<noteq> t" "a = NULL \<Longrightarrow> t = pf_threads (procs s pf)"
    "a \<noteq> NULL \<Longrightarrow> t \<noteq> pf_threads (procs s pf) \<and> pf_threads (procs s pf) \<noteq> NULL \<and> tf_next (threads s a) = t
       \<and> (\<forall>u. (\<forall>x. tf_next (u x) = tf_next (threads s x)) \<longrightarrow> tf_before u t (pf_threads (procs s pf)) = Some a)"
    using tf_unlink_list [of s2 pf ts t] t unfolding p2(1) f2(1) by blast
  let ?s' = "drop_thread L (tf_unlink s2 pf a t) t"
  have w: "layout_ok L" "ipc_wf (ipc (vs (tf_unlink s2 pf a t)))" "t \<in> thandles L (tf_unlink s2 pf a t)" using d2(1) t i(3) p2(2) by (auto simp: flow_inv_def)
  note h = drop_thread_handles [OF w]
  have "threadflow_delete L env s pf t = Some (Inr (0, ?s'))" using threadflow_delete_steps [OF i(4) s2(1,3) a(2-4)] .
  moreover have "thandles L ?s' = thandles L s - {t}" using h(2) p2(2) by simp
  moreover have "tnext ?s' t = tnext s t" using a(2) f2(1) by simp
  moreover have "tkeep pf s ?s'" using p2 f2(3) d2(3) core_fields unfolding tkeep_def by (metis drop_thread_simps(1,3,4,5,6) tf_unlink_simps(1,6,7,9,10))
  moreover have "team L ?s' ?gs pf (remove1 t ts) fl"
  proof -
    have "flow_inv L ?s' ?gs" using d2(1) h(1) h(3) [of FILEBENCH_FLOWOP] by (simp add: flow_inv_def)
    moreover have "on_threads ?s' pf (remove1 t ts)" using a(1) by (simp add: on_threads_def)
    moreover have d: "set (remove1 t ts) = set ts - {t}" using i(2) chain_distinct by (auto simp: on_threads_def)
    moreover have "tf_running (threads ?s' u) = 0 \<and> on_list ?s' (tf_fops u) (fl u) \<and> set (fl u) \<subseteq> set ?gs" if "u \<in> set ts" "u \<noteq> t" for u
    proof -
      have u: "tf_running (threads s u) = 0" "on_list s (tf_fops u) (fl u)" "set (fl u) \<subseteq> set gs" "set (fl u) \<inter> set (fl t) = {}"
        using tm t that by (auto simp: team_def)
      then have "set (fl u) \<subseteq> set ?gs" by (auto simp: left_def)
      moreover have "on_list ?s1 (tf_fops u) (fl u)" using u(2) by (simp add: on_list_def)
      ultimately have "on_list s2 (tf_fops u) (fl u)" using d2(2) u(4) that(2) by (simp add: off_lists_def)
      then show ?thesis using u \<open>set (fl u) \<subseteq> set ?gs\<close> f2(2) by (simp add: on_list_def)
    qed
    moreover have "thandles L ?s' = thandles L s - {t}" by fact
    ultimately show ?thesis using tm t i(3) unfolding team_def d by (auto simp: team_def)
  qed
  ultimately show thesis by (intro that)
qed

abbreviation tmaster :: "fbstate \<Rightarrow> ptr \<Rightarrow> bool" where
  "tmaster s t \<equiv> tf_instance (threads s t) = FLOW_MASTER"

definition gone :: "fbstate \<Rightarrow> (ptr \<Rightarrow> ptr list) \<Rightarrow> ptr list \<Rightarrow> ptr \<Rightarrow> bool" where
  "gone s fl rest f \<longleftrightarrow> \<not> master s f \<and> (\<exists>t \<in> set rest. \<not> tmaster s t \<and> f \<in> set (fl t))"

lemma gone_step: "\<not> tmaster s t \<Longrightarrow> filter (\<lambda>f. \<not> gone s fl (t # rest) f) gs = filter (\<lambda>f. \<not> gone s fl rest f) (left s (fl t) gs)"
  by (auto simp: gone_def left_def intro!: filter_cong)

lemma tkeep_gone: "tkeep pf s s' \<Longrightarrow> gone s' fl rest = gone s fl rest" "tkeep pf s s' \<Longrightarrow> tmaster s' t = tmaster s t"
  by (simp_all add: tkeep_def gone_def fun_eq_iff)

lemma tf_delete_loop_team:
  assumes "team L s gs pf (ms @ rest) fl" "chain (tnext s) p rest"
  shows "\<exists>s'. tf_delete_loop L env pf s p = Some (Inr s') \<and> team L s' (filter (\<lambda>f. \<not> gone s fl rest f) gs) pf (ms @ filter (tmaster s) rest) fl
    \<and> thandles L s' = thandles L s - {t \<in> set rest. \<not> tmaster s t} \<and> tkeep pf s s'"
  using assms
proof (induction rest arbitrary: s gs ms p)
  case Nil
  then show ?case by (subst tf_delete_loop.simps) (simp add: gone_def tkeep_def)
next
  case (Cons t rest)
  have p: "p = t" "t \<noteq> NULL" "chain (tnext s) (tnext s t) rest" using Cons.prems(2) by simp_all
  show ?case
  proof (cases "tmaster s t")
    case True
    have "tf_delete_loop L env pf s p = tf_delete_loop L env pf s (tnext s t)" using p True by (subst tf_delete_loop.simps) simp
    moreover have "gone s fl (t # rest) = gone s fl rest" using True by (auto simp: gone_def fun_eq_iff)
    moreover have "{x \<in> set (t # rest). \<not> tmaster s x} = {x \<in> set rest. \<not> tmaster s x}" using True by auto
    moreover have "team L s gs pf ((ms @ [t]) @ rest) fl" using Cons.prems(1) by simp
    ultimately show ?thesis using Cons.IH [of s gs "ms @ [t]" "tnext s t"] p(3) True by simp
  next
    case False
    have t: "t \<in> set (ms @ t # rest)" by simp
    obtain s1 where s1: "threadflow_delete L env s pf t = Some (Inr (0, s1))" "team L s1 (left s (fl t) gs) pf (remove1 t (ms @ t # rest)) fl"
      "thandles L s1 = thandles L s - {t}" "tnext s1 t = tnext s t" "tkeep pf s s1"
      by (rule threadflow_delete_team [OF Cons.prems(1) t]) (rule that)
    have d: "distinct (ms @ t # rest)" using Cons.prems(1) chain_distinct unfolding team_def on_threads_def by blast
    have tm: "team L s1 (left s (fl t) gs) pf (ms @ rest) fl" using s1(2) d by (simp add: remove1_append)
    have c: "chain (tnext s1) (tnext s t) rest"
    proof (cases "rest = []")
      case True
      then show ?thesis using p(3) by simp
    next
      case False
      have "chain (tnext s1) (pf_threads (procs s1 pf)) (ms @ rest)" using tm by (simp add: team_def on_threads_def)
      from chain_mid [OF this False] show ?thesis using chain_hd [OF p(3) False] by simp
    qed
    obtain s' where s': "tf_delete_loop L env pf s1 (tnext s t) = Some (Inr s')"
      "team L s' (filter (\<lambda>f. \<not> gone s1 fl rest f) (left s (fl t) gs)) pf (ms @ filter (tmaster s1) rest) fl"
      "thandles L s' = thandles L s1 - {t \<in> set rest. \<not> tmaster s1 t}" "tkeep pf s1 s'"
      using Cons.IH [OF tm c] by blast
    note k = tkeep_gone [OF s1(5)]
    have "tf_delete_loop L env pf s p = Some (Inr s')" using p False s1(1,4) s'(1) by (subst tf_delete_loop.simps) simp
    moreover have "team L s' (filter (\<lambda>f. \<not> gone s fl (t # rest) f) gs) pf (ms @ filter (tmaster s) (t # rest)) fl"
      using s'(2) False unfolding gone_step [OF False] k by simp
    moreover have "thandles L s' = thandles L s - {x \<in> set (t # rest). \<not> tmaster s x}" using s'(3) s1(3) False unfolding k by auto
    moreover have "tkeep pf s s'" using s1(5) s'(4) by (simp add: tkeep_def)
    ultimately show ?thesis by blast
  qed
qed

lemma team_lock: "team L (s\<lparr>shm_threadflow_lock := b\<rparr>) gs pf ts fl = team L s gs pf ts fl"
proof -
  let ?s = "s\<lparr>shm_threadflow_lock := b\<rparr>"
  have "flow_inv L ?s gs = flow_inv L s gs" "on_threads ?s pf ts = on_threads s pf ts" "thandles L ?s = thandles L s"
    "\<And>t. on_list ?s (tf_fops t) (fl t) = on_list s (tf_fops t) (fl t)" "threads ?s = threads s"
    by (simp_all add: flow_inv_def on_threads_def on_list_def)
  then show ?thesis unfolding team_def by simp
qed


subsection \<open>Ending the processes\<close>

lemma pf_before_list:
  assumes "chain (\<lambda>p. pf_next (pf p)) entry (as @ a # t # bs)"
  shows "pf_before pf t entry = Some a"
  using assms
proof (induction "as" arbitrary: entry)
  case Nil
  then show ?case by (subst pf_before.simps) auto
next
  case (Cons y ys)
  then have c: "chain (\<lambda>p. pf_next (pf p)) (pf_next (pf entry)) (ys @ a # t # bs)" "entry \<noteq> NULL" by simp_all
  have "pf_next (pf entry) \<noteq> t" using chain_hd [OF c(1)] chain_distinct [OF c(1)] by (cases ys) auto
  then show ?case using c(2) Cons.IH [OF c(1)] by (subst pf_before.simps) simp
qed

text \<open>The processes on the list, all of them allocated.\<close>

definition proc_inv :: "layout \<Rightarrow> fbstate \<Rightarrow> ptr list \<Rightarrow> bool" where
  "proc_inv L s ps \<longleftrightarrow> mem_ok L s \<and> chain (pnext s) (shm_proclist s) ps \<and> set ps \<subseteq> phandles L s"

definition pkeep :: "layout \<Rightarrow> ptr \<Rightarrow> fbstate \<Rightarrow> fbstate \<Rightarrow> bool" where
  "pkeep L p s s' \<longleftrightarrow> (\<forall>q. pf_instance (procs s' q) = pf_instance (procs s q) \<and> (q \<noteq> p \<longrightarrow> pf_running (procs s' q) = pf_running (procs s q)))
     \<and> threads s' = threads s \<and> flowops s' = flowops s
     \<and> (\<forall>ty. ty \<noteq> FILEBENCH_PROCFLOW \<longrightarrow> ipc_handles L ty (ipc (vs s')) = ipc_handles L ty (ipc (vs s)))"

lemma drop_proc_handles:
  assumes "layout_ok L" "ipc_wf (ipc (vs s))" "p \<in> phandles L s"
  shows "ipc_wf (ipc (vs (drop_proc L s p)))" "phandles L (drop_proc L s p) = phandles L s - {p}"
    "ty \<noteq> FILEBENCH_PROCFLOW \<Longrightarrow> ipc_handles L ty (ipc (vs (drop_proc L s p))) = ipc_handles L ty (ipc (vs s))"
  using ipc.release_used [of "ipc (vs s)" L FILEBENCH_PROCFLOW p] assms by (simp_all add: drop_proc_def ipc_free_other)

lemma drop_proc_simps [simp]:
  "procs (drop_proc L s p) = procs s" "shm_proclist (drop_proc L s p) = shm_proclist s" "threads (drop_proc L s p) = threads s"
  "flowops (drop_proc L s p) = flowops s"
  by (simp_all add: drop_proc_def)

lemma proc_inv_drop:
  assumes "layout_ok L" "ipc_wf (ipc (vs t))" "p \<in> phandles L t" "set ps \<subseteq> phandles L t" "distinct ps"
    "chain (pnext t) (shm_proclist t) (remove1 p ps)"
  shows "proc_inv L (drop_proc L t p) (remove1 p ps)"
  using drop_proc_handles(1,2) [OF assms(1-3)] assms by (auto simp: proc_inv_def mem_ok_def)

lemma pkeep_drop:
  assumes "layout_ok L" "ipc_wf (ipc (vs t))" "p \<in> phandles L t" "vs t = vs s" "threads t = threads s" "flowops t = flowops s"
    "\<And>q. pf_instance (procs t q) = pf_instance (procs s q)" "\<And>q. q \<noteq> p \<Longrightarrow> pf_running (procs t q) = pf_running (procs s q)"
  shows "pkeep L p s (drop_proc L t p)"
  using drop_proc_handles(3) [OF assms(1-3)] assms(4-) by (simp add: pkeep_def)

lemma procflow_cleanup_list:
  assumes inv: "proc_inv L s ps" and p: "p \<in> set ps"
  obtains s' where "procflow_cleanup L s p = Some (0, s')" "proc_inv L s' (remove1 p ps)" "phandles L s' = phandles L s - {p}" "pkeep L p s s'"
proof -
  let ?s = "upd_pf s p (\<lambda>x. x\<lparr>pf_running := 0\<rparr>)"
  have nx: "pnext ?s = pnext s" by auto
  have c: "chain (pnext ?s) (shm_proclist s) ps" and w: "layout_ok L" "ipc_wf (ipc (vs ?s))" "p \<in> phandles L ?s" "set ps \<subseteq> phandles L s"
    using inv p unfolding nx proc_inv_def mem_ok_def by auto
  show thesis using p chain_distinct [OF c]
  proof (cases rule: list_position)
    case (first ys)
    let ?t = "?s\<lparr>shm_proclist := pf_next (procs ?s p)\<rparr>"
    have h: "ipc_wf (ipc (vs ?t))" "p \<in> phandles L ?t" "vs ?t = vs s" using w by simp_all
    note dh = drop_proc_handles [OF w(1) h(1,2)]
    have "procflow_cleanup L s p = Some (0, drop_proc L ?t p)" using c first by (simp add: procflow_cleanup_def Let_def)
    moreover have "proc_inv L (drop_proc L ?t p) (remove1 p ps)"
      by (rule proc_inv_drop [OF w(1) h(1,2) _ chain_distinct [OF c]]) (use w(4) c first in simp_all)
    moreover have "pkeep L p s (drop_proc L ?t p)" by (rule pkeep_drop [OF w(1) h]) simp_all
    moreover have "phandles L (drop_proc L ?t p) = phandles L s - {p}" using dh(2) h(3) by simp
    ultimately show thesis by (intro that)
  next
    case (behind as a bs)
    let ?t = "upd_pf ?s a (\<lambda>x. x\<lparr>pf_next := pf_next (procs ?s p)\<rparr>)"
    have c': "chain (pnext ?s) (shm_proclist s) (as @ a # p # bs)" using c behind by simp
    have a: "a \<noteq> NULL" "a \<noteq> p" using chain_not_NULL [OF c'] chain_distinct [OF c'] by auto
    have hd: "shm_proclist s \<noteq> p" using chain_hd [OF c'] chain_distinct [OF c'] by (cases "as") auto
    have h: "ipc_wf (ipc (vs ?t))" "p \<in> phandles L ?t" "vs ?t = vs s" using w by simp_all
    note dh = drop_proc_handles [OF w(1) h(1,2)]
    have "procflow_cleanup L s p = Some (0, drop_proc L ?t p)"
      using pf_before_list [where pf = "procs ?s", OF c'] hd a(1) by (simp add: procflow_cleanup_def Let_def)
    moreover have "pnext ?t = (pnext ?s)(a := pnext ?s p)" by auto
    then have "chain (pnext ?t) (shm_proclist ?t) (remove1 p ps)" using chain_take_out [OF c'] behind(2) by simp
    then have "proc_inv L (drop_proc L ?t p) (remove1 p ps)"
      by (intro proc_inv_drop [OF w(1) h(1,2) _ chain_distinct [OF c]]) (use w(4) in simp_all)
    moreover have "pkeep L p s (drop_proc L ?t p)" by (rule pkeep_drop [OF w(1) h]) simp_all
    moreover have "phandles L (drop_proc L ?t p) = phandles L s - {p}" using dh(2) h(3) by simp
    ultimately show thesis by (intro that)
  qed
qed

abbreviation pmaster :: "fbstate \<Rightarrow> ptr \<Rightarrow> bool" where
  "pmaster s p \<equiv> pf_instance (procs s p) = FLOW_MASTER"

lemma sleep_stopped: "pf_running (procs s p) = 0 \<Longrightarrow> procflow_sleep env p n s = Some s"
  by (subst procflow_sleep.simps) simp

lemma shutdown_loop_stopped:
  assumes "proc_inv L s (ms @ rest)" "chain (pnext s) p rest" "\<forall>q \<in> set rest. \<not> pmaster s q \<longrightarrow> pf_running (procs s q) = 0"
  shows "\<exists>s'. shutdown_loop L env n s p = Some (Inr s') \<and> proc_inv L s' (ms @ filter (pmaster s) rest)
    \<and> phandles L s' = phandles L s - {q \<in> set rest. \<not> pmaster s q} \<and> threads s' = threads s \<and> flowops s' = flowops s
    \<and> (\<forall>ty. ty \<noteq> FILEBENCH_PROCFLOW \<longrightarrow> ipc_handles L ty (ipc (vs s')) = ipc_handles L ty (ipc (vs s)))"
  using assms
proof (induction rest arbitrary: s ms p n)
  case Nil
  then show ?case by (subst shutdown_loop.simps) simp
next
  case (Cons x rest)
  have p: "p = x" "x \<noteq> NULL" "chain (pnext s) (pnext s x) rest" using Cons.prems(2) by simp_all
  show ?case
  proof (cases "pmaster s x")
    case True
    have "shutdown_loop L env n s p = shutdown_loop L env n s (pnext s x)" using p True by (subst shutdown_loop.simps) simp
    moreover have "proc_inv L s ((ms @ [x]) @ rest)" using Cons.prems(1) by simp
    moreover have "{q \<in> set (x # rest). \<not> pmaster s q} = {q \<in> set rest. \<not> pmaster s q}" using True by auto
    ultimately show ?thesis using Cons.IH [of s "ms @ [x]" "pnext s x" n] p(3) Cons.prems(3) True by simp
  next
    case False
    have x: "x \<in> set (ms @ x # rest)" by simp
    obtain s1 where s1: "procflow_cleanup L s x = Some (0, s1)" "proc_inv L s1 (remove1 x (ms @ x # rest))"
      "phandles L s1 = phandles L s - {x}" "pkeep L x s s1"
      by (rule procflow_cleanup_list [OF Cons.prems(1) x]) (rule that)
    have d: "distinct (ms @ x # rest)" using Cons.prems(1) chain_distinct unfolding proc_inv_def by blast
    have i: "proc_inv L s1 (ms @ rest)" using s1(2) d by (simp add: remove1_append)
    have c: "chain (pnext s1) (pnext s x) rest"
    proof (cases "rest = []")
      case True
      then show ?thesis using p(3) by simp
    next
      case False
      have "chain (pnext s1) (shm_proclist s1) (ms @ rest)" using i by (simp add: proc_inv_def)
      from chain_mid [OF this False] show ?thesis using chain_hd [OF p(3) False] by simp
    qed
    have k: "pmaster s1 q = pmaster s q" for q using s1(4) by (simp add: pkeep_def)
    have "\<forall>q \<in> set rest. \<not> pmaster s1 q \<longrightarrow> pf_running (procs s1 q) = 0" using Cons.prems(3) s1(4) d by (auto simp: pkeep_def)
    then obtain s' where s': "shutdown_loop L env (if n > 0 then n - 1 else n) s1 (pnext s x) = Some (Inr s')" "proc_inv L s' (ms @ filter (pmaster s) rest)"
      "phandles L s' = phandles L s1 - {q \<in> set rest. \<not> pmaster s q}" "threads s' = threads s1" "flowops s' = flowops s1"
      "\<forall>ty. ty \<noteq> FILEBENCH_PROCFLOW \<longrightarrow> ipc_handles L ty (ipc (vs s')) = ipc_handles L ty (ipc (vs s1))"
      using Cons.IH [OF i c] unfolding k by blast
    have st: "pf_running (procs s x) = 0" using Cons.prems(3) False by simp
    have "shutdown_loop L env n s p = Some (Inr s')"
      using p False s1(1) s'(1) st sleep_stopped [OF st] by (subst shutdown_loop.simps) simp
    then show ?thesis using s' s1(3,4) False by (auto simp: pkeep_def)
  qed
qed


text \<open>
  Waiting for a process that is running: the test of the loop is a bitwise conjunction, so that of the three seconds
  of \<open>SHUTDOWN_WAIT_SECONDS\<close> the process is given one, and of two seconds none.
\<close>

theorem procflow_sleep_too_short:
  assumes "pf_running (procs s p) = 1" "pf_running (procs (env s) p) \<in> {0, 1}"
  shows "procflow_sleep env p SHUTDOWN_WAIT_SECONDS s = Some (env s) \<and> procflow_sleep env p 2 s = Some s"
proof -
  have "procflow_sleep env p 2 t = Some t" if "pf_running (procs t p) \<in> {0, 1}" for t
    using that by (subst procflow_sleep.simps) auto
  then show ?thesis using assms by (subst procflow_sleep.simps) auto
qed

subsection \<open>Examples\<close>

lemma ex_crew_team: "team ex_layout (ex_crew inst) [] pf [8589934608] (\<lambda>_. [])"
proof -
  have "flow_inv ex_layout (ex_crew inst) []"
    using ex_crew_wf(1,4) [of inst] by (simp add: flow_inv_def mem_ok_def) (simp add: ex_crew_def ex_fb_def)
  then show ?thesis using ex_crew_wf(2,3) [of inst]
    by (simp add: team_def on_list_def) (simp add: ex_crew_def zero_threadflow_def)
qed


text \<open>A master process and one that has stopped.\<close>

definition ex_procs :: fbstate where
  "ex_procs = ex_fb\<lparr>vs := ex_vshm\<lparr>ipc := (ipc ex_vshm)\<lparr>shm_bitmap := (\<lambda>t i. if t = FILEBENCH_PROCFLOW \<and> (i = 1 \<or> i = 2) then 1 else 0)\<rparr>\<rparr>,
     procs := (\<lambda>p. if p = 4294967312 then zero_procflow\<lparr>pf_instance := FLOW_MASTER\<rparr> else zero_procflow\<lparr>pf_instance := 1, pf_next := 4294967312\<rparr>),
     shm_proclist := 4294967328\<rparr>"

lemma ex_procs_inv: "proc_inv ex_layout ex_procs [4294967328, 4294967312]"
proof -
  have "live (ipc (vs ex_procs)) FILEBENCH_PROCFLOW = {1, 2}" by (auto simp: live_def ex_procs_def)
  then have "phandles ex_layout ex_procs = {4294967312, 4294967328}" by (simp add: ipc_handles_def obj_addr_def ex_layout_def)
  moreover have "mem_ok ex_layout ex_procs"
    using ex_layout_ok sizes_pos by (auto simp: mem_ok_def ipc_wf_def ex_procs_def ex_vshm_def ipc_init_def filebench_sizes_def)
  ultimately show ?thesis by (simp add: proc_inv_def) (simp add: ex_procs_def zero_procflow_def)
qed


theorem procflow_sleep_too_short_witness:
  "procflow_sleep id 1 SHUTDOWN_WAIT_SECONDS (upd_pf ex_fb 1 (\<lambda>p. p\<lparr>pf_running := 1\<rparr>)) = Some (upd_pf ex_fb 1 (\<lambda>p. p\<lparr>pf_running := 1\<rparr>))"
  using procflow_sleep_too_short [of "upd_pf ex_fb 1 (\<lambda>p. p\<lparr>pf_running := 1\<rparr>)" 1 id] by simp

end
