(* ===== verification/FB_Fs.thy ===== *)
theory FB_Fs
  imports FB_Fileset FB_Flowop FB_Utils
begin

text \<open>
  The files behind a fileset: the part of \<^verbatim>\<open>src/filebench/fileset.c\<close> that names, creates, opens and removes files and
  directories, and the local file system of \<^verbatim>\<open>fb_localfs.c\<close> it works on. The functions that reach the storage are the
  vector \<open>fs_functions_vec\<close> of \<^verbatim>\<open>fsplug.h\<close>, a record of functions here; system calls are parameters.

  The state \<open>lstate\<close> is the shared memory of \<open>FB_Flowop\<close> with all filesets: one heap of entries and one of tree nodes;
  \<open>at_fset\<close> is the view of one fileset that the operations of \<open>FB_Fileset\<close> work on. An operation of \<open>FB_Fileset\<close> that waits
  is tried again after \<open>os_wait\<close>, what the other threads do meanwhile. A path is built in an array of \<open>MAXPATHLEN\<close>
  characters with the functions of \<open>FB_Utils\<close>, so that longer ones are cut. An \<open>int\<close> that a system call returns is a 32-bit word.

  The result \<open>Inl\<close> is an exit of the program. \<open>None\<close> is undefined behaviour: a null pointer followed, an array index
  out of bounds, a wait or a loop that does not end. The program is the one for a system other than Solaris.
\<close>

abbreviation (input) O_RDONLY :: uint32 where "O_RDONLY \<equiv> 0"
abbreviation (input) O_RDWR :: uint32 where "O_RDWR \<equiv> 2"
abbreviation (input) O_CREAT :: uint32 where "O_CREAT \<equiv> 0x40"
abbreviation (input) O_FSYNC :: uint32 where "O_FSYNC \<equiv> 0x101000"
abbreviation (input) FILE_ALLOC_BLOCK :: int where "FILE_ALLOC_BLOCK \<equiv> 1048576"
abbreviation (input) FLOW_ATTR_DSYNC :: uint32 where "FLOW_ATTR_DSYNC \<equiv> 0x10"
abbreviation (input) FLOW_ATTR_DIRECTIO :: uint32 where "FLOW_ATTR_DIRECTIO \<equiv> 0x40"
abbreviation (input) FILESET_IS_RAW_DEV :: uint32 where "FILESET_IS_RAW_DEV \<equiv> 1"
abbreviation (input) MAX_PARALLOC_THREADS :: int where "MAX_PARALLOC_THREADS \<equiv> 32"
abbreviation (input) RAND_MAX :: uint64 where "RAND_MAX \<equiv> 2147483647"

subsection \<open>File systems\<close>

text \<open>A file descriptor is the 64 bits of the union. \<open>stat\<close> gives the size of the file, if the call succeeds.\<close>

record 'w fsplug =
  fsp_freemem :: "uint64 \<Rightarrow> uint64 \<Rightarrow> 'w \<Rightarrow> 'w"
  fsp_open :: "uint64 \<Rightarrow> string \<Rightarrow> uint32 \<Rightarrow> uint32 \<Rightarrow> 'w \<Rightarrow> int \<times> uint64 \<times> 'w"
  fsp_pread :: "uint64 \<Rightarrow> ptr \<Rightarrow> fbint \<Rightarrow> uint64 \<Rightarrow> 'w \<Rightarrow> uint32 \<times> 'w"
  fsp_read :: "uint64 \<Rightarrow> ptr \<Rightarrow> fbint \<Rightarrow> 'w \<Rightarrow> uint32 \<times> 'w"
  fsp_pwrite :: "uint64 \<Rightarrow> ptr \<Rightarrow> fbint \<Rightarrow> uint64 \<Rightarrow> 'w \<Rightarrow> uint32 \<times> 'w"
  fsp_write :: "uint64 \<Rightarrow> ptr \<Rightarrow> fbint \<Rightarrow> 'w \<Rightarrow> uint32 \<times> 'w"
  fsp_lseek :: "uint64 \<Rightarrow> uint64 \<Rightarrow> int \<Rightarrow> 'w \<Rightarrow> 'w"
  fsp_ftrunc :: "uint64 \<Rightarrow> uint64 \<Rightarrow> 'w \<Rightarrow> 'w"
  fsp_close :: "uint64 \<Rightarrow> 'w \<Rightarrow> 'w"
  fsp_unlink :: "string \<Rightarrow> 'w \<Rightarrow> 'w"
  fsp_mkdir :: "string \<Rightarrow> uint32 \<Rightarrow> 'w \<Rightarrow> uint32 \<times> 'w"
  fsp_rmdir :: "string \<Rightarrow> 'w \<Rightarrow> 'w"
  fsp_opendir :: "string \<Rightarrow> 'w \<Rightarrow> ptr \<times> 'w"
  fsp_readdir :: "ptr \<Rightarrow> 'w \<Rightarrow> string option \<times> 'w"
  fsp_closedir :: "ptr \<Rightarrow> 'w \<Rightarrow> 'w"
  fsp_fsync :: "uint64 \<Rightarrow> 'w \<Rightarrow> 'w"
  fsp_stat :: "string \<Rightarrow> 'w \<Rightarrow> uint64 option \<times> 'w"
  fsp_fstat :: "uint64 \<Rightarrow> 'w \<Rightarrow> uint64 option \<times> 'w"
  fsp_recur_rm :: "string \<Rightarrow> 'w \<Rightarrow> 'w"

definition fd_num :: "uint64 \<Rightarrow> uint32" where
  "fd_num fd = ucast fd"

text \<open>Storing an \<open>int\<close> into the union keeps the upper half.\<close>

definition set_fd_num :: "uint64 \<Rightarrow> uint32 \<Rightarrow> uint64" where
  "set_fd_num fd n = (fd AND NOT 0xFFFFFFFF) OR ucast n"

text \<open>The system calls; a \<open>ssize_t\<close> is a 64-bit word.\<close>

record 'w syscalls =
  sys_open :: "string \<Rightarrow> uint32 \<Rightarrow> uint32 \<Rightarrow> 'w \<Rightarrow> uint32 \<times> 'w"
  sys_pread :: "uint32 \<Rightarrow> ptr \<Rightarrow> uint64 \<Rightarrow> uint64 \<Rightarrow> 'w \<Rightarrow> uint64 \<times> 'w"
  sys_read :: "uint32 \<Rightarrow> ptr \<Rightarrow> uint64 \<Rightarrow> 'w \<Rightarrow> uint64 \<times> 'w"
  sys_pwrite :: "uint32 \<Rightarrow> ptr \<Rightarrow> uint64 \<Rightarrow> uint64 \<Rightarrow> 'w \<Rightarrow> uint64 \<times> 'w"
  sys_write :: "uint32 \<Rightarrow> ptr \<Rightarrow> uint64 \<Rightarrow> 'w \<Rightarrow> uint64 \<times> 'w"
  sys_lseek :: "uint32 \<Rightarrow> uint64 \<Rightarrow> int \<Rightarrow> 'w \<Rightarrow> 'w"
  sys_ftruncate :: "uint32 \<Rightarrow> uint64 \<Rightarrow> 'w \<Rightarrow> 'w"
  sys_close :: "uint32 \<Rightarrow> 'w \<Rightarrow> 'w"
  sys_unlink :: "string \<Rightarrow> 'w \<Rightarrow> 'w"
  sys_mkdir :: "string \<Rightarrow> uint32 \<Rightarrow> 'w \<Rightarrow> uint32 \<times> 'w"
  sys_rmdir :: "string \<Rightarrow> 'w \<Rightarrow> 'w"
  sys_opendir :: "string \<Rightarrow> 'w \<Rightarrow> ptr \<times> 'w"
  sys_readdir :: "ptr \<Rightarrow> 'w \<Rightarrow> string option \<times> 'w"
  sys_closedir :: "ptr \<Rightarrow> 'w \<Rightarrow> 'w"
  sys_fsync :: "uint32 \<Rightarrow> 'w \<Rightarrow> 'w"
  sys_stat :: "string \<Rightarrow> 'w \<Rightarrow> uint64 option \<times> 'w"
  sys_fstat :: "uint32 \<Rightarrow> 'w \<Rightarrow> uint64 option \<times> 'w"
  sys_mapsync :: "uint32 \<Rightarrow> uint64 \<Rightarrow> uint64 \<Rightarrow> 'w \<Rightarrow> 'w"
  sys_system :: "string \<Rightarrow> 'w \<Rightarrow> 'w"

abbreviation (input) MMAP_SIZE :: int where "MMAP_SIZE \<equiv> 1073741824"

text \<open>The mapping, synchronising and unmapping of one part of a file is \<open>sys_mapsync\<close>, with its length and offset.\<close>

function fb_lfs_freemem :: "'w syscalls \<Rightarrow> uint32 \<Rightarrow> uint64 \<Rightarrow> int \<Rightarrow> 'w \<Rightarrow> 'w" where
  "fb_lfs_freemem Y fd sz left w =
     (if left > 0
      then fb_lfs_freemem Y fd sz (left - MMAP_SIZE) (sys_mapsync Y fd (word_of_int (min MMAP_SIZE left)) (sz - word_of_int left) w)
      else w)"
  by pat_completeness auto
termination
  by (relation "measure (\<lambda>(Y, fd, sz, left, w). nat left)") auto

declare fb_lfs_freemem.simps [simp del]

definition fb_lfs_open :: "'w syscalls \<Rightarrow> uint64 \<Rightarrow> string \<Rightarrow> uint32 \<Rightarrow> uint32 \<Rightarrow> 'w \<Rightarrow> int \<times> uint64 \<times> 'w" where
  "fb_lfs_open Y fd pth flags perms w =
     (let (n, w) = sys_open Y pth flags perms w in
      (if sint n < 0 then FILEBENCH_ERROR else FILEBENCH_OK, set_fd_num fd n, w))"

definition fb_lfs_recur_rm :: "'w syscalls \<Rightarrow> string \<Rightarrow> 'w \<Rightarrow> 'w" where
  "fb_lfs_recur_rm Y pth w = sys_system Y (take 1023 (''rm -rf '' @ pth)) w"

text \<open>The results of \<open>read\<close> and \<open>write\<close> become \<open>int\<close>s.\<close>

definition fb_lfs_pread :: "'w syscalls \<Rightarrow> uint64 \<Rightarrow> ptr \<Rightarrow> fbint \<Rightarrow> uint64 \<Rightarrow> 'w \<Rightarrow> uint32 \<times> 'w" where
  "fb_lfs_pread Y fd b n off w =
     (let (r, w) = sys_pread Y (fd_num fd) b n off w in (ucast r, w))"

definition fb_lfs_read :: "'w syscalls \<Rightarrow> uint64 \<Rightarrow> ptr \<Rightarrow> fbint \<Rightarrow> 'w \<Rightarrow> uint32 \<times> 'w" where
  "fb_lfs_read Y fd b n w =
     (let (r, w) = sys_read Y (fd_num fd) b n w in (ucast r, w))"

definition fb_lfs_pwrite :: "'w syscalls \<Rightarrow> uint64 \<Rightarrow> ptr \<Rightarrow> fbint \<Rightarrow> uint64 \<Rightarrow> 'w \<Rightarrow> uint32 \<times> 'w" where
  "fb_lfs_pwrite Y fd b n off w =
     (let (r, w) = sys_pwrite Y (fd_num fd) b n off w in (ucast r, w))"

definition fb_lfs_write :: "'w syscalls \<Rightarrow> uint64 \<Rightarrow> ptr \<Rightarrow> fbint \<Rightarrow> 'w \<Rightarrow> uint32 \<times> 'w" where
  "fb_lfs_write Y fd b n w =
     (let (r, w) = sys_write Y (fd_num fd) b n w in (ucast r, w))"

definition fb_lfs_lseek :: "'w syscalls \<Rightarrow> uint64 \<Rightarrow> uint64 \<Rightarrow> int \<Rightarrow> 'w \<Rightarrow> 'w" where
  "fb_lfs_lseek Y fd off whence w = sys_lseek Y (fd_num fd) off whence w"

definition fb_lfs_truncate :: "'w syscalls \<Rightarrow> uint64 \<Rightarrow> uint64 \<Rightarrow> 'w \<Rightarrow> 'w" where
  "fb_lfs_truncate Y fd sz w = sys_ftruncate Y (fd_num fd) sz w"

definition fb_lfs_close :: "'w syscalls \<Rightarrow> uint64 \<Rightarrow> 'w \<Rightarrow> 'w" where
  "fb_lfs_close Y fd w = sys_close Y (fd_num fd) w"

definition fb_lfs_fsync :: "'w syscalls \<Rightarrow> uint64 \<Rightarrow> 'w \<Rightarrow> 'w" where
  "fb_lfs_fsync Y fd w = sys_fsync Y (fd_num fd) w"

definition fb_lfs_fstat :: "'w syscalls \<Rightarrow> uint64 \<Rightarrow> 'w \<Rightarrow> uint64 option \<times> 'w" where
  "fb_lfs_fstat Y fd w = sys_fstat Y (fd_num fd) w"

definition fb_lfs_unlink :: "'w syscalls \<Rightarrow> string \<Rightarrow> 'w \<Rightarrow> 'w" where
  "fb_lfs_unlink Y pth w = sys_unlink Y pth w"

definition fb_lfs_mkdir :: "'w syscalls \<Rightarrow> string \<Rightarrow> uint32 \<Rightarrow> 'w \<Rightarrow> uint32 \<times> 'w" where
  "fb_lfs_mkdir Y pth perm w = sys_mkdir Y pth perm w"

definition fb_lfs_rmdir :: "'w syscalls \<Rightarrow> string \<Rightarrow> 'w \<Rightarrow> 'w" where
  "fb_lfs_rmdir Y pth w = sys_rmdir Y pth w"

definition fb_lfs_opendir :: "'w syscalls \<Rightarrow> string \<Rightarrow> 'w \<Rightarrow> ptr \<times> 'w" where
  "fb_lfs_opendir Y pth w = sys_opendir Y pth w"

definition fb_lfs_readdir :: "'w syscalls \<Rightarrow> ptr \<Rightarrow> 'w \<Rightarrow> string option \<times> 'w" where
  "fb_lfs_readdir Y dirp w = sys_readdir Y dirp w"

definition fb_lfs_closedir :: "'w syscalls \<Rightarrow> ptr \<Rightarrow> 'w \<Rightarrow> 'w" where
  "fb_lfs_closedir Y dirp w = sys_closedir Y dirp w"

definition fb_lfs_stat :: "'w syscalls \<Rightarrow> string \<Rightarrow> 'w \<Rightarrow> uint64 option \<times> 'w" where
  "fb_lfs_stat Y pth w = sys_stat Y pth w"

text \<open>The vector of the local file system; \<open>rename\<close>, the links and \<open>access\<close> are never called.\<close>

definition fb_lfs_funcs :: "'w syscalls \<Rightarrow> 'w fsplug" where
  "fb_lfs_funcs Y = \<lparr>fsp_freemem = (\<lambda>fd sz. fb_lfs_freemem Y (fd_num fd) sz (sint sz)), fsp_open = fb_lfs_open Y,
     fsp_pread = fb_lfs_pread Y, fsp_read = fb_lfs_read Y, fsp_pwrite = fb_lfs_pwrite Y, fsp_write = fb_lfs_write Y,
     fsp_lseek = fb_lfs_lseek Y, fsp_ftrunc = fb_lfs_truncate Y, fsp_close = fb_lfs_close Y, fsp_unlink = fb_lfs_unlink Y,
     fsp_mkdir = fb_lfs_mkdir Y, fsp_rmdir = fb_lfs_rmdir Y, fsp_opendir = fb_lfs_opendir Y, fsp_readdir = fb_lfs_readdir Y,
     fsp_closedir = fb_lfs_closedir Y, fsp_fsync = fb_lfs_fsync Y, fsp_stat = fb_lfs_stat Y, fsp_fstat = fb_lfs_fstat Y,
     fsp_recur_rm = fb_lfs_recur_rm Y\<rparr>"

subsection \<open>The state\<close>

record lstate =
  fb :: fbstate
  fsets :: "ptr \<Rightarrow> fileset"
  fents :: entries
  fheap :: avl_heap
  shm_fsparalloc_count :: int

text \<open>
  The surroundings of the library: the machine, the file system, whether raw devices are supported, the C library, the
  conversion of a double to \<open>int\<close>, the other threads, and the addresses of the local variables \<open>FB_Fileset\<close> asks for.
\<close>

record 'w lib =
  mach :: "'w machine"
  plug :: "'w fsplug"
  raw_support :: bool
  os_stat :: "string \<Rightarrow> 'w \<Rightarrow> uint64 option \<times> 'w"
  os_malloc :: "uint64 \<Rightarrow> 'w \<Rightarrow> ptr \<times> 'w"
  os_urandom :: "'w \<Rightarrow> uint64 option \<times> 'w"
  os_rand :: "'w \<Rightarrow> int \<times> 'w"
  os_spawn :: "ptr \<Rightarrow> lstate \<Rightarrow> 'w \<Rightarrow> bool \<times> 'w"
  os_wait :: "lstate \<Rightarrow> 'w \<Rightarrow> lstate \<times> 'w"
  dbl_to_int :: "dbl \<Rightarrow> uint32"
  addr_loc :: ptr
  addr_tmp :: ptr

definition at_fset :: "lstate \<Rightarrow> ptr \<Rightarrow> fstate" where
  "at_fset l p = \<lparr>fs = fsets l p, ents = fents l, heap = fheap l\<rparr>"

definition put_fset :: "lstate \<Rightarrow> ptr \<Rightarrow> fstate \<Rightarrow> lstate" where
  "put_fset l p s = l\<lparr>fsets := (fsets l)(p := fs s), fents := ents s, fheap := heap s\<rparr>"

definition get_int_l :: "'w lib \<Rightarrow> lstate \<Rightarrow> ptr \<Rightarrow> 'w \<Rightarrow> (fbint \<times> 'w) option" where
  "get_int_l X l a w = get_int (mach X) (fb l) a w"

definition get_bool_l :: "lstate \<Rightarrow> ptr \<Rightarrow> int option" where
  "get_bool_l l a = avd_get_bool (vs (fb l)) a"

text \<open>Whether \<open>fileset_pick\<close> reads a random number.\<close>

definition pick_draws :: "fstate \<Rightarrow> uint32 \<Rightarrow> uint32 \<Rightarrow> bool" where
  "pick_draws s flags index \<longleftrightarrow> flags AND FILESET_PICKUNIQUE \<noteq> 0 \<and> index = 0 \<and> pick_list s flags \<noteq> NULL \<and> pick_idle s flags \<noteq> 0
     \<and> (case pick_tree s flags of None \<Rightarrow> False | Some (t, mx) \<Rightarrow> \<not> avl_is_empty (Some (fs_tree (fs s) t)) \<and> mx > 1)"

partial_function (option) do_pick ::
  "'w lib \<Rightarrow> ptr \<Rightarrow> uint32 \<Rightarrow> int \<Rightarrow> uint32 \<Rightarrow> lstate \<Rightarrow> 'w \<Rightarrow> (ptr \<times> lstate \<times> 'w) option" where
  "do_pick X p flags tid index l w =
     (if tid < 0 then None
      else do {
        let (bytes, w') = os_urandom X w;
        r \<leftarrow> fileset_pick (fpu (mach X)) (\<lambda>a _. (fst (rnd (mach X) a w), ())) (vs (fb l)) bytes (addr_loc X) (at_fset l p) flags (nat tid) index;
        case r of
          Returns (e, s) \<Rightarrow> Some (e, put_fset l p s, if pick_draws (at_fset l p) flags index then w' else w)
        | Waits \<Rightarrow> let (l, w) = os_wait X l w in do_pick X p flags tid index l w })"

partial_function (option) do_unbusy ::
  "'w lib \<Rightarrow> ptr \<Rightarrow> bool \<Rightarrow> bool \<Rightarrow> uint32 \<Rightarrow> lstate \<Rightarrow> 'w \<Rightarrow> (lstate \<times> 'w) option" where
  "do_unbusy X entry update_exist new_exist_val incr l w = do {
     let p = fse_fileset (fents l entry);
     r \<leftarrow> fileset_unbusy (addr_tmp X) (at_fset l p) entry update_exist new_exist_val incr;
     case r of
       Returns (s, woken) \<Rightarrow> Some (put_fset l p s, w)
     | Waits \<Rightarrow> let (l, w) = os_wait X l w in do_unbusy X entry update_exist new_exist_val incr l w }"

subsection \<open>Paths\<close>

definition path_buf :: "string \<Rightarrow> char list" where
  "path_buf s = take MAXPATHLEN (s @ replicate MAXPATHLEN NUL)"

definition path_cpy :: "string \<Rightarrow> string option" where
  "path_cpy src = map_option (\<lambda>r. cstr (fst r)) (fb_strlcpy (path_buf []) (src @ [NUL]) MAXPATHLEN)"

definition path_cat :: "string \<Rightarrow> string \<Rightarrow> string option" where
  "path_cat dst src = map_option (\<lambda>r. cstr (fst r)) (fb_strlcat (path_buf dst) (src @ [NUL]) MAXPATHLEN)"

partial_function (option) resolve_loop :: "entries \<Rightarrow> ptr \<Rightarrow> string \<Rightarrow> string option" where
  "resolve_loop es fsep pth =
     (if fse_parent (es fsep) = NULL then Some pth
      else do {
        name \<leftarrow> fse_path (es fsep);
        pathtmp \<leftarrow> path_cat ''/'' name;
        pathtmp \<leftarrow> path_cat pathtmp pth;
        pth \<leftarrow> path_cpy pathtmp;
        resolve_loop es (fse_parent (es fsep)) pth })"

definition fileset_resolvepath :: "entries \<Rightarrow> ptr \<Rightarrow> string option" where
  "fileset_resolvepath es entry = (if entry = NULL then None else resolve_loop es entry [])"

text \<open>A string attribute that must be set: the null string is followed.\<close>

definition must_str :: "lstate \<Rightarrow> ptr \<Rightarrow> string option" where
  "must_str l a = do { s \<leftarrow> avd_get_str (vs (fb l)) a; s }"

text \<open>The directory of a fileset, and the path of one of its entries.\<close>

definition base_path :: "lstate \<Rightarrow> ptr \<Rightarrow> string option" where
  "base_path l p = do {
     dir \<leftarrow> must_str l (fsn_path (filesets (fb l) p));
     pth \<leftarrow> path_cpy dir;
     pth \<leftarrow> path_cat pth ''/'';
     name \<leftarrow> must_str l (fsn_name (filesets (fb l) p));
     path_cat pth name }"

definition entry_path :: "lstate \<Rightarrow> ptr \<Rightarrow> ptr \<Rightarrow> string option" where
  "entry_path l p entry = do {
     pth \<leftarrow> base_path l p;
     pathtmp \<leftarrow> fileset_resolvepath (fents l) entry;
     path_cat pth pathtmp }"

fun trunc_rev :: "string \<Rightarrow> string" where
  "trunc_rev (c # d # cs) = (if c = CHR ''/'' then d # cs else trunc_rev (d # cs))"
| "trunc_rev cs = cs"

definition trunc_dirname :: "string \<Rightarrow> string" where
  "trunc_dirname dir = rev (trunc_rev (rev dir))"

lemma length_trunc_rev: "length cs \<ge> 2 \<Longrightarrow> length (trunc_rev cs) < length cs"
proof (induction cs rule: trunc_rev.induct)
  case (1 c d cs)
  then show ?case by (cases cs) auto
qed auto

lemma length_trunc_dirname: "length dir \<ge> 2 \<Longrightarrow> length (trunc_dirname dir) < length dir"
  using length_trunc_rev [of "rev dir"] by (simp add: trunc_dirname_def)

subsection \<open>Making directories\<close>

text \<open>The missing directories of a path, the one closest to the root first; \<open>None\<close> inside if memory is exhausted.\<close>

function mkdir_collect :: "'w lib \<Rightarrow> string \<Rightarrow> string list \<Rightarrow> 'w \<Rightarrow> string list option \<times> 'w" where
  "mkdir_collect X p dirs w =
     (let (sb, w) = os_stat X p w in
      if sb \<noteq> None \<or> length p < 3 then (Some dirs, w)
      else
        let (q, w) = os_malloc X (of_nat (length p + 1)) w in
        if q = NULL then (None, w) else mkdir_collect X (trunc_dirname p) (p # dirs) w)"
  by pat_completeness auto
termination
  by (relation "measure (\<lambda>(X, p, dirs, w). length p)") (auto intro: length_trunc_dirname)

declare mkdir_collect.simps [simp del]

fun make_dirs :: "'w fsplug \<Rightarrow> uint32 \<Rightarrow> string list \<Rightarrow> 'w \<Rightarrow> 'w" where
  "make_dirs V mode [] w = w"
| "make_dirs V mode (d # ds) w = make_dirs V mode ds (snd (fsp_mkdir V d mode w))"

definition fileset_mkdir :: "'w lib \<Rightarrow> string \<Rightarrow> uint32 \<Rightarrow> 'w \<Rightarrow> int \<times> 'w" where
  "fileset_mkdir X pth mode w =
     (let (p, w) = os_malloc X (of_nat (length pth + 1)) w in
      if p = NULL then (FILEBENCH_ERROR, w)
      else
        let (dirs, w) = mkdir_collect X pth [] w in
        case dirs of
          None \<Rightarrow> (FILEBENCH_ERROR, w)
        | Some ds \<Rightarrow> (FILEBENCH_OK, make_dirs (plug X) mode ds w))"

partial_function (option) subdirs_loop :: "'w lib \<Rightarrow> lstate \<Rightarrow> string \<Rightarrow> ptr \<Rightarrow> 'w \<Rightarrow> (int \<times> 'w) option" where
  "subdirs_loop X l filesetpath direntry w =
     (if direntry = NULL then Some (FILEBENCH_OK, w)
      else do {
        full_path \<leftarrow> path_cpy filesetpath;
        part_path \<leftarrow> fileset_resolvepath (fents l) direntry;
        full_path \<leftarrow> path_cat full_path part_path;
        let (rc, w) = fileset_mkdir X full_path 493 w;
        if rc = FILEBENCH_ERROR then Some (FILEBENCH_ERROR, w)
        else subdirs_loop X l filesetpath (fse_nextoftype (fents l direntry)) w })"

definition fileset_create_subdirs :: "'w lib \<Rightarrow> lstate \<Rightarrow> ptr \<Rightarrow> string \<Rightarrow> 'w \<Rightarrow> (int \<times> 'w) option" where
  "fileset_create_subdirs X l p filesetpath w = subdirs_loop X l filesetpath (fs_dirlist (fsets l p)) w"

subsection \<open>Creating files\<close>

text \<open>Giving back an entry that was allocated, with what the caller returns.\<close>

definition release_as :: "'w lib \<Rightarrow> ptr \<Rightarrow> bool \<Rightarrow> int \<Rightarrow> lstate \<Rightarrow> 'w \<Rightarrow> (int \<times> lstate \<times> 'w) option" where
  "release_as X entry exists_now ret l w = do {
     (l, w) \<leftarrow> do_unbusy X entry True exists_now 0 l w;
     Some (ret, l, w) }"

definition fileset_alloc_leafdir :: "'w lib \<Rightarrow> ptr \<Rightarrow> lstate \<Rightarrow> 'w \<Rightarrow> (int \<times> lstate \<times> 'w) option" where
  "fileset_alloc_leafdir X entry l w = do {
     pth \<leftarrow> entry_path l (fse_fileset (fents l entry)) entry;
     let reusing = fse_flags (fents l entry) AND FSE_REUSING \<noteq> 0;
     let (sb, w) = (if reusing then os_stat X pth w else (None, w));
     if sb \<noteq> None then release_as X entry True FILEBENCH_OK l w
     else do {
       let (rc, w) = fsp_mkdir (plug X) pth 493 w;
       if sint rc < 0 then release_as X entry False FILEBENCH_ERROR l w
       else release_as X entry True FILEBENCH_OK l w } }"

text \<open>The loop that fills a file, from \<open>seek\<close> on; \<open>False\<close> if a write is short.\<close>

function fill_file :: "'w fsplug \<Rightarrow> uint64 \<Rightarrow> ptr \<Rightarrow> int \<Rightarrow> int \<Rightarrow> 'w \<Rightarrow> bool \<times> 'w" where
  "fill_file V fd buf sz seek w =
     (if seek < sz then
        let wsize = min (sz - seek) FILE_ALLOC_BLOCK;
            (ret, w) = fsp_write V fd buf (word_of_int wsize) w in
        if sint ret \<noteq> wsize then (False, w) else fill_file V fd buf sz (seek + wsize) w
      else (True, w))"
  by pat_completeness auto
termination
  by (relation "measure (\<lambda>(V, fd, buf, sz, seek, w). nat (sz - seek))") auto

declare fill_file.simps [simp del]

text \<open>The end of a successful allocation: the file leaves the cache if asked for, and is closed.\<close>

definition close_alloced :: "'w lib \<Rightarrow> ptr \<Rightarrow> uint64 \<Rightarrow> lstate \<Rightarrow> 'w \<Rightarrow> (int \<times> lstate \<times> 'w) option" where
  "close_alloced X entry fd l w = do {
     cached \<leftarrow> get_bool_l l (fsn_cached (filesets (fb l) (fse_fileset (fents l entry))));
     let w = (if cached = 0 then fsp_freemem (plug X) fd (fse_size (fents l entry)) w else w);
     let w = fsp_close (plug X) fd w;
     release_as X entry True FILEBENCH_OK l w }"

text \<open>Opened for writing from its start. If there is no memory for the buffer the descriptor stays open.\<close>

definition write_file :: "'w lib \<Rightarrow> ptr \<Rightarrow> uint64 \<Rightarrow> lstate \<Rightarrow> 'w \<Rightarrow> (int \<times> lstate \<times> 'w) option" where
  "write_file X entry fd l w =
     (let (buf, w) = os_malloc X (word_of_int FILE_ALLOC_BLOCK) w in
      if buf = NULL then release_as X entry False FILEBENCH_ERROR l w
      else
        let (good, w) = fill_file (plug X) fd buf (sint (fse_size (fents l entry))) 0 w in
        if good then close_alloced X entry fd l w
        else release_as X entry False FILEBENCH_ERROR l (fsp_close (plug X) fd w))"

text \<open>The local descriptor starts as zero.\<close>

definition fileset_alloc_file :: "'w lib \<Rightarrow> ptr \<Rightarrow> lstate \<Rightarrow> 'w \<Rightarrow> (int \<times> lstate \<times> 'w) option" where
  "fileset_alloc_file X entry l w = do {
     pth \<leftarrow> entry_path l (fse_fileset (fents l entry)) entry;
     trust \<leftarrow> get_bool_l l (fsn_trust_tree (filesets (fb l) (fse_fileset (fents l entry))));
     let reusing = fse_flags (fents l entry) AND FSE_REUSING \<noteq> 0;
     let (sb, w) = (if reusing \<and> trust = 0 then fsp_stat (plug X) pth w else (None, w));
     if reusing \<and> (trust \<noteq> 0 \<or> sb \<noteq> None) then do {
       let (rc, fd, w) = fsp_open (plug X) 0 pth O_RDWR 0 w;
       if rc = FILEBENCH_ERROR then release_as X entry False FILEBENCH_ERROR l w
       else if trust \<noteq> 0 \<or> sb = Some (fse_size (fents l entry)) then close_alloced X entry fd l w
       else if sint (the sb) > sint (fse_size (fents l entry)) then
         close_alloced X entry fd l (fsp_ftrunc (plug X) fd (fse_size (fents l entry)) w)
       else write_file X entry fd l w }
     else do {
       let (rc, fd, w) = fsp_open (plug X) 0 pth (O_RDWR OR O_CREAT) 420 w;
       if rc = FILEBENCH_ERROR then release_as X entry False FILEBENCH_ERROR l w
       else write_file X entry fd l w } }"

definition fileset_alloc_thread :: "'w lib \<Rightarrow> ptr \<Rightarrow> lstate \<Rightarrow> 'w \<Rightarrow> (lstate \<times> 'w) option" where
  "fileset_alloc_thread X entry l w = do {
     (rc, l, w) \<leftarrow> fileset_alloc_file X entry l w;
     Some (l\<lparr>shm_fsparalloc_count := (if rc = FILEBENCH_ERROR then -1 else shm_fsparalloc_count l - 1)\<rparr>, w) }"

text \<open>Opening a file. The result is the code and the new bits of the descriptor.\<close>

definition fileset_openfile ::
  "'w lib \<Rightarrow> uint64 \<Rightarrow> ptr \<Rightarrow> ptr \<Rightarrow> uint32 \<Rightarrow> uint32 \<Rightarrow> uint32 \<Rightarrow> lstate \<Rightarrow> 'w \<Rightarrow> (int \<times> uint64 \<times> lstate \<times> 'w) option" where
  "fileset_openfile X fdesc fileset entry flag filemode attrs l w = do {
     pth \<leftarrow> entry_path l fileset entry;
     dir \<leftarrow> path_cpy pth;
     let dir = trunc_dirname dir;
     let (sb, w) = (if flag AND O_CREAT \<noteq> 0 then os_stat X dir w else (Some 0, w));
     let (rc, w) = (if sb = None then fileset_mkdir X dir 493 w else (FILEBENCH_OK, w));
     if rc = FILEBENCH_ERROR then Some (FILEBENCH_ERROR, fdesc, l, w)
     else do {
       let open_attrs = (if attrs AND FLOW_ATTR_DSYNC \<noteq> 0 then O_FSYNC else 0);
       let (rc, fdesc, w) = fsp_open (plug X) fdesc pth (flag OR open_attrs) filemode w;
       if rc = FILEBENCH_ERROR then do {
         (l, w) \<leftarrow> do_unbusy X entry False False 0 l w;
         Some (FILEBENCH_ERROR, fdesc, l, w) }
       else do {
         (l, w) \<leftarrow> (if flag AND O_CREAT \<noteq> 0 then do_unbusy X entry True True 1 l w else do_unbusy X entry False False 1 l w);
         Some (FILEBENCH_OK, fdesc, l, w) } } }"

subsection \<open>Creating and removing a fileset\<close>

text \<open>Waiting until fewer than \<open>MAX_PARALLOC_THREADS\<close> files are being allocated.\<close>

partial_function (option) wait_paralloc :: "'w lib \<Rightarrow> lstate \<Rightarrow> 'w \<Rightarrow> (lstate \<times> 'w) option" where
  "wait_paralloc X l w =
     (if shm_fsparalloc_count l \<ge> MAX_PARALLOC_THREADS then let (l, w) = os_wait X l w in wait_paralloc X l w
      else Some (l, w))"

definition mark_reusing :: "bool \<Rightarrow> ptr \<Rightarrow> lstate \<Rightarrow> lstate" where
  "mark_reusing reusing entry l =
     l\<lparr>fents := (fents l)(entry := set_flags (\<lambda>f. if reusing then f OR FSE_REUSING else f AND NOT FSE_REUSING) (fents l entry))\<rparr>"

text \<open>Allocating one file, in a thread of its own if \<open>paralloc\<close> is set; a thread that cannot be created ends the program.\<close>

definition create_one :: "'w lib \<Rightarrow> ptr \<Rightarrow> ptr \<Rightarrow> lstate \<Rightarrow> 'w \<Rightarrow> (int + int \<times> lstate \<times> 'w) option" where
  "create_one X p entry l w = do {
     paralloc \<leftarrow> get_bool_l l (fsn_paralloc (filesets (fb l) p));
     if paralloc \<noteq> 0 then do {
       (l, w) \<leftarrow> wait_paralloc X l w;
       if shm_fsparalloc_count l < 0 then Some (Inr (FILEBENCH_ERROR, l, w))
       else
         let (good, w) = os_spawn X entry (l\<lparr>shm_fsparalloc_count := shm_fsparalloc_count l + 1\<rparr>) w in
         if good then Some (Inr (FILEBENCH_OK, l\<lparr>shm_fsparalloc_count := shm_fsparalloc_count l + 1\<rparr>, w)) else Some (Inl 1) }
     else map_option Inr (fileset_alloc_file X entry l w) }"

partial_function (option) create_files :: "'w lib \<Rightarrow> ptr \<Rightarrow> int \<Rightarrow> bool \<Rightarrow> lstate \<Rightarrow> 'w \<Rightarrow> (int + int \<times> lstate \<times> 'w) option" where
  "create_files X p randno reusing l w = do {
     (entry, l, w) \<leftarrow> do_pick X p (FILESET_PICKUNIQUE OR FILESET_PICKFILE) 0 0 l w;
     if entry = NULL then Some (Inr (FILEBENCH_OK, l, w))
     else do {
       let (newrand, w) = os_rand X w;
       if newrand < randno then do {
         (l, w) \<leftarrow> do_unbusy X entry True False 0 l w;
         create_files X p randno reusing l w }
       else do {
         r \<leftarrow> create_one X p entry (mark_reusing reusing entry l) w;
         case r of
           Inl e \<Rightarrow> Some (Inl e)
         | Inr (rc, l, w) \<Rightarrow> if rc = FILEBENCH_ERROR then Some (Inr (FILEBENCH_ERROR, l, w)) else create_files X p randno reusing l w } } }"

partial_function (option) create_leafdirs :: "'w lib \<Rightarrow> ptr \<Rightarrow> int \<Rightarrow> bool \<Rightarrow> lstate \<Rightarrow> 'w \<Rightarrow> (int \<times> lstate \<times> 'w) option" where
  "create_leafdirs X p randno reusing l w = do {
     (entry, l, w) \<leftarrow> do_pick X p (FILESET_PICKUNIQUE OR FILESET_PICKLEAFDIR) 0 0 l w;
     if entry = NULL then Some (FILEBENCH_OK, l, w)
     else do {
       let (newrand, w) = os_rand X w;
       if newrand < randno then do {
         (l, w) \<leftarrow> do_unbusy X entry True False 0 l w;
         create_leafdirs X p randno reusing l w }
       else do {
         (rc, l, w) \<leftarrow> fileset_alloc_leafdir X entry (mark_reusing reusing entry l) w;
         if rc = FILEBENCH_ERROR then Some (FILEBENCH_ERROR, l, w) else create_leafdirs X p randno reusing l w } } }"

definition reset_picks :: "'w lib \<Rightarrow> ptr \<Rightarrow> uint32 \<Rightarrow> lstate \<Rightarrow> lstate option" where
  "reset_picks X p kind l = map_option (put_fset l p) (fileset_pickreset (addr_tmp X) (at_fset l p) kind)"

text \<open>The share of the files not created, as a bound for \<open>rand\<close>; the product is of 64 bits.\<close>

definition skip_below :: "fbint \<Rightarrow> int" where
  "skip_below preallocpercent = sint (ucast (RAND_MAX * (100 - preallocpercent) div 100) :: uint32)"

text \<open>Whether the files on storage are kept: \<open>trust_tree\<close> says so, or the directory is there and \<open>reuse\<close> is set.\<close>

definition keeps_files :: "'w lib \<Rightarrow> ptr \<Rightarrow> string \<Rightarrow> lstate \<Rightarrow> 'w \<Rightarrow> (bool \<times> 'w) option" where
  "keeps_files X p pth l w = do {
     trust \<leftarrow> get_bool_l l (fsn_trust_tree (filesets (fb l) p));
     if trust \<noteq> 0 then Some (True, w)
     else do {
       let (sb, w) = os_stat X pth w;
       dir \<leftarrow> must_str l (fsn_path (filesets (fb l) p));
       if sb \<noteq> None \<and> length pth > 3 \<and> length dir > 2 then do {
         reuse \<leftarrow> get_bool_l l (fsn_reuse (filesets (fb l) p));
         Some (reuse \<noteq> 0, w) }
       else Some (False, w) } }"

definition fileset_create :: "'w lib \<Rightarrow> ptr \<Rightarrow> lstate \<Rightarrow> 'w \<Rightarrow> (int + int \<times> lstate \<times> 'w) option" where
  "fileset_create X p l w = do {
     dir \<leftarrow> avd_get_str (vs (fb l)) (fsn_path (filesets (fb l) p));
     name \<leftarrow> (if dir = None then Some None else avd_get_str (vs (fb l)) (fsn_name (filesets (fb l) p)));
     if dir = None \<or> name = None then Some (Inr (FILEBENCH_ERROR, l, w))
     else if raw_support X \<and> fsn_attrs (filesets (fb l) p) AND FILESET_IS_RAW_DEV \<noteq> 0 then Some (Inr (FILEBENCH_OK, l, w))
     else do {
       pth \<leftarrow> base_path l p;
       (reusing, w) \<leftarrow> keeps_files X p pth l w;
       let w = (if reusing then w else fsp_recur_rm (plug X) pth w);
       prealloc \<leftarrow> (if reusing then Some 0 else get_bool_l l (fsn_prealloc (filesets (fb l) p)));
       (rc, w) \<leftarrow> (if prealloc \<noteq> 0 then fileset_create_subdirs X l p pth (snd (fsp_mkdir (plug X) pth 493 w)) else Some (FILEBENCH_OK, w));
       if rc = FILEBENCH_ERROR then Some (Inr (FILEBENCH_ERROR, l, w))
       else do {
         (percent, w) \<leftarrow> get_int_l X l (fsn_preallocpercent (filesets (fb l) p)) w;
         let randno = skip_below percent;
         l \<leftarrow> reset_picks X p FILESET_PICKFILE l;
         r \<leftarrow> create_files X p randno reusing l w;
         case r of
           Inl e \<Rightarrow> Some (Inl e)
         | Inr (rc, l, w) \<Rightarrow>
             if rc = FILEBENCH_ERROR then Some (Inr (FILEBENCH_ERROR, l, w))
             else do {
               l \<leftarrow> reset_picks X p FILESET_PICKLEAFDIR l;
               map_option Inr (create_leafdirs X p randno reusing l w) } } } }"

definition fileset_delete_storage :: "'w lib \<Rightarrow> ptr \<Rightarrow> lstate \<Rightarrow> 'w \<Rightarrow> 'w option" where
  "fileset_delete_storage X p l w = do {
     dir \<leftarrow> avd_get_str (vs (fb l)) (fsn_path (filesets (fb l) p));
     name \<leftarrow> (if dir = None then Some None else avd_get_str (vs (fb l)) (fsn_name (filesets (fb l) p)));
     if dir = None \<or> name = None then Some w
     else if raw_support X \<and> fsn_attrs (filesets (fb l) p) AND FILESET_IS_RAW_DEV \<noteq> 0 then Some w
     else do {
       pth \<leftarrow> base_path l p;
       Some (fsp_recur_rm (plug X) pth w) } }"

end
