(* ===== verification/FB_Fileops.thy ===== *)
theory FB_Fileops
  imports FB_Fs
begin

text \<open>
  The flowops of \<^verbatim>\<open>src/filebench/flowop_library.c\<close> that work on files and directories, with the functions they share: which
  file descriptor of the thread to use (\<open>flowoplib_fdnum\<close>), opening it if it is not (\<open>flowoplib_filesetup\<close>), and which memory to
  transfer (\<open>flowoplib_iobufsetup\<close>). Also the flowops that block and wake each other, and the table of them all.

  A thread's descriptors are the arrays \<open>tf_fd\<close> and \<open>tf_fse\<close>, both with \<open>THREADFLOW_MAXFD + 1\<close> elements; an index outside is
  undefined behaviour. A pointer to a descriptor is its index. The bytes transferred are not part of the state.
  Not modelled: the messages, and the functions called only to write them.
\<close>

abbreviation (input) THREADFLOW_MAXFD :: int where "THREADFLOW_MAXFD \<equiv> 128"
abbreviation (input) TRUE :: int where "TRUE \<equiv> 1"
abbreviation (input) SEEK_SET :: int where "SEEK_SET \<equiv> 0"
abbreviation (input) SEEK_END :: int where "SEEK_END \<equiv> 2"
abbreviation (input) DIRENT_SIZE :: uint32 where "DIRENT_SIZE \<equiv> 280"

subsection \<open>The state of the thread and the flowop\<close>

definition thr :: "lstate \<Rightarrow> ptr \<Rightarrow> threadflow" where
  "thr l t = threads (fb l) t"

definition fop :: "lstate \<Rightarrow> ptr \<Rightarrow> flowop" where
  "fop l f = flowops (fb l) f"

definition upd_thr :: "lstate \<Rightarrow> ptr \<Rightarrow> (threadflow \<Rightarrow> threadflow) \<Rightarrow> lstate" where
  "upd_thr l t g = l\<lparr>fb := upd_tf (fb l) t g\<rparr>"

definition upd_fop :: "lstate \<Rightarrow> ptr \<Rightarrow> (flowop \<Rightarrow> flowop) \<Rightarrow> lstate" where
  "upd_fop l f g = l\<lparr>fb := upd_fo (fb l) f g\<rparr>"

definition fd_ok :: "int \<Rightarrow> bool" where
  "fd_ok fd \<longleftrightarrow> 0 \<le> fd \<and> fd \<le> THREADFLOW_MAXFD"

definition get_fd :: "lstate \<Rightarrow> ptr \<Rightarrow> int \<Rightarrow> uint64 option" where
  "get_fd l t fd = (if fd_ok fd then Some (tf_fd (thr l t) fd) else None)"

definition get_fse :: "lstate \<Rightarrow> ptr \<Rightarrow> int \<Rightarrow> ptr option" where
  "get_fse l t fd = (if fd_ok fd then Some (tf_fse (thr l t) fd) else None)"

definition set_fd :: "lstate \<Rightarrow> ptr \<Rightarrow> int \<Rightarrow> uint64 \<Rightarrow> lstate" where
  "set_fd l t fd v = upd_thr l t (\<lambda>x. x\<lparr>tf_fd := (tf_fd x)(fd := v)\<rparr>)"

definition set_fse :: "lstate \<Rightarrow> ptr \<Rightarrow> int \<Rightarrow> ptr \<Rightarrow> lstate" where
  "set_fse l t fd v = upd_thr l t (\<lambda>x. x\<lparr>tf_fse := (tf_fse x)(fd := v)\<rparr>)"

text \<open>The fileset of an entry that is followed.\<close>

definition fileset_of :: "lstate \<Rightarrow> ptr \<Rightarrow> ptr option" where
  "fileset_of l e = (if e = NULL \<or> fse_fileset (fents l e) = NULL then None else Some (fse_fileset (fents l e)))"

definition begin_op :: "'w lib \<Rightarrow> ptr \<Rightarrow> lstate \<Rightarrow> 'w \<Rightarrow> lstate \<times> 'w" where
  "begin_op X t l w = (let (s, w) = flowop_beginop (clock (mach X)) (fb l) w t in (l\<lparr>fb := s\<rparr>, w))"

definition end_op :: "'w lib \<Rightarrow> ptr \<Rightarrow> ptr \<Rightarrow> uint64 \<Rightarrow> lstate \<Rightarrow> 'w \<Rightarrow> lstate \<times> 'w" where
  "end_op X t f bytes l w = (let (s, w) = flowop_endop (clock (mach X)) (fb l) w t f bytes in (l\<lparr>fb := s\<rparr>, w))"

text \<open>A random number below a bound in steps; \<open>/dev/urandom\<close> is read only if there is a choice.\<close>

definition draw :: "'w lib \<Rightarrow> uint64 \<Rightarrow> uint64 \<Rightarrow> lstate \<Rightarrow> 'w \<Rightarrow> (uint64 \<times> int \<times> 'w) option" where
  "draw X mx round l w = do {
     let (bytes, w') = os_urandom X w;
     (r, rc, _) \<leftarrow> filebench_randomno64 (fpu (mach X)) (rnd (mach X)) (vs (fb l)) bytes mx round NULL w;
     Some (r, rc, if mx \<le> round then w else w') }"

subsection \<open>Choosing files and descriptors\<close>

definition flowoplib_fileattrs :: "lstate \<Rightarrow> ptr \<Rightarrow> uint32 option" where
  "flowoplib_fileattrs l f = do {
     directio \<leftarrow> get_bool_l l (fo_directio (fop l f));
     dsync \<leftarrow> get_bool_l l (fo_dsync (fop l f));
     let attrs = (if directio \<noteq> 0 then FLOW_ATTR_DIRECTIO else 0);
     Some (if dsync \<noteq> 0 then attrs OR FLOW_ATTR_DSYNC else attrs) }"

text \<open>
  The index the flowop asks for among \<open>n\<close> entries: a cast to \<open>int\<close>, then a remainder of 64-bit numbers. Dividing by zero
  is undefined.
\<close>

definition pick_index :: "'w lib \<Rightarrow> ptr \<Rightarrow> fbint \<Rightarrow> lstate \<Rightarrow> 'w \<Rightarrow> (uint32 \<times> 'w) option" where
  "pick_index X f n l w = do {
     (d, w) \<leftarrow> avd_get_dbl (fpu (mach X)) (rnd (mach X)) (vs (fb l)) (fo_fileindex (fop l f)) w;
     let i = dbl_to_int X (fp_mul (fpu (mach X)) d (fp_of_int (fpu (mach X)) (n div 2)));
     if n = 0 then None else Some (ucast (scast i mod n :: uint64), w) }"

definition flowoplib_pickfile :: "'w lib \<Rightarrow> ptr \<Rightarrow> uint32 \<Rightarrow> int \<Rightarrow> lstate \<Rightarrow> 'w \<Rightarrow> (int \<times> ptr \<times> lstate \<times> 'w) option" where
  "flowoplib_pickfile X f flags tid l w =
     (let p = fo_fileset (fop l f) in
      if p = NULL then Some (FILEBENCH_ERROR, NULL, l, w)
      else do {
        (index, flags, w) \<leftarrow>
          (if fo_fileindex (fop l f) \<noteq> NULL then do {
             (i, w) \<leftarrow> pick_index X f (fs_constentries (fsets l p)) l w;
             Some (i, flags OR FILESET_PICKBYINDEX, w) }
           else Some (0, flags, w));
        (e, l, w) \<leftarrow> do_pick X p (FILESET_PICKFILE OR flags) tid index l w;
        Some (if e = NULL then FILEBENCH_NORSC else FILEBENCH_OK, e, l, w) })"

definition flowoplib_pickleafdir :: "'w lib \<Rightarrow> ptr \<Rightarrow> uint32 \<Rightarrow> lstate \<Rightarrow> 'w \<Rightarrow> (int \<times> ptr \<times> lstate \<times> 'w) option" where
  "flowoplib_pickleafdir X f flags l w =
     (let p = fo_fileset (fop l f) in
      if p = NULL then Some (FILEBENCH_ERROR, NULL, l, w)
      else do {
        (index, flags, w) \<leftarrow>
          (if fo_fileindex (fop l f) \<noteq> NULL then do {
             (i, w) \<leftarrow> pick_index X f (fs_constleafdirs (fsets l p)) l w;
             Some (i, flags OR FILESET_PICKBYINDEX, w) }
           else Some (0, flags, w));
        (e, l, w) \<leftarrow> do_pick X p (FILESET_PICKLEAFDIR OR flags) 0 index l w;
        Some (if e = NULL then FILEBENCH_NORSC else FILEBENCH_OK, e, l, w) })"

text \<open>The rotor is an \<open>int\<close>; it is compared with the number of entries as an unsigned 64-bit number.\<close>

definition next_rotor :: "fbint \<Rightarrow> int \<Rightarrow> int" where
  "next_rotor entries rotor =
     (let r = (if rotor = 0 then THREADFLOW_MAXFD else rotor);
          r = (if entries = word_of_int (THREADFLOW_MAXFD - r) then THREADFLOW_MAXFD else r) in
      r - 1)"

definition flowoplib_fdnum :: "ptr \<Rightarrow> ptr \<Rightarrow> lstate \<Rightarrow> (int \<times> lstate) option" where
  "flowoplib_fdnum t f l =
     (let fdnumber = fo_fdnumber (fop l f); p = fo_fileset (fop l f) in
      if fdnumber > 0 then Some (fdnumber, l)
      else do {
        rotate \<leftarrow> get_bool_l l (fo_rotatefd (fop l f));
        if rotate = 0 then Some (fdnumber, l)
        else if p = NULL then Some (FILEBENCH_ERROR, l)
        else if fs_constentries (fsets l p) > word_of_int (THREADFLOW_MAXFD div 2) then Some (FILEBENCH_ERROR, l)
        else
          let r = next_rotor (fs_constentries (fsets l p)) (tf_fdrotor (thr l t)) in
          Some (r, upd_thr l t (\<lambda>x. x\<lparr>tf_fdrotor := r\<rparr>)) })"

subsection \<open>Opening\<close>

text \<open>Opening the file of an entry that was picked, into a descriptor of the thread.\<close>

definition open_entry :: "'w lib \<Rightarrow> ptr \<Rightarrow> ptr \<Rightarrow> int \<Rightarrow> ptr \<Rightarrow> uint32 \<Rightarrow> lstate \<Rightarrow> 'w \<Rightarrow> (int \<times> lstate \<times> 'w) option" where
  "open_entry X t f fd e flag l w = do {
     let l = set_fse l t fd e;
     let (l, w) = begin_op X t l w;
     attrs \<leftarrow> flowoplib_fileattrs l f;
     (err, d, l, w) \<leftarrow> fileset_openfile X (tf_fd (thr l t) fd) (fo_fileset (fop l f)) e flag 438 attrs l w;
     let l = set_fd l t fd d;
     let (l, w) = end_op X t f 0 l w;
     Some (if err = FILEBENCH_ERROR then FILEBENCH_ERROR else FILEBENCH_OK, l, w) }"

definition open_raw :: "'w lib \<Rightarrow> ptr \<Rightarrow> ptr \<Rightarrow> int \<Rightarrow> uint32 \<Rightarrow> lstate \<Rightarrow> 'w \<Rightarrow> (int \<times> lstate \<times> 'w) option" where
  "open_raw X t f fd flag l w = do {
     name \<leftarrow> base_path l (fo_fileset (fop l f));
     dsync \<leftarrow> get_bool_l l (fo_dsync (fop l f));
     let (rc, d, w) = fsp_open (plug X) (tf_fd (thr l t) fd) name (flag OR (if dsync \<noteq> 0 then O_FSYNC else 0)) 438 w;
     let l = set_fd l t fd d;
     if rc = FILEBENCH_ERROR then Some (FILEBENCH_ERROR, l, w)
     else Some (FILEBENCH_OK, set_fse l t fd NULL, w) }"

definition flowoplib_openfile_common :: "'w lib \<Rightarrow> ptr \<Rightarrow> ptr \<Rightarrow> int \<Rightarrow> lstate \<Rightarrow> 'w \<Rightarrow> (int \<times> lstate \<times> 'w) option" where
  "flowoplib_openfile_common X t f fd l w =
     (let p = fo_fileset (fop l f) in
      if p = NULL then Some (FILEBENCH_ERROR, l, w)
      else do {
        name \<leftarrow> avd_get_str (vs (fb l)) (fsn_name (filesets (fb l) p));
        if name = None then Some (FILEBENCH_ERROR, l, w)
        else do {
          readonly \<leftarrow> get_bool_l l (fsn_readonly (filesets (fb l) p));
          let openflag = (if readonly = TRUE then O_RDONLY else O_RDWR);
          rotate \<leftarrow> get_bool_l l (fo_rotatefd (fop l f));
          let tid = (if rotate \<noteq> 0 then tf_utid (thr l t) else 0);
          d \<leftarrow> get_fd l t fd;
          if d \<noteq> 0 then Some (FILEBENCH_ERROR, l, w)
          else if raw_support X \<and> fsn_attrs (filesets (fb l) p) AND FILESET_IS_RAW_DEV \<noteq> 0 then open_raw X t f fd openflag l w
          else do {
            (err, e, l, w) \<leftarrow> flowoplib_pickfile X f FILESET_PICKEXISTS tid l w;
            if err \<noteq> FILEBENCH_OK then Some (err, l, w) else open_entry X t f fd e openflag l w } } })"

definition flowoplib_openfile :: "'w lib \<Rightarrow> ptr \<Rightarrow> ptr \<Rightarrow> lstate \<Rightarrow> 'w \<Rightarrow> (int \<times> lstate \<times> 'w) option" where
  "flowoplib_openfile X t f l w = do {
     (fd, l) \<leftarrow> flowoplib_fdnum t f l;
     if fd = -1 then Some (FILEBENCH_ERROR, l, w) else flowoplib_openfile_common X t f fd l w }"

definition flowoplib_createfile :: "'w lib \<Rightarrow> ptr \<Rightarrow> ptr \<Rightarrow> lstate \<Rightarrow> 'w \<Rightarrow> (int \<times> lstate \<times> 'w) option" where
  "flowoplib_createfile X t f l w = do {
     let fd = fo_fdnumber (fop l f);
     let p = fo_fileset (fop l f);
     d \<leftarrow> get_fd l t fd;
     if d \<noteq> 0 then Some (FILEBENCH_ERROR, l, w)
     else if p = NULL then Some (FILEBENCH_ERROR, l, w)
     else do {
       readonly \<leftarrow> get_bool_l l (fsn_readonly (filesets (fb l) p));
       if readonly = TRUE then Some (FILEBENCH_ERROR, l, w)
       else if raw_support X \<and> fsn_attrs (filesets (fb l) p) AND FILESET_IS_RAW_DEV \<noteq> 0 then Some (FILEBENCH_ERROR, l, w)
       else do {
         (err, e, l, w) \<leftarrow> flowoplib_pickfile X f FILESET_PICKNOEXIST 0 l w;
         if err \<noteq> FILEBENCH_OK then Some (err, l, w) else open_entry X t f fd e (O_RDWR OR O_CREAT) l w } } }"

subsection \<open>Closing and deleting\<close>

text \<open>
  Taking hold of a particular entry: while it is busy the thread asks to be woken and waits; then the entry is
  busy for this thread.
\<close>

partial_function (option) grab_entry :: "'w lib \<Rightarrow> ptr \<Rightarrow> ptr \<Rightarrow> lstate \<Rightarrow> 'w \<Rightarrow> (lstate \<times> 'w) option" where
  "grab_entry X p e l w =
     (if fs_pick_lock (fsets l p) then let (l, w) = os_wait X l w in grab_entry X p e l w
      else if fse_flags (fents l e) AND FSE_BUSY \<noteq> 0 then
        let (l, w) = os_wait X (put_fset l p (upd_ent (at_fset l p) e (set_flags (\<lambda>g. g OR FSE_THRD_WAITNG)))) w in
        grab_entry X p e l w
      else Some (put_fset l p (upd_ent (at_fset l p) e (set_flags (\<lambda>g. g OR FSE_BUSY))), w))"

definition one_less_idle :: "lstate \<Rightarrow> ptr \<Rightarrow> lstate" where
  "one_less_idle l p = put_fset l p (add_idle FSE_TYPE_FILE (-1) (at_fset l p))"

definition flowoplib_closefile :: "'w lib \<Rightarrow> ptr \<Rightarrow> ptr \<Rightarrow> lstate \<Rightarrow> 'w \<Rightarrow> (int \<times> lstate \<times> 'w) option" where
  "flowoplib_closefile X t f l w = do {
     let fd = fo_fdnumber (fop l f);
     d \<leftarrow> get_fd l t fd;
     if d = 0 then Some (FILEBENCH_ERROR, l, w)
     else do {
       e \<leftarrow> get_fse l t fd;
       p \<leftarrow> fileset_of l e;
       (l, w) \<leftarrow> grab_entry X p e l w;
       let l = (if fse_open_cnt (fents l e) = 1 then one_less_idle l p else l);
       let (l, w) = begin_op X t l w;
       let w = fsp_close (plug X) d w;
       let (l, w) = end_op X t f 0 l w;
       (l, w) \<leftarrow> do_unbusy X e False False (-1) l w;
       Some (FILEBENCH_OK, set_fd l t fd 0, w) } }"

text \<open>The entry to delete, held by this thread: the one of the descriptor, or any that exists.\<close>

definition deletefile_entry :: "'w lib \<Rightarrow> ptr \<Rightarrow> ptr \<Rightarrow> ptr \<Rightarrow> lstate \<Rightarrow> 'w \<Rightarrow> (int \<times> ptr \<times> lstate \<times> 'w) option" where
  "deletefile_entry X f e p l w =
     (if e = NULL then flowoplib_pickfile X f FILESET_PICKEXISTS 0 l w
      else do {
        (l, w) \<leftarrow> grab_entry X p e l w;
        Some (FILEBENCH_OK, e, one_less_idle l p, w) })"

definition flowoplib_deletefile :: "'w lib \<Rightarrow> ptr \<Rightarrow> ptr \<Rightarrow> lstate \<Rightarrow> 'w \<Rightarrow> (int \<times> lstate \<times> 'w) option" where
  "flowoplib_deletefile X t f l w = do {
     let fd = fo_fdnumber (fop l f);
     e \<leftarrow> (if fd > 0 then get_fse l t fd else Some NULL);
     let l = (if e \<noteq> NULL then set_fse l t fd NULL else l);
     let p = (if e \<noteq> NULL then fse_fileset (fents l e) else fo_fileset (fop l f));
     if p = NULL then Some (FILEBENCH_ERROR, l, w)
     else if raw_support X \<and> fsn_attrs (filesets (fb l) p) AND FILESET_IS_RAW_DEV \<noteq> 0 then Some (FILEBENCH_ERROR, l, w)
     else do {
       (err, e, l, w) \<leftarrow> deletefile_entry X f e p l w;
       if err \<noteq> FILEBENCH_OK then Some (err, l, w)
       else do {
         let own = fd > 0 \<and> sint (fd_num (tf_fd (thr l t) fd)) > 0;
         if sint (fse_open_cnt (fents l e)) > (if own then 1 else 0) then do {
           (l, w) \<leftarrow> do_unbusy X e False False 0 l w;
           Some (FILEBENCH_OK, l, w) }
         else do {
           pth \<leftarrow> entry_path l p e;
           let (l, w) = begin_op X t l w;
           let w = fsp_unlink (plug X) pth w;
           let (l, w) = end_op X t f 0 l w;
           (l, w) \<leftarrow> do_unbusy X e True False (- fse_open_cnt (fents l e)) l w;
           Some (FILEBENCH_OK, l, w) } } } }"

subsection \<open>Synchronising and examining files\<close>

definition flowoplib_fsync :: "'w lib \<Rightarrow> ptr \<Rightarrow> ptr \<Rightarrow> lstate \<Rightarrow> 'w \<Rightarrow> (int \<times> lstate \<times> 'w) option" where
  "flowoplib_fsync X t f l w = do {
     let fd = fo_fdnumber (fop l f);
     d \<leftarrow> get_fd l t fd;
     if d = 0 then Some (FILEBENCH_ERROR, l, w)
     else do {
       e \<leftarrow> get_fse l t fd;
       raw \<leftarrow> (if e = NULL then Some True
              else map_option (\<lambda>p. fsn_attrs (filesets (fb l) p) AND FILESET_IS_RAW_DEV \<noteq> 0) (fileset_of l e));
       if raw then Some (FILEBENCH_ERROR, l, w)
       else
         let (l, w) = begin_op X t l w;
             w = fsp_fsync (plug X) d w;
             (l, w) = end_op X t f 0 l w in
         Some (FILEBENCH_OK, l, w) } }"

definition fsync_one :: "'w lib \<Rightarrow> ptr \<Rightarrow> ptr \<Rightarrow> nat \<Rightarrow> lstate \<times> 'w \<Rightarrow> lstate \<times> 'w" where
  "fsync_one X t f fd = (\<lambda>(l, w).
     let e = tf_fse (thr l t) (int fd) in
     if e = NULL \<or> fo_fileset (fop l f) \<noteq> fse_fileset (fents l e) then (l, w)
     else
       let (l, w) = begin_op X t l w;
           w = fsp_fsync (plug X) (tf_fd (thr l t) (int fd)) w in
       end_op X t f 0 l w)"

definition flowoplib_fsyncset :: "'w lib \<Rightarrow> ptr \<Rightarrow> ptr \<Rightarrow> lstate \<Rightarrow> 'w \<Rightarrow> (int \<times> lstate \<times> 'w) option" where
  "flowoplib_fsyncset X t f l w = (let (l, w) = fold (fsync_one X t f) [0..<nat THREADFLOW_MAXFD] (l, w) in Some (FILEBENCH_OK, l, w))"

text \<open>With an open descriptor \<open>fstat\<close>, otherwise \<open>stat\<close> of any file that exists.\<close>

definition flowoplib_statfile :: "'w lib \<Rightarrow> ptr \<Rightarrow> ptr \<Rightarrow> lstate \<Rightarrow> 'w \<Rightarrow> (int \<times> lstate \<times> 'w) option" where
  "flowoplib_statfile X t f l w = do {
     let fd = fo_fdnumber (fop l f);
     d \<leftarrow> (if fd > 0 then get_fd l t fd else Some 0);
     e \<leftarrow> (if sint (fd_num d) > 0 then get_fse l t fd else Some NULL);
     let p = (if e \<noteq> NULL then fse_fileset (fents l e) else fo_fileset (fop l f));
     if sint (fd_num d) > 0 \<and> e = NULL then Some (FILEBENCH_ERROR, l, w)
     else if p = NULL then Some (FILEBENCH_ERROR, l, w)
     else if raw_support X \<and> fsn_attrs (filesets (fb l) p) AND FILESET_IS_RAW_DEV \<noteq> 0 then Some (FILEBENCH_ERROR, l, w)
     else if e = NULL then do {
       (err, e, l, w) \<leftarrow> flowoplib_pickfile X f FILESET_PICKEXISTS 0 l w;
       if err \<noteq> FILEBENCH_OK then Some (err, l, w)
       else do {
         pth \<leftarrow> entry_path l p e;
         let (l, w) = begin_op X t l w;
         let w = snd (fsp_stat (plug X) pth w);
         let (l, w) = end_op X t f 0 l w;
         (l, w) \<leftarrow> do_unbusy X e False False 0 l w;
         Some (FILEBENCH_OK, l, w) } }
     else
       let (l, w) = begin_op X t l w;
           w = snd (fsp_fstat (plug X) d w);
           (l, w) = end_op X t f 0 l w in
       Some (FILEBENCH_OK, l, w) }"

subsection \<open>Directories\<close>

text \<open>The path of a directory; \<open>None\<close> inside is the error return.\<close>

definition flowoplib_getdirpath :: "lstate \<Rightarrow> ptr \<Rightarrow> string option option" where
  "flowoplib_getdirpath l dir = do {
     p \<leftarrow> fileset_of l dir;
     fileset_path \<leftarrow> avd_get_str (vs (fb l)) (fsn_path (filesets (fb l) p));
     fileset_name \<leftarrow> (if fileset_path = None then Some None else avd_get_str (vs (fb l)) (fsn_name (filesets (fb l) p)));
     if fileset_path = None \<or> fileset_name = None then Some None else map_option Some (entry_path l p dir) }"

text \<open>Making and removing a leaf directory: \<open>act\<close> is the call.\<close>

definition leafdir_op ::
  "'w lib \<Rightarrow> uint32 \<Rightarrow> (string \<Rightarrow> 'w \<Rightarrow> 'w) \<Rightarrow> bool \<Rightarrow> ptr \<Rightarrow> ptr \<Rightarrow> lstate \<Rightarrow> 'w \<Rightarrow> (int \<times> lstate \<times> 'w) option" where
  "leafdir_op X flags act exists_now t f l w = do {
     (ret, dir, l, w) \<leftarrow> flowoplib_pickleafdir X f flags l w;
     if ret \<noteq> FILEBENCH_OK then Some (ret, l, w)
     else do {
       full_path \<leftarrow> flowoplib_getdirpath l dir;
       case full_path of
         None \<Rightarrow> Some (FILEBENCH_ERROR, l, w)
       | Some pth \<Rightarrow> do {
           let (l, w) = begin_op X t l w;
           let w = act pth w;
           let (l, w) = end_op X t f 0 l w;
           (l, w) \<leftarrow> do_unbusy X dir True exists_now 0 l w;
           Some (FILEBENCH_OK, l, w) } } }"

definition flowoplib_makedir :: "'w lib \<Rightarrow> ptr \<Rightarrow> ptr \<Rightarrow> lstate \<Rightarrow> 'w \<Rightarrow> (int \<times> lstate \<times> 'w) option" where
  "flowoplib_makedir X = leafdir_op X FILESET_PICKNOEXIST (\<lambda>pth w. snd (fsp_mkdir (plug X) pth 493 w)) True"

definition flowoplib_removedir :: "'w lib \<Rightarrow> ptr \<Rightarrow> ptr \<Rightarrow> lstate \<Rightarrow> 'w \<Rightarrow> (int \<times> lstate \<times> 'w) option" where
  "flowoplib_removedir X = leafdir_op X FILESET_PICKEXISTS (fsp_rmdir (plug X)) False"

partial_function (option) read_dir :: "'w fsplug \<Rightarrow> ptr \<Rightarrow> uint32 \<Rightarrow> 'w \<Rightarrow> (uint32 \<times> 'w) option" where
  "read_dir V dh dir_bytes w =
     (case fsp_readdir V dh w of
        (None, w) \<Rightarrow> Some (dir_bytes, w)
      | (Some name, w) \<Rightarrow> read_dir V dh (dir_bytes + of_nat (length name) + DIRENT_SIZE - 1) w)"

definition flowoplib_listdir :: "'w lib \<Rightarrow> ptr \<Rightarrow> ptr \<Rightarrow> lstate \<Rightarrow> 'w \<Rightarrow> (int \<times> lstate \<times> 'w) option" where
  "flowoplib_listdir X t f l w =
     (let p = fo_fileset (fop l f) in
      if p = NULL then Some (FILEBENCH_ERROR, l, w)
      else do {
        (dir, l, w) \<leftarrow> do_pick X p FILESET_PICKDIR 0 0 l w;
        if dir = NULL then Some (FILEBENCH_ERROR, l, w)
        else do {
          full_path \<leftarrow> flowoplib_getdirpath l dir;
          case full_path of
            None \<Rightarrow> Some (FILEBENCH_ERROR, l, w)
          | Some pth \<Rightarrow> do {
              let (l, w) = begin_op X t l w;
              let (dir_handle, w) = fsp_opendir (plug X) pth w;
              if dir_handle = NULL then Some (FILEBENCH_ERROR, l, w)
              else do {
                (dir_bytes, w) \<leftarrow> read_dir (plug X) dir_handle 0 w;
                let w = fsp_closedir (plug X) dir_handle w;
                let (l, w) = end_op X t f (scast dir_bytes) l w;
                (l, w) \<leftarrow> do_unbusy X dir False False 0 l w;
                Some (FILEBENCH_OK, l, w) } } } })"

subsection \<open>Setting up a transfer\<close>

text \<open>The descriptor to use, opened, and the size of the working set. A conflict of names ends the program.\<close>

definition names_conflict :: "ptr \<Rightarrow> ptr \<Rightarrow> int \<Rightarrow> lstate \<Rightarrow> bool option" where
  "names_conflict t f fd l = do {
     e \<leftarrow> (if fd > 0 then get_fse l t fd else Some NULL);
     if e = NULL then Some False
     else do {
       p \<leftarrow> fileset_of l e;
       if fo_filename (fop l f) = NULL then Some False
       else do {
         fd_based_name \<leftarrow> must_str l (fsn_name (filesets (fb l) p));
         fo_based_name \<leftarrow> must_str l (fo_filename (fop l f));
         Some (fd_based_name \<noteq> fo_based_name) } } }"

definition working_set :: "'w lib \<Rightarrow> ptr \<Rightarrow> ptr \<Rightarrow> int \<Rightarrow> lstate \<Rightarrow> 'w \<Rightarrow> (fbint \<times> 'w) option" where
  "working_set X t f fd l w =
     (if fo_constwss (fop l f) \<noteq> 0 then Some (fo_constwss (fop l f), w)
      else do {
        e \<leftarrow> get_fse l t fd;
        if e \<noteq> NULL then Some (fse_size (fents l e), w)
        else if fo_fileset (fop l f) = NULL then None
        else get_int_l X l (fsn_size (filesets (fb l) (fo_fileset (fop l f)))) w })"

definition flowoplib_filesetup ::
  "'w lib \<Rightarrow> ptr \<Rightarrow> ptr \<Rightarrow> lstate \<Rightarrow> 'w \<Rightarrow> (int + int \<times> fbint \<times> int \<times> lstate \<times> 'w) option" where
  "flowoplib_filesetup X t f l w = do {
     (fd, l) \<leftarrow> flowoplib_fdnum t f l;
     if fd = -1 then Some (Inr (FILEBENCH_ERROR, 0, 0, l, w))
     else do {
       conflict \<leftarrow> names_conflict t f fd l;
       if conflict then Some (Inl 1)
       else do {
         d \<leftarrow> get_fd l t fd;
         (ret, l, w) \<leftarrow> (if d = 0 then flowoplib_openfile_common X t f fd l w else Some (FILEBENCH_OK, l, w));
         if ret \<noteq> FILEBENCH_OK then Some (Inr (ret, 0, 0, l, w))
         else do {
           (wss, w) \<leftarrow> working_set X t f fd l w;
           Some (Inr (FILEBENCH_OK, wss, fd, l, w)) } } } }"

text \<open>The memory to transfer: at random in the memory of the thread, or in a buffer of the flowop.\<close>

definition flowoplib_iobufsetup :: "'w lib \<Rightarrow> ptr \<Rightarrow> ptr \<Rightarrow> fbint \<Rightarrow> lstate \<Rightarrow> 'w \<Rightarrow> (int \<times> ptr \<times> lstate \<times> 'w) option" where
  "flowoplib_iobufsetup X t f iosize l w =
     (if iosize = 0 then Some (FILEBENCH_ERROR, NULL, l, w)
      else if tf_constmemsize (thr l t) \<noteq> 0 then do {
        (memoffset, rc, w) \<leftarrow> draw X (tf_constmemsize (thr l t)) iosize l w;
        if rc = -1 then Some (FILEBENCH_ERROR, NULL, l, w)
        else Some (FILEBENCH_OK, tf_mem (thr l t) + memoffset, l, w) }
      else
        let l = (if fo_buf (fop l f) \<noteq> NULL \<and> fo_buf_size (fop l f) < iosize then upd_fop l f (\<lambda>x. x\<lparr>fo_buf := NULL\<rparr>) else l);
            (l, w) = (if fo_buf (fop l f) = NULL
                      then let (b, w) = os_malloc X iosize w in (upd_fop l f (\<lambda>x. x\<lparr>fo_buf := b\<rparr>), w) else (l, w)) in
        if fo_buf (fop l f) = NULL then Some (FILEBENCH_ERROR, NULL, l, w)
        else Some (FILEBENCH_OK, fo_buf (fop l f), upd_fop l f (\<lambda>x. x\<lparr>fo_buf_size := iosize\<rparr>), w))"

definition flowoplib_iosetup ::
  "'w lib \<Rightarrow> ptr \<Rightarrow> ptr \<Rightarrow> fbint \<Rightarrow> lstate \<Rightarrow> 'w \<Rightarrow> (int + int \<times> fbint \<times> ptr \<times> int \<times> lstate \<times> 'w) option" where
  "flowoplib_iosetup X t f iosize l w = do {
     r \<leftarrow> flowoplib_filesetup X t f l w;
     case r of
       Inl e \<Rightarrow> Some (Inl e)
     | Inr (ret, wss, fd, l, w) \<Rightarrow>
         if ret \<noteq> FILEBENCH_OK then Some (Inr (ret, 0, NULL, 0, l, w))
         else do {
           (ret, iobuf, l, w) \<leftarrow> flowoplib_iobufsetup X t f iosize l w;
           Some (Inr (ret, wss, iobuf, fd, l, w)) } }"

subsection \<open>Reading\<close>

text \<open>After a failed read the operation is ended twice; the message between needs the fileset of the flowop.\<close>

definition end_read :: "'w lib \<Rightarrow> ptr \<Rightarrow> ptr \<Rightarrow> uint64 \<Rightarrow> uint32 \<Rightarrow> lstate \<Rightarrow> 'w \<Rightarrow> (int \<times> lstate \<times> 'w) option" where
  "end_read X t f d ret l w =
     (if ret = -1 then
        let (l, w) = end_op X t f 0 l w in
        if fo_fileset (fop l f) = NULL then None
        else let (l, w) = end_op X t f 0 l w in Some (FILEBENCH_ERROR, l, w)
      else
        let (l, w) = end_op X t f (scast ret) l w in
        Some (FILEBENCH_OK, l, if ret = 0 then fsp_lseek (plug X) d 0 SEEK_SET w else w))"

definition read_body ::
  "'w lib \<Rightarrow> ptr \<Rightarrow> ptr \<Rightarrow> fbint \<Rightarrow> fbint \<Rightarrow> ptr \<Rightarrow> uint64 \<Rightarrow> lstate \<Rightarrow> 'w \<Rightarrow> (int \<times> lstate \<times> 'w) option" where
  "read_body X t f iosize wss iobuf d l w = do {
     random \<leftarrow> get_bool_l l (fo_random (fop l f));
     if random \<noteq> 0 then do {
       (fileoffset, rc, w) \<leftarrow> draw X wss iosize l w;
       if rc = -1 then Some (FILEBENCH_ERROR, l, w)
       else do {
         let (l, w) = begin_op X t l w;
         let (ret, w) = fsp_pread (plug X) d iobuf iosize fileoffset w;
         end_read X t f d ret l w } }
     else do {
       let (l, w) = begin_op X t l w;
       let (ret, w) = fsp_read (plug X) d iobuf iosize w;
       end_read X t f d ret l w } }"

text \<open>The flowops on an open file: the setup, and the rest if it succeeds.\<close>

definition with_setup ::
  "(int + int \<times> fbint \<times> ptr \<times> int \<times> lstate \<times> 'w) option \<Rightarrow> ptr
     \<Rightarrow> (fbint \<Rightarrow> ptr \<Rightarrow> uint64 \<Rightarrow> lstate \<Rightarrow> 'w \<Rightarrow> (int \<times> lstate \<times> 'w) option) \<Rightarrow> (int + int \<times> lstate \<times> 'w) option" where
  "with_setup setup t body = do {
     r \<leftarrow> setup;
     case r of
       Inl e \<Rightarrow> Some (Inl e)
     | Inr (ret, wss, iobuf, fd, l, w) \<Rightarrow>
         if ret \<noteq> FILEBENCH_OK then Some (Inr (ret, l, w))
         else map_option Inr (body wss iobuf (tf_fd (thr l t) fd) l w) }"

definition flowoplib_read :: "'w lib \<Rightarrow> ptr \<Rightarrow> ptr \<Rightarrow> lstate \<Rightarrow> 'w \<Rightarrow> (int + int \<times> lstate \<times> 'w) option" where
  "flowoplib_read X t f l w = do {
     (iosize, w) \<leftarrow> get_int_l X l (fo_iosize (fop l f)) w;
     with_setup (flowoplib_iosetup X t f iosize l w) t (read_body X t f iosize) }"

text \<open>
  The setup of the flowops on whole files: the I/O size is that of the working set if none is given, and a working
  set of size zero needs no buffer (its address is that of a local variable). The I/O size is handed on.
\<close>

definition whole_setup ::
  "'w lib \<Rightarrow> ptr \<Rightarrow> ptr \<Rightarrow> lstate \<Rightarrow> 'w \<Rightarrow> (fbint \<Rightarrow> fbint \<Rightarrow> ptr \<Rightarrow> uint64 \<Rightarrow> lstate \<Rightarrow> 'w \<Rightarrow> (int \<times> lstate \<times> 'w) option)
     \<Rightarrow> (int + int \<times> lstate \<times> 'w) option" where
  "whole_setup X t f l w body = do {
     r \<leftarrow> flowoplib_filesetup X t f l w;
     case r of
       Inl e \<Rightarrow> Some (Inl e)
     | Inr (ret, wss, fd, l, w) \<Rightarrow>
         if ret \<noteq> FILEBENCH_OK then Some (Inr (ret, l, w))
         else do {
           (n, w) \<leftarrow> get_int_l X l (fo_iosize (fop l f)) w;
           let iosize = (if n = 0 then wss else n);
           (rc, iobuf, l, w) \<leftarrow>
             (if iosize = 0 then Some (FILEBENCH_OK, addr_loc X, l, w) else flowoplib_iobufsetup X t f iosize l w);
           if rc \<noteq> 0 then Some (Inr (FILEBENCH_ERROR, l, w))
           else map_option Inr (body iosize wss iobuf (tf_fd (thr l t) fd) l w) } }"

partial_function (option) read_all :: "'w fsplug \<Rightarrow> uint64 \<Rightarrow> ptr \<Rightarrow> fbint \<Rightarrow> uint64 \<Rightarrow> 'w \<Rightarrow> (uint32 \<times> uint64 \<times> 'w) option" where
  "read_all V d iobuf iosize bytes w =
     (let (ret, w) = fsp_read V d iobuf iosize w in
      if sint ret > 0 then read_all V d iobuf iosize (bytes + scast ret) w else Some (ret, bytes, w))"

definition readwhole_body ::
  "'w lib \<Rightarrow> ptr \<Rightarrow> ptr \<Rightarrow> fbint \<Rightarrow> fbint \<Rightarrow> ptr \<Rightarrow> uint64 \<Rightarrow> lstate \<Rightarrow> 'w \<Rightarrow> (int \<times> lstate \<times> 'w) option" where
  "readwhole_body X t f iosize wss iobuf d l w = do {
     let (l, w) = begin_op X t l w;
     let w = fsp_lseek (plug X) d 0 SEEK_SET w;
     (ret, bytes, w) \<leftarrow> read_all (plug X) d iobuf iosize 0 w;
     let (l, w) = end_op X t f bytes l w;
     Some (if sint ret < 0 then FILEBENCH_ERROR else FILEBENCH_OK, l, w) }"

definition flowoplib_readwholefile :: "'w lib \<Rightarrow> ptr \<Rightarrow> ptr \<Rightarrow> lstate \<Rightarrow> 'w \<Rightarrow> (int + int \<times> lstate \<times> 'w) option" where
  "flowoplib_readwholefile X t f l w = whole_setup X t f l w (readwhole_body X t f)"

subsection \<open>Writing\<close>

text \<open>Only the result \<open>-1\<close> of a write is an error; otherwise all bytes count.\<close>

definition end_write :: "'w lib \<Rightarrow> ptr \<Rightarrow> ptr \<Rightarrow> fbint \<Rightarrow> uint32 \<Rightarrow> lstate \<Rightarrow> 'w \<Rightarrow> (int \<times> lstate \<times> 'w) option" where
  "end_write X t f iosize ret l w =
     (let (l, w) = end_op X t f (if ret = -1 then 0 else iosize) l w in
      Some (if ret = -1 then FILEBENCH_ERROR else FILEBENCH_OK, l, w))"

definition write_body ::
  "'w lib \<Rightarrow> ptr \<Rightarrow> ptr \<Rightarrow> fbint \<Rightarrow> fbint \<Rightarrow> ptr \<Rightarrow> uint64 \<Rightarrow> lstate \<Rightarrow> 'w \<Rightarrow> (int \<times> lstate \<times> 'w) option" where
  "write_body X t f iosize wss iobuf d l w = do {
     random \<leftarrow> get_bool_l l (fo_random (fop l f));
     if random \<noteq> 0 then do {
       (fileoffset, rc, w) \<leftarrow> draw X wss iosize l w;
       if rc = -1 then Some (FILEBENCH_ERROR, l, w)
       else do {
         let (l, w) = begin_op X t l w;
         let (ret, w) = fsp_pwrite (plug X) d iobuf iosize fileoffset w;
         end_write X t f iosize ret l w } }
     else do {
       let (l, w) = begin_op X t l w;
       let (ret, w) = fsp_write (plug X) d iobuf iosize w;
       end_write X t f iosize ret l w } }"

definition flowoplib_write :: "'w lib \<Rightarrow> ptr \<Rightarrow> ptr \<Rightarrow> lstate \<Rightarrow> 'w \<Rightarrow> (int + int \<times> lstate \<times> 'w) option" where
  "flowoplib_write X t f l w = do {
     (iosize, w) \<leftarrow> get_int_l X l (fo_iosize (fop l f)) w;
     with_setup (flowoplib_iosetup X t f iosize l w) t (write_body X t f iosize) }"

text \<open>
  The loop that writes a whole file. \<open>wsize\<close> is an \<open>int\<close> and \<open>seek\<close> is compared as an unsigned number. The next \<open>wsize\<close> is
  computed before \<open>seek\<close> moves, and \<open>seek\<close> moves by the next \<open>wsize\<close>.
\<close>

partial_function (option) write_all ::
  "'w fsplug \<Rightarrow> uint64 \<Rightarrow> ptr \<Rightarrow> uint64 \<Rightarrow> fbint \<Rightarrow> uint64 \<Rightarrow> uint32 \<Rightarrow> uint64 \<Rightarrow> 'w \<Rightarrow> (bool \<times> uint64 \<times> 'w) option" where
  "write_all V d iobuf wss iosize seek wsize bytes w =
     (if seek < wss then
        let (ret, w) = fsp_write V d iobuf (scast wsize) w in
        if ret \<noteq> wsize then Some (False, bytes, w)
        else let wsize = ucast (min (wss - seek) iosize) in
          write_all V d iobuf wss iosize (seek + scast wsize) wsize (bytes + scast ret) w
      else Some (True, bytes, w))"

definition writewhole_body ::
  "'w lib \<Rightarrow> ptr \<Rightarrow> ptr \<Rightarrow> fbint \<Rightarrow> fbint \<Rightarrow> ptr \<Rightarrow> uint64 \<Rightarrow> lstate \<Rightarrow> 'w \<Rightarrow> (int \<times> lstate \<times> 'w) option" where
  "writewhole_body X t f iosize wss iobuf d l w = do {
     let srcfd = fo_srcfdnumber (fop l f);
     e \<leftarrow> get_fse l t srcfd;
     if srcfd \<noteq> 0 \<and> e = NULL then Some (FILEBENCH_ERROR, l, w)
     else do {
       let wss = (if e \<noteq> NULL then fse_size (fents l e) else wss);
       let (l, w) = begin_op X t l w;
       (good, bytes, w) \<leftarrow> write_all (plug X) d iobuf wss iosize 0 (ucast (min wss iosize)) 0 w;
       let (l, w) = end_op X t f (if good then bytes else 0) l w;
       Some (if good then FILEBENCH_OK else FILEBENCH_ERROR, l, w) } }"

definition flowoplib_writewholefile :: "'w lib \<Rightarrow> ptr \<Rightarrow> ptr \<Rightarrow> lstate \<Rightarrow> 'w \<Rightarrow> (int + int \<times> lstate \<times> 'w) option" where
  "flowoplib_writewholefile X t f l w = whole_setup X t f l w (writewhole_body X t f)"

text \<open>Appending: the comparison extends the sign of \<open>ret\<close>, and a failure counts \<open>ret\<close> bytes.\<close>

definition append_body ::
  "'w lib \<Rightarrow> ptr \<Rightarrow> ptr \<Rightarrow> fbint \<Rightarrow> fbint \<Rightarrow> ptr \<Rightarrow> uint64 \<Rightarrow> lstate \<Rightarrow> 'w \<Rightarrow> (int \<times> lstate \<times> 'w) option" where
  "append_body X t f iosize wss iobuf d l w =
     (let (l, w) = begin_op X t l w;
          w = fsp_lseek (plug X) d 0 SEEK_END w;
          (ret, w) = fsp_write (plug X) d iobuf iosize w;
          (l, w) = end_op X t f (scast ret) l w in
      Some (if scast ret \<noteq> iosize then FILEBENCH_ERROR else FILEBENCH_OK, l, w))"

definition flowoplib_appendfile :: "'w lib \<Rightarrow> ptr \<Rightarrow> ptr \<Rightarrow> lstate \<Rightarrow> 'w \<Rightarrow> (int + int \<times> lstate \<times> 'w) option" where
  "flowoplib_appendfile X t f l w = do {
     (iosize, w) \<leftarrow> get_int_l X l (fo_iosize (fop l f)) w;
     with_setup (flowoplib_iosetup X t f iosize l w) t (append_body X t f iosize) }"

definition appendrand_body ::
  "'w lib \<Rightarrow> ptr \<Rightarrow> ptr \<Rightarrow> fbint \<Rightarrow> fbint \<Rightarrow> ptr \<Rightarrow> uint64 \<Rightarrow> lstate \<Rightarrow> 'w \<Rightarrow> (int \<times> lstate \<times> 'w) option" where
  "appendrand_body X t f appendsize wss iobuf d l w =
     (let (l, w) = begin_op X t l w;
          w = fsp_lseek (plug X) d 0 SEEK_END w;
          (ret, w) = fsp_write (plug X) d iobuf appendsize w;
          good = (scast ret = appendsize);
          (l, w) = end_op X t f (if good then appendsize else 0) l w in
      Some (if good then FILEBENCH_OK else FILEBENCH_ERROR, l, w))"

definition flowoplib_appendfilerand :: "'w lib \<Rightarrow> ptr \<Rightarrow> ptr \<Rightarrow> lstate \<Rightarrow> 'w \<Rightarrow> (int + int \<times> lstate \<times> 'w) option" where
  "flowoplib_appendfilerand X t f l w = do {
     (iosize, w) \<leftarrow> get_int_l X l (fo_iosize (fop l f)) w;
     if iosize = 0 then Some (Inr (FILEBENCH_ERROR, l, w))
     else do {
       (appendsize, rc, w) \<leftarrow> draw X iosize 1 l w;
       if rc \<noteq> 0 then Some (Inr (FILEBENCH_ERROR, l, w))
       else if appendsize = 0 then
         let (l, w) = begin_op X t l w;
             (l, w) = end_op X t f 0 l w in
         Some (Inr (FILEBENCH_OK, l, w))
       else with_setup (flowoplib_iosetup X t f appendsize l w) t (appendrand_body X t f appendsize) } }"

subsection \<open>Thinking, blocking and waking\<close>

text \<open>The counter of the loop is an \<open>int\<close>: counting past its range is undefined behaviour.\<close>

definition flowoplib_hog :: "'w lib \<Rightarrow> ptr \<Rightarrow> ptr \<Rightarrow> lstate \<Rightarrow> 'w \<Rightarrow> (int \<times> lstate \<times> 'w) option" where
  "flowoplib_hog X t f l w = do {
     (n, w) \<leftarrow> get_int_l X l (fo_value (fop l f)) w;
     let (l, w) = begin_op X t l w;
     if tf_mem (thr l t) \<noteq> NULL \<and> n \<ge> 2147483648 then None
     else
       let (l, w) = end_op X t f 0 l w in
       Some (FILEBENCH_OK, l, w) }"

definition flowoplib_block_init :: "ptr \<Rightarrow> lstate \<Rightarrow> int \<times> lstate" where
  "flowoplib_block_init f l = (FILEBENCH_OK, upd_fop l f (\<lambda>x. x\<lparr>fo_lock := False\<rparr>))"

text \<open>Waiting gives the mutex up, so that the flowop is left unlocked in the end.\<close>

definition flowoplib_block :: "'w lib \<Rightarrow> ptr \<Rightarrow> ptr \<Rightarrow> lstate \<Rightarrow> 'w \<Rightarrow> (int \<times> lstate \<times> 'w) option" where
  "flowoplib_block X t f l w =
     (let (l, w) = begin_op X t l w;
          (l, w) = os_wait X l w;
          (l, w) = end_op X t f 0 l w in
      Some (FILEBENCH_OK, l, w))"

partial_function (option) link_targets :: "ptr \<Rightarrow> lstate \<Rightarrow> lstate option" where
  "link_targets result l =
     (if result = NULL then Some l
      else link_targets (fo_resultnext (fop l result)) (upd_fop l result (\<lambda>x. x\<lparr>fo_targetnext := fo_resultnext x\<rparr>)))"

text \<open>A broadcast leaves the state as it is.\<close>

partial_function (option) wake_targets :: "'w lib \<Rightarrow> ptr \<Rightarrow> ptr \<Rightarrow> ptr \<Rightarrow> lstate \<Rightarrow> 'w \<Rightarrow> (lstate \<times> 'w) option" where
  "wake_targets X t f target l w =
     (if target = NULL then Some (l, w)
      else if fo_instance (fop l target) = FLOW_MASTER then wake_targets X t f (fo_targetnext (fop l target)) l w
      else
        let (l, w) = begin_op X t l w;
            (l, w) = end_op X t f 0 l w in
        wake_targets X t f (fo_targetnext (fop l target)) l w)"

definition flowoplib_wakeup :: "'w lib \<Rightarrow> ptr \<Rightarrow> ptr \<Rightarrow> lstate \<Rightarrow> 'w \<Rightarrow> (int + int \<times> lstate \<times> 'w) option" where
  "flowoplib_wakeup X t f l w = do {
     r \<leftarrow> (if fo_targets (fop l f) = NULL then do {
            (result, s) \<leftarrow> flowop_find (fb l) (fo_targetname (fop l f));
            if result = NULL then Some (Inl 1)
            else map_option Inr (link_targets result (upd_fop (l\<lparr>fb := s\<rparr>) f (\<lambda>x. x\<lparr>fo_targets := result\<rparr>))) }
          else Some (Inr l));
     case r of
       Inl e \<Rightarrow> Some (Inl e)
     | Inr l \<Rightarrow> do {
         (l, w) \<leftarrow> wake_targets X t f (fo_targets (fop l f)) l w;
         Some (Inr (FILEBENCH_OK, l, w)) } }"

subsection \<open>The table\<close>

datatype libop = Lwrite | Lread | Lblock | Lwakeup | Lhog | Lopenfile | Lcreatefile | Lclosefile | Lmakedir | Lremovedir | Llistdir
  | Lfsync | Lfsyncset | Lstatfile | Lreadwholefile | Lappendfile | Lappendfilerand | Ldeletefile | Lwritewholefile

text \<open>The rows of the flowops of this theory: type, attributes, name and function.\<close>

definition flowoplib_funcs :: "(uint32 \<times> uint32 \<times> string \<times> libop) list" where
  "flowoplib_funcs =
     [(FLOW_TYPE_IO, FLOW_ATTR_WRITE, ''write'', Lwrite), (FLOW_TYPE_IO, FLOW_ATTR_READ, ''read'', Lread),
      (FLOW_TYPE_SYNC, 0, ''block'', Lblock), (FLOW_TYPE_SYNC, 0, ''wakeup'', Lwakeup), (FLOW_TYPE_OTHER, 0, ''hog'', Lhog),
      (FLOW_TYPE_IO, 0, ''openfile'', Lopenfile), (FLOW_TYPE_IO, 0, ''createfile'', Lcreatefile),
      (FLOW_TYPE_IO, 0, ''closefile'', Lclosefile), (FLOW_TYPE_IO, 0, ''makedir'', Lmakedir),
      (FLOW_TYPE_IO, 0, ''removedir'', Lremovedir), (FLOW_TYPE_IO, 0, ''listdir'', Llistdir),
      (FLOW_TYPE_IO, 0, ''fsync'', Lfsync), (FLOW_TYPE_IO, 0, ''fsyncset'', Lfsyncset), (FLOW_TYPE_IO, 0, ''statfile'', Lstatfile),
      (FLOW_TYPE_IO, FLOW_ATTR_READ, ''readwholefile'', Lreadwholefile), (FLOW_TYPE_IO, FLOW_ATTR_WRITE, ''appendfile'', Lappendfile),
      (FLOW_TYPE_IO, FLOW_ATTR_WRITE, ''appendfilerand'', Lappendfilerand), (FLOW_TYPE_IO, 0, ''deletefile'', Ldeletefile),
      (FLOW_TYPE_IO, FLOW_ATTR_WRITE, ''writewholefile'', Lwritewholefile)]"

fun fo_call :: "'w lib \<Rightarrow> libop \<Rightarrow> ptr \<Rightarrow> ptr \<Rightarrow> lstate \<Rightarrow> 'w \<Rightarrow> (int + int \<times> lstate \<times> 'w) option" where
  "fo_call X Lwrite t f l w = flowoplib_write X t f l w"
| "fo_call X Lread t f l w = flowoplib_read X t f l w"
| "fo_call X Lblock t f l w = map_option Inr (flowoplib_block X t f l w)"
| "fo_call X Lwakeup t f l w = flowoplib_wakeup X t f l w"
| "fo_call X Lhog t f l w = map_option Inr (flowoplib_hog X t f l w)"
| "fo_call X Lopenfile t f l w = map_option Inr (flowoplib_openfile X t f l w)"
| "fo_call X Lcreatefile t f l w = map_option Inr (flowoplib_createfile X t f l w)"
| "fo_call X Lclosefile t f l w = map_option Inr (flowoplib_closefile X t f l w)"
| "fo_call X Lmakedir t f l w = map_option Inr (flowoplib_makedir X t f l w)"
| "fo_call X Lremovedir t f l w = map_option Inr (flowoplib_removedir X t f l w)"
| "fo_call X Llistdir t f l w = map_option Inr (flowoplib_listdir X t f l w)"
| "fo_call X Lfsync t f l w = map_option Inr (flowoplib_fsync X t f l w)"
| "fo_call X Lfsyncset t f l w = map_option Inr (flowoplib_fsyncset X t f l w)"
| "fo_call X Lstatfile t f l w = map_option Inr (flowoplib_statfile X t f l w)"
| "fo_call X Lreadwholefile t f l w = flowoplib_readwholefile X t f l w"
| "fo_call X Lappendfile t f l w = flowoplib_appendfile X t f l w"
| "fo_call X Lappendfilerand t f l w = flowoplib_appendfilerand X t f l w"
| "fo_call X Ldeletefile t f l w = map_option Inr (flowoplib_deletefile X t f l w)"
| "fo_call X Lwritewholefile t f l w = flowoplib_writewholefile X t f l w"

end
