(* ===== verification/FB_Fs_Correct.thy ===== *)
theory FB_Fs_Correct
  imports FB_Fs FB_Fileset_Life FB_Flowop_Correct
begin

text \<open>
  The paths that \<^verbatim>\<open>src/filebench/fileset.c\<close> builds, and what it writes into a file that it creates.
\<close>

subsection \<open>Paths\<close>

lemma path_cpy_eq: "NUL \<notin> set s \<Longrightarrow> path_cpy s = Some (take 1023 s)"
proof -
  assume n: "NUL \<notin> set s"
  have "is_cstr (s @ [NUL])" "cstr (s @ [NUL]) = s" using n by simp_all
  then obtain dst' k where "fb_strlcpy (path_buf []) (s @ [NUL]) MAXPATHLEN = Some (dst', k)" "cstr dst' = take 1023 s"
    using fb_strlcpy_correct [of "s @ [NUL]" MAXPATHLEN "path_buf []"] by (auto simp: path_buf_def)
  then show ?thesis by (simp add: path_cpy_def)
qed

lemma path_buf_eq: "length s \<le> 1023 \<Longrightarrow> path_buf s = s @ NUL # replicate (1023 - length s) NUL"
proof -
  assume l: "length s \<le> 1023"
  then have "MAXPATHLEN - length s = Suc (1023 - length s)" by simp
  with l show ?thesis unfolding path_buf_def by (simp only: take_append take_all take_replicate) simp
qed

lemma path_cat_eq: "NUL \<notin> set d \<Longrightarrow> NUL \<notin> set s \<Longrightarrow> length d \<le> 1023 \<Longrightarrow> path_cat d s = Some (take 1023 (d @ s))"
proof -
  assume n: "NUL \<notin> set d" "NUL \<notin> set s" and l: "length d \<le> 1023"
  have "is_cstr (s @ [NUL])" "cstr (s @ [NUL]) = s" "is_cstr (path_buf d)" "cstr (path_buf d) = d" "length (path_buf d) = MAXPATHLEN"
    using n l by (simp_all add: path_buf_eq)
  then obtain dst' k where "fb_strlcat (path_buf d) (s @ [NUL]) MAXPATHLEN = Some (dst', k)" "cstr dst' = take 1023 (d @ s)"
    using fb_strlcat_correct [of "s @ [NUL]" MAXPATHLEN "path_buf d"] by auto
  then show ?thesis by (simp add: path_cat_def)
qed

lemma take_take_append:
  "take n (take n xs @ ys) = take n (xs @ ys)" "take n (xs @ take n ys) = take n (xs @ ys)"
  by (simp_all add: min_def)

lemma path_cat_take:
  assumes "NUL \<notin> set d" "NUL \<notin> set s"
  shows "path_cat (take 1023 d) s = Some (take 1023 (d @ s))" "path_cat (take 1023 d) (take 1023 s) = Some (take 1023 (d @ s))"
proof -
  have t: "NUL \<notin> set (take 1023 d)" "NUL \<notin> set (take 1023 s)" "length (take 1023 d) \<le> 1023" using assms by (auto dest: in_set_takeD)
  show "path_cat (take 1023 d) s = Some (take 1023 (d @ s))"
    by (simp only: path_cat_eq [OF t(1) assms(2) t(3)] take_take_append)
  show "path_cat (take 1023 d) (take 1023 s) = Some (take 1023 (d @ s))"
    by (simp only: path_cat_eq [OF t] take_take_append)
qed

definition fse_name :: "entries \<Rightarrow> ptr \<Rightarrow> string" where
  "fse_name es e = the (fse_path (es e))"

text \<open>The names of a list of entries, innermost first, as a path.\<close>

definition joined :: "entries \<Rightarrow> ptr list \<Rightarrow> string" where
  "joined es xs = concat (map (\<lambda>e. CHR ''/'' # fse_name es e) (rev xs))"

definition named_entry :: "entries \<Rightarrow> ptr \<Rightarrow> bool" where
  "named_entry es e \<longleftrightarrow> fse_path (es e) \<noteq> None \<and> NUL \<notin> set (fse_name es e)"

lemma resolve_loop_eq:
  assumes "chain (\<lambda>e. fse_parent (es e)) e (xs @ [r])" "\<forall>x \<in> set xs. named_entry es x" "NUL \<notin> set pth"
  shows "resolve_loop es e (take 1023 pth) = Some (take 1023 (joined es xs @ pth))"
  using assms
proof (induction xs arbitrary: e pth)
  case Nil
  then show ?case by (subst resolve_loop.simps) (simp add: joined_def)
next
  case (Cons x xs)
  have e: "e = x" and p: "fse_parent (es x) \<noteq> NULL" and c: "chain (\<lambda>e. fse_parent (es e)) (fse_parent (es x)) (xs @ [r])"
    using Cons.prems(1) by auto
  let ?n = "fse_name es x"
  have n: "fse_path (es x) = Some ?n" "NUL \<notin> set ?n" "named_entry es x" using Cons.prems(2) by (auto simp: named_entry_def fse_name_def)
  have "path_cat ''/'' ?n = Some (take 1023 (CHR ''/'' # ?n))" using path_cat_eq [of "''/''" ?n] n(2) by simp
  moreover have "path_cat (take 1023 (CHR ''/'' # ?n)) (take 1023 pth) = Some (take 1023 ((CHR ''/'' # ?n) @ pth))"
    by (rule path_cat_take(2)) (use n(2) Cons.prems(3) in simp_all)
  moreover have "path_cpy (take 1023 ((CHR ''/'' # ?n) @ pth)) = Some (take 1023 ((CHR ''/'' # ?n) @ pth))"
  proof -
    have "NUL \<notin> set (take 1023 ((CHR ''/'' # ?n) @ pth))" using n(2) Cons.prems(3) by (auto dest!: in_set_takeD)
    then show ?thesis by (subst path_cpy_eq, assumption, simp only: take_take min.idem)
  qed
  ultimately have "resolve_loop es e (take 1023 pth) = resolve_loop es (fse_parent (es x)) (take 1023 ((CHR ''/'' # ?n) @ pth))"
    using p n(1) by (subst resolve_loop.simps) (simp add: e del: take_Cons_numeral append_Cons)
  also have "\<dots> = Some (take 1023 (joined es xs @ (CHR ''/'' # ?n) @ pth))"
    by (rule Cons.IH [OF c]) (use Cons.prems(2,3) n(2) in auto)
  finally show ?case by (simp add: joined_def del: take_Cons_numeral)
qed

lemma entry_path_eq:
  assumes "must_str l (fsn_path (filesets (fb l) p)) = Some dir" "must_str l (fsn_name (filesets (fb l) p)) = Some name"
    and "NUL \<notin> set dir" "NUL \<notin> set name"
    and "chain (\<lambda>e. fse_parent (fents l e)) e (xs @ [r])" "\<forall>x \<in> set xs. named_entry (fents l) x"
  shows "entry_path l p e =
    Some (take 1023 (dir @ ''/'' @ name @ concat (map (\<lambda>x. ''/'' @ fse_name (fents l) x) (rev xs))))"
proof -
  have e: "e \<noteq> NULL" using chain_start [OF assms(5)] by simp
  have nn: "NUL \<notin> set (joined (fents l) xs)" using assms(6) by (auto simp: joined_def named_entry_def)
  have "base_path l p = Some (take 1023 ((dir @ ''/'') @ name))"
    using assms(1-4) by (simp add: base_path_def path_cpy_eq path_cat_take del: append_assoc take_append)
  moreover have "fileset_resolvepath (fents l) e = Some (take 1023 (joined (fents l) xs))"
    using resolve_loop_eq [OF assms(5,6), of "[]"] e by (simp add: fileset_resolvepath_def)
  ultimately have "entry_path l p e = Some (take 1023 (((dir @ ''/'') @ name) @ joined (fents l) xs))"
    using assms(3,4) nn by (simp add: entry_path_def path_cat_take del: append_assoc take_append)
  then show ?thesis by (simp add: joined_def)
qed


text \<open>An example: a fileset at address 8, called \<open>data\<close> in the directory \<open>/tmp\<close>, with the file \<open>dir/file\<close>.\<close>

definition ex_lfb :: fbstate where
  "ex_lfb = ex_fb\<lparr>vs := ex_vshm\<lparr>avds := (\<lambda>a. \<lparr>avd_type = AVD_VAL_STR, avd_val = AStr (Some (if a = 40 then ''/tmp'' else ''data''))\<rparr>)\<rparr>,
     filesets := (\<lambda>_. zero_fsnode\<lparr>fsn_path := 40, fsn_name := 48\<rparr>)\<rparr>"

definition ex_l :: lstate where
  "ex_l = \<lparr>fb = ex_lfb, fsets = (\<lambda>_. fs ex_fileset),
     fents = (\<lambda>e. (ents ex_fileset e)\<lparr>fse_parent := (if e = 64 then 192 else if e = 192 then 320 else NULL),
       fse_path := Some (if e = 64 then ''file'' else ''dir'')\<rparr>),
     fheap = heap ex_fileset, shm_fsparalloc_count = 0\<rparr>"

lemma ex_l_path_hyps:
  "must_str ex_l (fsn_path (filesets (fb ex_l) 8)) = Some ''/tmp''" "must_str ex_l (fsn_name (filesets (fb ex_l) 8)) = Some ''data''"
  "chain (\<lambda>e. fse_parent (fents ex_l e)) 64 ([64, 192] @ [320])" "\<forall>x \<in> set [64, 192]. named_entry (fents ex_l) x"
  by (simp_all add: must_str_def ex_l_def ex_lfb_def avd_get_str_def ex_vshm_def zero_fsnode_def named_entry_def fse_name_def)

lemma ex_l_names: "''/tmp'' @ ''/'' @ ''data'' @ concat (map (\<lambda>x. ''/'' @ fse_name (fents ex_l) x) (rev [64, 192])) = ''/tmp/data/dir/file''"
  by (simp add: ex_l_def fse_name_def)


subsection \<open>What is written into a new file\<close>

text \<open>The sizes of the writes that fill a file of \<open>n\<close> bytes.\<close>

definition blocks :: "nat \<Rightarrow> nat list" where
  "blocks n = replicate (n div 1048576) 1048576 @ (if n mod 1048576 = 0 then [] else [n mod 1048576])"

lemma blocks_sum: "sum_list (blocks n) = n" "\<forall>b \<in> set (blocks n). 0 < b \<and> b \<le> 1048576"
  using div_mult_mod_eq [of n 1048576] by (auto simp: blocks_def sum_list_replicate)

lemma blocks_step: "0 < n \<Longrightarrow> blocks n = min n 1048576 # blocks (n - min n 1048576)"
proof (cases "n \<ge> 1048576")
  case True
  then obtain m where m: "n = m + 1048576" using le_Suc_ex by (metis add.commute)
  then have d: "n div 1048576 = Suc (m div 1048576)" "n mod 1048576 = m mod 1048576" "min n 1048576 = 1048576" "n - 1048576 = m" by simp_all
  show ?thesis unfolding blocks_def d by simp
next
  case False
  moreover assume "0 < n"
  ultimately show ?thesis by (simp add: blocks_def)
qed

lemma sint_int_block: "0 \<le> i \<Longrightarrow> i < 2 ^ 31 \<Longrightarrow> sint (ucast (word_of_int i :: uint64) :: uint32) = i"
proof -
  assume i: "0 \<le> i" "i < 2 ^ 31"
  then have "take_bit 64 i = i" "take_bit 32 i = i" by (simp_all add: take_bit_int_eq_self)
  moreover have "signed_take_bit 31 i = i" using i by (simp add: signed_take_bit_int_eq_self)
  ultimately show ?thesis by (simp add: sint_uint unsigned_ucast_eq uint_word_of_int_eq)
qed

lemma fill_file_eq:
  assumes "\<And>n w. fsp_write V fd buf n w = (ucast n, wr n w)"
  shows "k \<le> n \<Longrightarrow> fill_file V fd buf (int n) (int k) w = (True, fold wr (map of_nat (blocks (n - k))) w)"
proof (induction "n - k" arbitrary: k w rule: less_induct)
  case less
  show ?case
  proof (cases "k < n")
    case False
    then have "blocks (n - k) = []" by (simp add: blocks_def)
    with False show ?thesis by (subst fill_file.simps) simp
  next
    case True
    let ?b = "min (n - k) 1048576"
    have b: "0 < ?b" "k + ?b \<le> n" using True by simp_all
    have mi: "min (int n - int k) FILE_ALLOC_BLOCK = int ?b" using True by simp
    have u: "sint (ucast (word_of_int (int ?b) :: uint64) :: uint32) = int ?b"
    proof -
      have "0 \<le> int ?b" "int ?b < 2 ^ 31" by simp_all
      then show ?thesis by (rule sint_int_block)
    qed
    have "fill_file V fd buf (int n) (int k) w = fill_file V fd buf (int n) (int (k + ?b)) (wr (of_nat ?b) w)"
      using True u by (subst fill_file.simps) (simp add: mi assms Let_def)
    also have "\<dots> = (True, fold wr (map of_nat (blocks (n - (k + ?b)))) (wr (of_nat ?b) w))"
      by (rule less.hyps) (use b in simp_all)
    finally show ?thesis using True blocks_step [of "n - k"] by simp
  qed
qed

lemma fill_file_size:
  assumes "\<And>n w. fsp_write V fd buf n w = (ucast n, wr n w)" "sz < 2 ^ 63"
  shows "fill_file V fd buf (sint (sz :: uint64)) 0 w = (True, fold wr (map of_nat (blocks (unat sz))) w)"
proof -
  have "uint sz < 2 ^ 63" using assms(2) by (simp add: word_less_def)
  then have "signed_take_bit 63 (uint sz) = uint sz" by (intro signed_take_bit_int_eq_self) (use uint_ge_0 [of sz] in linarith)+
  then have "sint sz = int (unat sz)" by (simp add: sint_uint)
  moreover have "fill_file V fd buf (int (unat sz)) (int 0) w = (True, fold wr (map of_nat (blocks (unat sz - 0))) w)"
    by (rule fill_file_eq [OF assms(1)]) simp
  ultimately show ?thesis by (simp only: int_ops(1) diff_zero)
qed

lemma alloc_file_opens:
  assumes "entry_path l (fse_fileset (fents l e)) e = Some pth" "fse_flags (fents l e) AND FSE_REUSING = 0"
    and "get_bool_l l (fsn_trust_tree (filesets (fb l) (fse_fileset (fents l e)))) = Some trust"
    and "fsp_open (plug X) 0 pth (O_RDWR OR O_CREAT) 420 w = (rc, fd, w1)"
  shows "fileset_alloc_file X e l w =
    (if rc = FILEBENCH_ERROR then release_as X e False FILEBENCH_ERROR l w1 else write_file X e fd l w1)"
  unfolding fileset_alloc_file_def assms(1,3) bind.bind_lunit Let_def
  by (simp only: assms(2,4) prod.case simp_thms if_False)

lemma write_file_writes:
  assumes "os_malloc X (word_of_int FILE_ALLOC_BLOCK) w1 = (buf, w2)"
    and "\<And>n w. fsp_write (plug X) fd buf n w = (ucast n, wr n w)" "fse_size (fents l e) < 2 ^ 63"
  shows "write_file X e fd l w1 = (if buf = NULL then release_as X e False FILEBENCH_ERROR l w2
    else close_alloced X e fd l (fold wr (map of_nat (blocks (unat (fse_size (fents l e))))) w2))"
  by (simp only: write_file_def assms(1) Let_def prod.case fill_file_size [OF assms(2,3)] if_True)

lemma close_alloced_closes:
  "get_bool_l l (fsn_cached (filesets (fb l) (fse_fileset (fents l e)))) = Some cached \<Longrightarrow>
   close_alloced X e fd l w = release_as X e True FILEBENCH_OK l
      (fsp_close (plug X) fd (if cached = 0 then fsp_freemem (plug X) fd (fse_size (fents l e)) w else w))"
  by (simp only: close_alloced_def Let_def bind.bind_lunit)


text \<open>An example: a file system on which every call succeeds and whose world is the list of the sizes written.\<close>

definition ex_plug :: "uint64 list fsplug" where
  "ex_plug = \<lparr>fsp_freemem = (\<lambda>_ _ w. w), fsp_open = (\<lambda>_ _ _ _ w. (FILEBENCH_OK, 7, w)), fsp_pread = (\<lambda>_ _ n _ w. (ucast n, w)),
     fsp_read = (\<lambda>_ _ _ w. (0, w)), fsp_pwrite = (\<lambda>_ _ n _ w. (ucast n, w @ [n])), fsp_write = (\<lambda>_ _ n w. (ucast n, w @ [n])),
     fsp_lseek = (\<lambda>_ _ _ w. w), fsp_ftrunc = (\<lambda>_ _ w. w), fsp_close = (\<lambda>_ w. w), fsp_unlink = (\<lambda>_ w. w),
     fsp_mkdir = (\<lambda>_ _ w. (0, w)), fsp_rmdir = (\<lambda>_ w. w), fsp_opendir = (\<lambda>_ w. (1, w)), fsp_readdir = (\<lambda>_ w. (None, w)),
     fsp_closedir = (\<lambda>_ w. w), fsp_fsync = (\<lambda>_ w. w), fsp_stat = (\<lambda>_ w. (None, w)), fsp_fstat = (\<lambda>_ w. (None, w)),
     fsp_recur_rm = (\<lambda>_ w. w)\<rparr>"

definition ex_mach :: "uint64 list machine" where
  "ex_mach = \<lparr>lay = ex_layout, fpu = ex_F, rnd = (\<lambda>_ w. (0, w)), clock = (\<lambda>w. (0, w)),
     call = (\<lambda>_ _ _ s w. Some (FILEBENCH_OK, s, w)), init_lib = (\<lambda>_ _ s w. Some (FILEBENCH_OK, s, w))\<rparr>"

definition ex_lib :: "uint64 list lib" where
  "ex_lib = \<lparr>mach = ex_mach, plug = ex_plug, raw_support = False, os_stat = (\<lambda>_ w. (Some 0, w)), os_malloc = (\<lambda>_ w. (4096, w)),
     os_urandom = (\<lambda>w. (Some 0, w)), os_rand = (\<lambda>w. (0, w)), os_spawn = (\<lambda>_ _ w. (True, w)), os_wait = (\<lambda>l w. (l, w)),
     dbl_to_int = (\<lambda>_. 0), addr_loc = 16, addr_tmp = 24\<rparr>"

definition ex_l5 :: lstate where
  "ex_l5 = ex_l\<lparr>fents := (\<lambda>e. (fents ex_l e)\<lparr>fse_size := 2621440\<rparr>)\<rparr>"

lemma ex_l5_path: "entry_path ex_l5 8 64 = Some (take 1023 ''/tmp/data/dir/file'')"
proof -
  have e: "must_str ex_l5 = must_str ex_l" "fse_name (fents ex_l5) = fse_name (fents ex_l)" "fb ex_l5 = fb ex_l"
    "(\<lambda>e. fse_parent (fents ex_l5 e)) = (\<lambda>e. fse_parent (fents ex_l e))" by (simp_all add: must_str_def fse_name_def ex_l5_def fun_eq_iff)
  then have "named_entry (fents ex_l5) = named_entry (fents ex_l)" by (simp add: named_entry_def fun_eq_iff ex_l5_def)
  note E = entry_path_eq [where l = ex_l5 and p = 8 and e = 64, unfolded this e]
  show ?thesis by (rule E [OF ex_l_path_hyps(1,2) _ _ ex_l_path_hyps(3,4), unfolded ex_l_names]) simp_all
qed

lemma ex_l5_simps [simp]:
  "fse_fileset (fents ex_l5 e) = 8" "fse_flags (fents ex_l5 e) = 4" "fse_size (fents ex_l5 e) = 2621440"
  "get_bool_l ex_l5 (fsn_trust_tree (filesets (fb ex_l5) 8)) = Some 0" "get_bool_l ex_l5 (fsn_cached (filesets (fb ex_l5) 8)) = Some 0"
  by (simp_all add: ex_l5_def ex_l_def ex_fileset_def ex_lfb_def zero_fsnode_def get_bool_l_def avd_get_bool_def)

lemma ex_lib_simps [simp]:
  "mach ex_lib = ex_mach" "plug ex_lib = ex_plug" "os_malloc ex_lib n w = (4096, w)" "fsp_open ex_plug d pth fl m w = (FILEBENCH_OK, 7, w)"
  "fsp_write ex_plug d b n w = (ucast n, w @ [n])" "fsp_freemem ex_plug d n w = w" "fsp_close ex_plug d w = w"
  by (simp_all add: ex_lib_def ex_plug_def)

lemma ex_blocks: "blocks 2621440 = [1048576, 1048576, 524288]"
proof -
  have "(2621440 :: nat) div 1048576 = Suc (Suc 0)" "(2621440 :: nat) mod 1048576 = 524288" by simp_all
  moreover have "replicate (Suc (Suc 0)) (1048576 :: nat) = [1048576, 1048576]" by simp
  ultimately show ?thesis unfolding blocks_def by (simp only:) simp
qed


end
