(* ===== verification/FB_Fileops_Correct.thy ===== *)
theory FB_Fileops_Correct
  imports FB_Fileops FB_Fs_Correct
begin

text \<open>
  The flowops on files and directories. What a flowop may rely on, picking an entry, holding it and giving it back, is
  the contract \<open>file_env\<close>; the flowops are followed once under it, and it is interpreted with the invariant of the fileset.
\<close>

subsection \<open>Results\<close>

text \<open>A result is good if its code is one that the worker knows, and the state satisfies \<open>P\<close>.\<close>

abbreviation known_code :: "int \<Rightarrow> bool" where
  "known_code rc \<equiv> rc = FILEBENCH_OK \<or> rc = FILEBENCH_ERROR \<or> rc = FILEBENCH_NORSC"

definition good :: "(lstate \<Rightarrow> bool) \<Rightarrow> (int \<times> lstate \<times> 'w) option \<Rightarrow> bool" where
  "good P r \<longleftrightarrow> (\<forall>rc l w. r = Some (rc, l, w) \<longrightarrow> known_code rc \<and> P l)"

definition good_sum :: "(lstate \<Rightarrow> bool) \<Rightarrow> (int + int \<times> lstate \<times> 'w) option \<Rightarrow> bool" where
  "good_sum P r \<longleftrightarrow> (\<forall>rc l w. r = Some (Inr (rc, l, w)) \<longrightarrow> known_code rc \<and> P l)"

lemma goodD: "good P r \<Longrightarrow> r = Some (rc, l, w) \<Longrightarrow> known_code rc \<and> P l"
  by (simp add: good_def)

lemma good_intros:
  "known_code rc \<Longrightarrow> P l \<Longrightarrow> good P (Some (rc, l, w))" "good P None"
  "(\<And>x. m = Some x \<Longrightarrow> good P (k x)) \<Longrightarrow> good P (m \<bind> k)"
  "(c \<Longrightarrow> good P r) \<Longrightarrow> (\<not> c \<Longrightarrow> good P r') \<Longrightarrow> good P (if c then r else r')"
  "(\<And>a b. y = (a, b) \<Longrightarrow> good P (h a b)) \<Longrightarrow> good P (case y of (a, b) \<Rightarrow> h a b)"
  "(\<And>a. o' = Some a \<Longrightarrow> good P (h' a)) \<Longrightarrow> (o' = None \<Longrightarrow> good P n) \<Longrightarrow> good P (case o' of None \<Rightarrow> n | Some a \<Rightarrow> h' a)"
  by (cases m; auto simp: good_def split: prod.split option.split)+

lemma good_sum_intros:
  "known_code rc \<Longrightarrow> P l \<Longrightarrow> good_sum P (Some (Inr (rc, l, w)))" "good_sum P None" "good_sum P (Some (Inl e))"
  "(\<And>x. m = Some x \<Longrightarrow> good_sum P (k x)) \<Longrightarrow> good_sum P (m \<bind> k)"
  "(c \<Longrightarrow> good_sum P r) \<Longrightarrow> (\<not> c \<Longrightarrow> good_sum P r') \<Longrightarrow> good_sum P (if c then r else r')"
  "(\<And>a b. y = (a, b) \<Longrightarrow> good_sum P (h a b)) \<Longrightarrow> good_sum P (case y of (a, b) \<Rightarrow> h a b)"
  "(\<And>e. v = Inl e \<Longrightarrow> good_sum P (g e)) \<Longrightarrow> (\<And>a. v = Inr a \<Longrightarrow> good_sum P (h' a)) \<Longrightarrow> good_sum P (case v of Inl e \<Rightarrow> g e | Inr a \<Rightarrow> h' a)"
  "good P q \<Longrightarrow> good_sum P (map_option Inr q)"
  by (cases m; auto simp: good_def good_sum_def split: prod.split sum.split)+

subsection \<open>The contract\<close>

text \<open>
  \<open>P\<close> is what is kept, \<open>mine l e\<close> says that \<open>e\<close> is a file of the fileset \<open>p\<close>, and \<open>held l e\<close> that \<open>e\<close> is an entry of \<open>p\<close> that
  the thread may give back. \<open>tid_ok\<close> restricts the number of the thread.
\<close>

locale file_env =
  fixes X :: "'w lib" and p :: ptr and P :: "lstate \<Rightarrow> bool" and mine held :: "lstate \<Rightarrow> ptr \<Rightarrow> bool" and tid_ok :: "int \<Rightarrow> bool"
  assumes keeps_fb: "P l \<Longrightarrow> P (l\<lparr>fb := s\<rparr>)"
    and held_fb: "held l e \<Longrightarrow> held (l\<lparr>fb := s\<rparr>) e"
    and mine_fb: "mine l e \<Longrightarrow> mine (l\<lparr>fb := s\<rparr>) e"
    and pick: "P l \<Longrightarrow> do_pick X p flags tid index l w = Some (e, l', w') \<Longrightarrow> flags AND FILESET_PICKUNIQUE = 0
      \<Longrightarrow> flags AND FILESET_PICKMASK \<noteq> 3 \<Longrightarrow> tid_ok tid \<Longrightarrow> P l' \<and> (e \<noteq> NULL \<longrightarrow> held l' e)"
    and unbusy: "P l \<Longrightarrow> held l e \<Longrightarrow> do_unbusy X e upd ex incr l w = Some (l', w') \<Longrightarrow> P l'"
    and grab: "P l \<Longrightarrow> mine l e \<Longrightarrow> q = fse_fileset (fents l e) \<Longrightarrow> grab_entry X q e l w = Some (l', w')
      \<Longrightarrow> P (one_less_idle l' q) \<and> held (one_less_idle l' q) e"
    and tid_0: "tid_ok 0"
    and wait: "P l \<Longrightarrow> P (fst (os_wait X l w))"

context file_env
begin

lemma keeps_upd: "P l \<Longrightarrow> P (upd_thr l t g)" "P l \<Longrightarrow> P (upd_fop l f g')" "P l \<Longrightarrow> P (set_fd l t i d)" "P l \<Longrightarrow> P (set_fse l t i e)"
  by (simp_all add: upd_thr_def upd_fop_def set_fd_def set_fse_def keeps_fb)

lemma held_upd: "held l e \<Longrightarrow> held (upd_thr l t g) e" "held l e \<Longrightarrow> held (set_fse l t i e') e" "held l e \<Longrightarrow> held (set_fd l t i d) e"
  by (simp_all add: upd_thr_def set_fse_def set_fd_def held_fb)

lemma begin_keeps: "begin_op X t l w = (l', w') \<Longrightarrow> (P l \<longrightarrow> P l') \<and> (held l e \<longrightarrow> held l' e)"
  by (auto simp: begin_op_def split: prod.splits intro: keeps_fb held_fb)

lemma end_keeps: "end_op X t f n l w = (l', w') \<Longrightarrow> (P l \<longrightarrow> P l') \<and> (held l e \<longrightarrow> held l' e)"
  by (auto simp: end_op_def split: prod.splits intro: keeps_fb held_fb)

lemma pickfile_keeps:
  assumes "P l" "flowoplib_pickfile X f flags tid l w = Some (rc, e, l', w')" "fo_fileset (fop l f) = p \<or> fo_fileset (fop l f) = NULL"
    and "flags = FILESET_PICKEXISTS \<or> flags = FILESET_PICKNOEXIST" "tid_ok tid"
  shows "known_code rc \<and> P l' \<and> (rc = FILEBENCH_OK \<longrightarrow> held l' e)"
proof (cases "fo_fileset (fop l f) = NULL")
  case True
  with assms(1,2) show ?thesis by (auto simp: flowoplib_pickfile_def)
next
  case False
  with assms(3) have p: "fo_fileset (fop l f) = p" by blast
  obtain i fl w1 w2 where fl: "fl = flags \<or> fl = flags OR FILESET_PICKBYINDEX"
    and d: "do_pick X p (FILESET_PICKFILE OR fl) tid i l w1 = Some (e, l', w2)" and rc: "rc = (if e = NULL then FILEBENCH_NORSC else FILEBENCH_OK)"
    using assms(2) False by (auto simp: flowoplib_pickfile_def p Let_def Option.bind_eq_Some_conv split: if_splits)
  have "(FILESET_PICKFILE OR fl) AND FILESET_PICKUNIQUE = 0" "(FILESET_PICKFILE OR fl) AND FILESET_PICKMASK \<noteq> 3"
    using fl assms(4) by auto
  from pick [OF assms(1) d this assms(5)] rc show ?thesis by auto
qed

lemma pickleafdir_keeps:
  assumes "P l" "flowoplib_pickleafdir X f flags l w = Some (rc, e, l', w')" "fo_fileset (fop l f) = p \<or> fo_fileset (fop l f) = NULL"
    and "flags = FILESET_PICKEXISTS \<or> flags = FILESET_PICKNOEXIST"
  shows "known_code rc \<and> P l' \<and> (rc = FILEBENCH_OK \<longrightarrow> held l' e)"
proof (cases "fo_fileset (fop l f) = NULL")
  case True
  with assms(1,2) show ?thesis by (auto simp: flowoplib_pickleafdir_def)
next
  case False
  with assms(3) have p: "fo_fileset (fop l f) = p" by blast
  obtain i fl w1 w2 where fl: "fl = flags \<or> fl = flags OR FILESET_PICKBYINDEX"
    and d: "do_pick X p (FILESET_PICKLEAFDIR OR fl) 0 i l w1 = Some (e, l', w2)" and rc: "rc = (if e = NULL then FILEBENCH_NORSC else FILEBENCH_OK)"
    using assms(2) False by (auto simp: flowoplib_pickleafdir_def p Let_def Option.bind_eq_Some_conv split: if_splits)
  have "(FILESET_PICKLEAFDIR OR fl) AND FILESET_PICKUNIQUE = 0" "(FILESET_PICKLEAFDIR OR fl) AND FILESET_PICKMASK \<noteq> 3"
    using fl assms(4) by auto
  from pick [OF assms(1) d this tid_0] rc show ?thesis by auto
qed

lemma good_pickfile:
  assumes "P l" "fo_fileset (fop l f) = p \<or> fo_fileset (fop l f) = NULL" "flags = FILESET_PICKEXISTS \<or> flags = FILESET_PICKNOEXIST" "tid_ok tid"
    and "\<And>e l' w'. P l' \<Longrightarrow> held l' e \<Longrightarrow> good P (k e l' w')"
  shows "good P (flowoplib_pickfile X f flags tid l w \<bind> (\<lambda>(err, e, l, w). if err \<noteq> FILEBENCH_OK then Some (err, l, w) else k e l w))"
proof (rule good_intros(3))
  fix x assume x: "flowoplib_pickfile X f flags tid l w = Some x"
  obtain err e l' w' where [simp]: "x = (err, e, l', w')" by (cases x)
  from pickfile_keeps [OF assms(1) x [simplified] assms(2-4)]
  show "good P (case x of (err, e, l, w) \<Rightarrow> if err \<noteq> FILEBENCH_OK then Some (err, l, w) else k e l w)"
    by (auto intro: good_intros(1) assms(5))
qed

lemma good_pickleafdir:
  assumes "P l" "fo_fileset (fop l f) = p \<or> fo_fileset (fop l f) = NULL" "flags = FILESET_PICKEXISTS \<or> flags = FILESET_PICKNOEXIST"
    and "\<And>e l' w'. P l' \<Longrightarrow> held l' e \<Longrightarrow> good P (k e l' w')"
  shows "good P (flowoplib_pickleafdir X f flags l w \<bind> (\<lambda>(err, e, l, w). if err \<noteq> FILEBENCH_OK then Some (err, l, w) else k e l w))"
proof (rule good_intros(3))
  fix x assume x: "flowoplib_pickleafdir X f flags l w = Some x"
  obtain err e l' w' where [simp]: "x = (err, e, l', w')" by (cases x)
  from pickleafdir_keeps [OF assms(1) x [simplified] assms(2,3)]
  show "good P (case x of (err, e, l, w) \<Rightarrow> if err \<noteq> FILEBENCH_OK then Some (err, l, w) else k e l w)"
    by (auto intro: good_intros(1) assms(4))
qed

lemma good_begin_end:
  "P l \<Longrightarrow> (\<And>l' w'. P l' \<Longrightarrow> (\<And>e. held l e \<Longrightarrow> held l' e) \<Longrightarrow> good P (h l' w')) \<Longrightarrow>
   good P (case begin_op X t l w of (l, w) \<Rightarrow> h l w)"
  "P l \<Longrightarrow> (\<And>l' w'. P l' \<Longrightarrow> (\<And>e. held l e \<Longrightarrow> held l' e) \<Longrightarrow> good P (h l' w')) \<Longrightarrow>
   good P (case end_op X t f n l w of (l, w) \<Rightarrow> h l w)"
  using begin_keeps end_keeps by (auto split: prod.split)

lemma good_unbusy:
  assumes "P l" "held l e" and "\<And>l' w'. P l' \<Longrightarrow> good P (k l' w')"
  shows "good P (do_unbusy X e upd ex incr l w \<bind> (\<lambda>(l, w). k l w))"
  by (rule good_intros(3)) (use unbusy [OF assms(1,2)] assms(3) in \<open>auto split: prod.split\<close>)

lemma openfile_keeps:
  assumes "P l" "held l e" "fileset_openfile X d q e flag mode attrs l w = Some (rc, d', l', w')"
  shows "P l'"
  using assms(3) unbusy [OF assms(1,2)] assms(1)
  by (auto simp: fileset_openfile_def Let_def Option.bind_eq_Some_conv split: if_splits prod.splits)

lemmas good_rules = good_pickfile good_pickleafdir good_begin_end good_unbusy good_intros

lemma open_entry_good:
  assumes "P l" "held l e"
  shows "good P (open_entry X t f fd e flag l w)"
  unfolding open_entry_def Let_def
  by (intro good_rules keeps_upd assms) (auto, blast intro: openfile_keeps held_upd(2) assms(2))

lemma open_raw_good: "P l \<Longrightarrow> good P (open_raw X t f fd flag l w)"
  unfolding open_raw_def Let_def by (intro good_intros) (auto intro: keeps_upd)

lemma openfile_common_good:
  assumes "P l" "fo_fileset (fop l f) = p \<or> fo_fileset (fop l f) = NULL" "tid_ok (tf_utid (thr l t))"
  shows "good P (flowoplib_openfile_common X t f fd l w)"
  unfolding flowoplib_openfile_common_def Let_def
  by (intro good_rules open_entry_good open_raw_good assms) (use assms tid_0 in auto)

lemma fdnum_keeps:
  assumes "flowoplib_fdnum t f l = Some (fd, l')"
  shows "(P l \<longrightarrow> P l') \<and> fop l' = fop l \<and> tf_utid (thr l' t) = tf_utid (thr l t)"
proof -
  have "l' = l \<or> (\<exists>r. l' = upd_thr l t (\<lambda>x. x\<lparr>tf_fdrotor := r\<rparr>))"
    using assms by (auto simp: flowoplib_fdnum_def Let_def Option.bind_eq_Some_conv split: if_splits)
  then show ?thesis
  proof
    assume "\<exists>r. l' = upd_thr l t (\<lambda>x. x\<lparr>tf_fdrotor := r\<rparr>)"
    then obtain r where l': "l' = upd_thr l t (\<lambda>x. x\<lparr>tf_fdrotor := r\<rparr>)" by blast
    have "fop l' = fop l" "tf_utid (thr l' t) = tf_utid (thr l t)" by (simp_all add: l' upd_thr_def upd_tf_def fop_def thr_def fun_eq_iff)
    then show ?thesis using keeps_upd(1) l' by blast
  qed simp
qed

lemma openfile_good:
  assumes "P l" "fo_fileset (fop l f) = p \<or> fo_fileset (fop l f) = NULL" "tid_ok (tf_utid (thr l t))"
  shows "good P (flowoplib_openfile X t f l w)"
  unfolding flowoplib_openfile_def
proof (rule good_intros(3))
  fix x assume x: "flowoplib_fdnum t f l = Some x"
  obtain fd l' where e: "x = (fd, l')" by (cases x)
  note k = fdnum_keeps [OF x [unfolded e]]
  have "good P (flowoplib_openfile_common X t f fd l' w)" by (rule openfile_common_good) (use k assms in simp_all)
  then show "good P (case x of (fd, l) \<Rightarrow> if fd = -1 then Some (FILEBENCH_ERROR, l, w) else flowoplib_openfile_common X t f fd l w)"
    using k assms(1) by (simp add: e good_intros(1))
qed

lemma createfile_good:
  assumes "P l" "fo_fileset (fop l f) = p \<or> fo_fileset (fop l f) = NULL"
  shows "good P (flowoplib_createfile X t f l w)"
  unfolding flowoplib_createfile_def Let_def
  by (intro good_rules open_entry_good assms) (use assms tid_0 in auto)

lemma fsync_good: "P l \<Longrightarrow> good P (flowoplib_fsync X t f l w)"
  unfolding flowoplib_fsync_def Let_def by (intro good_rules) auto

lemma begin_end_keeps: "P l \<Longrightarrow> P (fst (begin_op X t l w))" "P l \<Longrightarrow> P (fst (end_op X t f n l w))"
  by (cases "begin_op X t l w"; simp add: begin_keeps) (cases "end_op X t f n l w"; simp add: end_keeps)

lemma fsync_one_keeps: "P l \<Longrightarrow> P (fst (fsync_one X t f i (l, w)))"
  using begin_end_keeps(1) [of l t w] by (auto simp: fsync_one_def Let_def intro: begin_end_keeps(2) split: prod.split)

lemma fsyncset_good: "P l \<Longrightarrow> good P (flowoplib_fsyncset X t f l w)"
proof -
  assume P: "P l"
  have "P (fst (fold (fsync_one X t f) xs (l, w)))" for xs
  proof (induction xs rule: rev_induct)
    case (snoc x xs)
    then show ?case using fsync_one_keeps by (cases "fold (fsync_one X t f) xs (l, w)") simp
  qed (simp add: P)
  then show ?thesis
    unfolding flowoplib_fsyncset_def Let_def by (intro good_intros) (metis fst_conv)+
qed

lemma statfile_good:
  assumes "P l" "fo_fileset (fop l f) = p \<or> fo_fileset (fop l f) = NULL"
  shows "good P (flowoplib_statfile X t f l w)"
  unfolding flowoplib_statfile_def Let_def
  by (intro good_rules assms) (use assms tid_0 in auto)

lemma leafdir_op_good:
  assumes "P l" "fo_fileset (fop l f) = p \<or> fo_fileset (fop l f) = NULL" "flags = FILESET_PICKEXISTS \<or> flags = FILESET_PICKNOEXIST"
  shows "good P (leafdir_op X flags act b t f l w)"
  unfolding leafdir_op_def Let_def
  by (intro good_rules assms) auto

lemma listdir_good:
  assumes "P l" "fo_fileset (fop l f) = p \<or> fo_fileset (fop l f) = NULL"
  shows "good P (flowoplib_listdir X t f l w)"
proof (cases "fo_fileset (fop l f) = NULL")
  case True
  then show ?thesis using assms(1) by (simp add: flowoplib_listdir_def good_def)
next
  case False
  with assms(2) have p: "fo_fileset (fop l f) = p" by blast
  have pk: "P l' \<and> (e \<noteq> NULL \<longrightarrow> held l' e)" if "do_pick X p FILESET_PICKDIR 0 0 l w = Some (e, l', w')" for e l' w'
    by (rule pick [OF assms(1) that]) (simp_all add: tid_0)
  show ?thesis
    unfolding flowoplib_listdir_def p Let_def
    by (intro good_rules) (use pk assms in auto)
qed

lemma deletefile_entry_keeps:
  assumes "P l" "deletefile_entry X f e q l w = Some (rc, e', l', w')" "fo_fileset (fop l f) = p \<or> fo_fileset (fop l f) = NULL"
    and "e \<noteq> NULL \<Longrightarrow> mine l e \<and> q = fse_fileset (fents l e)"
  shows "known_code rc \<and> P l' \<and> (rc = FILEBENCH_OK \<longrightarrow> held l' e')"
proof (cases "e = NULL")
  case True
  then have "flowoplib_pickfile X f FILESET_PICKEXISTS 0 l w = Some (rc, e', l', w')" using assms(2) by (simp add: deletefile_entry_def)
  from pickfile_keeps [OF assms(1) this assms(3) _ tid_0] show ?thesis by simp
next
  case False
  then obtain l1 where g: "grab_entry X q e l w = Some (l1, w')" "rc = FILEBENCH_OK" "e' = e" "l' = one_less_idle l1 q"
    using assms(2) by (auto simp: deletefile_entry_def Option.bind_eq_Some_conv)
  from grab [OF assms(1) _ _ g(1)] assms(4) [OF False] g show ?thesis by blast
qed

lemma deletefile_good:
  assumes "P l" "fo_fileset (fop l f) = p \<or> fo_fileset (fop l f) = NULL" and m: "\<And>i. tf_fse (thr l t) i = NULL \<or> mine l (tf_fse (thr l t) i)"
  shows "good P (flowoplib_deletefile X t f l w)"
proof -
  let ?fd = "fo_fdnumber (fop l f)"
  have body: "good P (deletefile_entry X f e q l1 w \<bind> (\<lambda>(err, e, l, w). if err \<noteq> FILEBENCH_OK then Some (err, l, w) else k e l w))"
    if l1: "P l1" "fo_fileset (fop l1 f) = p \<or> fo_fileset (fop l1 f) = NULL" "e \<noteq> NULL \<Longrightarrow> mine l1 e \<and> q = fse_fileset (fents l1 e)"
      and k: "\<And>e l' w'. P l' \<Longrightarrow> held l' e \<Longrightarrow> good P (k e l' w')" for e q l1 k
  proof (rule good_intros(3))
    fix x assume x: "deletefile_entry X f e q l1 w = Some x"
    obtain err e1 l' w' where [simp]: "x = (err, e1, l', w')" by (cases x)
    from deletefile_entry_keeps [OF l1(1) x [simplified] l1(2,3)]
    show "good P (case x of (err, e, l, w) \<Rightarrow> if err \<noteq> FILEBENCH_OK then Some (err, l, w) else k e l w)"
      by (auto intro: good_intros(1) k)
  qed
  have e: "e = NULL \<or> mine l e" if "(if ?fd > 0 then get_fse l t ?fd else Some NULL) = Some e" for e
    using that m by (auto simp: get_fse_def split: if_splits)
  have upd: "P (set_fse l t i q)" "fop (set_fse l t i q) = fop l" "mine l e \<Longrightarrow> mine (set_fse l t i q) e" "fents (set_fse l t i q) = fents l" for i q e
    using assms(1) by (simp_all add: set_fse_def upd_thr_def keeps_fb mine_fb fop_def upd_tf_def fun_eq_iff)
  show ?thesis
    unfolding flowoplib_deletefile_def Let_def
    by (intro body good_rules) (use e upd assms(1,2) in \<open>auto split: if_splits\<close>)
qed

lemma filesetup_keeps:
  assumes "P l" "fo_fileset (fop l f) = p \<or> fo_fileset (fop l f) = NULL" "tid_ok (tf_utid (thr l t))"
    and r: "flowoplib_filesetup X t f l w = Some (Inr (rc, wss, i, l', w'))"
  shows "known_code rc \<and> P l'"
proof -
  obtain fd l1 where fd: "flowoplib_fdnum t f l = Some (fd, l1)" using r by (auto simp: flowoplib_filesetup_def Option.bind_eq_Some_conv)
  note k = fdnum_keeps [OF fd]
  have P1: "P l1" using k assms(1) by blast
  show ?thesis
  proof (cases "fd = -1")
    case True
    then show ?thesis using r P1 by (simp add: flowoplib_filesetup_def fd)
  next
    case False
    then have "(\<exists>w2. flowoplib_openfile_common X t f fd l1 w = Some (rc, l', w2)) \<or> (rc = FILEBENCH_OK \<and> l' = l1)"
      using r by (auto simp: flowoplib_filesetup_def fd Option.bind_eq_Some_conv split: if_splits)
    moreover have "good P (flowoplib_openfile_common X t f fd l1 w)"
      by (rule openfile_common_good [OF P1]) (use k assms in simp_all)
    ultimately show ?thesis using P1 by (auto dest: goodD)
  qed
qed

lemma iobufsetup_keeps:
  assumes "P l" "flowoplib_iobufsetup X t f n l w = Some (rc, b, l', w')"
  shows "known_code rc \<and> P l'"
  using assms keeps_upd(2)
  by (auto simp: flowoplib_iobufsetup_def Let_def Option.bind_eq_Some_conv split: if_splits prod.splits)

lemma iosetup_keeps:
  assumes "P l" "fo_fileset (fop l f) = p \<or> fo_fileset (fop l f) = NULL" "tid_ok (tf_utid (thr l t))"
    and r: "flowoplib_iosetup X t f n l w = Some (Inr (rc, wss, b, i, l', w'))"
  shows "known_code rc \<and> P l'"
proof -
  obtain v where v: "flowoplib_filesetup X t f l w = Some v" using r by (cases "flowoplib_filesetup X t f l w") (auto simp: flowoplib_iosetup_def)
  with r obtain a where "v = Inr a" by (cases v) (auto simp: flowoplib_iosetup_def)
  moreover obtain rc1 wss1 i1 l1 w1 where "a = (rc1, wss1, i1, l1, w1)" by (cases a)
  ultimately have s: "flowoplib_filesetup X t f l w = Some (Inr (rc1, wss1, i1, l1, w1))"
    and r': "rc1 \<noteq> FILEBENCH_OK \<Longrightarrow> rc = rc1 \<and> l' = l1"
      "rc1 = FILEBENCH_OK \<Longrightarrow> \<exists>w2. flowoplib_iobufsetup X t f n l1 w1 = Some (rc, b, l', w2)"
    using r v by (auto simp: flowoplib_iosetup_def Option.bind_eq_Some_conv)
  from filesetup_keeps [OF assms(1-3) s] r' show ?thesis by (cases "rc1 = FILEBENCH_OK") (auto dest: iobufsetup_keeps)
qed

lemma with_setup_good:
  assumes "P l" "fo_fileset (fop l f) = p \<or> fo_fileset (fop l f) = NULL" "tid_ok (tf_utid (thr l t))"
    and "\<And>wss b d l w. P l \<Longrightarrow> good P (body wss b d l w)"
  shows "good_sum P (with_setup (flowoplib_iosetup X t f n l w) t body)"
  unfolding with_setup_def
  by (intro good_sum_intros assms(4)) (auto dest: iosetup_keeps [OF assms(1-3)])

lemma whole_setup_good:
  assumes "P l" "fo_fileset (fop l f) = p \<or> fo_fileset (fop l f) = NULL" "tid_ok (tf_utid (thr l t))"
    and "\<And>n wss b d l w. P l \<Longrightarrow> good P (body n wss b d l w)"
  shows "good_sum P (whole_setup X t f l w body)"
  unfolding whole_setup_def Let_def
  by (intro good_sum_intros assms(4)) (auto dest: filesetup_keeps [OF assms(1-3)] iobufsetup_keeps split: if_splits)

text \<open>What follows the setup.\<close>

lemma end_read_good: "P l \<Longrightarrow> good P (end_read X t f d ret l w)"
  unfolding end_read_def Let_def by (intro good_rules) auto

lemma read_body_good: "P l \<Longrightarrow> good P (read_body X t f n wss b d l w)"
  unfolding read_body_def Let_def by (intro good_rules end_read_good) auto

lemma readwhole_body_good: "P l \<Longrightarrow> good P (readwhole_body X t f n wss b d l w)"
  unfolding readwhole_body_def Let_def by (intro good_rules) auto

lemma end_write_good: "P l \<Longrightarrow> good P (end_write X t f n ret l w)"
  unfolding end_write_def Let_def by (intro good_rules) auto

lemma write_body_good: "P l \<Longrightarrow> good P (write_body X t f n wss b d l w)"
  unfolding write_body_def Let_def by (intro good_rules end_write_good) auto

lemma writewhole_body_good: "P l \<Longrightarrow> good P (writewhole_body X t f n wss b d l w)"
  unfolding writewhole_body_def Let_def by (intro good_rules) auto

lemma append_body_good: "P l \<Longrightarrow> good P (append_body X t f n wss b d l w)" "P l \<Longrightarrow> good P (appendrand_body X t f n wss b d l w)"
  unfolding append_body_def appendrand_body_def Let_def by (intro good_rules; auto)+

lemma hog_good: "P l \<Longrightarrow> good P (flowoplib_hog X t f l w)"
  unfolding flowoplib_hog_def Let_def by (intro good_rules) auto

lemma block_good: "P l \<Longrightarrow> good P (flowoplib_block X t f l w)"
  unfolding flowoplib_block_def Let_def by (intro good_rules) (auto, metis wait fst_conv)

lemma link_targets_keeps:
  assumes "P l" "link_targets q l = Some l'"
  shows "P l'"
proof -
  have "P l \<longrightarrow> P l'"
    by (rule link_targets.raw_induct [where P = "\<lambda>q l l'. P l \<longrightarrow> P l'", OF _ assms(2)]) (auto intro: keeps_upd(2) split: if_splits)
  with assms(1) show ?thesis by blast
qed

lemma wake_targets_keeps:
  assumes "P l" "wake_targets X t f q l w = Some (l', w')"
  shows "P l'"
proof -
  have "X = X \<longrightarrow> P l \<longrightarrow> P (fst (l', w'))"
  proof (rule wake_targets.raw_induct [where P = "\<lambda>X' t f q l w r. X' = X \<longrightarrow> P l \<longrightarrow> P (fst r)", OF _ assms(2)], intro impI)
    fix wt X' t f q l w r
    assume IH: "\<And>X' t f q l w r. wt X' t f q l w = Some r \<Longrightarrow> X' = X \<longrightarrow> P l \<longrightarrow> P (fst r)" and [simp]: "X' = X" and P: "P l"
      and r: "(if q = NULL then Some (l, w)
        else if fo_instance (fop l q) = FLOW_MASTER then wt X' t f (fo_targetnext (fop l q)) l w
        else let (l, w) = begin_op X' t l w; (l, w) = end_op X' t f 0 l w in wt X' t f (fo_targetnext (fop l q)) l w) = Some r"
    obtain l1 w1 where b: "begin_op X t l w = (l1, w1)" by fastforce
    obtain l2 w2 where e: "end_op X t f 0 l1 w1 = (l2, w2)" by fastforce
    have "P l2" using begin_keeps [OF b] end_keeps [OF e] P by blast
    then show "P (fst r)" using r P IH by (auto simp: b e Let_def split: if_splits)
  qed
  with assms(1) show ?thesis by simp
qed

lemma wakeup_good: "P l \<Longrightarrow> good_sum P (flowoplib_wakeup X t f l w)"
  unfolding flowoplib_wakeup_def Let_def
  by (intro good_sum_intros) (auto simp: Option.bind_eq_Some_conv split: if_splits dest!: wake_targets_keeps [rotated] link_targets_keeps [rotated] intro: keeps_upd keeps_fb)

lemma transfer_good:
  assumes "P l" "fo_fileset (fop l f) = p \<or> fo_fileset (fop l f) = NULL" "tid_ok (tf_utid (thr l t))"
  shows "good_sum P (flowoplib_read X t f l w)" "good_sum P (flowoplib_write X t f l w)"
    "good_sum P (flowoplib_appendfile X t f l w)" "good_sum P (flowoplib_appendfilerand X t f l w)"
    "good_sum P (flowoplib_readwholefile X t f l w)" "good_sum P (flowoplib_writewholefile X t f l w)"
proof -
  note start = with_setup_good [OF assms] whole_setup_good [OF assms]
  show "good_sum P (flowoplib_read X t f l w)"
    unfolding flowoplib_read_def by (intro good_sum_intros(4,6) start read_body_good)
  show "good_sum P (flowoplib_write X t f l w)"
    unfolding flowoplib_write_def by (intro good_sum_intros(4,6) start write_body_good)
  show "good_sum P (flowoplib_appendfile X t f l w)"
    unfolding flowoplib_appendfile_def by (intro good_sum_intros(4,6) start append_body_good)
  show "good_sum P (flowoplib_appendfilerand X t f l w)"
    unfolding flowoplib_appendfilerand_def Let_def
    by (intro good_sum_intros start append_body_good) (use assms(1) begin_keeps end_keeps in blast)+
  show "good_sum P (flowoplib_readwholefile X t f l w)"
    unfolding flowoplib_readwholefile_def by (intro start readwhole_body_good)
  show "good_sum P (flowoplib_writewholefile X t f l w)"
    unfolding flowoplib_writewholefile_def by (intro start writewhole_body_good)
qed

lemma fo_call_good:
  assumes "P l" "fo_fileset (fop l f) = p \<or> fo_fileset (fop l f) = NULL" "tid_ok (tf_utid (thr l t))"
    and "\<And>i. tf_fse (thr l t) i = NULL \<or> mine l (tf_fse (thr l t) i)" "op \<noteq> Lclosefile"
  shows "good_sum P (fo_call X op t f l w)"
  by (cases op)
    (use assms in \<open>simp_all add: transfer_good wakeup_good good_sum_intros(8) block_good hog_good openfile_good createfile_good
      deletefile_good fsync_good fsyncset_good statfile_good listdir_good leafdir_op_good flowoplib_makedir_def flowoplib_removedir_def\<close>)

end

end
