(* ===== verification/FB_Fileops_Inv.thy ===== *)
theory FB_Fileops_Inv
  imports FB_Fileops_Correct
begin

text \<open>
  The invariant of a fileset under the flowops on files: the contract \<open>file_env\<close> holds for it, so that every flowop but one
  keeps it. Closing a file keeps it if the file is open once.
\<close>

subsection \<open>The codes\<close>

interpretation codes: file_env X p "\<lambda>_. True" "\<lambda>_ _. True" "\<lambda>_ _. True" "\<lambda>_. True"
  by unfold_locales simp_all

lemma closefile_codes: "flowoplib_closefile X t f l w = Some (rc, l', w') \<Longrightarrow> known_code rc"
proof -
  assume r: "flowoplib_closefile X t f l w = Some (rc, l', w')"
  have "good (\<lambda>_. True) (flowoplib_closefile X t f l w)"
    unfolding flowoplib_closefile_def Let_def by (intro good_intros) simp_all
  from goodD [OF this r] show ?thesis ..
qed


subsection \<open>The invariant\<close>

text \<open>The fileset \<open>p\<close> has the entries \<open>E\<close>, of the types \<open>ty\<close>.\<close>

definition finv :: "uint64 \<Rightarrow> ptr set \<Rightarrow> (ptr \<Rightarrow> uint32) \<Rightarrow> ptr \<Rightarrow> lstate \<Rightarrow> bool" where
  "finv off E ty p l \<longleftrightarrow> p \<noteq> NULL \<and> fs_inv off E (at_fset l p)
     \<and> (\<forall>e \<in> E. fse_fileset (fents l e) = p \<and> fse_flags (fents l e) AND FSE_TYPE_MASK = ty e)"

lemma at_put_fset [simp]: "at_fset (put_fset l p s) p = s" "fents (put_fset l p s) = ents s" "fb (put_fset l p s) = fb l"
  "fsets (put_fset l p s) p = fs s"
  by (simp_all add: at_fset_def put_fset_def)

lemma at_fset_simps [simp]: "ents (at_fset l p) = fents l" "fs (at_fset l p) = fsets l p" "heap (at_fset l p) = fheap l"
  by (simp_all add: at_fset_def)

lemma at_fset_fb [simp]: "at_fset (l\<lparr>fb := s\<rparr>) p = at_fset l p"
  by (simp add: at_fset_def)

lemma finv_put:
  assumes "finv off E ty p l" "fs_inv off E s"
    and "\<forall>x \<in> E. fse_fileset (ents s x) = fse_fileset (fents l x) \<and> flags_of s x AND FSE_TYPE_MASK = fse_flags (fents l x) AND FSE_TYPE_MASK"
  shows "finv off E ty p (put_fset l p s)"
  using assms by (simp add: finv_def)

text \<open>The other threads keep the invariant, and the addresses of the local variables are not those of entries.\<close>

definition fileset_env :: "'w lib \<Rightarrow> uint64 \<Rightarrow> ptr set \<Rightarrow> (ptr \<Rightarrow> uint32) \<Rightarrow> ptr \<Rightarrow> bool" where
  "fileset_env X off E ty p \<longleftrightarrow> (\<forall>l w. finv off E ty p l \<longrightarrow> finv off E ty p (fst (os_wait X l w)))
     \<and> addr_loc X \<notin> E \<and> addr_tmp X \<noteq> NULL \<and> (\<forall>d \<in> E. addr_tmp X \<noteq> d + off)"

lemma unbusy_runs:
  assumes X: "fileset_env X off E ty p" and l: "finv off E ty p l" and eE: "e \<in> E"
  shows "\<exists>s' woken. fileset_unbusy (addr_tmp X) (at_fset l p) e upd b incr = Some (Returns (s', woken))
    \<and> do_unbusy X e upd b incr l w = Some (put_fset l p s', w) \<and> finv off E ty p (put_fset l p s')
    \<and> ents s' = (fents l)(e := (fents l e)\<lparr>fse_open_cnt := fse_open_cnt (fents l e) + incr, fse_flags := flags_of s' e\<rparr>) \<and> \<not> busy s' e"
proof -
  have fs: "fs_inv off E (at_fset l p)" and e: "fse_fileset (fents l e) = p" "p \<noteq> NULL" using l eE by (auto simp: finv_def)
  obtain s' wk where U: "fileset_unbusy (addr_tmp X) (at_fset l p) e upd b incr = Some (Returns (s', wk))" "fs_inv off E s'"
    "ents s' = (fents l)(e := (fents l e)\<lparr>fse_open_cnt := fse_open_cnt (fents l e) + incr, fse_flags := flags_of s' e\<rparr>)"
    "\<not> busy s' e" "flags_of s' e AND FSE_TYPE_MASK = fse_flags (fents l e) AND FSE_TYPE_MASK"
    using fileset_unbusy_inv [OF fs eE, of "addr_tmp X" upd b incr] e X by (auto simp: fileset_env_def)
  have "do_unbusy X e upd b incr l w = Some (put_fset l p s', w)"
    by (subst do_unbusy.simps) (simp add: e U(1))
  moreover have "finv off E ty p (put_fset l p s')"
  proof (rule finv_put [OF l U(2)], rule ballI)
    fix x assume "x \<in> E"
    show "fse_fileset (ents s' x) = fse_fileset (fents l x) \<and> flags_of s' x AND FSE_TYPE_MASK = fse_flags (fents l x) AND FSE_TYPE_MASK"
      using U(5) by (subst U(3), subst (2) U(3)) simp
  qed
  ultimately show ?thesis using U(1,3,4) by blast
qed

text \<open>Picking: while all entries of the type are busy the other threads run.\<close>

lemma pick_once:
  assumes fs: "fs_inv off E s" and f: "flags AND FILESET_PICKUNIQUE = 0" "flags AND FILESET_PICKMASK \<noteq> 3" "tid < FSE_MAXTID" and loc: "loc \<notin> E"
  shows "fileset_pick F R v bytes loc s flags tid i = Some Waits \<or>
    (\<exists>e s'. fileset_pick F R v bytes loc s flags tid i = Some (Returns (e, s')) \<and> fs_inv off E s'
      \<and> (e = NULL \<and> ents s' = ents s \<or> e \<in> E \<and> ents s' = (ents s)(e := set_flags (\<lambda>g. g OR FSE_BUSY) (ents s e))))"
proof -
  obtain t mx where t: "pick_tree s flags = Some (t, mx)"
    using f(2) by (elim type_cases) (auto simp: pick_tree_def)
  have "fileset_pick F R v bytes loc s flags tid i = fileset_pick F R v (Some 0) loc s flags tid i"
    by (simp only: fileset_pick_def pick_start_def Let_def f(1) simp_thms if_False)
  moreover from fileset_pick_inv [OF fs t f(3) loc, of F R v 0 i]
  have "fileset_pick F R v (Some 0) loc s flags tid i = Some Waits \<or>
    (\<exists>e s'. fileset_pick F R v (Some 0) loc s flags tid i = Some (Returns (e, s')) \<and> fs_inv off E s'
      \<and> (e = NULL \<and> ents s' = ents s \<or> e \<in> E \<and> ents s' = (ents s)(e := set_flags (\<lambda>g. g OR FSE_BUSY) (ents s e))))"
  proof (elim exE conjE, goal_cases)
    case (1 out)
    consider "out = Returns (NULL, s)" | "out = Waits" | ds s' where "set ds = {e \<in> E. home (flags_of s e) = t}" "fs_inv off E s'"
      "case find (\<lambda>e. \<not> busy s e) (from_index s (pick_key 0 s mx flags tid i) ds) of
          None \<Rightarrow> out = Returns (NULL, s') \<and> ents s' = ents s
        | Some e \<Rightarrow> out = Returns (e, s') \<and> ents s' = (ents s)(e := set_flags (\<lambda>f. f OR FSE_BUSY) (ents s e))"
      using 1(2) f(1) by (simp split: if_splits) blast+
    then show ?case
    proof cases
      case (3 ds s')
      show ?thesis
      proof (cases "find (\<lambda>e. \<not> busy s e) (from_index s (pick_key 0 s mx flags tid i) ds)")
        case None
        then show ?thesis using 3 1(1) by auto
      next
        case (Some e)
        then have "e \<in> set (from_index s (pick_key 0 s mx flags tid i) ds)" by (auto simp: find_Some_iff simp del: set_from_index)
        then have "e \<in> E" using 3(1) by auto
        then show ?thesis using 3 1(1) Some by auto
      qed
    qed (use 1(1) fs in auto)
  qed
  ultimately show ?thesis by simp
qed

lemma finv_busy:
  assumes "finv off E ty p l" "fs_inv off E s" "ents s = (fents l)(e := set_flags g (fents l e))"
    and "\<And>f. g f AND FSE_TYPE_MASK = f AND FSE_TYPE_MASK"
  shows "finv off E ty p (put_fset l p s)"
  by (rule finv_put [OF assms(1,2)]) (simp add: assms(3,4))

lemma or_flags_type: "(f OR FSE_BUSY) AND FSE_TYPE_MASK = f AND FSE_TYPE_MASK" "(f OR FSE_THRD_WAITNG) AND FSE_TYPE_MASK = f AND FSE_TYPE_MASK"
  for f :: uint32
  by (simp_all add: flag_simps)

lemma pick_keeps:
  assumes X: "fileset_env X off E ty p" and l: "finv off E ty p l"
    and r: "do_pick X p flags tid index l w = Some (e, l', w')"
    and f: "flags AND FILESET_PICKUNIQUE = 0" "flags AND FILESET_PICKMASK \<noteq> 3" "tid < 16384"
  shows "finv off E ty p l' \<and> (e \<noteq> NULL \<longrightarrow> e \<in> E)"
proof -
  let ?Q = "\<lambda>Y q fl td i l w r. Y = X \<longrightarrow> q = p \<longrightarrow> fl = flags \<longrightarrow> td = tid \<longrightarrow> finv off E ty p l \<longrightarrow>
    finv off E ty p (fst (snd r)) \<and> (fst r \<noteq> NULL \<longrightarrow> fst r \<in> E)"
  have "?Q X p flags tid index l w (e, l', w')"
  proof (rule do_pick.raw_induct [where P = ?Q, OF _ r], intro impI)
    fix pk :: "'a lib \<Rightarrow> ptr \<Rightarrow> uint32 \<Rightarrow> int \<Rightarrow> uint32 \<Rightarrow> lstate \<Rightarrow> 'a \<Rightarrow> (ptr \<times> lstate \<times> 'a) option" and Y q fl td i l w r
    assume IH: "\<And>Y q fl td i l w r. pk Y q fl td i l w = Some r \<Longrightarrow> ?Q Y q fl td i l w r"
      and [simp]: "Y = X" "q = p" "fl = flags" "td = tid" and l: "finv off E ty p l"
    assume b: "(if td < 0 then None
      else do {
        let (bytes, w') = os_urandom Y w;
        r \<leftarrow> fileset_pick (fpu (mach Y)) (\<lambda>a _. (fst (rnd (mach Y) a w), ())) (vs (fb l)) bytes (addr_loc Y) (at_fset l q) fl (nat td) i;
        case r of
          Returns (e, s) \<Rightarrow> Some (e, put_fset l q s, if pick_draws (at_fset l q) fl i then w' else w)
        | Waits \<Rightarrow> let (l, w) = os_wait Y l w in pk Y q fl td i l w }) = Some r"
    then have td: "0 \<le> tid" by (auto split: if_splits)
    obtain bytes w1 where u: "os_urandom X w = (bytes, w1)" by fastforce
    let ?pick = "fileset_pick (fpu (mach X)) (\<lambda>a _. (fst (rnd (mach X) a w), ())) (vs (fb l)) bytes (addr_loc X) (at_fset l p) flags (nat tid) i"
    have fs: "fs_inv off E (at_fset l p)" using l by (simp add: finv_def)
    have tid: "nat tid < FSE_MAXTID" and loc: "addr_loc X \<notin> E" using f(3) td X by (simp_all add: fileset_env_def)
    from pick_once [OF fs f(1,2) tid loc]
    consider "?pick = Some Waits" | e s where "?pick = Some (Returns (e, s))" "fs_inv off E s" "e = NULL" "ents s = fents l"
      | e s where "?pick = Some (Returns (e, s))" "fs_inv off E s" "e \<in> E" "ents s = (fents l)(e := set_flags (\<lambda>g. g OR FSE_BUSY) (fents l e))"
      by (metis at_fset_simps(1))
    then show "finv off E ty p (fst (snd r)) \<and> (fst r \<noteq> NULL \<longrightarrow> fst r \<in> E)"
    proof cases
      case 1
      obtain l1 w2 where o: "os_wait X l w = (l1, w2)" by fastforce
      then have "finv off E ty p l1" using X l unfolding fileset_env_def by (metis fst_conv)
      moreover have "pk X p flags tid i l1 w2 = Some r" using b 1 td by (simp add: u o Let_def)
      ultimately show ?thesis using IH by blast
    next
      case (2 e s)
      have "finv off E ty p (put_fset l p s)" by (rule finv_put [OF l 2(2)]) (simp add: 2(4))
      then show ?thesis using b 2 td by (auto simp: u Let_def)
    next
      case (3 e s)
      have "finv off E ty p (put_fset l p s)" by (rule finv_busy [OF l 3(2,4)]) (rule or_flags_type)
      then show ?thesis using b 3 td by (auto simp: u Let_def)
    qed
  qed
  then show ?thesis using l by simp
qed

text \<open>Taking hold of a file: marking it as waited for, and as busy with the idle count lowered.\<close>

lemma mark_waiting_inv:
  assumes "fs_inv off E s"
  shows "fs_inv off E (upd_ent s e (set_flags (\<lambda>g. g OR FSE_THRD_WAITNG)))"
proof -
  let ?s = "upd_ent s e (set_flags (\<lambda>g. g OR FSE_THRD_WAITNG))"
  have h: "home (f OR FSE_THRD_WAITNG) = home f" "(f OR FSE_THRD_WAITNG) AND FSE_BUSY = f AND FSE_BUSY" for f :: uint32
    by (simp_all add: home_def flag_simps)
  have "in_home off E ?s"
    by (rule in_home_cong [of off E s]) (use assms h or_flags_type(2) in \<open>auto simp: fs_inv_def\<close>)
  moreover have "idle_set E ?s k = idle_set E s k" "idle_of ?s k = idle_of s k" for k
    using h(2) or_flags_type(2) by (auto simp: idle_set_def idle_of_def)
  ultimately show ?thesis using assms by (simp add: fs_inv_def)
qed

lemma hold_inv:
  assumes "fs_inv off E s" "e \<in> E" "\<not> busy s e" "flags_of s e AND FSE_TYPE_MASK = FSE_TYPE_FILE"
  shows "fs_inv off E (add_idle FSE_TYPE_FILE (-1) (upd_ent s e (set_flags (\<lambda>g. g OR FSE_BUSY))))"
proof -
  let ?s = "lock_pick (upd_ent (add_idle FSE_TYPE_FILE (-1) s) e (set_flags (\<lambda>f. f OR FSE_BUSY))) False"
  have "fs_inv off E ?s"
    using mark_busy_inv [of off E s e] assms by (simp add: fs_inv_def idle_ok_def)
  moreover have "?s = add_idle FSE_TYPE_FILE (-1) (upd_ent s e (set_flags (\<lambda>g. g OR FSE_BUSY)))"
    using assms(1) by (simp add: lock_pick_def add_idle_def upd_ent_def fs_inv_def)
  ultimately show ?thesis by simp
qed

lemma one_less_idle_put: "one_less_idle (put_fset l p s) p = put_fset l p (add_idle FSE_TYPE_FILE (-1) s)"
  by (simp add: one_less_idle_def) (simp add: put_fset_def)

text \<open>Where \<open>grab_entry\<close> ends: the file is not busy, and becomes so.\<close>

lemma grab_runs:
  assumes X: "fileset_env X off E ty p" and l: "finv off E ty p l" and e: "e \<in> E" and r: "grab_entry X p e l w = Some (l', w')"
  shows "\<exists>l1. finv off E ty p l1 \<and> fse_flags (fents l1 e) AND FSE_BUSY = 0
    \<and> l' = put_fset l1 p (upd_ent (at_fset l1 p) e (set_flags (\<lambda>g. g OR FSE_BUSY)))
    \<and> (fse_flags (fents l e) AND FSE_BUSY = 0 \<longrightarrow> l1 = l \<and> w' = w)"
proof -
  let ?Q = "\<lambda>Y q d l w r. Y = X \<longrightarrow> q = p \<longrightarrow> d = e \<longrightarrow> finv off E ty p l \<longrightarrow>
    (\<exists>l1. finv off E ty p l1 \<and> fse_flags (fents l1 e) AND FSE_BUSY = 0
      \<and> fst r = put_fset l1 p (upd_ent (at_fset l1 p) e (set_flags (\<lambda>g. g OR FSE_BUSY)))
      \<and> (fse_flags (fents l e) AND FSE_BUSY = 0 \<longrightarrow> l1 = l \<and> snd r = w))"
  have "?Q X p e l w (l', w')"
  proof (rule grab_entry.raw_induct [where P = ?Q, OF _ r], intro impI)
    fix gr :: "'a lib \<Rightarrow> ptr \<Rightarrow> ptr \<Rightarrow> lstate \<Rightarrow> 'a \<Rightarrow> (lstate \<times> 'a) option" and Y q d l w r
    assume IH: "\<And>Y q d l w r. gr Y q d l w = Some r \<Longrightarrow> ?Q Y q d l w r"
      and [simp]: "Y = X" "q = p" "d = e" and l: "finv off E ty p l"
    assume b: "(if fs_pick_lock (fsets l q) then let (l, w) = os_wait Y l w in gr Y q d l w
      else if fse_flags (fents l d) AND FSE_BUSY \<noteq> 0 then
        let (l, w) = os_wait Y (put_fset l q (upd_ent (at_fset l q) d (set_flags (\<lambda>g. g OR FSE_THRD_WAITNG)))) w in gr Y q d l w
      else Some (put_fset l q (upd_ent (at_fset l q) d (set_flags (\<lambda>g. g OR FSE_BUSY))), w)) = Some r"
    have fs: "fs_inv off E (at_fset l p)" and unlocked: "\<not> fs_pick_lock (fsets l p)" using l by (auto simp: finv_def fs_inv_def)
    show "\<exists>l1. finv off E ty p l1 \<and> fse_flags (fents l1 e) AND FSE_BUSY = 0
      \<and> fst r = put_fset l1 p (upd_ent (at_fset l1 p) e (set_flags (\<lambda>g. g OR FSE_BUSY)))
      \<and> (fse_flags (fents l e) AND FSE_BUSY = 0 \<longrightarrow> l1 = l \<and> snd r = w)"
    proof (cases "fse_flags (fents l e) AND FSE_BUSY = 0")
      case True
      then show ?thesis using b l unlocked by (intro exI [of _ l]) auto
    next
      case False
      let ?l = "put_fset l p (upd_ent (at_fset l p) e (set_flags (\<lambda>g. g OR FSE_THRD_WAITNG)))"
      obtain l2 w2 where o: "os_wait X ?l w = (l2, w2)" by fastforce
      have "finv off E ty p ?l" by (rule finv_busy [OF l mark_waiting_inv [OF fs]]) (simp, rule or_flags_type)
      then have "finv off E ty p l2" using X o unfolding fileset_env_def by (metis fst_conv)
      moreover have "gr X p e l2 w2 = Some r" using b False unlocked by (simp add: o Let_def)
      ultimately show ?thesis using IH [of X p e l2 w2 r] False by blast
    qed
  qed
  then show ?thesis using l by simp
qed

lemma grab_keeps:
  assumes X: "fileset_env X off E ty p" and l: "finv off E ty p l" and e: "e \<in> E" "ty e = FSE_TYPE_FILE"
    and r: "grab_entry X p e l w = Some (l', w')"
  shows "finv off E ty p (one_less_idle l' p)"
proof -
  obtain l1 where l1: "finv off E ty p l1" "fse_flags (fents l1 e) AND FSE_BUSY = 0"
    "l' = put_fset l1 p (upd_ent (at_fset l1 p) e (set_flags (\<lambda>g. g OR FSE_BUSY)))"
    using grab_runs [OF X l e(1) r] by blast
  have "fs_inv off E (add_idle FSE_TYPE_FILE (-1) (upd_ent (at_fset l1 p) e (set_flags (\<lambda>g. g OR FSE_BUSY))))"
    by (rule hold_inv) (use l1(1,2) e in \<open>auto simp: finv_def\<close>)
  then show ?thesis unfolding l1(3) one_less_idle_put
    by (rule finv_busy [OF l1(1)]) (simp, rule or_flags_type)
qed

interpretation inv: file_env X p "\<lambda>l. fileset_env X off E ty p \<and> finv off E ty p l"
  "\<lambda>l e. e \<in> E \<and> ty e = FSE_TYPE_FILE \<and> fse_fileset (fents l e) = p" "\<lambda>l e. e \<in> E" "\<lambda>tid. tid < 16384"
proof (unfold_locales, goal_cases)
  case (1 l s)
  then show ?case by (simp add: finv_def)
next
  case (4 l flags tid index w e l' w')
  from 4(1) have X: "fileset_env X off E ty p" "finv off E ty p l" by auto
  from pick_keeps [OF X 4(2-5)] X(1) show ?case by simp
next
  case (5 l e upd ex incr w l' w')
  then have X: "fileset_env X off E ty p" "finv off E ty p l" "e \<in> E" by auto
  from unbusy_runs [OF X, of upd ex incr w] 5(3) X(1) show ?case by auto
next
  case (6 l e q w l' w')
  then have X: "fileset_env X off E ty p" "finv off E ty p l" "e \<in> E" "ty e = FSE_TYPE_FILE" "q = p" by auto
  from grab_keeps [OF X(1-4)] 6(4) X show ?case by simp
next
  case (8 l w)
  then show ?case by (auto simp: fileset_env_def)
qed simp_all

subsection \<open>The flowops keep the invariant\<close>

text \<open>
  C8. The flowops keep the fileset in order: its entries stay in the tree that their flags ask for, each idle count is the
  number of entries of the type that are not busy, and the lock is free. This holds for every flowop of the table but closing, whatever it returns,
  on a fileset with that invariant (or on none), if the entries of the thread's descriptors are files of it and the
  threads that run while it waits keep the invariant.
\<close>

theorem fo_call_keeps_fileset:
  assumes "finv off E ty p l" "fileset_env X off E ty p" "fo_fileset (fop l f) \<in> {p, NULL}" "tf_utid (thr l t) < 16384"
    and "\<forall>i. tf_fse (thr l t) i = NULL \<or> tf_fse (thr l t) i \<in> E \<and> ty (tf_fse (thr l t) i) = FSE_TYPE_FILE"
    and "op \<noteq> Lclosefile" "fo_call X op t f l w = Some (Inr (rc, l', w'))"
  shows "finv off E ty p l'"
proof -
  have "good_sum (\<lambda>l. fileset_env X off E ty p \<and> finv off E ty p l) (fo_call X op t f l w)"
  proof (rule inv.fo_call_good)
    fix i
    show "tf_fse (thr l t) i = NULL \<or> tf_fse (thr l t) i \<in> E \<and> ty (tf_fse (thr l t) i) = FSE_TYPE_FILE
        \<and> fse_fileset (fents l (tf_fse (thr l t) i)) = p"
      using assms(1,5) by (auto simp: finv_def)
  qed (use assms in auto)
  with assms(7) show ?thesis by (simp add: good_sum_def)
qed

text \<open>An example: file 64 of the fileset exists, and flowop 100 of the thread 200 deletes a file of the fileset.\<close>

definition ex_have :: lstate where
  "ex_have = ex_l\<lparr>fents := (\<lambda>e. (fents ex_l e)\<lparr>fse_flags := FSE_TYPE_FILE OR FSE_EXISTS\<rparr>),
     fsets := (\<lambda>_. (fs ex_fileset)\<lparr>fs_tree := (\<lambda>t. \<lparr>avl_root = (if t = fs_exist_files then 80 else NULL), avl_compar = fileset_entry_compare,
        avl_offset = 16, avl_numnodes = (if t = fs_exist_files then 1 else 0), avl_size = 120\<rparr>)\<rparr>),
     fb := ex_lfb\<lparr>flowops := (\<lambda>_. zero_flowop\<lparr>fo_fileset := 8\<rparr>)\<rparr>\<rparr>"

lemma ex_have_inv: "finv 16 {64} (\<lambda>_. 0) 8 ex_have"
proof -
  let ?s = "at_fset ex_have 8"
  have f: "flags_of ?s e = 8" "home 8 = fs_exist_files" for e by (simp_all add: ex_have_def home_def at_fset_def)
  have h: "fheap ex_l = one_heap" by (simp add: ex_l_def ex_fileset_def)
  have "avl_holds (heap ?s) (fs_tree (fs ?s) t) (if t = fs_exist_files then [64] else [])" for t
    unfolding avl_holds_def
    by (intro conjI exI [of _ "if t = fs_exist_files then Node Leaf 80 0 Leaf else Leaf"])
      (simp_all add: h repc_Nil one_heap_def ex_have_def AVL_DATA2NODE_def aligned_def)
  then have "trees_hold 16 ?s (\<lambda>t. if t = fs_exist_files then [64] else [])"
    by (auto simp: trees_hold_def ex_have_def)
  then have "in_home 16 {64} ?s" unfolding in_home_def f
    by (intro conjI exI [of _ "\<lambda>t. if t = fs_exist_files then [64] else []"]) auto
  moreover have "idle_set {64} ?s k = (if k = 0 then {64} else {})" for k unfolding idle_set_def f by auto
  ultimately have "fs_inv 16 {64} ?s" by (simp add: fs_inv_def idle_of_def ex_have_def ex_fileset_def)
  then show ?thesis by (simp add: finv_def ex_have_def ex_l_def ex_fileset_def)
qed

lemma ex_env: "fileset_env ex_lib 16 {64} (\<lambda>_. 0) 8"
  by (simp add: fileset_env_def ex_lib_def)

lemma ex_have_pick:
  "\<exists>s. fileset_pick F R v (Some 0) 16 (at_fset ex_have 8) 16 0 0 = Some (Returns (64, s)) \<and> fs_inv 16 {64} s
    \<and> ents s = (fents ex_have)(64 := set_flags (\<lambda>f. f OR FSE_BUSY) (fents ex_have 64))"
proof -
  let ?s = "at_fset ex_have 8"
  have fs: "fs_inv 16 {64} ?s" using ex_have_inv by (simp add: finv_def)
  have t: "pick_tree ?s 16 = Some (fs_exist_files, 1)" by (simp add: pick_tree_def ex_have_def ex_fileset_def)
  have f: "flags_of ?s e = 8" "home 8 = fs_exist_files" for e by (simp_all add: ex_have_def home_def at_fset_def)
  have i: "idle_set {64} ?s 0 = {64}" unfolding idle_set_def f by auto
  have p: "pick_list ?s 16 \<noteq> NULL" by (simp add: pick_list_def ex_have_def ex_fileset_def)
  obtain ds s' where d: "sorted_wrt (\<lambda>x y. idx ?s x < idx ?s y) ds" "set ds = {64}" "fs_inv 16 {64} s'"
    "case find (\<lambda>e. \<not> busy ?s e) (from_index ?s (pick_key 0 ?s 1 16 0 0) ds) of
        None \<Rightarrow> fileset_pick F R v (Some 0) 16 ?s 16 0 0 = Some (Returns (NULL, s')) \<and> ents s' = ents ?s
      | Some e \<Rightarrow> fileset_pick F R v (Some 0) 16 ?s 16 0 0 = Some (Returns (e, s')) \<and> ents s' = (ents ?s)(e := set_flags (\<lambda>f. f OR FSE_BUSY) (ents ?s e))"
    using fileset_pick_inv [OF fs t, of 0 16 F R v 0 0] p i f by (auto split: option.splits)
  have ds: "ds = [64]" using d(1,2) by (cases ds; cases "tl ds") auto
  have "find (\<lambda>e. \<not> busy ?s e) (from_index ?s k [64]) = Some 64" for k unfolding f by (simp add: from_index_def)
  then show ?thesis using d(3,4) unfolding ds by auto
qed

lemma finv_put_pick: "finv off E ty p l \<Longrightarrow> fs_inv off E s \<Longrightarrow> ents s = (fents l)(e := set_flags (\<lambda>f. f OR FSE_BUSY) (fents l e))
    \<Longrightarrow> finv off E ty p (put_fset l p s)"
  by (rule finv_busy [OF _ _ _ or_flags_type(1)])

lemma ex_have_path:
  assumes "fb l = fb ex_have" "\<And>e. fse_parent (fents l e) = fse_parent (fents ex_l e)" "\<And>e. fse_path (fents l e) = fse_path (fents ex_l e)"
  shows "\<exists>pth. entry_path l 8 64 = Some pth"
proof -
  have n: "named_entry (fents l) x = named_entry (fents ex_l) x" for x using assms(3) by (simp add: named_entry_def fse_name_def)
  have m: "must_str l = must_str ex_l" by (simp add: must_str_def assms(1) ex_have_def ex_l_def fun_eq_iff)
  have fn: "filesets (fb l) = filesets (fb ex_l)" by (simp add: assms(1) ex_have_def ex_l_def)
  have nm: "fse_name (fents l) x = fse_name (fents ex_l) x" for x using assms(3) by (simp add: fse_name_def)
  have "entry_path l 8 64 = Some (take 1023 (''/tmp'' @ ''/'' @ ''data'' @ concat (map (\<lambda>x. ''/'' @ fse_name (fents l) x) (rev [64, 192]))))"
    by (rule entry_path_eq [where r = 320]) (use ex_l_path_hyps in \<open>simp_all add: m n fn nm assms(2) ex_l_names\<close>)
  then show ?thesis by blast
qed

lemma ex_delete: "\<exists>l' w'. fo_call ex_lib Ldeletefile 200 100 ex_have [] = Some (Inr (FILEBENCH_OK, l', w'))"
proof -
  obtain s where s: "fileset_pick (fpu (mach ex_lib)) (\<lambda>a _. (fst (rnd (mach ex_lib) a []), ())) (vs (fb ex_have)) (Some 0) 16 (at_fset ex_have 8) 16 0 0
      = Some (Returns (64, s))" "fs_inv 16 {64} s" "ents s = (fents ex_have)(64 := set_flags (\<lambda>f. f OR FSE_BUSY) (fents ex_have 64))"
    using ex_have_pick by blast
  let ?l = "put_fset ex_have 8 s"
  have u: "os_urandom ex_lib [] = (Some 0, [])" "addr_loc ex_lib = 16" "raw_support ex_lib = False" by (simp_all add: ex_lib_def)
  have f: "fo_fdnumber (fop ex_have 100) = 0" "fo_fileset (fop ex_have 100) = 8" "fo_fileindex (fop ex_have 100) = NULL"
    by (simp_all add: ex_have_def fop_def zero_flowop_def)
  have "\<exists>w0. do_pick ex_lib 8 16 0 0 ex_have [] = Some (64, ?l, w0)"
    by (subst do_pick.simps) (simp add: u(1,2) s(1) [simplified] Let_def)
  then obtain w0 where pick: "do_pick ex_lib 8 16 0 0 ex_have [] = Some (64, ?l, w0)" ..
  have pf: "flowoplib_pickfile ex_lib 100 FILESET_PICKEXISTS 0 ex_have [] = Some (FILEBENCH_OK, 64, ?l, w0)"
    by (simp add: flowoplib_pickfile_def f pick)
  have e: "fse_open_cnt (fents ?l 64) = 0" "fop ?l 100 = fop ex_have 100" "fse_fileset (fents ?l 64) = 8"
    by (simp_all add: s(3) ex_have_def ex_l_def ex_fileset_def set_flags_def fop_def put_fset_def)
  have finv: "finv 16 {64} (\<lambda>_. 0) 8 ?l" by (rule finv_put_pick [OF ex_have_inv s(2,3)])
  have "fb ?l = fb ex_have" "\<And>e. fse_parent (fents ?l e) = fse_parent (fents ex_l e)" "\<And>e. fse_path (fents ?l e) = fse_path (fents ex_l e)"
    by (simp_all add: s(3) ex_have_def set_flags_def)
  from ex_have_path [OF this] obtain pth where pth: "entry_path ?l 8 64 = Some pth" by blast
  obtain l1 w1 where b: "begin_op ex_lib 200 ?l w0 = (l1, w1)" by fastforce
  obtain l2 w2 where en: "end_op ex_lib 200 100 0 l1 (fsp_unlink (plug ex_lib) pth w1) = (l2, w2)" by fastforce
  have "finv 16 {64} (\<lambda>_. 0) 8 l1" using inv.begin_keeps [OF b] ex_env finv by blast
  then have "finv 16 {64} (\<lambda>_. 0) 8 l2" using inv.end_keeps [OF en] ex_env by blast
  from unbusy_runs [OF ex_env this, of 64] obtain s' where
    "do_unbusy ex_lib 64 True False (- fse_open_cnt (fents l2 64)) l2 w2 = Some (put_fset l2 8 s', w2)" by blast
  then have "flowoplib_deletefile ex_lib 200 100 ex_have [] = Some (FILEBENCH_OK, put_fset l2 8 s', w2)"
    by (simp add: flowoplib_deletefile_def deletefile_entry_def f pf e e [simplified] pth b en [simplified] u(3) Let_def)
  then show ?thesis by simp
qed

theorem fo_call_keeps_fileset_witness:
  "\<exists>l' w'. fo_call ex_lib Ldeletefile 200 100 ex_have [] = Some (Inr (FILEBENCH_OK, l', w')) \<and> finv 16 {64} (\<lambda>_. 0) 8 l'"
proof -
  obtain l' w' where r: "fo_call ex_lib Ldeletefile 200 100 ex_have [] = Some (Inr (FILEBENCH_OK, l', w'))" using ex_delete by blast
  have "fo_fileset (fop ex_have 100) \<in> {8, NULL}" "tf_utid (thr ex_have 200) < 16384" "\<And>i. tf_fse (thr ex_have 200) i = NULL"
    by (simp_all add: ex_have_def fop_def zero_flowop_def thr_def ex_lfb_def ex_fb_def zero_threadflow_def)
  with fo_call_keeps_fileset [OF ex_have_inv ex_env _ _ _ _ r] r show ?thesis by auto
qed


end
