(* ===== verification/FB_Fileops_Close.thy ===== *)
theory FB_Fileops_Close
  imports FB_Fileops_Inv
begin

text \<open>
  Closing a file, the one flowop that does not keep the invariant of the fileset; and what deleting an open file
  leaves behind in the descriptor.
\<close>

text \<open>What beginning and ending an operation leave as it is.\<close>

definition same_files :: "ptr \<Rightarrow> lstate \<Rightarrow> lstate \<Rightarrow> bool" where
  "same_files t l l' \<longleftrightarrow> fsets l' = fsets l \<and> fents l' = fents l \<and> fheap l' = fheap l
     \<and> tf_fd (thr l' t) = tf_fd (thr l t) \<and> tf_fse (thr l' t) = tf_fse (thr l t)
     \<and> (\<forall>f. fo_fdnumber (fop l' f) = fo_fdnumber (fop l f) \<and> fo_fileset (fop l' f) = fo_fileset (fop l f))"

lemma same_files_trans: "same_files t l l1 \<Longrightarrow> same_files t l1 l2 \<Longrightarrow> same_files t l l2"
  by (simp add: same_files_def)

lemma same_files_at: "same_files t l l' \<Longrightarrow> at_fset l' p = at_fset l p"
  by (simp add: same_files_def at_fset_def)

lemma same_files_finv: "same_files t l l' \<Longrightarrow> finv off E ty p l \<Longrightarrow> finv off E ty p l'"
  using same_files_at [of t l l' p] by (simp add: finv_def) (simp add: same_files_def)

lemma begin_files: "begin_op X t l w = (l', w') \<Longrightarrow> same_files t l l'"
  by (auto simp: begin_op_def flowop_beginop_def upd_tf_def same_files_def thr_def fop_def split: prod.splits)

lemma endop_files:
  fixes s :: fbstate and clk :: "'w \<Rightarrow> uint64 \<times> 'w"
  defines "s' \<equiv> \<lambda>w t f n. fst (flowop_endop clk s w t f n)"
  shows "tf_fd (threads (s' w t f n) x) = tf_fd (threads s x)" "tf_fse (threads (s' w t f n) x) = tf_fse (threads s x)"
    "fo_fdnumber (flowops (s' w t f n) g) = fo_fdnumber (flowops s g)" "fo_fileset (flowops (s' w t f n) g) = fo_fileset (flowops s g)"
  by (simp_all add: s'_def flowop_endop_def upd_stats_def upd_fo_def upd_tf_def Let_def split: prod.splits)

lemma end_files:
  assumes "end_op X t f n l w = (l', w')"
  shows "same_files t l l'"
proof -
  obtain s w1 where e: "flowop_endop (clock (mach X)) (fb l) w t f n = (s, w1)" by fastforce
  then have l': "l' = l\<lparr>fb := s\<rparr>" using assms by (simp add: end_op_def)
  show ?thesis using endop_files [of "clock (mach X)" "fb l" w t f n, unfolded e fst_conv]
    by (simp add: same_files_def l' thr_def fop_def fun_eq_iff)
qed

subsection \<open>Closing\<close>

text \<open>Giving a busy file back without changing whether it exists: the idle count goes up by one.\<close>

lemma unbusy_plain:
  assumes "e \<noteq> NULL" "fse_fileset (ents s e) \<noteq> NULL" "\<not> fs_pick_lock (fs s)" "flags_of s e AND FSE_TYPE_MASK = FSE_TYPE_FILE" "busy s e"
  shows "\<exists>s' woken. fileset_unbusy tmp s e False False incr = Some (Returns (s', woken)) \<and> fs_idle_files (fs s') = fs_idle_files (fs s) + 1
    \<and> ents s' = (ents s)(e := (ents s e)\<lparr>fse_open_cnt := fse_open_cnt (ents s e) + incr, fse_flags := release_flags (flags_of s e)\<rparr>)"
proof -
  let ?s2 = "upd_ent (lock_pick s True) e (\<lambda>x. x\<lparr>fse_open_cnt := fse_open_cnt x + incr\<rparr>)"
  have f: "flags_of ?s2 e = flags_of s e" "fs_idle_files (fs ?s2) = fs_idle_files (fs s)" by (simp_all add: lock_pick_def upd_ent_def)
  obtain s3 wk where R: "unbusy_release ?s2 e = (s3, wk)" by fastforce
  have "s3 = add_idle FSE_TYPE_FILE 1 (upd_ent ?s2 e (set_flags release_flags))"
    using unbusy_release_eq [of ?s2 e] assms(4,5) by (simp only: R f) simp
  then have "fs_idle_files (fs s3) = fs_idle_files (fs s) + 1"
    "ents s3 = (ents s)(e := (ents s e)\<lparr>fse_open_cnt := fse_open_cnt (ents s e) + incr, fse_flags := release_flags (flags_of s e)\<rparr>)"
    by (simp_all add: add_idle_def lock_pick_def upd_ent_def set_flags_def)
  then show ?thesis using assms(1-3) R by (simp add: fileset_unbusy_def lock_pick_def)
qed

text \<open>The state in which \<open>flowoplib_closefile\<close> gives the entry back.\<close>

lemma put_put [simp]: "put_fset (put_fset l p s) p s' = put_fset l p s'"
  by (simp_all add: put_fset_def)

lemma closefile_runs:
  assumes l: "finv off E ty p l" and e: "e \<in> E" "ty e = FSE_TYPE_FILE" "fse_flags (fents l e) AND FSE_BUSY = 0"
    and fd: "fd_ok (fo_fdnumber (fop l f))" "tf_fd (thr l t) (fo_fdnumber (fop l f)) \<noteq> 0" "tf_fse (thr l t) (fo_fdnumber (fop l f)) = e"
  defines "s1 \<equiv> upd_ent (at_fset l p) e (set_flags (\<lambda>g. g OR FSE_BUSY))"
  defines "s2 \<equiv> if fse_open_cnt (fents l e) = 1 then add_idle FSE_TYPE_FILE (-1) s1 else s1"
  shows "\<exists>l3 w3. at_fset l3 p = s2 \<and> flowoplib_closefile X t f l w =
    map_option (\<lambda>(l', w'). (FILEBENCH_OK, set_fd l' t (fo_fdnumber (fop l f)) 0, w')) (do_unbusy X e False False (-1) l3 w3)"
proof -
  let ?fd = "fo_fdnumber (fop l f)" and ?d = "tf_fd (thr l t) (fo_fdnumber (fop l f))"
  have p: "fse_fileset (fents l e) = p" "p \<noteq> NULL" "\<not> fs_pick_lock (fsets l p)" "in_home off E (at_fset l p)"
    using l e(1) by (auto simp: finv_def fs_inv_def)
  have n: "e \<noteq> NULL" using in_home_entry [OF p(4) e(1)] by simp
  have g: "grab_entry X p e l w = Some (put_fset l p s1, w)"
    by (subst grab_entry.simps) (simp add: p(3) e(3) s1_def)
  let ?l2 = "put_fset l p s2"
  have c: "(if fse_open_cnt (fents (put_fset l p s1) e) = 1 then one_less_idle (put_fset l p s1) p else put_fset l p s1) = ?l2"
    by (simp add: s2_def s1_def one_less_idle_def set_flags_def)
  obtain l3 w3 where b: "begin_op X t ?l2 w = (l3, w3)" by fastforce
  obtain l4 w4 where en: "end_op X t f 0 l3 (fsp_close (plug X) ?d w3) = (l4, w4)" by fastforce
  have "at_fset l4 p = s2"
    using same_files_at [OF same_files_trans [OF begin_files [OF b] end_files [OF en]], of p] by simp
  moreover have "flowoplib_closefile X t f l w =
      map_option (\<lambda>(l', w'). (FILEBENCH_OK, set_fd l' t ?fd 0, w')) (do_unbusy X e False False (-1) l4 w4)"
    using fd n p(1,2) by (cases "do_unbusy X e False False (-1) l4 w4")
      (simp_all add: flowoplib_closefile_def get_fd_def get_fse_def fileset_of_def g c [simplified] b en Let_def split: prod.split)
  ultimately show ?thesis by blast
qed

text \<open>
  C22. Closing a file that nobody uses succeeds, frees the descriptor and counts one thread less that has the file open. The fileset keeps
  its invariant exactly if the file was open once: otherwise the count of idle files, lowered only in the
  first case but raised in any, is one too high, although no other file has become idle. A thread that waits for an idle file then
  searches a fileset in which all files may be busy.
\<close>

theorem closefile_idle_count:
  assumes "finv off E ty p l" "fileset_env X off E ty p" "tf_fse (thr l t) (fo_fdnumber (fop l f)) = e" "e \<in> E" "ty e = FSE_TYPE_FILE"
    and "fse_flags (fents l e) AND FSE_BUSY = 0" "fd_ok (fo_fdnumber (fop l f))" "tf_fd (thr l t) (fo_fdnumber (fop l f)) \<noteq> 0"
  shows "\<exists>l' w'. fo_call X Lclosefile t f l w = Some (Inr (FILEBENCH_OK, l', w'))
    \<and> get_fd l' t (fo_fdnumber (fop l f)) = Some 0 \<and> fse_open_cnt (fents l' e) = fse_open_cnt (fents l e) - 1
    \<and> (finv off E ty p l' \<longleftrightarrow> fse_open_cnt (fents l e) = 1)
    \<and> fs_idle_files (fsets l' p) = fs_idle_files (fsets l p) + (if fse_open_cnt (fents l e) = 1 then 0 else 1)
    \<and> idle_set E (at_fset l' p) FSE_TYPE_FILE = idle_set E (at_fset l p) FSE_TYPE_FILE"
proof -
  let ?fd = "fo_fdnumber (fop l f)" and ?n = "fse_open_cnt (fents l e)" and ?f = "fse_flags (fents l e) OR FSE_BUSY"
  define s1 where "s1 = upd_ent (at_fset l p) e (set_flags (\<lambda>g. g OR FSE_BUSY))"
  define s2 where "s2 = (if ?n = 1 then add_idle FSE_TYPE_FILE (-1) s1 else s1)"
  have p: "p \<noteq> NULL" "fse_fileset (fents l e) = p" "fse_flags (fents l e) AND FSE_TYPE_MASK = FSE_TYPE_FILE" "fs_inv off E (at_fset l p)"
    using assms(1,4,5) by (auto simp: finv_def)
  obtain l3 w3 where l3: "at_fset l3 p = s2" and r: "flowoplib_closefile X t f l w =
      map_option (\<lambda>(l', w'). (FILEBENCH_OK, set_fd l' t ?fd 0, w')) (do_unbusy X e False False (-1) l3 w3)"
    using closefile_runs [OF assms(1,4,5,6,7,8,3), of X w] unfolding s1_def [symmetric] s2_def [symmetric] by blast
  have s2: "ents s2 = (fents l)(e := (fents l e)\<lparr>fse_flags := ?f\<rparr>)" "fs_pick_lock (fs s2) = fs_pick_lock (fsets l p)"
    "fs_idle_files (fs s2) = fs_idle_files (fsets l p) - (if ?n = 1 then 1 else 0)"
    by (simp_all add: s2_def s1_def set_flags_def add_idle_def upd_ent_def)
  have n: "e \<noteq> NULL" "\<not> fs_pick_lock (fsets l p)" using in_home_entry [of off E "at_fset l p" e] p(4) assms(4) by (auto simp: fs_inv_def)
  have b: "?f AND FSE_TYPE_MASK = FSE_TYPE_FILE" "?f AND FSE_BUSY \<noteq> 0" using p(3) by (simp_all add: flag_simps)
  obtain s' wk where u: "fileset_unbusy (addr_tmp X) s2 e False False (-1) = Some (Returns (s', wk))"
    "fs_idle_files (fs s') = fs_idle_files (fs s2) + 1"
    "ents s' = (fents l)(e := (fents l e)\<lparr>fse_open_cnt := ?n - 1, fse_flags := release_flags ?f\<rparr>)"
    using unbusy_plain [of e s2 "addr_tmp X" "-1"] n p(1,2) b by (auto simp: s2)
  let ?l' = "put_fset l3 p s'"
  have en: "fents l3 = ents s2" by (simp add: l3 [symmetric])
  then have q: "fse_fileset (fents l3 e) = p" using p(2) by (simp add: s2)
  have run: "do_unbusy X e False False (-1) l3 w3 = Some (?l', w3)"
    by (subst do_unbusy.simps) (simp add: q l3 u(1))
  have idle: "idle_set E s' FSE_TYPE_FILE = idle_set E (at_fset l p) FSE_TYPE_FILE"
    using p(3) b(1) assms(6) by (auto simp: idle_set_def u(3))
  have "finv off E ty p ?l' \<longleftrightarrow> ?n = 1"
  proof
    assume "finv off E ty p ?l'"
    then have "idle_of s' FSE_TYPE_FILE = of_nat (card (idle_set E s' FSE_TYPE_FILE))" by (simp add: finv_def fs_inv_def)
    moreover have "idle_of (at_fset l p) FSE_TYPE_FILE = of_nat (card (idle_set E (at_fset l p) FSE_TYPE_FILE))"
      using p(4) by (simp add: fs_inv_def)
    ultimately show "?n = 1" unfolding idle by (simp add: idle_of_def u(2) s2(3) split: if_splits)
  next
    assume 1: "?n = 1"
    have "fs_inv off E s2" using hold_inv [OF p(4) assms(4)] assms(6) p(3) 1 by (simp add: s2_def s1_def)
    then have "finv off E ty p l3"
      using assms(1) p(3) b(1) by (auto simp: finv_def l3 en s2)
    from unbusy_runs [OF assms(2) this assms(4), of False False "-1" w3] show "finv off E ty p ?l'" by (auto simp: run)
  qed
  moreover have "finv off E ty p (set_fd ?l' t ?fd 0) = finv off E ty p ?l'" by (simp add: finv_def set_fd_def upd_thr_def)
  ultimately have "finv off E ty p (set_fd ?l' t ?fd 0) \<longleftrightarrow> ?n = 1" by simp
  moreover have "get_fd (set_fd ?l' t ?fd 0) t ?fd = Some 0" using assms(7)
    by (simp add: get_fd_def set_fd_def thr_def upd_thr_def upd_tf_def)
  moreover have "at_fset (set_fd ?l' t ?fd 0) p = s'" "fents (set_fd ?l' t ?fd 0) = ents s'" "fsets (set_fd ?l' t ?fd 0) p = fs s'"
    by (simp_all add: set_fd_def upd_thr_def)
  ultimately show ?thesis using idle r
    by (intro exI [of _ "set_fd ?l' t ?fd 0"] exI [of _ w3]) (simp add: run u s2)
qed

text \<open>An example: file 64 exists and is open five times; flowop 100 of the thread 200 closes descriptor 3.\<close>

definition ex_open :: lstate where
  "ex_open = ex_have\<lparr>fents := (\<lambda>e. (fents ex_have e)\<lparr>fse_open_cnt := 5\<rparr>),
     fb := (fb ex_have)\<lparr>flowops := (\<lambda>_. zero_flowop\<lparr>fo_fileset := 8, fo_fdnumber := 3\<rparr>),
       threads := (\<lambda>_. zero_threadflow\<lparr>tf_fd := (\<lambda>_. 7), tf_fse := (\<lambda>_. 64)\<rparr>)\<rparr>\<rparr>"

lemma ex_open_inv: "finv 16 {64} (\<lambda>_. 0) 8 ex_open"
proof -
  have fl: "flags_of (at_fset ex_open 8) = flags_of (at_fset ex_have 8)" "heap (at_fset ex_open 8) = heap (at_fset ex_have 8)"
    "fs (at_fset ex_open 8) = fs (at_fset ex_have 8)" by (simp_all add: ex_open_def fun_eq_iff)
  have I: "fs_inv 16 {64} (at_fset ex_have 8)" using ex_have_inv by (simp add: finv_def)
  have "in_home 16 {64} (at_fset ex_open 8)"
    by (rule in_home_cong [of 16 "{64}" "at_fset ex_have 8"]) (use I in \<open>simp_all add: fs_inv_def ex_open_def\<close>)
  moreover have "idle_set {64} (at_fset ex_open 8) k = idle_set {64} (at_fset ex_have 8) k" for k
    by (simp add: idle_set_def ex_open_def)
  ultimately have "fs_inv 16 {64} (at_fset ex_open 8)" using I by (simp add: fs_inv_def idle_of_def ex_open_def)
  then show ?thesis using ex_have_inv by (simp add: finv_def ex_open_def)
qed

theorem closefile_idle_count_witness:
  "\<exists>l' w'. fo_call ex_lib Lclosefile 200 100 ex_open [] = Some (Inr (FILEBENCH_OK, l', w')) \<and> fse_open_cnt (fents l' 64) = 4
    \<and> fs_idle_files (fsets l' 8) = 2 \<and> \<not> finv 16 {64} (\<lambda>_. 0) 8 l'"
proof -
  have "fs_idle_files (fsets ex_open 8) = 1" "fo_fdnumber (fop ex_open 100) = 3" "tf_fse (thr ex_open 200) 3 = 64" "tf_fd (thr ex_open 200) 3 = 7"
    "fse_open_cnt (fents ex_open 64) = 5" "fse_flags (fents ex_open 64) = 8"
    by (simp_all add: ex_open_def ex_have_def ex_fileset_def fop_def thr_def)
  then show ?thesis using closefile_idle_count [OF ex_open_inv ex_env, of 200 100 64 "[]"] by (auto simp: fd_ok_def)
qed

subsection \<open>Deleting an open file\<close>

lemma put_fset_frame [simp]: "thr (put_fset l p s) = thr l" "fop (put_fset l p s) = fop l"
  "thr (one_less_idle l p) = thr l" "fop (one_less_idle l p) = fop l"
  by (simp_all add: thr_def fop_def put_fset_def one_less_idle_def fun_eq_iff)

lemma set_fse_frame [simp]: "tf_fd (thr (set_fse l t i v) t) = tf_fd (thr l t)" "tf_fse (thr (set_fse l t i v) t) = (tf_fse (thr l t))(i := v)"
  "fop (set_fse l t i v) = fop l" "at_fset (set_fse l t i v) p = at_fset l p" "fents (set_fse l t i v) = fents l" "fsets (set_fse l t i v) = fsets l"
  by (simp_all add: thr_def fop_def set_fse_def upd_thr_def upd_tf_def fun_eq_iff)

text \<open>Closing a descriptor whose entry is \<open>NULL\<close> follows the null pointer.\<close>

lemma close_null: "get_fd l t (fo_fdnumber (fop l g)) = Some d \<Longrightarrow> d \<noteq> 0 \<Longrightarrow> get_fse l t (fo_fdnumber (fop l g)) = Some NULL
    \<Longrightarrow> fo_call X Lclosefile t g l w = None"
  by (simp add: flowoplib_closefile_def fileset_of_def)

text \<open>Deleting once the entry of the descriptor is held, in the state \<open>l2\<close>.\<close>

definition delete_held :: "'w lib \<Rightarrow> ptr \<Rightarrow> ptr \<Rightarrow> ptr \<Rightarrow> ptr \<Rightarrow> uint64 \<Rightarrow> lstate \<Rightarrow> 'w \<Rightarrow> (int \<times> lstate \<times> 'w) option" where
  "delete_held X t f p e d l2 w =
     (if sint (fse_open_cnt (fents l2 e)) > (if sint (fd_num d) > 0 then 1 else 0) then do {
        (l, w) \<leftarrow> do_unbusy X e False False 0 l2 w; Some (FILEBENCH_OK, l, w) }
      else do {
        pth \<leftarrow> entry_path l2 p e;
        let (l, w) = begin_op X t l2 w;
        let w = fsp_unlink (plug X) pth w;
        let (l, w) = end_op X t f 0 l w;
        (l, w) \<leftarrow> do_unbusy X e True False (- fse_open_cnt (fents l e)) l w;
        Some (FILEBENCH_OK, l, w) })"

lemma delete_start:
  assumes l: "finv off E ty p l" and X: "fileset_env X off E ty p" and fd: "fd_ok fd" "fd > 0" "fo_fdnumber (fop l f) = fd"
    and e: "tf_fse (thr l t) fd = e" "e \<in> E" "ty e = FSE_TYPE_FILE" "fse_flags (fents l e) AND FSE_BUSY = 0"
    and raw: "fsn_attrs (filesets (fb l) p) AND FILESET_IS_RAW_DEV = 0"
  shows "\<exists>l2. flowoplib_deletefile X t f l w = delete_held X t f p e (tf_fd (thr l t) fd) l2 w \<and> finv off E ty p l2
    \<and> tf_fd (thr l2 t) = tf_fd (thr l t) \<and> tf_fse (thr l2 t) fd = NULL \<and> fop l2 = fop l
    \<and> fse_open_cnt (fents l2 e) = fse_open_cnt (fents l e)"
proof -
  let ?l1 = "set_fse l t fd NULL"
  have p: "fse_fileset (fents l e) = p" "p \<noteq> NULL" "\<not> fs_pick_lock (fsets l p)" "in_home off E (at_fset l p)"
    using l e(2) by (auto simp: finv_def fs_inv_def)
  have n: "e \<noteq> NULL" using in_home_entry [OF p(4) e(2)] by simp
  have l1: "finv off E ty p ?l1" using l by (simp add: finv_def)
  have fb: "filesets (fb ?l1) = filesets (fb l)" by (simp add: set_fse_def upd_thr_def upd_tf_def)
  define l2 where "l2 = one_less_idle (put_fset ?l1 p (upd_ent (at_fset ?l1 p) e (set_flags (\<lambda>g. g OR FSE_BUSY)))) p"
  have g: "grab_entry X p e ?l1 w = Some (put_fset ?l1 p (upd_ent (at_fset ?l1 p) e (set_flags (\<lambda>g. g OR FSE_BUSY))), w)"
    by (subst grab_entry.simps) (simp add: p(3) e(4))
  have l2: "finv off E ty p l2" using grab_keeps [OF X l1 e(2,3) g] by (simp add: l2_def)
  have de: "deletefile_entry X f e p ?l1 w = Some (FILEBENCH_OK, e, l2, w)" unfolding deletefile_entry_def if_not_P [OF n] g l2_def by simp
  have frame: "tf_fd (thr l2 t) = tf_fd (thr l t)" "tf_fse (thr l2 t) fd = NULL" "fop l2 = fop l" by (simp_all add: l2_def)
  have "flowoplib_deletefile X t f l w = delete_held X t f p e (tf_fd (thr l t) fd) l2 w"
    unfolding flowoplib_deletefile_def delete_held_def Let_def fd(3) get_fse_def if_P [OF fd(1)] if_P [OF fd(2)] e(1) Option.bind_lunit if_P [OF n] set_fse_frame p(1)
    by (simp add: n p(2) de fb raw fd(2) frame(1) split del: if_split)
  moreover have "fse_open_cnt (fents l2 e) = fse_open_cnt (fents l e)" by (simp add: l2_def one_less_idle_def set_flags_def)
  ultimately show ?thesis using frame l2 by blast
qed

lemma delete_leaves:
  assumes l: "finv off E ty p l" and X: "fileset_env X off E ty p" and e: "e \<in> E"
    and r: "delete_held X t f p e d l w = Some (rc, l', w')"
  shows "rc = FILEBENCH_OK \<and> tf_fd (thr l' t) = tf_fd (thr l t) \<and> tf_fse (thr l' t) = tf_fse (thr l t)
    \<and> (\<forall>g. fo_fdnumber (fop l' g) = fo_fdnumber (fop l g))"
proof (cases "sint (fse_open_cnt (fents l e)) > (if sint (fd_num d) > 0 then 1 else 0)")
  case True
  from unbusy_runs [OF X l e, of False False 0 w] obtain s' where "do_unbusy X e False False 0 l w = Some (put_fset l p s', w)" by blast
  then have "rc = FILEBENCH_OK \<and> l' = put_fset l p s'" using r unfolding delete_held_def if_P [OF True] by simp
  then show ?thesis by simp
next
  case False
  note r = r [unfolded delete_held_def if_not_P [OF False]]
  obtain pth where pth: "entry_path l p e = Some pth" using r by (cases "entry_path l p e") (simp, blast)
  obtain l3 w3 where b: "begin_op X t l w = (l3, w3)" by fastforce
  obtain l4 w4 where en: "end_op X t f 0 l3 (fsp_unlink (plug X) pth w3) = (l4, w4)" by fastforce
  have same: "same_files t l l4" by (rule same_files_trans [OF begin_files [OF b] end_files [OF en]])
  have "finv off E ty p l4" by (rule same_files_finv [OF same l])
  from unbusy_runs [OF X this e, of True False "- fse_open_cnt (fents l4 e)" w4] obtain s' where
    "do_unbusy X e True False (- fse_open_cnt (fents l4 e)) l4 w4 = Some (put_fset l4 p s', w4)" by blast
  then have "rc = FILEBENCH_OK \<and> l' = put_fset l4 p s'" using r unfolding pth Option.bind_lunit Let_def b prod.case en
    by simp
  then show ?thesis using same by (simp add: same_files_def)
qed

text \<open>
  C23. Deleting the file of an open descriptor succeeds and forgets the entry of the descriptor, but not the descriptor: a flowop that
  then closes it follows a null pointer.
\<close>

theorem close_after_delete:
  assumes "finv off E ty p l" "fileset_env X off E ty p" "fsn_attrs (filesets (fb l) p) AND FILESET_IS_RAW_DEV = 0"
    and "fd_ok (fo_fdnumber (fop l f))" "fo_fdnumber (fop l f) > 0" "tf_fse (thr l t) (fo_fdnumber (fop l f)) = e" "e \<in> E" "ty e = FSE_TYPE_FILE"
    and "fse_flags (fents l e) AND FSE_BUSY = 0" "tf_fd (thr l t) (fo_fdnumber (fop l f)) \<noteq> 0"
    and "fo_call X Ldeletefile t f l w = Some (Inr (rc, l', w'))" "fo_fdnumber (fop l g) = fo_fdnumber (fop l f)"
  shows "rc = FILEBENCH_OK \<and> fo_call X Lclosefile t g l' w' = None"
proof -
  have "flowoplib_deletefile X t f l w = Some (rc, l', w')" using assms(11) by auto
  moreover obtain l2 where l2: "flowoplib_deletefile X t f l w = delete_held X t f p e (tf_fd (thr l t) (fo_fdnumber (fop l f))) l2 w"
    "finv off E ty p l2" "tf_fd (thr l2 t) = tf_fd (thr l t)" "tf_fse (thr l2 t) (fo_fdnumber (fop l f)) = NULL" "fop l2 = fop l"
    using delete_start [OF assms(1,2,4,5) refl assms(6-9,3)] by blast
  ultimately have "rc = FILEBENCH_OK" and l': "tf_fd (thr l' t) = tf_fd (thr l t)" "tf_fse (thr l' t) (fo_fdnumber (fop l f)) = NULL"
    "fo_fdnumber (fop l' g) = fo_fdnumber (fop l f)"
    using delete_leaves [OF l2(2) assms(2,7)] assms(12) by auto
  moreover have "fo_call X Lclosefile t g l' w' = None"
    by (rule close_null [of _ _ _ "tf_fd (thr l t) (fo_fdnumber (fop l f))"]) (use assms(4,10) l' in \<open>simp_all add: get_fd_def get_fse_def\<close>)
  ultimately show ?thesis by blast
qed

text \<open>In the example, the file is open five times, and is not deleted; the entry of the descriptor is forgotten all the same.\<close>

theorem close_after_delete_witness:
  "\<exists>l' w'. fo_call ex_lib Ldeletefile 200 100 ex_open [] = Some (Inr (FILEBENCH_OK, l', w')) \<and> fo_call ex_lib Lclosefile 200 100 l' w' = None"
proof -
  have x: "fo_fdnumber (fop ex_open 100) = 3" "tf_fse (thr ex_open 200) 3 = 64" "tf_fd (thr ex_open 200) 3 = 7" "fd_ok 3"
    "fse_open_cnt (fents ex_open 64) = 5" "fse_flags (fents ex_open 64) AND FSE_BUSY = 0"
    "fsn_attrs (filesets (fb ex_open) 8) AND FILESET_IS_RAW_DEV = 0"
    by (simp_all add: ex_open_def ex_have_def ex_fileset_def fop_def thr_def fd_ok_def ex_lfb_def zero_fsnode_def)
  obtain l2 where l2: "flowoplib_deletefile ex_lib 200 100 ex_open [] = delete_held ex_lib 200 100 8 64 7 l2 []"
    "finv 16 {64} (\<lambda>_. 0) 8 l2" "fse_open_cnt (fents l2 64) = 5"
    using delete_start [OF ex_open_inv ex_env x(4) _ x(1,2) _ _ x(6,7), of "[]"] x(3,5) by auto
  from unbusy_runs [OF ex_env l2(2), of 64 False False 0 "[]"] obtain s' where
    "do_unbusy ex_lib 64 False False 0 l2 [] = Some (put_fset l2 8 s', [])" by blast
  then have r: "fo_call ex_lib Ldeletefile 200 100 ex_open [] = Some (Inr (FILEBENCH_OK, put_fset l2 8 s', []))"
    using l2(3) by (simp add: l2(1) delete_held_def)
  from close_after_delete [OF ex_open_inv ex_env x(7) _ _ _ _ _ _ _ r refl] r x show ?thesis by (auto simp del: fo_call.simps)
qed

end
