(* ===== verification/FB_Fileops_Io.thy ===== *)
theory FB_Fileops_Io
  imports FB_Fileops_Correct FB_Flowop_Run
begin

text \<open>
  The descriptors that rotation chooses, and the sizes and counts of the transfers of \<^verbatim>\<open>src/filebench/flowop_library.c\<close>.
\<close>

subsection \<open>Rotating descriptors\<close>

lemma next_rotor_range: "0 \<le> r \<Longrightarrow> r \<le> 128 \<Longrightarrow> 0 \<le> next_rotor n r \<and> next_rotor n r < 128"
  by (auto simp: next_rotor_def Let_def)

lemma entries_eq: "n \<le> 64 \<Longrightarrow> 0 \<le> i \<Longrightarrow> i \<le> 128 \<Longrightarrow> n = word_of_int i \<longleftrightarrow> unat (n :: uint64) = nat i"
proof -
  assume n: "n \<le> 64" "0 \<le> i" "i \<le> 128"
  then have "take_bit 64 i = i" by (simp add: take_bit_int_eq_self)
  then have u: "uint (word_of_int i :: uint64) = i" by (simp add: uint_word_of_int_eq)
  have "n = word_of_int i \<longleftrightarrow> uint n = uint (word_of_int i :: uint64)" by (simp only: word_uint_eq_iff)
  also have "\<dots> \<longleftrightarrow> uint n = i" by (simp only: u)
  also have "\<dots> \<longleftrightarrow> int (unat n) = i" by simp
  finally show ?thesis using n(2) by linarith
qed

text \<open>After \<open>Suc k\<close> calls from the start.\<close>

lemma rotor_cycle:
  assumes "0 < n" "n \<le> (64 :: uint64)"
  shows "(next_rotor n ^^ Suc k) 0 = 127 - int (k mod unat n)"
proof (induction k)
  case 0
  have "n \<noteq> word_of_int 0" using assms(1) by auto
  then show ?case by (simp add: next_rotor_def Let_def)
next
  case (Suc k)
  let ?r = "127 - int (k mod unat n)"
  have u: "0 < unat n" "unat n \<le> 64" using assms by (simp_all add: word_le_nat_alt unat_gt_0 word_neq_0_conv)
  have m: "k mod unat n < unat n" using u(1) by simp
  have r: "?r \<noteq> 0" "k mod unat n \<noteq> 127" using m u by linarith+
  have "n = word_of_int (128 - ?r) \<longleftrightarrow> unat n = nat (128 - ?r)"
    by (rule entries_eq [OF assms(2)]) (use m u in linarith)+
  moreover have "nat (128 - ?r) = Suc (k mod unat n)" by simp
  ultimately have "n = word_of_int (128 - ?r) \<longleftrightarrow> unat n = Suc (k mod unat n)" by (simp only:)
  then have nx: "next_rotor n ?r = (if unat n = Suc (k mod unat n) then 127 else ?r - 1)"
    unfolding next_rotor_def Let_def if_not_P [OF r(1)] by simp
  have "(next_rotor n ^^ Suc (Suc k)) 0 = next_rotor n ?r" using Suc by simp
  also have "\<dots> = 127 - int (Suc k mod unat n)" unfolding nx by (simp add: mod_Suc)
  finally show ?case .
qed

text \<open>The descriptors that \<open>k\<close> calls choose, one after the other.\<close>

fun fdnums :: "ptr \<Rightarrow> ptr \<Rightarrow> nat \<Rightarrow> lstate \<Rightarrow> (int list \<times> lstate) option" where
  "fdnums t f 0 l = Some ([], l)"
| "fdnums t f (Suc k) l = do {
     (fds, l) \<leftarrow> fdnums t f k l;
     (fd, l) \<leftarrow> flowoplib_fdnum t f l;
     Some (fds @ [fd], l) }"

lemma upd_thr_simps [simp]:
  "fop (upd_thr l t g) = fop l" "fsets (upd_thr l t g) = fsets l" "get_bool_l (upd_thr l t g) = get_bool_l l" "thr (upd_thr l t g) t = g (thr l t)"
  by (simp_all add: upd_thr_def upd_tf_def fop_def thr_def get_bool_l_def fun_eq_iff)

lemma fdnum_rotating:
  assumes "fo_fdnumber (fop l f) \<le> 0" "get_bool_l l (fo_rotatefd (fop l f)) = Some b" "b \<noteq> 0"
    and "fo_fileset (fop l f) \<noteq> NULL" "fs_constentries (fsets l (fo_fileset (fop l f))) \<le> 64"
  shows "flowoplib_fdnum t f l = (let r = next_rotor (fs_constentries (fsets l (fo_fileset (fop l f)))) (tf_fdrotor (thr l t)) in
    Some (r, upd_thr l t (\<lambda>x. x\<lparr>tf_fdrotor := r\<rparr>)))"
proof -
  have "\<not> fs_constentries (fsets l (fo_fileset (fop l f))) > word_of_int (THREADFLOW_MAXFD div 2)" using assms(5) by simp
  then show ?thesis using assms(1-4) by (simp add: flowoplib_fdnum_def Let_def)
qed

text \<open>
  C21. A flowop that rotates descriptors over a fileset of at most 64 files uses one descriptor for every file, from the end of the
  table downwards, and then starts over: call \<open>j\<close> of a thread chooses \<open>127 - j mod entries\<close>. Wherever the rotor stands, and whatever other
  flowops have moved it, the choice lies inside the table and leaves the rotor inside. With more than 64 files no
  descriptor is chosen.
\<close>

theorem fdnum_rotation:
  assumes "fo_fdnumber (fop l f) \<le> 0" "get_bool_l l (fo_rotatefd (fop l f)) = Some b" "b \<noteq> 0" "fo_fileset (fop l f) \<noteq> NULL"
  defines "n \<equiv> fs_constentries (fsets l (fo_fileset (fop l f)))"
  shows "(0 < n \<and> n \<le> 64 \<and> tf_fdrotor (thr l t) = 0 \<longrightarrow>
      map_option fst (fdnums t f k l) = Some (map (\<lambda>j. 127 - int (j mod unat n)) [0..<k]))
    \<and> (n \<le> 64 \<and> 0 \<le> tf_fdrotor (thr l t) \<and> tf_fdrotor (thr l t) \<le> 128 \<longrightarrow>
      (\<exists>fd l'. flowoplib_fdnum t f l = Some (fd, l') \<and> 0 \<le> fd \<and> fd < 128 \<and> tf_fdrotor (thr l' t) = fd))
    \<and> (n > 64 \<longrightarrow> flowoplib_fdnum t f l = Some (FILEBENCH_ERROR, l))"
proof (intro conjI impI)
  assume h: "0 < n \<and> n \<le> 64 \<and> tf_fdrotor (thr l t) = 0"
  have "\<exists>l'. fdnums t f k l = Some (map (\<lambda>j. 127 - int (j mod unat n)) [0..<k], l') \<and> fop l' = fop l \<and> fsets l' = fsets l
    \<and> get_bool_l l' = get_bool_l l \<and> tf_fdrotor (thr l' t) = (next_rotor n ^^ k) 0"
  proof (induction k)
    case (Suc k)
    then obtain l' where l': "fdnums t f k l = Some (map (\<lambda>j. 127 - int (j mod unat n)) [0..<k], l')" "fop l' = fop l" "fsets l' = fsets l"
      "get_bool_l l' = get_bool_l l" "tf_fdrotor (thr l' t) = (next_rotor n ^^ k) 0" by blast
    have "flowoplib_fdnum t f l' = Some ((next_rotor n ^^ Suc k) 0, upd_thr l' t (\<lambda>x. x\<lparr>tf_fdrotor := (next_rotor n ^^ Suc k) 0\<rparr>))"
      using fdnum_rotating [of l' f b t] assms(1-4) h l'(2-5) by (simp add: n_def Let_def)
    then have "fdnums t f (Suc k) l = Some (map (\<lambda>j. 127 - int (j mod unat n)) [0..<Suc k], upd_thr l' t (\<lambda>x. x\<lparr>tf_fdrotor := (next_rotor n ^^ Suc k) 0\<rparr>))"
      using h by (simp add: l'(1) rotor_cycle del: funpow.simps)
    then show ?case using l'(2-4) by simp
  qed (use h in simp)
  then show "map_option fst (fdnums t f k l) = Some (map (\<lambda>j. 127 - int (j mod unat n)) [0..<k])" by auto
next
  assume "n \<le> 64 \<and> 0 \<le> tf_fdrotor (thr l t) \<and> tf_fdrotor (thr l t) \<le> 128"
  then show "\<exists>fd l'. flowoplib_fdnum t f l = Some (fd, l') \<and> 0 \<le> fd \<and> fd < 128 \<and> tf_fdrotor (thr l' t) = fd"
    using fdnum_rotating [OF assms(1-4), of t] next_rotor_range [of "tf_fdrotor (thr l t)" n] by (simp add: n_def Let_def)
next
  assume "n > 64"
  then show "flowoplib_fdnum t f l = Some (FILEBENCH_ERROR, l)"
    using assms(1-4) by (simp add: flowoplib_fdnum_def n_def Let_def)
qed

text \<open>An example: the fileset of three files at address 8, and flowop 100, which rotates.\<close>

definition ex_rot :: lstate where
  "ex_rot = ex_l\<lparr>fsets := (\<lambda>_. (fs ex_fileset)\<lparr>fs_constentries := 3\<rparr>),
     fb := ex_lfb\<lparr>flowops := (\<lambda>_. zero_flowop\<lparr>fo_fileset := 8, fo_rotatefd := 56\<rparr>),
       vs := ex_vshm\<lparr>avds := (\<lambda>_. \<lparr>avd_type = AVD_VAL_BOOL, avd_val = ABool 1\<rparr>)\<rparr>\<rparr>\<rparr>"

theorem fdnum_rotation_witness: "map_option fst (fdnums 200 100 7 ex_rot) = Some [127, 126, 125, 127, 126, 125, 127]"
proof -
  have h: "fo_fdnumber (fop ex_rot 100) \<le> 0" "get_bool_l ex_rot (fo_rotatefd (fop ex_rot 100)) = Some 1" "fo_fileset (fop ex_rot 100) = 8"
    "fs_constentries (fsets ex_rot 8) = 3" "tf_fdrotor (thr ex_rot 200) = 0"
    by (simp_all add: ex_rot_def fop_def thr_def zero_flowop_def ex_lfb_def ex_fb_def zero_threadflow_def get_bool_l_def avd_get_bool_def)
  have "map_option fst (fdnums 200 100 7 ex_rot) = Some (map (\<lambda>j. 127 - int (j mod unat (3 :: uint64))) [0..<7])"
    using fdnum_rotation [of ex_rot 100 1 200 7] h by simp
  then show ?thesis by (simp add: upt_rec)
qed

subsection \<open>Writing a whole file\<close>

text \<open>A size below \<open>2 ^ 31\<close> survives the cast to \<open>int\<close> and back.\<close>

lemma scast_ucast_small:
  fixes n :: uint64
  assumes "n < 2 ^ 31"
  shows "scast (ucast n :: uint32) = n"
proof -
  have u: "uint n < 2 ^ 31" using assms by (simp add: word_less_def)
  then have "take_bit 32 (uint n) = uint n" by (simp add: take_bit_int_eq_self)
  then have n: "uint (ucast n :: uint32) = uint n" by (simp add: unsigned_ucast_eq)
  have "sint (ucast n :: uint32) = signed_take_bit 31 (uint (ucast n :: uint32))" by (simp add: sint_uint)
  also have "\<dots> = uint n" unfolding n
    by (rule signed_take_bit_int_eq_self) (use u unsigned_greater_eq [of n, where 'a = int] in linarith)+
  finally have "sint (ucast n :: uint32) = uint n" .
  then have "word_of_int (sint (ucast n :: uint32)) = n" by simp
  then show ?thesis by simp
qed

text \<open>How many writes of \<open>io\<close> bytes cover \<open>n\<close> bytes.\<close>

definition writes :: "nat \<Rightarrow> nat \<Rightarrow> nat" where
  "writes n io = (n + io - 1) div io"

lemma writes_step: "0 < n \<Longrightarrow> 0 < io \<Longrightarrow> writes n io = Suc (writes (n - min n io) io)"
proof -
  assume h: "0 < n" "0 < io"
  show ?thesis
  proof (cases "n \<le> io")
    case True
    then have m: "n + io - 1 = (n - 1) + 1 * io" "n - 1 < io" using h by simp_all
    have "writes n io = ((n - 1) + 1 * io) div io" by (simp only: writes_def m(1))
    also have "\<dots> = 1" using m(2) h(2) by (simp only: div_mult_self1) simp
    finally have "writes n io = 1" .
    then show ?thesis using True h by (simp add: writes_def)
  next
    case False
    then have "n + io - 1 = (n - io + io - 1) + 1 * io" using h by simp
    then have "writes n io = Suc (writes (n - io) io)" unfolding writes_def using h by (simp only: div_mult_self1)
    then show ?thesis using False by simp
  qed
qed

lemma writes_0 [simp]: "0 < io \<Longrightarrow> writes 0 io = 0"
  by (simp add: writes_def)

lemma writes_cover: "0 < io \<Longrightarrow> n \<le> writes n io * min n io \<and> writes n io * min n io < n + io"
proof -
  assume io: "0 < io"
  have d: "writes n io * io + (n + io - 1) mod io = n + io - 1" by (simp add: writes_def)
  have m: "(n + io - 1) mod io < io" using io by simp
  show ?thesis
  proof (cases "0 < n \<and> n \<le> io")
    case True
    then have "writes n io = 1" using writes_step [of n io] io by simp
    then show ?thesis using True by simp
  next
    case False
    then have "n = 0 \<or> min n io = io" by auto
    moreover have "n = 0 \<or> n \<le> writes n io * io" "n = 0 \<or> writes n io * io < n + io" using d m by linarith+
    ultimately show ?thesis using io by auto
  qed
qed

text \<open>The rest of the loop: every write is as long as the first one.\<close>

lemma write_all_eq:
  fixes W io seek bytes :: uint64
  assumes wr: "\<And>n w. fsp_write V d iobuf n w = (ucast n, wr n w)" and io: "0 < io" "io < 2 ^ 31"
  shows "seek \<le> W \<Longrightarrow> seek < W \<longrightarrow> ws = ucast (min W io) \<Longrightarrow>
    write_all V d iobuf W io seek ws bytes w =
      (let n = writes (unat (W - seek)) (unat io) in Some (True, bytes + of_nat n * min W io, (wr (min W io) ^^ n) w))"
proof (induction "unat (W - seek)" arbitrary: seek ws bytes w rule: less_induct)
  case less
  have uio: "0 < unat io" using io(1) by (simp add: unat_gt_0 word_neq_0_conv)
  show ?case
  proof (cases "seek < W")
    case False
    then have "W - seek = 0" using less.prems(1) by simp
    with False uio show ?thesis by (subst write_all.simps) simp
  next
    case True
    let ?m = "min W io" and ?s = "min (W - seek) io"
    have small: "?m < 2 ^ 31" "?s < 2 ^ 31" using io(2) by (simp_all add: min_less_iff_disj)
    have ws: "ws = ucast ?m" using less.prems(2) True by simp
    have r: "unat (W - seek) = unat W - unat seek" using less.prems(1) by (simp add: unat_sub)
    have lt: "unat seek < unat W" using True by (simp add: word_less_nat_alt)
    have us: "unat ?s = min (unat W - unat seek) (unat io)" using r by (simp add: min_def word_le_nat_alt)
    have up: "unat (seek + ?s) = unat seek + unat ?s"
      by (rule unat_add_lem [THEN iffD1]) (use us lt unsigned_less [of W, where 'a = nat] in simp)
    have le: "seek + ?s \<le> W" using up us lt by (simp add: word_le_nat_alt)
    have rest: "unat (W - (seek + ?s)) = unat (W - seek) - min (unat (W - seek)) (unat io)"
      using le up us r by (simp add: unat_sub)
    have nx: "seek + ?s < W \<longrightarrow> ucast ?s = (ucast ?m :: uint32)"
    proof
      assume "seek + ?s < W"
      then have "unat seek + unat ?s < unat W" using up by (simp add: word_less_nat_alt)
      then have "unat ?s = unat io" "unat io \<le> unat W" using us by linarith+
      then have "?s = io" "?m = io" by (simp_all add: word_unat_eq_iff min_def word_le_nat_alt)
      then show "ucast ?s = (ucast ?m :: uint32)" by simp
    qed
    let ?n = "writes (unat (W - (seek + ?s))) (unat io)"
    have "0 < unat (W - seek)" using r lt by simp
    then have n: "writes (unat (W - seek)) (unat io) = Suc ?n" using writes_step uio rest by simp
    have dec: "unat (W - (seek + ?s)) < unat (W - seek)" using rest uio r lt by simp
    have "write_all V d iobuf W io seek ws bytes w =
        write_all V d iobuf W io (seek + ?s) (ucast ?s) (bytes + ?m) (wr ?m w)"
      by (subst write_all.simps) (simp add: True wr ws scast_ucast_small [OF small(1)] scast_ucast_small [OF small(2)] Let_def)
    also have "\<dots> = Some (True, bytes + ?m + of_nat ?n * ?m, (wr ?m ^^ ?n) (wr ?m w))"
      using less.hyps [OF dec le nx, of "bytes + ?m" "wr ?m w"] by (simp add: Let_def)
    finally show ?thesis unfolding n Let_def by (simp add: algebra_simps funpow_swap1)
  qed
qed

text \<open>
  C11. Writing a whole file whose writes complete writes blocks of one size, that of the I/O or of the file if the file is shorter, until the file is covered: a
  file whose size is no multiple of the I/O size becomes longer, by less than one block, and the bytes counted are those
  written. The I/O size is below \<open>2 ^ 31\<close>, the range of the \<^verbatim>\<open>int\<close> that holds it.
\<close>

theorem writewhole_rounds_up:
  fixes wss iosize :: fbint
  assumes "fd_ok (fo_srcfdnumber (fop l f))" "tf_fse (thr l t) (fo_srcfdnumber (fop l f)) = e" "fo_srcfdnumber (fop l f) = 0 \<or> e \<noteq> NULL"
    and "\<And>n w. fsp_write (plug X) d iobuf n w = (ucast n, wr n w)" "0 < iosize" "iosize < 2 ^ 31"
    and "begin_op X t l w = (l1, w1)"
  defines "W \<equiv> if e \<noteq> NULL then fse_size (fents l e) else wss"
  defines "n \<equiv> writes (unat W) (unat iosize)"
  shows "writewhole_body X t f iosize wss iobuf d l w =
      (let (l2, w2) = end_op X t f (of_nat n * min W iosize) l1 ((wr (min W iosize) ^^ n) w1) in Some (FILEBENCH_OK, l2, w2))
    \<and> unat W \<le> n * unat (min W iosize) \<and> n * unat (min W iosize) < unat W + unat iosize"
proof -
  have all: "write_all (plug X) d iobuf W iosize 0 (ucast (min W iosize)) 0 w1 =
      Some (True, of_nat n * min W iosize, (wr (min W iosize) ^^ n) w1)"
    using write_all_eq [OF assms(4,5,6), of 0 W "ucast (min W iosize)" 0 w1] by (simp add: n_def Let_def)
  have "0 < unat iosize" using assms(5) by (simp add: unat_gt_0 word_neq_0_conv)
  then have "unat W \<le> n * min (unat W) (unat iosize) \<and> n * min (unat W) (unat iosize) < unat W + unat iosize"
    unfolding n_def by (rule writes_cover)
  moreover have "unat (min W iosize) = min (unat W) (unat iosize)" by (simp add: min_def word_le_nat_alt)
  moreover have "writewhole_body X t f iosize wss iobuf d l w =
      (let (l2, w2) = end_op X t f (of_nat n * min W iosize) l1 ((wr (min W iosize) ^^ n) w1) in Some (FILEBENCH_OK, l2, w2))"
    using assms(1-3) by (auto simp: writewhole_body_def get_fse_def assms(7) all W_def [symmetric] Let_def)
  ultimately show ?thesis by simp
qed

theorem writewhole_rounds_up_witness:
  "\<exists>l'. writewhole_body ex_lib 200 100 2 5 4096 7 ex_l [] = Some (FILEBENCH_OK, l', [2, 2, 2])"
proof -
  have x: "fo_srcfdnumber (fop ex_l 100) = 0" "tf_fse (thr ex_l 200) 0 = NULL"
    by (simp_all add: ex_l_def ex_lfb_def ex_fb_def fop_def thr_def zero_flowop_def zero_threadflow_def)
  obtain l1 where b: "begin_op ex_lib 200 ex_l [] = (l1, [])"
    by (simp add: begin_op_def flowop_beginop_def ex_lib_def ex_mach_def)
  obtain l2 where e: "end_op ex_lib 200 100 6 l1 [2, 2, 2] = (l2, [2, 2, 2])"
    by (cases "end_op ex_lib 200 100 6 l1 [2, 2, 2]") (auto simp: end_op_def flowop_endop_def ex_lib_def ex_mach_def Let_def)
  have n: "writes 5 2 = 3" "min (5 :: fbint) 2 = 2" by (simp_all add: writes_def)
  have k: "((\<lambda>w. w @ [2 :: uint64]) ^^ 3) [] = [2, 2, 2]" by (simp add: numeral_3_eq_3)
  have "writewhole_body ex_lib 200 100 2 5 4096 7 ex_l [] =
    (let (l2, w2) = end_op ex_lib 200 100 (of_nat 3 * 2) l1 (((\<lambda>w. w @ [2]) ^^ 3) []) in Some (FILEBENCH_OK, l2, w2))"
    using writewhole_rounds_up [of ex_l 100 200 NULL ex_lib 7 4096 "\<lambda>n w. w @ [n]" 2 "[]" l1 "[]" 5] x b n by (simp add: fd_ok_def)
  then show ?thesis by (simp add: k e)
qed

subsection \<open>Failed transfers\<close>

lemma begin_op_fop: "begin_op X t l w = (l', w') \<Longrightarrow> fop l' = fop l"
  by (auto simp: begin_op_def flowop_beginop_def upd_tf_def fop_def fun_eq_iff split: prod.splits)

lemma end_op_counts:
  assumes "end_op X t f n l w = (l', w')"
  shows "fs_count (fo_stats (fop l' f)) = fs_count (fo_stats (fop l f)) + 1"
    "fs_bytes (fo_stats (fop l' f)) = fs_bytes (fo_stats (fop l f)) + n" "fo_fileset (fop l' f) = fo_fileset (fop l f)"
proof -
  obtain s w1 where e: "flowop_endop (clock (mach X)) (fb l) w t f n = (s, w1)" by fastforce
  then have l': "fb l' = s" using assms by (auto simp: end_op_def)
  note c = endop_counts(1,2) [of "clock (mach X)" "fb l" w t f n, unfolded e fst_conv]
  show "fs_count (fo_stats (fop l' f)) = fs_count (fo_stats (fop l f)) + 1"
    "fs_bytes (fo_stats (fop l' f)) = fs_bytes (fo_stats (fop l f)) + n" using c by (simp_all add: fop_def l')
  have "fo_fileset (flowops s f) = fo_fileset (flowops (fb l) f)"
    using arg_cong [OF e, of fst] by (auto simp: flowop_endop_def upd_stats_def upd_fo_def upd_tf_def Let_def split: prod.splits)
  then show "fo_fileset (fop l' f) = fo_fileset (fop l f)" by (simp add: fop_def l')
qed

text \<open>
  C39. A failed transfer is counted all the same, and not as what it was: a failed sequential read counts as two operations, and
  a failed append takes one byte away from the bytes written. The flowop returns an error in both cases.
\<close>

theorem failed_transfers_counted:
  assumes "fo_fileset (fop l f) \<noteq> NULL" "get_bool_l l (fo_random (fop l f)) = Some 0" "\<And>n w. fst (fsp_read (plug X) d iobuf n w) = -1"
    and "\<And>n w. fst (fsp_write (plug X) d iobuf n w) = -1" "iosize \<noteq> -1"
  shows "(\<exists>l' w'. read_body X t f iosize wss iobuf d l w = Some (FILEBENCH_ERROR, l', w')
      \<and> fs_count (fo_stats (fop l' f)) = fs_count (fo_stats (fop l f)) + 2 \<and> fs_bytes (fo_stats (fop l' f)) = fs_bytes (fo_stats (fop l f)))
    \<and> (\<exists>l' w'. append_body X t f iosize wss iobuf d l w = Some (FILEBENCH_ERROR, l', w')
      \<and> fs_count (fo_stats (fop l' f)) = fs_count (fo_stats (fop l f)) + 1 \<and> fs_bytes (fo_stats (fop l' f)) = fs_bytes (fo_stats (fop l f)) - 1)"
proof (intro conjI)
  obtain l1 w1 where b: "begin_op X t l w = (l1, w1)" by fastforce
  note l1 = begin_op_fop [OF b]
  show "\<exists>l' w'. read_body X t f iosize wss iobuf d l w = Some (FILEBENCH_ERROR, l', w')
      \<and> fs_count (fo_stats (fop l' f)) = fs_count (fo_stats (fop l f)) + 2 \<and> fs_bytes (fo_stats (fop l' f)) = fs_bytes (fo_stats (fop l f))"
  proof -
    obtain w2 where r: "fsp_read (plug X) d iobuf iosize w1 = (-1, w2)" using assms(3) [of iosize w1] by (metis prod.collapse)
    obtain l2 w3 where e: "end_op X t f 0 l1 w2 = (l2, w3)" by fastforce
    obtain l3 w4 where e2: "end_op X t f 0 l2 w3 = (l3, w4)" by fastforce
    note c = end_op_counts [OF e] end_op_counts [OF e2]
    have "read_body X t f iosize wss iobuf d l w = Some (FILEBENCH_ERROR, l3, w4)"
      using assms(1) c(3) by (simp add: read_body_def end_read_def assms(2) b r e e2 l1 Let_def)
    then show ?thesis using c by (simp add: l1)
  qed
  show "\<exists>l' w'. append_body X t f iosize wss iobuf d l w = Some (FILEBENCH_ERROR, l', w')
      \<and> fs_count (fo_stats (fop l' f)) = fs_count (fo_stats (fop l f)) + 1 \<and> fs_bytes (fo_stats (fop l' f)) = fs_bytes (fo_stats (fop l f)) - 1"
  proof -
    obtain w2 where r: "fsp_write (plug X) d iobuf iosize (fsp_lseek (plug X) d 0 SEEK_END w1) = (-1, w2)"
      using assms(4) [of iosize "fsp_lseek (plug X) d 0 SEEK_END w1"] by (metis prod.collapse)
    obtain l2 w3 where e: "end_op X t f (-1) l1 w2 = (l2, w3)" by fastforce
    have "append_body X t f iosize wss iobuf d l w = Some (FILEBENCH_ERROR, l2, w3)"
      using assms(5) by (simp add: append_body_def b r e Let_def)
    then show ?thesis using end_op_counts [OF e] by (simp add: l1)
  qed
qed

definition ex_failing :: "uint64 list lib" where
  "ex_failing = ex_lib\<lparr>plug := ex_plug\<lparr>fsp_read := (\<lambda>_ _ _ w. (-1, w)), fsp_write := (\<lambda>_ _ _ w. (-1, w))\<rparr>\<rparr>"

theorem failed_transfers_counted_witness:
  "\<exists>l' w'. read_body ex_failing 200 100 4096 8192 4096 7 ex_rot [] = Some (FILEBENCH_ERROR, l', w') \<and> fs_count (fo_stats (fop l' 100)) = 2"
proof -
  have x: "fo_fileset (fop ex_rot 100) \<noteq> NULL" "fs_count (fo_stats (fop ex_rot 100)) = 0"
    "get_bool_l ex_rot (fo_random (fop ex_rot 100)) = Some 0"
    by (simp_all add: ex_rot_def fop_def zero_flowop_def zero_stats_def get_bool_l_def avd_get_bool_def)
  have "(4096 :: fbint) \<noteq> -1" by simp
  with failed_transfers_counted [OF x(1,3), of ex_failing 7 4096 4096 200 8192 "[]"] x(2) show ?thesis
    by (auto simp: ex_failing_def)
qed

end
