(* ===== verification/FB_Aio.thy ===== *)
theory FB_Aio
  imports FB_Fileops
begin

text \<open>
  The asynchronous writes of \<^verbatim>\<open>src/filebench/fb_localfs.c\<close>: each thread has a list of the requests it has issued, with an element
  for every request. The flowop \<open>aiowrite\<close> issues a request and \<open>aiowait\<close> takes the completed ones from the list. The
  branch of \<open>aiowait\<close> for systems without \<^verbatim>\<open>aio_waitn\<close> is modelled. The POSIX calls are parameters: issuing a request with
  its control block, its error state, and its result.
\<close>

abbreviation (input) MAXREAP :: int where "MAXREAP \<equiv> 4096"
abbreviation (input) EINPROGRESS :: uint32 where "EINPROGRESS \<equiv> 115"
abbreviation (input) INT_MAX :: int where "INT_MAX \<equiv> 2147483647"

text \<open>What \<open>al_type\<close> says of a request, and the fields of the control block that the code fills.\<close>

datatype al_kind = AL_READ | AL_WRITE

record aiocb64 =
  aio_fildes :: uint32
  aio_buf :: ptr
  aio_nbytes :: uint64
  aio_offset :: uint64
  aio_reqprio :: int

record aiolist =
  al_type :: al_kind
  al_next :: ptr
  al_aiocb :: aiocb64

text \<open>The state: what the other flowops work on, the elements, and the head of the list of every thread.\<close>

record astate =
  lst :: lstate
  aios :: "ptr \<Rightarrow> aiolist"
  tf_aiolist :: "ptr \<Rightarrow> ptr"

text \<open>
  The calls; \<open>aio_write\<close> says whether the request was taken. The control block is identified by its address,
  24 bytes into its element; the size of an element depends on the system.
\<close>

record 'w aiocalls =
  aio_write :: "ptr \<Rightarrow> aiocb64 \<Rightarrow> 'w \<Rightarrow> bool \<times> 'w"
  aio_error :: "ptr \<Rightarrow> 'w \<Rightarrow> uint32 \<times> 'w"
  aio_return :: "ptr \<Rightarrow> 'w \<Rightarrow> uint64 \<times> 'w"
  sizeof_aiolist :: uint64

abbreviation (input) aiocb_of :: "ptr \<Rightarrow> ptr" where "aiocb_of e \<equiv> e + 24"

definition upd_aio :: "astate \<Rightarrow> ptr \<Rightarrow> (aiolist \<Rightarrow> aiolist) \<Rightarrow> astate" where
  "upd_aio a e g = a\<lparr>aios := (aios a)(e := g (aios a e))\<rparr>"

text \<open>The thread that a flowop belongs to; it is followed.\<close>

definition aio_thread :: "astate \<Rightarrow> ptr \<Rightarrow> ptr option" where
  "aio_thread a f = (let t = fo_thread (fop (lst a) f) in if t = NULL then None else Some t)"

subsection \<open>The list\<close>

text \<open>A new element in front; without memory the program ends.\<close>

definition aio_allocate :: "'w lib \<Rightarrow> 'w aiocalls \<Rightarrow> ptr \<Rightarrow> astate \<Rightarrow> 'w \<Rightarrow> (int + ptr \<times> astate \<times> 'w) option" where
  "aio_allocate X A f a w =
     (let (e, w) = os_malloc X (sizeof_aiolist A) w in
      if e = NULL then Some (Inl 1)
      else do {
        t \<leftarrow> aio_thread a f;
        let a = (if tf_aiolist a t = NULL
                 then upd_aio (a\<lparr>tf_aiolist := (tf_aiolist a)(t := e)\<rparr>) e (\<lambda>x. x\<lparr>al_next := NULL\<rparr>)
                 else (upd_aio a e (\<lambda>x. x\<lparr>al_next := tf_aiolist a t\<rparr>))\<lparr>tf_aiolist := (tf_aiolist a)(t := e)\<rparr>);
        Some (Inr (e, a, w)) })"

text \<open>The element with the control block and the one before it; \<open>None\<close> inside if there is none.\<close>

partial_function (option) aio_find :: "(ptr \<Rightarrow> ptr) \<Rightarrow> ptr \<Rightarrow> ptr \<Rightarrow> ptr \<Rightarrow> (ptr \<times> ptr) option option" where
  "aio_find nxt aiocb previous e =
     (if e = NULL then Some None
      else if aiocb = aiocb_of e then Some (Some (previous, e))
      else aio_find nxt aiocb e (nxt e))"

definition aio_deallocate :: "ptr \<Rightarrow> ptr \<Rightarrow> astate \<Rightarrow> (int \<times> astate) option" where
  "aio_deallocate f aiocb a = do {
     t \<leftarrow> aio_thread a f;
     if aiocb = NULL then Some (FILEBENCH_OK, a)
     else do {
       found \<leftarrow> aio_find (\<lambda>e. al_next (aios a e)) aiocb NULL (tf_aiolist a t);
       case found of
         None \<Rightarrow> Some (FILEBENCH_ERROR, a)
       | Some (previous, match) \<Rightarrow>
           Some (FILEBENCH_OK,
             if previous \<noteq> NULL then upd_aio a previous (\<lambda>x. x\<lparr>al_next := al_next (aios a match)\<rparr>)
             else a\<lparr>tf_aiolist := (tf_aiolist a)(t := al_next (aios a match))\<rparr>) } }"

subsection \<open>Writing\<close>

definition aio_issue :: "'w lib \<Rightarrow> 'w aiocalls \<Rightarrow> ptr \<Rightarrow> ptr \<Rightarrow> aiocb64 \<Rightarrow> uint64 \<Rightarrow> astate \<Rightarrow> 'w \<Rightarrow> (int + int \<times> astate \<times> 'w) option" where
  "aio_issue X A t f aiocb iosize a w = do {
     r \<leftarrow> aio_allocate X A f a w;
     case r of
       Inl e \<Rightarrow> Some (Inl e)
     | Inr (e, a, w) \<Rightarrow>
         let a = upd_aio a e (\<lambda>x. x\<lparr>al_type := AL_WRITE, al_aiocb := aiocb\<rparr>);
             (l, w) = begin_op X t (lst a) w;
             (good, w) = aio_write A (aiocb_of e) aiocb w in
         if \<not> good then Some (Inl 1)
         else let (l, w) = end_op X t f iosize l w in Some (Inr (FILEBENCH_OK, a\<lparr>lst := l\<rparr>, w)) }"

definition fb_lfsflow_aiowrite :: "'w lib \<Rightarrow> 'w aiocalls \<Rightarrow> ptr \<Rightarrow> ptr \<Rightarrow> astate \<Rightarrow> 'w \<Rightarrow> (int + int \<times> astate \<times> 'w) option" where
  "fb_lfsflow_aiowrite X A t f a w = do {
     (iosize, w) \<leftarrow> get_int_l X (lst a) (fo_iosize (fop (lst a) f)) w;
     r \<leftarrow> flowoplib_iosetup X t f iosize (lst a) w;
     case r of
       Inl e \<Rightarrow> Some (Inl e)
     | Inr (ret, wss, iobuf, fd, l, w) \<Rightarrow>
         if ret \<noteq> FILEBENCH_OK then Some (Inr (ret, a\<lparr>lst := l\<rparr>, w))
         else do {
           random \<leftarrow> get_bool_l l (fo_random (fop l f));
           if random \<noteq> 0 then do {
             (fileoffset, rc, w) \<leftarrow> draw X wss iosize l w;
             if rc = -1 then Some (Inr (FILEBENCH_ERROR, a\<lparr>lst := l\<rparr>, w))
             else aio_issue X A t f \<lparr>aio_fildes = fd_num (tf_fd (thr l t) fd), aio_buf = iobuf, aio_nbytes = iosize,
               aio_offset = fileoffset, aio_reqprio = 0\<rparr> iosize (a\<lparr>lst := l\<rparr>) w }
           else Some (Inr (FILEBENCH_ERROR, a\<lparr>lst := l\<rparr>, w)) } }"

subsection \<open>Waiting\<close>

text \<open>The length of the list, in an \<open>int\<close>: more elements than it can count are undefined behaviour.\<close>

partial_function (option) aio_count :: "(ptr \<Rightarrow> ptr) \<Rightarrow> ptr \<Rightarrow> int \<Rightarrow> int option" where
  "aio_count nxt e n = (if e = NULL then Some n else if n = INT_MAX then None else aio_count nxt (nxt e) (n + 1))"

text \<open>
  One pass over the list. The condition of the loop is a comma expression: its first part, which would stop at \<open>todo\<close>
  requests, has no effect. The result says whether the pass came to the end, with the number completed.
\<close>

partial_function (option) aio_pass :: "'w aiocalls \<Rightarrow> ptr \<Rightarrow> ptr \<Rightarrow> int \<Rightarrow> astate \<Rightarrow> 'w \<Rightarrow> (bool \<times> int \<times> astate \<times> 'w) option" where
  "aio_pass A f e n a w =
     (if e = NULL then Some (True, n, a, w)
      else let (result, w) = aio_error A (aiocb_of e) w in
        if result = EINPROGRESS then aio_pass A f (al_next (aios a e)) n a w
        else let (ret, w) = aio_return A (aiocb_of e) w in
          if ret = -1 \<or> result \<noteq> 0 then aio_pass A f (al_next (aios a e)) n a w
          else do {
            (rc, a) \<leftarrow> aio_deallocate f (aiocb_of e) a;
            if rc < 0 then Some (False, n + 1, a, w) else aio_pass A f (al_next (aios a e)) (n + 1) a w })"

partial_function (option) aio_reap :: "'w lib \<Rightarrow> 'w aiocalls \<Rightarrow> ptr \<Rightarrow> ptr \<Rightarrow> int \<Rightarrow> astate \<Rightarrow> 'w \<Rightarrow> (int \<times> astate \<times> 'w) option" where
  "aio_reap X A t f uncompleted a w = do {
     let (l, w) = begin_op X t (lst a) w;
     thread \<leftarrow> aio_thread (a\<lparr>lst := l\<rparr>) f;
     (good, ncompleted, a, w) \<leftarrow> aio_pass A f (tf_aiolist a thread) 0 (a\<lparr>lst := l\<rparr>) w;
     if good \<and> uncompleted - ncompleted > MAXREAP then aio_reap X A t f (uncompleted - ncompleted) a w
     else
       let (l, w) = end_op X t f 0 (lst a) w in
       Some (if good then FILEBENCH_OK else FILEBENCH_ERROR, a\<lparr>lst := l\<rparr>, w) }"

definition fb_lfsflow_aiowait :: "'w lib \<Rightarrow> 'w aiocalls \<Rightarrow> ptr \<Rightarrow> ptr \<Rightarrow> astate \<Rightarrow> 'w \<Rightarrow> (int \<times> astate \<times> 'w) option" where
  "fb_lfsflow_aiowait X A t f a w = do {
     thread \<leftarrow> aio_thread a f;
     uncompleted \<leftarrow> aio_count (\<lambda>e. al_next (aios a e)) (tf_aiolist a thread) 0;
     aio_reap X A t f uncompleted a w }"

subsection \<open>Registering the flowops\<close>

text \<open>The functions of the table, with those that every generic flowop has, are addresses.\<close>

definition fb_lfsflow_funcs :: "ptr \<Rightarrow> ptr \<Rightarrow> ptr \<Rightarrow> ptr \<Rightarrow> proto list" where
  "fb_lfsflow_funcs init_generic destruct_generic aiowrite aiowait =
     [\<lparr>fl_type = FLOW_TYPE_AIO, fl_attrs = FLOW_ATTR_WRITE, fl_name = ''aiowrite'', fl_init = Lib init_generic, fl_func = Lib aiowrite,
       fl_destruct = Lib destruct_generic\<rparr>,
      \<lparr>fl_type = FLOW_TYPE_AIO, fl_attrs = 0, fl_name = ''aiowait'', fl_init = Lib init_generic, fl_func = Lib aiowait,
       fl_destruct = Lib destruct_generic\<rparr>]"

definition fb_lfs_flowinit :: "layout \<Rightarrow> proto list \<Rightarrow> 'w syscalls \<Rightarrow> 'w lib \<Rightarrow> fbstate \<Rightarrow> (int + 'w lib \<times> fbstate) option" where
  "fb_lfs_flowinit L funcs Y X s = do {
     let X = X\<lparr>plug := fb_lfs_funcs Y\<rparr>;
     r \<leftarrow> flowop_flow_init L s funcs;
     Some (case r of Inl e \<Rightarrow> Inl e | Inr s \<Rightarrow> Inr (X, s)) }"

end
