(* ===== verification/FB_Aio_Correct.thy ===== *)
theory FB_Aio_Correct
  imports FB_Aio FB_Fileops_Inv
begin

text \<open>
  The list of asynchronous requests: what issuing a request and waiting do to it, and when waiting ends.
\<close>

subsection \<open>The list of a thread\<close>

definition aio_list :: "astate \<Rightarrow> ptr \<Rightarrow> ptr list \<Rightarrow> bool" where
  "aio_list a t xs \<longleftrightarrow> chain (\<lambda>e. al_next (aios a e)) (tf_aiolist a t) xs"

lemma aio_find_eq:
  "chain nxt p (xs @ y # ys) \<Longrightarrow> aio_find nxt (aiocb_of y) previous p = Some (Some (if xs = [] then previous else last xs, y))"
proof (induction xs arbitrary: p previous)
  case Nil
  then show ?case by (subst aio_find.simps) simp
next
  case (Cons x xs)
  then have "x \<noteq> y" using chain_distinct [of nxt p "x # xs @ y # ys"] by auto
  then show ?case using Cons by (subst aio_find.simps) auto
qed

lemma upd_aio_next: "(\<lambda>e. al_next (aios (upd_aio a x (\<lambda>y. y\<lparr>al_next := q\<rparr>)) e)) = (\<lambda>e. al_next (aios a e))(x := q)"
  by (simp add: upd_aio_def fun_eq_iff)

text \<open>Taking an element out leaves its own link as it is.\<close>

lemma aio_deallocate_eq:
  assumes "aio_list a t (xs @ y # ys)" "aio_thread a f = Some t" "aiocb_of y \<noteq> NULL"
  shows "\<exists>a'. aio_deallocate f (aiocb_of y) a = Some (FILEBENCH_OK, a') \<and> aio_list a' t (xs @ ys) \<and> lst a' = lst a
    \<and> al_next (aios a' y) = al_next (aios a y)"
proof -
  let ?nxt = "\<lambda>e. al_next (aios a e)"
  have c: "chain ?nxt (tf_aiolist a t) (xs @ y # ys)" using assms(1) by (simp add: aio_list_def)
  note found = aio_find_eq [OF c, of NULL]
  show ?thesis
  proof (cases xs rule: rev_cases)
    case Nil
    then show ?thesis using c found assms(2,3) by (simp add: aio_deallocate_def aio_list_def)
  next
    case (snoc us p)
    have d: "p \<noteq> NULL" "p \<noteq> y" using chain_not_NULL [OF c] chain_distinct [OF c] by (auto simp: snoc)
    let ?a = "upd_aio a p (\<lambda>x. x\<lparr>al_next := al_next (aios a y)\<rparr>)"
    have "chain (?nxt(p := ?nxt y)) (tf_aiolist a t) (us @ p # ys)" by (rule chain_take_out) (use c snoc in simp)
    then have "aio_list ?a t (xs @ ys)" unfolding aio_list_def upd_aio_next by (simp add: snoc upd_aio_def)
    moreover have "aio_deallocate f (aiocb_of y) a = Some (FILEBENCH_OK, ?a)"
      using found assms(2,3) d(1) by (simp add: aio_deallocate_def snoc)
    ultimately show ?thesis using d(2) by (auto simp: upd_aio_def)
  qed
qed

subsection \<open>One pass\<close>

text \<open>
  While the states of the requests stay as they are, \<open>st\<close> and \<open>rt\<close>, those that have been written are taken from the list. The others stay,
  whether they are in progress or have failed.
\<close>

definition aio_done :: "(ptr \<Rightarrow> uint32) \<Rightarrow> (ptr \<Rightarrow> uint64) \<Rightarrow> ptr \<Rightarrow> bool" where
  "aio_done st rt e \<longleftrightarrow> st e = 0 \<and> rt e \<noteq> -1"

definition aio_states :: "'w aiocalls \<Rightarrow> (ptr \<Rightarrow> uint32) \<Rightarrow> (ptr \<Rightarrow> uint64) \<Rightarrow> ptr list \<Rightarrow> bool" where
  "aio_states A st rt xs \<longleftrightarrow>
     (\<forall>e \<in> set xs. aiocb_of e \<noteq> NULL \<and> (\<forall>w. fst (aio_error A (aiocb_of e) w) = st e \<and> fst (aio_return A (aiocb_of e) w) = rt e))"

definition head :: "ptr list \<Rightarrow> ptr" where
  "head ys = (case ys of [] \<Rightarrow> NULL | y # _ \<Rightarrow> y)"

lemma chain_head: "chain nxt p ys \<Longrightarrow> p = head ys"
  by (cases ys) (auto simp: head_def)

lemma aio_pass_eq:
  assumes "aio_states A st rt ys" "aio_list a t (xs @ ys)" "aio_thread a f = Some t" "e = head ys"
  shows "\<exists>a' w'. aio_pass A f e n a w = Some (True, n + int (length (filter (aio_done st rt) ys)), a', w')
    \<and> aio_list a' t (xs @ filter (\<lambda>e. \<not> aio_done st rt e) ys) \<and> lst a' = lst a"
  using assms
proof (induction ys arbitrary: xs a e n w)
  case Nil
  then show ?case by (subst aio_pass.simps) (simp add: head_def)
next
  case (Cons y ys)
  have e: "e = y" using Cons.prems(4) by (simp add: head_def)
  have c: "chain (\<lambda>e. al_next (aios a e)) (tf_aiolist a t) (xs @ y # ys)" using Cons.prems(2) by (simp add: aio_list_def)
  have y: "y \<noteq> NULL" using chain_not_NULL [OF c] by auto
  have nx: "al_next (aios a y) = head ys" using chain_head [OF chain_link [OF c]] .
  have S: "aio_states A st rt ys" "aiocb_of y \<noteq> NULL" "\<And>w. fst (aio_error A (aiocb_of y) w) = st y" "\<And>w. fst (aio_return A (aiocb_of y) w) = rt y"
    using Cons.prems(1) by (simp_all add: aio_states_def)
  obtain w1 where er: "aio_error A (aiocb_of y) w = (st y, w1)" using S(3) [of w] by (metis prod.collapse)
  obtain w2 where re: "aio_return A (aiocb_of y) w1 = (rt y, w2)" using S(4) [of w1] by (metis prod.collapse)
  show ?case
  proof (cases "aio_done st rt y")
    case True
    obtain a1 where a1: "aio_deallocate f (aiocb_of y) a = Some (FILEBENCH_OK, a1)" "aio_list a1 t (xs @ ys)" "lst a1 = lst a"
      "al_next (aios a1 y) = al_next (aios a y)"
      using aio_deallocate_eq [OF Cons.prems(2,3) S(2)] by blast
    have "aio_pass A f e n a w = aio_pass A f (head ys) (n + 1) a1 w2"
      using True y by (subst aio_pass.simps) (simp add: e er re a1(1,4) nx aio_done_def)
    moreover have "aio_thread a1 f = Some t" using Cons.prems(3) a1(3) by (simp add: aio_thread_def)
    ultimately show ?thesis using Cons.IH [OF S(1) a1(2) _ refl, of "n + 1" w2] True a1(3) by (simp add: algebra_simps)
  next
    case False
    have "\<exists>w3. aio_pass A f e n a w = aio_pass A f (head ys) n a w3"
      using False y by (subst aio_pass.simps) (auto simp: e er re nx aio_done_def)
    moreover have "aio_list a t ((xs @ [y]) @ ys)" using Cons.prems(2) by simp
    ultimately show ?thesis using Cons.IH [OF S(1) _ Cons.prems(3) refl, of "xs @ [y]" n] False by fastforce
  qed
qed

lemma aio_count_eq: "chain nxt p xs \<Longrightarrow> 0 \<le> n \<Longrightarrow> n + int (length xs) \<le> INT_MAX \<Longrightarrow> aio_count nxt p n = Some (n + int (length xs))"
proof (induction xs arbitrary: p n)
  case Nil
  then show ?case by (subst aio_count.simps) simp
next
  case (Cons x xs)
  then show ?case using Cons.IH [of "nxt x" "n + 1"] by (subst aio_count.simps) auto
qed

subsection \<open>Waiting\<close>

lemma begin_keeps_fop: "begin_op X t l w = (l', w') \<Longrightarrow> fop l' = fop l"
  by (auto simp: begin_op_def flowop_beginop_def upd_tf_def fop_def fun_eq_iff split: prod.splits)

text \<open>A pass of the loop, with the mark that begins it.\<close>

lemma aio_reap_pass:
  assumes "aio_states A st rt xs" "aio_list a t xs" "aio_thread a f = Some t"
  defines "rest \<equiv> filter (\<lambda>e. \<not> aio_done st rt e) xs"
  shows "\<exists>l1 w1 a' w'. begin_op X tf (lst a) w = (l1, w1) \<and> aio_thread (a\<lparr>lst := l1\<rparr>) f = Some t
    \<and> aio_pass A f (tf_aiolist a t) 0 (a\<lparr>lst := l1\<rparr>) w1 = Some (True, int (length xs) - int (length rest), a', w')
    \<and> aio_list a' t rest \<and> aio_thread a' f = Some t"
proof -
  obtain l1 w1 where b: "begin_op X tf (lst a) w = (l1, w1)" by fastforce
  let ?a = "a\<lparr>lst := l1\<rparr>"
  have t: "aio_thread ?a f = Some t" using assms(3) begin_keeps_fop [OF b] by (simp add: aio_thread_def)
  have l: "aio_list ?a t ([] @ xs)" using assms(2) by (simp add: aio_list_def)
  have h: "tf_aiolist a t = head xs" using assms(2) by (auto simp: aio_list_def dest: chain_head)
  obtain a' w' where r: "aio_pass A f (head xs) 0 ?a w1 = Some (True, 0 + int (length (filter (aio_done st rt) xs)), a', w')"
    "aio_list a' t ([] @ rest)" "lst a' = lst ?a"
    using aio_pass_eq [OF assms(1) l t refl, of 0 w1] unfolding rest_def by blast
  have "length (filter (aio_done st rt) xs) + length rest = length xs" unfolding rest_def by (rule sum_length_filter_compl)
  then have "0 + int (length (filter (aio_done st rt) xs)) = int (length xs) - int (length rest)" by linarith
  moreover have "aio_thread a' f = Some t" using t r(3) by (simp add: aio_thread_def)
  ultimately show ?thesis using b t r(1,2) h by auto
qed

lemma aio_reap_step:
  assumes "aio_states A st rt xs" "aio_list a t xs" "aio_thread a f = Some t"
  defines "rest \<equiv> filter (\<lambda>e. \<not> aio_done st rt e) xs"
  shows "\<exists>a' w'. aio_list a' t rest \<and> aio_thread a' f = Some t \<and> aio_reap X A tf f (int (length xs)) a w =
    (if int (length rest) > MAXREAP then aio_reap X A tf f (int (length rest)) a' w'
     else let (l, w) = end_op X tf f 0 (lst a') w' in Some (FILEBENCH_OK, a'\<lparr>lst := l\<rparr>, w))"
proof -
  obtain l1 w1 a' w' where p: "begin_op X tf (lst a) w = (l1, w1)" "aio_thread (a\<lparr>lst := l1\<rparr>) f = Some t"
    "aio_pass A f (tf_aiolist a t) 0 (a\<lparr>lst := l1\<rparr>) w1 = Some (True, int (length xs) - int (length rest), a', w')"
    "aio_list a' t rest" "aio_thread a' f = Some t"
    using aio_reap_pass [OF assms(1-3), of X tf w] unfolding rest_def by blast
  have "aio_reap X A tf f (int (length xs)) a w =
    (if int (length rest) > MAXREAP then aio_reap X A tf f (int (length rest)) a' w'
     else let (l, w) = end_op X tf f 0 (lst a') w' in Some (FILEBENCH_OK, a'\<lparr>lst := l\<rparr>, w))"
    by (subst aio_reap.simps) (simp add: p(1-3) Let_def)
  with p(4,5) show ?thesis by blast
qed

text \<open>With more than \<open>MAXREAP\<close> requests that do not complete the loop does not end.\<close>

lemma aio_reap_endless:
  assumes "aio_states A st rt xs" "aio_list a t xs" "aio_thread a f = Some t" "\<forall>e \<in> set xs. \<not> aio_done st rt e" "int (length xs) > MAXREAP"
  shows "aio_reap X A tf f (int (length xs)) a w = None"
proof (rule ccontr)
  let ?Q = "\<lambda>Y B tf g u a w (r :: int \<times> astate \<times> 'a). \<not> (Y = X \<and> B = A \<and> g = f \<and> u = int (length xs) \<and> aio_list a t xs \<and> aio_thread a f = Some t)"
  assume "aio_reap X A tf f (int (length xs)) a w \<noteq> None"
  then obtain r where r: "aio_reap X A tf f (int (length xs)) a w = Some r" by blast
  have "?Q X A tf f (int (length xs)) a w r"
  proof (rule aio_reap.raw_induct [where P = ?Q, OF _ r], rule notI, elim conjE)
    fix rp :: "'a lib \<Rightarrow> 'a aiocalls \<Rightarrow> ptr \<Rightarrow> ptr \<Rightarrow> int \<Rightarrow> astate \<Rightarrow> 'a \<Rightarrow> (int \<times> astate \<times> 'a) option"
      and Y B tf g u and a :: astate and w :: 'a and r :: "int \<times> astate \<times> 'a"
    assume IH: "\<And>Y B tf g u a w r. rp Y B tf g u a w = Some r \<Longrightarrow> ?Q Y B tf g u a w r"
      and [simp]: "Y = X" "B = A" "g = f" "u = int (length xs)" and l: "aio_list a t xs" "aio_thread a f = Some t"
    assume b: "(do {
     let (l, w) = begin_op Y tf (lst a) w;
     thread \<leftarrow> aio_thread (a\<lparr>lst := l\<rparr>) g;
     (good, ncompleted, a, w) \<leftarrow> aio_pass B g (tf_aiolist a thread) 0 (a\<lparr>lst := l\<rparr>) w;
     if good \<and> u - ncompleted > MAXREAP then rp Y B tf g (u - ncompleted) a w
     else
       let (l, w) = end_op Y tf g 0 (lst a) w in
       Some (if good then FILEBENCH_OK else FILEBENCH_ERROR, a\<lparr>lst := l\<rparr>, w) }) = Some r"
    have f: "filter (\<lambda>e. \<not> aio_done st rt e) xs = xs" using assms(4) by simp
    obtain l1 w1 a' w' where p: "begin_op X tf (lst a) w = (l1, w1)" "aio_thread (a\<lparr>lst := l1\<rparr>) f = Some t"
      "aio_pass A f (tf_aiolist a t) 0 (a\<lparr>lst := l1\<rparr>) w1 = Some (True, 0, a', w')"
      "aio_list a' t xs" "aio_thread a' f = Some t"
      using aio_reap_pass [OF assms(1) l, of X tf w] unfolding f by auto
    have "rp X A tf f (int (length xs)) a' w' = Some r" using b assms(5) by (simp add: p(1-3) Let_def)
    with IH [OF this] p(4,5) show False by simp
  qed
  then show False using assms(2,3) by simp
qed

text \<open>
  C20. Waiting for asynchronous writes takes those that have been written from the list of the thread and keeps the others in order,
  the failed ones among them. It does not wait: with at most \<open>MAXREAP\<close> requests left after the first pass it returns, however many are in progress. With
  more it goes round until enough have completed, and never returns if they have failed, because failed requests
  stay on the list.
\<close>

theorem aiowait_correct:
  assumes "aio_list a t xs" "aio_thread a f = Some t" "aio_states A st rt xs" "int (length xs) \<le> INT_MAX"
  defines "rest \<equiv> filter (\<lambda>e. \<not> (st e = 0 \<and> rt e \<noteq> -1)) xs"
  shows "if length rest \<le> 4096
    then \<exists>a' w'. fb_lfsflow_aiowait X A tf f a w = Some (FILEBENCH_OK, a', w') \<and> aio_list a' t rest
    else fb_lfsflow_aiowait X A tf f a w = None"
proof -
  have rest: "rest = filter (\<lambda>e. \<not> aio_done st rt e) xs" unfolding rest_def aio_done_def ..
  have u: "aio_count (\<lambda>e. al_next (aios a e)) (tf_aiolist a t) 0 = Some (int (length xs))"
    using aio_count_eq [of _ _ xs 0] assms(1,4) by (simp add: aio_list_def)
  obtain a' w' where s: "aio_list a' t rest" "aio_thread a' f = Some t" "fb_lfsflow_aiowait X A tf f a w =
    (if int (length rest) > MAXREAP then aio_reap X A tf f (int (length rest)) a' w'
     else let (l, w) = end_op X tf f 0 (lst a') w' in Some (FILEBENCH_OK, a'\<lparr>lst := l\<rparr>, w))"
    using aio_reap_step [OF assms(3,1,2), of X tf w] unfolding rest [symmetric] by (auto simp: fb_lfsflow_aiowait_def assms(2) u)
  show ?thesis
  proof (cases "length rest \<le> 4096")
    case True
    obtain l w2 where "end_op X tf f 0 (lst a') w' = (l, w2)" by fastforce
    then show ?thesis using True s by (simp add: aio_list_def)
  next
    case False
    have "aio_states A st rt rest" using assms(3) by (auto simp: aio_states_def rest)
    then have "aio_reap X A tf f (int (length rest)) a' w' = None"
      by (rule aio_reap_endless [OF _ s(1,2)]) (use False in \<open>auto simp: rest\<close>)
    then show ?thesis using False s(3) by simp
  qed
qed

text \<open>An example: the thread 7 of flowop 9 has three requests: one written, one in progress, one failed.\<close>

definition ex_calls :: "uint64 list aiocalls" where
  "ex_calls = \<lparr>aio_write = (\<lambda>_ _ w. (True, w)), aio_error = (\<lambda>p w. (if p = 124 then 0 else if p = 224 then EINPROGRESS else 5, w)),
     aio_return = (\<lambda>_ w. (0, w)), sizeof_aiolist = 192\<rparr>"

definition ex_aio :: astate where
  "ex_aio = \<lparr>lst = ex_l\<lparr>fb := ex_lfb\<lparr>flowops := (\<lambda>_. zero_flowop\<lparr>fo_thread := 7\<rparr>)\<rparr>\<rparr>,
     aios = (\<lambda>e. \<lparr>al_type = AL_WRITE, al_next = (if e = 100 then 200 else if e = 200 then 300 else NULL),
       al_aiocb = \<lparr>aio_fildes = 3, aio_buf = 4096, aio_nbytes = 512, aio_offset = 0, aio_reqprio = 0\<rparr>\<rparr>),
     tf_aiolist = (\<lambda>_. 100)\<rparr>"

theorem aiowait_correct_witness:
  "\<exists>a' w'. fb_lfsflow_aiowait ex_lib ex_calls 7 9 ex_aio [] = Some (FILEBENCH_OK, a', w') \<and> aio_list a' 7 [200, 300]"
proof -
  let ?st = "\<lambda>e. if e = 100 then 0 else if e = 200 then EINPROGRESS else 5 :: uint32" and ?rt = "\<lambda>_. 0 :: uint64"
  have "aio_list ex_aio 7 [100, 200, 300]" by (simp add: aio_list_def ex_aio_def)
  moreover have "aio_thread ex_aio 9 = Some 7" by (simp add: aio_thread_def ex_aio_def fop_def)
  moreover have "aio_states ex_calls ?st ?rt [100, 200, 300]" by (simp add: aio_states_def ex_calls_def)
  moreover have "int (length [100 :: ptr, 200, 300]) \<le> INT_MAX" by simp
  ultimately show ?thesis using aiowait_correct [of ex_aio 7 "[100, 200, 300]" 9 ex_calls ?st ?rt ex_lib 7 "[]"] by simp
qed

end
