(* ===== verification/FB_Sem.thy ===== *)
theory FB_Sem
  imports FB_Fileops
begin

text \<open>
  The flowops of \<^verbatim>\<open>src/filebench/flowop_library.c\<close> that block on semaphores and post to them, \<open>semblock\<close> and \<open>sempost\<close>, with System
  V semaphores. A \<open>semblock\<close> flowop has two semaphores of the set that \<open>ipc_seminit\<close> creates: one counts the posts, the other limits how
  far the posts may run ahead. The system calls are parameters. \<open>semop\<close> may wait, so that it also says what
  the other threads have done to the state.
\<close>

abbreviation (input) EAGAIN :: int where "EAGAIN \<equiv> 11"

record sembuf =
  sem_num :: "16 word"
  sem_op :: "16 word"

text \<open>The result of \<open>semget\<close>; the result of \<open>semop\<close> and \<open>errno\<close>.\<close>

record 'w semcalls =
  semget :: "'w \<Rightarrow> int \<times> 'w"
  semop :: "int \<Rightarrow> sembuf list \<Rightarrow> lstate \<Rightarrow> 'w \<Rightarrow> int \<times> int \<times> lstate \<times> 'w"

text \<open>The state, with the table of the semaphores in use and the identifier of the set.\<close>

record semstate =
  sl :: lstate
  semids :: "nat filebench_shm"
  shm_sys_semid :: int

subsection \<open>Setting up\<close>

text \<open>A failure to create the set ends the program.\<close>

definition ipc_seminit :: "'w semcalls \<Rightarrow> semstate \<Rightarrow> 'w \<Rightarrow> int + semstate \<times> 'w" where
  "ipc_seminit S a w =
     (if shm_sys_semid a \<ge> 0 then Inr (a, w)
      else
        let (sys_semid, w) = semget S w in
        if sys_semid = -1 then Inl 1 else Inr (a\<lparr>shm_sys_semid := sys_semid\<rparr>, w))"

definition alloc_pair :: "ptr \<Rightarrow> semstate \<Rightarrow> semstate option" where
  "alloc_pair f a = do {
     (lw, shm) \<leftarrow> ipc_semidalloc (semids a);
     (hw, shm) \<leftarrow> ipc_semidalloc shm;
     Some (a\<lparr>semids := shm, sl := upd_fop (sl a) f (\<lambda>x. x\<lparr>fo_semid_lw := int lw, fo_semid_hw := int hw\<rparr>)\<rparr>) }"

text \<open>The semaphore to initialise is the second one, or the number \<open>fo_constvalue\<close> if the second one is number zero.\<close>

definition highwater_num :: "lstate \<Rightarrow> ptr \<Rightarrow> 16 word" where
  "highwater_num l f = (if fo_semid_hw (fop l f) = 0 then ucast (fo_constvalue (fop l f)) else word_of_int (fo_semid_hw (fop l f)))"

definition unlock_flowop :: "lstate \<Rightarrow> ptr \<Rightarrow> lstate" where
  "unlock_flowop l f = upd_fop l f (\<lambda>x. x\<lparr>fo_lock := False\<rparr>)"

definition flowoplib_semblock_init :: "'w lib \<Rightarrow> 'w semcalls \<Rightarrow> ptr \<Rightarrow> semstate \<Rightarrow> 'w \<Rightarrow> (int + int \<times> semstate \<times> 'w) option" where
  "flowoplib_semblock_init X S f a w =
     (case ipc_seminit S a w of
        Inl e \<Rightarrow> Some (Inl e)
      | Inr (a, w) \<Rightarrow> do {
          a \<leftarrow> alloc_pair f a;
          (n, w) \<leftarrow> get_int_l X (sl a) (fo_highwater (fop (sl a) f)) w;
          let (rc, errno, l, w) = semop S (shm_sys_semid a) [\<lparr>sem_num = highwater_num (sl a) f, sem_op = ucast n\<rparr>] (sl a) w;
          if rc = -1 \<and> errno \<noteq> 0 then Some (Inr (FILEBENCH_ERROR, a\<lparr>sl := l\<rparr>, w))
          else do {
            blocking \<leftarrow> get_bool_l l (fo_blocking (fop l f));
            Some (Inr (FILEBENCH_OK, a\<lparr>sl := if blocking = 0 then unlock_flowop l f else l\<rparr>, w)) } })"

definition flowoplib_semblock_destruct :: "ptr \<Rightarrow> semstate \<Rightarrow> semstate" where
  "flowoplib_semblock_destruct f a =
     a\<lparr>semids := ipc_semidfree (ipc_semidfree (semids a) (nat (fo_semid_lw (fop (sl a) f)))) (nat (fo_semid_hw (fop (sl a) f)))\<rparr>"

definition flowoplib_sempost_init :: "'w semcalls \<Rightarrow> semstate \<Rightarrow> 'w \<Rightarrow> int + int \<times> semstate \<times> 'w" where
  "flowoplib_sempost_init S a w = (case ipc_seminit S a w of Inl e \<Rightarrow> Inl e | Inr (a, w) \<Rightarrow> Inr (FILEBENCH_OK, a, w))"

subsection \<open>Blocking\<close>

partial_function (option) lock_flowop :: "'w lib \<Rightarrow> ptr \<Rightarrow> lstate \<Rightarrow> 'w \<Rightarrow> (lstate \<times> 'w) option" where
  "lock_flowop X f l w =
     (if fo_lock (fop l f) then let (l, w) = os_wait X l w in lock_flowop X f l w
      else Some (upd_fop l f (\<lambda>x. x\<lparr>fo_lock := True\<rparr>), w))"

text \<open>The value is an \<open>int\<close>, whose negation may overflow, and then a \<open>short\<close>.\<close>

definition sem_value :: "'w lib \<Rightarrow> ptr \<Rightarrow> lstate \<Rightarrow> 'w \<Rightarrow> (uint32 \<times> 'w) option" where
  "sem_value X f l w = do {
     (n, w) \<leftarrow> get_int_l X l (fo_value (fop l f)) w;
     let v = ucast n;
     if v = 0x80000000 then None else Some (v, w) }"

definition post_ops :: "int \<Rightarrow> int \<Rightarrow> uint32 \<Rightarrow> sembuf list" where
  "post_ops up down v = [\<lparr>sem_num = word_of_int up, sem_op = ucast v\<rparr>, \<lparr>sem_num = word_of_int down, sem_op = ucast (- v)\<rparr>]"

text \<open>The two operations are not one step: the second waits alone. Their results are not looked at.\<close>

definition flowoplib_semblock :: "'w lib \<Rightarrow> 'w semcalls \<Rightarrow> ptr \<Rightarrow> ptr \<Rightarrow> semstate \<Rightarrow> 'w \<Rightarrow> (int \<times> semstate \<times> 'w) option" where
  "flowoplib_semblock X S t f a w = do {
     let l = sl a;
     (v, w) \<leftarrow> sem_value X f l w;
     let ops = post_ops (fo_semid_hw (fop l f)) (fo_semid_lw (fop l f)) v;
     blocking \<leftarrow> get_bool_l l (fo_blocking (fop l f));
     let l = (if blocking \<noteq> 0 then unlock_flowop l f else l);
     let (l, w) = begin_op X t l w;
     let (_, _, l, w) = semop S (shm_sys_semid a) [ops ! 0] l w;
     let (_, _, l, w) = semop S (shm_sys_semid a) [ops ! 1] l w;
     blocking \<leftarrow> get_bool_l l (fo_blocking (fop l f));
     (l, w) \<leftarrow> (if blocking \<noteq> 0 then lock_flowop X f l w else Some (l, w));
     let (l, w) = end_op X t f 0 l w;
     Some (FILEBENCH_OK, a\<lparr>sl := l\<rparr>, w) }"

subsection \<open>Posting\<close>

text \<open>
  One step for each target that is not a master; the second operation is part of it if the flowop is blocking. The
  value is read anew for every target. The result says whether all steps were taken.
\<close>

partial_function (option) post_targets ::
  "'w lib \<Rightarrow> 'w semcalls \<Rightarrow> int \<Rightarrow> ptr \<Rightarrow> ptr \<Rightarrow> lstate \<Rightarrow> 'w \<Rightarrow> (bool \<times> lstate \<times> 'w) option" where
  "post_targets X S sys_semid f target l w =
     (if target = NULL then Some (True, l, w)
      else do {
        (n, w) \<leftarrow> get_int_l X l (fo_value (fop l f)) w;
        let v = ucast n;
        if fo_instance (fop l target) = FLOW_MASTER then post_targets X S sys_semid f (fo_targetnext (fop l target)) l w
        else if v = 0x80000000 then None
        else do {
          blocking \<leftarrow> get_bool_l l (fo_blocking (fop l f));
          let ops = post_ops (fo_semid_lw (fop l target)) (fo_semid_hw (fop l target)) v;
          let (rc, errno, l, w) = semop S sys_semid (take (if blocking \<noteq> 0 then 2 else 1) ops) l w;
          if rc = -1 \<and> errno \<noteq> 0 \<and> errno \<noteq> EAGAIN then Some (False, l, w)
          else post_targets X S sys_semid f (fo_targetnext (fop l target)) l w } })"

definition flowoplib_sempost :: "'w lib \<Rightarrow> 'w semcalls \<Rightarrow> ptr \<Rightarrow> ptr \<Rightarrow> semstate \<Rightarrow> 'w \<Rightarrow> (int + int \<times> semstate \<times> 'w) option" where
  "flowoplib_sempost X S t f a w = do {
     let l = sl a;
     r \<leftarrow> (if fo_targets (fop l f) = NULL then do {
            (result, s) \<leftarrow> flowop_find (fb l) (fo_targetname (fop l f));
            if result = NULL then Some (Inl 1)
            else map_option Inr (link_targets result (upd_fop (l\<lparr>fb := s\<rparr>) f (\<lambda>x. x\<lparr>fo_targets := result\<rparr>))) }
          else Some (Inr l));
     case r of
       Inl e \<Rightarrow> Some (Inl e)
     | Inr l \<Rightarrow> do {
         let target = fo_targets (fop l f);
         let (l, w) = begin_op X t l w;
         (good, l, w) \<leftarrow> post_targets X S (shm_sys_semid a) f target l w;
         if \<not> good then Some (Inr (FILEBENCH_ERROR, a\<lparr>sl := l\<rparr>, w))
         else
           let (l, w) = end_op X t f 0 l w in
           Some (Inr (FILEBENCH_OK, a\<lparr>sl := l\<rparr>, w)) } }"

end
