(* ===== verification/FB_Sem_Correct.thy ===== *)
theory FB_Sem_Correct
  imports FB_Sem FB_Fs_Correct
begin

text \<open>
  What posting does to the semaphores of its targets, and that the semaphores of a flowop are given back.
\<close>

subsection \<open>Posting\<close>

text \<open>The operations on the target \<open>x\<close>, for the value \<open>v\<close>.\<close>

definition target_ops :: "lstate \<Rightarrow> bool \<Rightarrow> uint32 \<Rightarrow> ptr \<Rightarrow> sembuf list" where
  "target_ops l both v x =
     (let up = \<lparr>sem_num = word_of_int (fo_semid_lw (fop l x)), sem_op = ucast v\<rparr>;
          down = \<lparr>sem_num = word_of_int (fo_semid_hw (fop l x)), sem_op = ucast (- v)\<rparr> in
      if both then [up, down] else [up])"

lemma post_targets_eq:
  assumes n: "\<And>w. get_int_l X l (fo_value (fop l f)) w = Some (n, w)" "ucast n \<noteq> (0x80000000 :: uint32)"
    and b: "get_bool_l l (fo_blocking (fop l f)) = Some b"
    and op: "\<And>ops w. semop S sys ops l w = (0, 0, l, take_step ops w)"
  shows "chain (\<lambda>x. fo_targetnext (fop l x)) p xs \<Longrightarrow> post_targets X S sys f p l w =
    Some (True, l, fold take_step (map (target_ops l (b \<noteq> 0) (ucast n)) (filter (\<lambda>x. fo_instance (fop l x) \<noteq> FLOW_MASTER) xs)) w)"
proof (induction xs arbitrary: p w)
  case Nil
  then show ?case by (subst post_targets.simps) simp
next
  case (Cons x xs)
  then have x: "p = x" "x \<noteq> NULL" "chain (\<lambda>x. fo_targetnext (fop l x)) (fo_targetnext (fop l x)) xs" by simp_all
  have t: "take (if b \<noteq> 0 then 2 else 1) (post_ops (fo_semid_lw (fop l x)) (fo_semid_hw (fop l x)) v) = target_ops l (b \<noteq> 0) v x" for v
    by (simp add: post_ops_def target_ops_def Let_def)
  show ?case
  proof (cases "fo_instance (fop l x) = FLOW_MASTER")
    case True
    then show ?thesis using x Cons.IH [OF x(3)] by (subst post_targets.simps) (simp add: n)
  next
    case False
    have "post_targets X S sys f p l w = post_targets X S sys f (fo_targetnext (fop l x)) l (take_step (target_ops l (b \<noteq> 0) (ucast n) x) w)"
      using x(1,2) False n(2) by (subst post_targets.simps) (simp only: n b op t Let_def bind.bind_lunit prod.case if_False, simp)
    then show ?thesis using Cons.IH [OF x(3)] False by simp
  qed
qed

lemma begin_op_frame:
  assumes "begin_op X t l w = (l1, w1)"
  shows "fop l1 = fop l" "get_int_l X l1 = get_int_l X l" "get_bool_l l1 = get_bool_l l"
  using assms by (auto simp: begin_op_def flowop_beginop_def upd_tf_def fop_def get_int_l_def get_int_def get_bool_l_def fun_eq_iff split: prod.splits)

text \<open>
  C40. A post raises the first semaphore of every instance among its targets by the value, once and in the order of the list, and passes over
  the masters; a blocking flowop lowers the second semaphore of the target in the same step. This is the case
  when the operations on the semaphores succeed, and it ends with one operation counted.
\<close>

theorem sempost_correct:
  assumes "fo_targets (fop (sl a) f) \<noteq> NULL" "chain (\<lambda>x. fo_targetnext (fop (sl a) x)) (fo_targets (fop (sl a) f)) xs"
    and "\<And>w. get_int_l X (sl a) (fo_value (fop (sl a) f)) w = Some (n, w)" "ucast n \<noteq> (0x80000000 :: uint32)"
    and "get_bool_l (sl a) (fo_blocking (fop (sl a) f)) = Some b"
    and "\<And>ops l w. semop S (shm_sys_semid a) ops l w = (0, 0, l, take_step ops w)"
    and "begin_op X t (sl a) w = (l1, w1)"
  shows "flowoplib_sempost X S t f a w =
    (let w2 = fold take_step (map (target_ops (sl a) (b \<noteq> 0) (ucast n)) (filter (\<lambda>x. fo_instance (fop (sl a) x) \<noteq> FLOW_MASTER) xs)) w1;
         (l, w) = end_op X t f 0 l1 w2 in
     Some (Inr (FILEBENCH_OK, a\<lparr>sl := l\<rparr>, w)))"
proof -
  note fr = begin_op_frame [OF assms(7)]
  have "target_ops l1 = target_ops (sl a)" by (simp add: target_ops_def fr(1) fun_eq_iff)
  moreover have "post_targets X S (shm_sys_semid a) f (fo_targets (fop (sl a) f)) l1 w1 =
      Some (True, l1, fold take_step (map (target_ops l1 (b \<noteq> 0) (ucast n)) (filter (\<lambda>x. fo_instance (fop l1 x) \<noteq> FLOW_MASTER) xs)) w1)"
    by (rule post_targets_eq) (use assms(2-6) in \<open>simp_all add: fr\<close>)
  ultimately show ?thesis using assms(1) by (simp add: flowoplib_sempost_def assms(7) fr(1) Let_def)
qed

text \<open>
  An example: flowop 100 posts 3 to the targets 10, a master, and 20, with the semaphores 4 and 5, and is blocking. The world is the list of the
  semaphores and numbers of all operations.
\<close>

definition ex_semcalls :: "uint64 list semcalls" where
  "ex_semcalls = \<lparr>semget = (\<lambda>w. (1, w)), semop = (\<lambda>_ ops l w. (0, 0, l, w @ concat (map (\<lambda>x. [ucast (sem_num x), ucast (sem_op x)]) ops)))\<rparr>"

definition ex_sem :: semstate where
  "ex_sem = \<lparr>sl = ex_l\<lparr>fb := ex_lfb\<lparr>flowops := (\<lambda>x. zero_flowop\<lparr>fo_targets := 10, fo_targetnext := (if x = 10 then 20 else NULL),
       fo_instance := (if x = 10 then FLOW_MASTER else 1), fo_semid_lw := 4, fo_semid_hw := 5, fo_value := 56, fo_blocking := 64\<rparr>),
       vs := ex_vshm\<lparr>avds := (\<lambda>a. if a = 56 then \<lparr>avd_type = AVD_VAL_INT, avd_val = AInt 3\<rparr> else \<lparr>avd_type = AVD_VAL_BOOL, avd_val = ABool 1\<rparr>)\<rparr>\<rparr>\<rparr>,
     semids = ex_shm, shm_sys_semid = 1\<rparr>"

theorem sempost_correct_witness:
  "\<exists>a'. flowoplib_sempost ex_lib ex_semcalls 200 100 ex_sem [] = Some (Inr (FILEBENCH_OK, a', [4, 3, 5, 65533]))"
proof -
  have x: "fo_targets (fop (sl ex_sem) 100) = 10" "shm_sys_semid ex_sem = 1" "get_bool_l (sl ex_sem) (fo_blocking (fop (sl ex_sem) 100)) = Some 1"
    "\<And>w. get_int_l ex_lib (sl ex_sem) (fo_value (fop (sl ex_sem) 100)) w = Some (3, w)"
    by (simp_all add: ex_sem_def fop_def get_bool_l_def avd_get_bool_def get_int_l_def get_int_def avd_get_int_def)
  have c: "chain (\<lambda>x. fo_targetnext (fop (sl ex_sem) x)) 10 [10, 20]" by (simp add: ex_sem_def fop_def)
  have m: "filter (\<lambda>x. fo_instance (fop (sl ex_sem) x) \<noteq> FLOW_MASTER) [10, 20] = [20]" by (simp add: ex_sem_def fop_def)
  have g: "target_ops (sl ex_sem) True 3 20 = [\<lparr>sem_num = 4, sem_op = 3\<rparr>, \<lparr>sem_num = 5, sem_op = 65533\<rparr>]"
    by (simp add: target_ops_def ex_sem_def fop_def)
  let ?step = "\<lambda>ops (w :: uint64 list). w @ concat (map (\<lambda>x. [ucast (sem_num x), ucast (sem_op x)]) ops)"
  obtain l1 where b: "begin_op ex_lib 200 (sl ex_sem) [] = (l1, [])"
    by (simp add: begin_op_def flowop_beginop_def ex_lib_def ex_mach_def)
  obtain l2 where e: "end_op ex_lib 200 100 0 l1 [4, 3, 5, 65533] = (l2, [4, 3, 5, 65533])"
    by (cases "end_op ex_lib 200 100 0 l1 [4, 3, 5, 65533]") (auto simp: end_op_def flowop_endop_def ex_lib_def ex_mach_def Let_def)
  have "flowoplib_sempost ex_lib ex_semcalls 200 100 ex_sem [] =
      (let w2 = fold ?step (map (target_ops (sl ex_sem) (1 \<noteq> (0 :: int)) (ucast (3 :: fbint)))
             (filter (\<lambda>x. fo_instance (fop (sl ex_sem) x) \<noteq> FLOW_MASTER) [10, 20])) [];
           (l, w) = end_op ex_lib 200 100 0 l1 w2 in
       Some (Inr (FILEBENCH_OK, ex_sem\<lparr>sl := l\<rparr>, w)))"
    by (rule sempost_correct) (use x c b in \<open>simp_all add: ex_semcalls_def\<close>)
  also have "\<dots> = Some (Inr (FILEBENCH_OK, ex_sem\<lparr>sl := l2\<rparr>, [4, 3, 5, 65533]))" unfolding m by (simp add: g e)
  finally show ?thesis by blast
qed

subsection \<open>The semaphores of a flowop\<close>

text \<open>What allocating the pair of a flowop takes, destroying the flowop gives back.\<close>

lemma semid_scan_free: "semid_scan ids k = Some i \<Longrightarrow> ids i \<noteq> 1"
  by (induction ids k rule: semid_scan.induct) (subst (asm) semid_scan.simps, auto split: if_splits)

lemma alloc_pair_destruct:
  assumes "alloc_pair f a = Some a'" "\<forall>i. shm_semids (semids a) i \<in> {0, 1}"
  shows "shm_semids (semids (flowoplib_semblock_destruct f a')) = shm_semids (semids a)"
proof -
  obtain i s1 j s2 where r: "ipc_semidalloc (semids a) = Some (i, s1)" "ipc_semidalloc s1 = Some (j, s2)"
    "a' = a\<lparr>semids := s2, sl := upd_fop (sl a) f (\<lambda>x. x\<lparr>fo_semid_lw := int i, fo_semid_hw := int j\<rparr>)\<rparr>"
    using assms(1) by (auto simp: alloc_pair_def Option.bind_eq_Some_conv)
  have i: "shm_semids (semids a) i = 0" "s1 = (semids a)\<lparr>shm_semids := (shm_semids (semids a))(i := 1)\<rparr>"
    using r(1) semid_scan_free [of "shm_semids (semids a)" 0 i] assms(2) by (auto simp: ipc_semidalloc_def split: option.splits)
  have j: "shm_semids s1 j \<noteq> 1" "s2 = s1\<lparr>shm_semids := (shm_semids s1)(j := 1)\<rparr>"
    using r(2) semid_scan_free [of "shm_semids s1" 0 j] by (auto simp: ipc_semidalloc_def split: option.splits)
  have ne: "j \<noteq> i" using i(2) j(1) by auto
  then have "shm_semids s1 j = shm_semids (semids a) j" using i(2) by simp
  then have z: "shm_semids (semids a) j = 0" using j(1) assms(2) by (metis insertE singletonD)
  have f: "fo_semid_lw (fop (sl a') f) = int i" "fo_semid_hw (fop (sl a') f) = int j"
    by (simp_all add: r(3) upd_fop_def upd_fo_def fop_def)
  have "semids a' = s2" by (simp add: r(3))
  then have "shm_semids (semids (flowoplib_semblock_destruct f a')) = (shm_semids s2)(i := 0, j := 0)"
    by (simp add: flowoplib_semblock_destruct_def ipc_semidfree_def f)
  also have "\<dots> = (shm_semids (semids a))(i := 0, j := 0)" using ne by (simp add: i(2) j(2) fun_eq_iff)
  also have "\<dots> = shm_semids (semids a)" using i(1) z by (simp add: fun_eq_iff)
  finally show ?thesis .
qed

end
