(* ===== verification/Spec2Isabelle.thy ===== *)
theory Spec2Isabelle
  imports FB_Utils FB_Avl_Correct FB_Avl_Pcb FB_Vars_Eval FB_Random FB_Fileset_Life FB_Flowop_Run FB_Stats_Correct FB_Teardown FB_Fileops_Close FB_Fileops_Io FB_Aio_Correct FB_Sem_Correct
begin

text \<open>
  A verification library for filebench, the workload-driven file system benchmark under
  \<^verbatim>\<open>src/filebench\<close>. A script defines filesets, variables and processes; each process has
  threads and each thread a list of flowops (operations such as \<open>openfile\<close> or \<open>read\<close>). A run
  creates the filesets, starts the processes and their threads, lets each thread execute its
  flowops round and round while the statistics are collected, and tears everything down again.
  All of this lives in one block of shared memory.

  \<^bold>\<open>How the parts interact.\<close> \<^verbatim>\<open>ipc.c\<close> hands out objects of the shared block. \<^verbatim>\<open>vars.c\<close> keeps
  the variables of the script there, and the attribute value descriptors through which every other
  part reads its attributes. \<^verbatim>\<open>fb_random.c\<close> supplies the random numbers. \<^verbatim>\<open>procflow.c\<close> starts
  processes, which start threads (\<^verbatim>\<open>threadflow.c\<close>), which run flowops (\<^verbatim>\<open>flowop.c\<close>) whose bodies
  are the functions of \<^verbatim>\<open>flowop_library.c\<close>. These pick files from the filesets of \<^verbatim>\<open>fileset.c\<close>,
  which sorts its entries with the AVL trees of \<^verbatim>\<open>fb_avl.c\<close>, work on them through the vector of
  \<^verbatim>\<open>fsplug.h\<close>, that of \<^verbatim>\<open>fb_localfs.c\<close>, and are slowed down by the events of \<^verbatim>\<open>eventgen.c\<close>. The counters they leave are
  added up by \<^verbatim>\<open>stats.c\<close>.

  \<^bold>\<open>Theories and sources.\<close> A definition has the name of the C function, record or field it
  translates wherever Isabelle allows it; a loop or a block of a long function has a definition of its own, named
  after what it does.
  \<^item> \<open>FB_Prelude\<close>: C types, return codes, NUL-terminated strings, the lemma collections.
    \<open>FB_Chain\<close>: linked lists in memory, for every list of the program.
  \<^item> \<open>FB_Utils\<close>: \<open>fb_strlcpy\<close> and \<open>fb_strlcat\<close> of \<^verbatim>\<open>utils.c\<close>: both stay inside the buffer and
    leave a terminated string, cut where it has to be.
  \<^item> \<open>FB_Avl\<close>: \<^verbatim>\<open>fb_avl.c\<close>, operation by operation on a heap of nodes. \<open>FB_Avl_Tree\<close> is its
    specification, balanced search trees as a datatype; \<open>FB_Avl_Refine\<close> and \<open>FB_Avl_Remove\<close> show
    that the pointer code computes the functions of the specification and touches nothing else;
    \<open>FB_Avl_Correct\<close> states each operation on ordered lists and has the contract \<open>avl_order\<close> of the comparison function;
    \<open>FB_Avl_Pcb\<close> shows that the packed node layout of \<^verbatim>\<open>fb_avl.h\<close> simulates the plain one.
  \<^item> \<open>FB_Ipc\<close>: \<^verbatim>\<open>ipc.c\<close>; allocators as the contract \<open>handle_allocator\<close>, interpreted on the table
    allocator and on the semaphores.
  \<^item> \<open>FB_Vars\<close>: \<^verbatim>\<open>vars.c\<close>, \<^verbatim>\<open>vars.h\<close>. \<open>FB_Vars_Correct\<close>: the lists of variables, allocation,
    assignment and reading. \<open>FB_Vars_Eval\<close>: variables defined from others, with the
    condition under which evaluating them ends, random variables, delayed binding.
  \<^item> \<open>FB_Random\<close>: \<^verbatim>\<open>fb_random.c\<close>: range and reach of bounded random numbers, probability tables.
  \<^item> \<open>FB_Fileset\<close>: entries and trees of \<^verbatim>\<open>fileset.c\<close>. \<open>FB_Fileset_Trees\<close>: what moves and searches do to
    the seven trees. \<open>FB_Fileset_Correct\<close>: the invariant \<open>fs_inv\<close>, which says that each entry is in the tree its flags call
    for and that the idle counts are exact, and its preservation. \<open>FB_Fileset_Life\<close>: reachable states of a fileset as an
    inductive relation, and the contracts of picking and returning.
  \<^item> \<open>FB_Fs\<close>: the functions of \<^verbatim>\<open>fileset.c\<close> that work on storage, and \<^verbatim>\<open>fb_localfs.c\<close>.
    \<open>FB_Fs_Correct\<close>: the paths of entries, and what allocating a file writes.
  \<^item> \<open>FB_Flowop\<close>: \<^verbatim>\<open>flowop.c\<close>; the shared state \<open>fbstate\<close> of everything that runs.
    \<open>FB_Flowop_Correct\<close>: the two lists every flowop is on. \<open>FB_Flowop_Run\<close>: composite flowops against their flat sequence, the
    worker loop, and the contract \<open>flowop_lib\<close> of a library of flowops.
  \<^item> \<open>FB_Limit\<close>: \<^verbatim>\<open>eventgen.c\<close> and the limiting flowops of \<^verbatim>\<open>flowop_library.c\<close>; \<open>FB_Limit_Correct\<close>: the contract
    \<open>limiter\<close>, that work is paid for with events, interpreted on the three limits.
  \<^item> \<open>FB_Fileops\<close>: the flowops of \<^verbatim>\<open>flowop_library.c\<close> on files and directories, and those that
    think, block and wake.
    \<open>FB_Fileops_Correct\<close> follows every flowop under the contract \<open>file_env\<close> of the functions they call. \<open>FB_Fileops_Inv\<close> interprets it
    twice: for the return codes alone, and for the invariant of the fileset. \<open>FB_Fileops_Close\<close>: closing, which
    breaks that invariant, and deleting an open file. \<open>FB_Fileops_Io\<close>: rotating descriptors, the sizes and counts of transfers.
  \<^item> \<open>FB_Aio\<close>: the asynchronous writes of \<^verbatim>\<open>fb_localfs.c\<close>; \<open>FB_Aio_Correct\<close>: the list of requests of a thread, and when
    waiting for them ends.
  \<^item> \<open>FB_Sem\<close>: the flowops on System V semaphores; \<open>FB_Sem_Correct\<close>: what a post does to its targets.
  \<^item> \<open>FB_Stats\<close>, \<open>FB_Stats_Correct\<close>: \<^verbatim>\<open>stats.c\<close>; what a snapshot adds up.
  \<^item> \<open>FB_Threadflow\<close>, \<open>FB_Threadflow_Correct\<close>: \<^verbatim>\<open>threadflow.c\<close> and \<^verbatim>\<open>procflow.c\<close>; starting a run.
    \<open>FB_Teardown\<close>: ending it, with exactly the memory of the deleted objects given back.

  \<^bold>\<open>State and results.\<close> Memory is split by type: a map from addresses to records for each kind of
  object, so that no two kinds overlap. The result \<open>None\<close> always stands for undefined or endless behaviour:
  a null pointer followed, an index out of bounds, an unset variable read, a division by zero, a loop that does not end. A
  theorem with a result \<open>Some\<close> therefore also says that the code returns. \<open>Inl\<close> is the end of the program by \<open>filebench_shutdown\<close>
  or a signal; the code behind it is not run. Error returns are the codes of the program. A mutex is a flag; \<open>Waits\<close> is the
  outcome of an operation of \<open>FB_Fileset\<close> that has to wait, and the wrappers \<open>do_pick\<close> and \<open>do_unbusy\<close> try it again after the other threads
  have run. Other threads run where the code waits: an argument (\<open>env\<close>, \<open>os_wait\<close>) says what they do to the shared state. Within a
  critical section, and between waits, the model is sequential.

  \<^bold>\<open>Parameters.\<close> What is not in the repository is an argument: the addresses and sizes of the
  shared tables (\<open>layout\<close>), floating point (\<open>fpu\<close>), the random distributions (\<open>rnd\<close>), the clock, thread creation and joining
  (\<open>spawn\<close>, \<open>join\<close>), the system calls (\<open>syscalls\<close>) and, for the code above them, any vector of file system functions (\<open>fsplug\<close>), the C library
  (\<open>os_malloc\<close>, \<open>os_stat\<close>, \<open>os_rand\<close>, \<open>os_urandom\<close>) and the library of flowops as far as \<^verbatim>\<open>flowop.c\<close> knows it (\<open>call\<close>, \<open>init_lib\<close>). Their
  hypotheses stand in the theorems that need them, and each such theorem is applied to a concrete instance by its witness.

  \<^bold>\<open>Bounds.\<close> No operation is run with fuel: a loop that ends by its measure is a \<open>function\<close> with a termination proof, one that follows
  pointers or waits is a \<open>partial_function\<close>, and the theorems prove that it returns. Integers keep the width of the code; where a
  counter is taken as a number, the bound that keeps it from wrapping is a hypothesis.

  \<^bold>\<open>Not modelled.\<close> The parser and the command completion (generated tables, a terminal library), log messages and reports,
  the recursion that draws the shape of a directory tree and the file sizes with the gamma distribution, the file access histogram, creation of
  the shared file and mutex attributes, POSIX semaphores, the socket protocol of \<^verbatim>\<open>multi_client_sync.c\<close>, reading CPU
  times from the system, the benchmark scripts. The program is the one configured for a system other than Solaris, without
  \<^verbatim>\<open>USE_PROCESS_MODEL\<close> where the threads are started. True concurrency inside a critical section is not
  modelled, nor are weak memory effects.
\<close>

end
